(* ===== verification/Turn.thy ===== *)
theory Turn
  imports Prelude
begin

text \<open>
  The vocabulary of a turn, from \<open>host/protocol/src/turn.rs\<close> and the data types of
  \<open>host/protocol/src/intercept.rs\<close>. Field names carry a prefix for their struct, and the
  constructors of \<open>Phase\<close> and \<open>HookState\<close>, which share names, the prefixes \<open>P\<close> and \<open>S\<close>.

  Everything outside the core (interceptor guests, providers, the tool fleet, the driver and
  the event sink) is a function on an unconstrained world \<open>'w\<close>: a trait object is the record
  of its methods, and a method call returns its result with the next world.
\<close>

section \<open>Messages, tool calls, prompts and events\<close>

datatype role = System | User | Assistant | Tool

record message =
  msg_role :: role
  msg_content :: string
  msg_tool_call_id :: "string option"

record tool_call =
  tc_id :: string
  tc_name :: string
  tc_arguments :: string

record tool_outcome =
  out_tool_call_id :: string
  out_content :: string
  out_failed :: bool

record user_prompt =
  up_question :: string
  up_options :: "string list"
  up_default_answer :: string

datatype event =
    TextDelta string
  | ToolInvoked tool_call
  | ToolResult tool_outcome
  | Warning string
  | Done string bool

datatype flow = Continue | Stop

section \<open>Phases and what is handed to an interceptor\<close>

datatype phase =
    PBeforeLoop | PSelectModel | PSelectContext | PSelectTools | PAfterResponse
  | PToolCall | PToolResult | PFinalize | PPrepareNextTurn

record tool_definition =
  td_name :: string
  td_description :: string
  td_parameters_schema :: string

record pending_request =
  pr_model :: "string option"
  pr_messages :: "message list"
  pr_tools :: "tool_definition list"
  pr_grammar :: "string option"
  pr_max_tokens :: "nat option"
  pr_temperature :: "32 word option"

record user_turn =
  ut_session :: string
  ut_user_message :: string
  ut_principal :: "string option"

record raw_response =
  rr_text :: string
  rr_finish_reason :: string

datatype hook_state =
    SBeforeLoop user_turn
  | SSelectModel pending_request
  | SSelectContext pending_request
  | SSelectTools pending_request
  | SAfterResponse raw_response
  | SToolCall tool_call
  | SToolResult tool_outcome
  | SFinalize string
  | SPrepareNextTurn pending_request

datatype decision =
    Proceed
  | Replace hook_state
  | Block string
  | Ask user_prompt

datatype interceptor_error = Internal | InvalidState | DependencyFailed

record intercept_input =
  in_phase :: phase
  in_state :: hook_state
  in_answer :: "string option"

record completion =
  cmp_text :: string
  cmp_tool_calls :: "tool_call list"
  cmp_finish_reason :: string

definition TRUNCATED :: "string list" where
  "TRUNCATED = [''length'', ''max_tokens'']"

definition was_truncated :: "completion \<Rightarrow> bool" where
  "was_truncated c \<longleftrightarrow> cmp_finish_reason c \<in> set TRUNCATED"

record tool_invocation =
  inv_content :: string
  inv_failed :: bool

definition ALL_PHASES :: "phase list" where
  "ALL_PHASES = [PBeforeLoop, PSelectModel, PSelectContext, PSelectTools, PAfterResponse,
     PToolCall, PToolResult, PFinalize, PPrepareNextTurn]"

fun is_dispatched :: "phase \<Rightarrow> bool" where
  "is_dispatched PBeforeLoop = True"
| "is_dispatched PSelectModel = True"
| "is_dispatched PSelectContext = True"
| "is_dispatched PSelectTools = True"
| "is_dispatched PAfterResponse = True"
| "is_dispatched PToolCall = True"
| "is_dispatched PToolResult = True"
| "is_dispatched PFinalize = True"
| "is_dispatched PPrepareNextTurn = True"

section \<open>The traits\<close>

record 'w driver =
  drv_ask :: "user_prompt \<Rightarrow> 'w \<Rightarrow> string \<times> 'w"
  drv_follow_up :: "'w \<Rightarrow> string option \<times> 'w"

type_synonym 'w sink = "event \<Rightarrow> 'w \<Rightarrow> flow \<times> 'w"

record 'w interceptor =
  icp_id :: string
  icp_phases :: "phase list"
  icp_intercept :: "intercept_input \<Rightarrow> 'w \<Rightarrow> (interceptor_error + decision) \<times> 'w"

record 'w completer =
  prov_id :: string
  prov_complete :: "pending_request \<Rightarrow> 'w \<Rightarrow> (string + completion) \<times> 'w"

record 'w tool_invoker =
  tools_bind_session :: "string \<Rightarrow> 'w \<Rightarrow> 'w"
  tools_invoke_asking :: "tool_call \<Rightarrow> 'w driver \<Rightarrow> 'w \<Rightarrow> tool_invocation option \<times> 'w"

text \<open>\<open>NoTools\<close> and \<open>NoSink\<close>, the do-nothing implementations of the core.\<close>

definition NoTools :: "'w tool_invoker" where
  "NoTools = \<lparr>tools_bind_session = (\<lambda>_ w. w), tools_invoke_asking = (\<lambda>_ _ w. (None, w))\<rparr>"

definition NoSink :: "'w sink" where
  "NoSink = (\<lambda>_ w. (Continue, w))"

text \<open>All the parties to one turn, as \<open>run_turn\<close> receives them.\<close>

record 'w env =
  env_interceptors :: "'w interceptor list"
  env_providers :: "'w completer list"
  env_tools :: "'w tool_invoker"
  env_driver :: "'w driver"
  env_emit :: "'w sink"
  env_on_effective :: "string \<Rightarrow> 'w \<Rightarrow> 'w"

section \<open>Observing the calls a turn makes\<close>

text \<open>
  \<open>observe\<close> is an environment around an environment: it forwards every call and writes it,
  with its answer, at the end of a list kept beside the world. Theorems about what a turn
  does to the outside are theorems about that list.
\<close>

datatype obs =
    OIntercept string intercept_input "interceptor_error + decision"
  | OAsk user_prompt string
  | OFollowUp "string option"
  | OEmit event
  | OComplete string pending_request "string + completion"
  | OBind string
  | OInvoke tool_call "tool_invocation option"
  | OEffective string

definition obs_driver :: "'w driver \<Rightarrow> ('w \<times> obs list) driver" where
  "obs_driver d =
     \<lparr>drv_ask = (\<lambda>p (w, t). case drv_ask d p w of (a, w') \<Rightarrow> (a, (w', t @ [OAsk p a]))),
      drv_follow_up =
        (\<lambda>(w, t). case drv_follow_up d w of (f, w') \<Rightarrow> (f, (w', t @ [OFollowUp f])))\<rparr>"

definition obs_interceptor :: "'w interceptor \<Rightarrow> ('w \<times> obs list) interceptor" where
  "obs_interceptor i =
     \<lparr>icp_id = icp_id i, icp_phases = icp_phases i,
      icp_intercept = (\<lambda>inp (w, t). case icp_intercept i inp w of (r, w') \<Rightarrow>
        (r, (w', t @ [OIntercept (icp_id i) inp r])))\<rparr>"

definition obs_completer :: "'w completer \<Rightarrow> ('w \<times> obs list) completer" where
  "obs_completer p =
     \<lparr>prov_id = prov_id p,
      prov_complete = (\<lambda>req (w, t). case prov_complete p req w of (r, w') \<Rightarrow>
        (r, (w', t @ [OComplete (prov_id p) req r])))\<rparr>"

text \<open>A tool's own questions go to the driver inside the call, and are not on the list.\<close>

definition obs_tools :: "'w driver \<Rightarrow> 'w tool_invoker \<Rightarrow> ('w \<times> obs list) tool_invoker" where
  "obs_tools d tv =
     \<lparr>tools_bind_session = (\<lambda>s (w, t). (tools_bind_session tv s w, t @ [OBind s])),
      tools_invoke_asking = (\<lambda>c _ (w, t). case tools_invoke_asking tv c d w of (r, w') \<Rightarrow>
        (r, (w', t @ [OInvoke c r])))\<rparr>"

definition observe :: "'w env \<Rightarrow> ('w \<times> obs list) env" where
  "observe e =
     \<lparr>env_interceptors = map obs_interceptor (env_interceptors e),
      env_providers = map obs_completer (env_providers e),
      env_tools = obs_tools (env_driver e) (env_tools e),
      env_driver = obs_driver (env_driver e),
      env_emit = (\<lambda>ev (w, t). case env_emit e ev w of (f, w') \<Rightarrow> (f, (w', t @ [OEmit ev]))),
      env_on_effective = (\<lambda>s (w, t). (env_on_effective e s w, t @ [OEffective s]))\<rparr>"

text \<open>What a reader of the list asks for.\<close>

definition emitted :: "obs list \<Rightarrow> event list" where
  "emitted t = List.map_filter (\<lambda>x. case x of OEmit ev \<Rightarrow> Some ev | _ \<Rightarrow> None) t"

definition invoked :: "obs list \<Rightarrow> tool_call list" where
  "invoked t = List.map_filter (\<lambda>x. case x of OInvoke c r \<Rightarrow> Some c | _ \<Rightarrow> None) t"

definition announced :: "obs list \<Rightarrow> tool_call list" where
  "announced t = List.map_filter (\<lambda>x. case x of OEmit (ToolInvoked c) \<Rightarrow> Some c | _ \<Rightarrow> None) t"

definition completions :: "obs list \<Rightarrow> nat" where
  "completions t = length (filter (\<lambda>x. case x of OComplete _ _ _ \<Rightarrow> True | _ \<Rightarrow> False) t)"

named_theorems obs_simps \<open>the observed environment and the readers of its list\<close>

lemma emitted_simps [simp]:
  "emitted [] = []"
  "emitted (s @ t) = emitted s @ emitted t"
  "emitted (OEmit ev # t) = ev # emitted t"
  "emitted (OIntercept i p r # t) = emitted t"
  "emitted (OAsk pq a # t) = emitted t"
  "emitted (OFollowUp f # t) = emitted t"
  "emitted (OComplete i q cr # t) = emitted t"
  "emitted (OBind n # t) = emitted t"
  "emitted (OInvoke c r' # t) = emitted t"
  "emitted (OEffective n # t) = emitted t"
  by (simp_all add: emitted_def List.map_filter_def)

lemma invoked_simps [simp]:
  "invoked [] = []"
  "invoked (s @ t) = invoked s @ invoked t"
  "invoked (OEmit ev # t) = invoked t"
  "invoked (OIntercept i p r # t) = invoked t"
  "invoked (OAsk pq a # t) = invoked t"
  "invoked (OFollowUp f # t) = invoked t"
  "invoked (OComplete i q cr # t) = invoked t"
  "invoked (OBind n # t) = invoked t"
  "invoked (OInvoke c r' # t) = c # invoked t"
  "invoked (OEffective n # t) = invoked t"
  by (simp_all add: invoked_def List.map_filter_def)

lemma announced_simps [simp]:
  "announced [] = []"
  "announced (s @ t) = announced s @ announced t"
  "announced (OEmit ev # t) = (case ev of ToolInvoked c \<Rightarrow> [c] | _ \<Rightarrow> []) @ announced t"
  "announced (OIntercept i p r # t) = announced t"
  "announced (OAsk pq a # t) = announced t"
  "announced (OFollowUp f # t) = announced t"
  "announced (OComplete i q cr # t) = announced t"
  "announced (OBind n # t) = announced t"
  "announced (OInvoke c r' # t) = announced t"
  "announced (OEffective n # t) = announced t"
  by (simp_all add: announced_def List.map_filter_def split: event.splits)

lemma completions_simps [simp]:
  "completions [] = 0"
  "completions (s @ t) = completions s + completions t"
  "completions (OEmit ev # t) = completions t"
  "completions (OIntercept i p r # t) = completions t"
  "completions (OAsk pq a # t) = completions t"
  "completions (OFollowUp f # t) = completions t"
  "completions (OComplete i q cr # t) = Suc (completions t)"
  "completions (OBind n # t) = completions t"
  "completions (OInvoke c r' # t) = completions t"
  "completions (OEffective n # t) = completions t"
  by (simp_all add: completions_def)

lemma observe_simps [simp]:
  "env_interceptors (observe e) = map obs_interceptor (env_interceptors e)"
  "env_providers (observe e) = map obs_completer (env_providers e)"
  "env_tools (observe e) = obs_tools (env_driver e) (env_tools e)"
  "env_driver (observe e) = obs_driver (env_driver e)"
  "env_emit (observe e) ev wt = (fst (env_emit e ev (fst wt)),
     (snd (env_emit e ev (fst wt)), snd wt @ [OEmit ev]))"
  "env_on_effective (observe e) s wt = (env_on_effective e s (fst wt), snd wt @ [OEffective s])"
  by (simp_all add: observe_def case_prod_beta)

lemma obs_party_simps [simp]:
  "icp_id (obs_interceptor i) = icp_id i"
  "icp_phases (obs_interceptor i) = icp_phases i"
  "prov_id (obs_completer p) = prov_id p"
  "icp_intercept (obs_interceptor i) inp wt = (fst (icp_intercept i inp (fst wt)),
     (snd (icp_intercept i inp (fst wt)),
      snd wt @ [OIntercept (icp_id i) inp (fst (icp_intercept i inp (fst wt)))]))"
  "prov_complete (obs_completer p) req wt = (fst (prov_complete p req (fst wt)),
     (snd (prov_complete p req (fst wt)),
      snd wt @ [OComplete (prov_id p) req (fst (prov_complete p req (fst wt)))]))"
  "tools_bind_session (obs_tools d tv) s wt = (tools_bind_session tv s (fst wt), snd wt @ [OBind s])"
  "tools_invoke_asking (obs_tools d tv) c D wt = (fst (tools_invoke_asking tv c d (fst wt)),
     (snd (tools_invoke_asking tv c d (fst wt)),
      snd wt @ [OInvoke c (fst (tools_invoke_asking tv c d (fst wt)))]))"
  "drv_ask (obs_driver d) q wt = (fst (drv_ask d q (fst wt)),
     (snd (drv_ask d q (fst wt)), snd wt @ [OAsk q (fst (drv_ask d q (fst wt)))]))"
  "drv_follow_up (obs_driver d) wt = (fst (drv_follow_up d (fst wt)),
     (snd (drv_follow_up d (fst wt)), snd wt @ [OFollowUp (fst (drv_follow_up d (fst wt)))]))"
  by (simp_all add: obs_interceptor_def obs_completer_def obs_tools_def obs_driver_def
      case_prod_beta)

end
