(* ===== verification/Dispatch.thy ===== *)
theory Dispatch
  imports Turn
begin

text \<open>
  \<open>Dispatcher::dispatch\<close> of \<open>host/protocol/src/intercept.rs\<close>: one phase handed to every
  subscribed interceptor in load order. An interceptor that asks is called again with the
  driver's answer, so the inner loop need not end: \<open>ask_loop\<close> is a
  \<open>partial_function (option)\<close> whose \<open>None\<close> is "never returns", and the interface
  \<open>settling\<close> states when it does return.
\<close>

datatype outcome = Proceeded | Blocked string

definition closed_reason :: "string \<Rightarrow> string" where
  "closed_reason i = ''interceptor '' @ bquote i @ '' failed at tool-call; failing closed''"

text \<open>
  The inner \<open>loop\<close> for one interceptor: \<open>Inr s\<close> goes on to the next interceptor with
  state \<open>s\<close>, \<open>Inl r\<close> ends the dispatch as blocked.
\<close>

partial_function (option) ask_loop ::
  "'w driver \<Rightarrow> 'w interceptor \<Rightarrow> phase \<Rightarrow> hook_state \<Rightarrow> string option \<Rightarrow> 'w
     \<Rightarrow> ((string + hook_state) \<times> 'w) option" where
  "ask_loop d i ph st ans w =
     (case icp_intercept i \<lparr>in_phase = ph, in_state = st, in_answer = ans\<rparr> w of
        (r, w1) \<Rightarrow>
          (case r of
             Inr Proceed \<Rightarrow> Some (Inr st, w1)
           | Inr (Replace st') \<Rightarrow> Some (Inr st', w1)
           | Inr (Block reason) \<Rightarrow> Some (Inl reason, w1)
           | Inr (Ask p) \<Rightarrow>
               (case drv_ask d p w1 of (a, w2) \<Rightarrow> ask_loop d i ph st (Some a) w2)
           | Inl e \<Rightarrow>
               Some (if ph = PToolCall then Inl (closed_reason (icp_id i)) else Inr st, w1)))"

fun dispatch ::
  "'w driver \<Rightarrow> 'w interceptor list \<Rightarrow> phase \<Rightarrow> hook_state \<Rightarrow> 'w
     \<Rightarrow> (outcome \<times> hook_state \<times> 'w) option" where
  "dispatch d [] ph st w = Some (Proceeded, st, w)"
| "dispatch d (i # is) ph st w =
     (if ph \<notin> set (icp_phases i) then dispatch d is ph st w
      else (case ask_loop d i ph st None w of
              None \<Rightarrow> None
            | Some (Inl reason, w') \<Rightarrow> Some (Blocked reason, st, w')
            | Some (Inr st', w') \<Rightarrow> dispatch d is ph st' w'))"

definition dispatch_env ::
  "'w env \<Rightarrow> phase \<Rightarrow> hook_state \<Rightarrow> 'w \<Rightarrow> (outcome \<times> hook_state \<times> 'w) option" where
  "dispatch_env e ph st w = dispatch (env_driver e) (env_interceptors e) ph st w"

section \<open>Interceptors that settle\<close>

text \<open>
  The contract under which a turn cannot hang in a dispatch: an interceptor that has been
  given an answer decides, it does not ask again.
\<close>

definition settles :: "'w interceptor \<Rightarrow> bool" where
  "settles i \<longleftrightarrow>
     (\<forall>inp w p. in_answer inp \<noteq> None \<longrightarrow> fst (icp_intercept i inp w) \<noteq> Inr (Ask p))"

locale settling =
  fixes intercept :: "intercept_input \<Rightarrow> 'w \<Rightarrow> (interceptor_error + decision) \<times> 'w"
  assumes decides: "in_answer inp \<noteq> None \<Longrightarrow> fst (intercept inp w) \<noteq> Inr (Ask p)"
begin

lemma settles_record: "icp_intercept i = intercept \<Longrightarrow> settles i"
  using decides by (auto simp: settles_def)

end

lemma ask_loop_answered_returns:
  assumes "settles i"
  shows "\<exists>r. ask_loop d i ph st (Some a) w = Some r"
proof -
  obtain r w1 where
    r: "icp_intercept i \<lparr>in_phase = ph, in_state = st, in_answer = Some a\<rparr> w = (r, w1)"
    by fastforce
  with assms have "\<And>p. r \<noteq> Inr (Ask p)"
    by (metis fst_conv intercept_input.select_convs(3) option.distinct(1) settles_def)
  with r show ?thesis
    by (subst ask_loop.simps) (auto split: sum.splits decision.splits)
qed

lemma ask_loop_returns:
  assumes "settles i"
  shows "\<exists>r. ask_loop d i ph st ans w = Some r"
  using ask_loop_answered_returns [OF assms]
  by (subst ask_loop.simps) (auto split: prod.splits sum.splits decision.splits)

lemma dispatch_returns:
  "\<forall>i \<in> set is. settles i \<Longrightarrow> \<exists>r. dispatch d is ph st w = Some r"
proof (induction "is" arbitrary: st w)
  case Nil
  then show ?case by simp
next
  case (Cons i "is")
  then obtain r where "ask_loop d i ph st None w = Some r"
    using ask_loop_returns by fastforce
  with Cons show ?case by (cases r) (auto split: sum.splits)
qed

lemma settles_obs [simp]: "settles i \<Longrightarrow> settles (obs_interceptor i)"
  by (auto simp: settles_def)

section \<open>What a dispatch leaves in the list of calls\<close>

text \<open>
  A dispatch only consults interceptors, all at its own phase, and the driver:
  \<open>consults\<close> says so of a list.
\<close>

definition consults :: "phase \<Rightarrow> obs list \<Rightarrow> bool" where
  "consults ph t \<longleftrightarrow>
     (\<forall>x \<in> set t. case x of OIntercept _ inp _ \<Rightarrow> in_phase inp = ph | OAsk _ _ \<Rightarrow> True | _ \<Rightarrow> False)"

lemma consults_simps [simp]:
  "consults ph []"
  "consults ph (s @ t) \<longleftrightarrow> consults ph s \<and> consults ph t"
  "consults ph (OIntercept i inp r # t) \<longleftrightarrow> in_phase inp = ph \<and> consults ph t"
  "consults ph (OAsk q a # t) \<longleftrightarrow> consults ph t"
  by (auto simp: consults_def)

lemma consults_silent [simp]:
  assumes "consults ph t"
  shows "emitted t = []" "invoked t = []" "announced t = []" "completions t = 0"
  using assms
  by (auto simp: consults_def emitted_def invoked_def announced_def completions_def
      List.map_filter_def filter_empty_conv split: obs.splits)

text \<open>
  \<open>let_through i st ans t st'\<close>: the list \<open>t\<close> is the whole consultation of the interceptor named \<open>i\<close> at \<open>tool-call\<close> on the
  state \<open>st\<close>: it asks as often as it likes, each time being consulted again on the same state with the answer, and in the end
  lets the state through, as it is or replaced. \<open>round_cleared\<close> chains the consultations of several, in order, each on what the one
  before let through.
\<close>

inductive let_through :: "string \<Rightarrow> hook_state \<Rightarrow> string option \<Rightarrow> obs list \<Rightarrow> hook_state \<Rightarrow> bool" where
  proceeds: "let_through i st ans [OIntercept i \<lparr>in_phase = PToolCall, in_state = st, in_answer = ans\<rparr> (Inr Proceed)] st"
| replaces: "let_through i st ans [OIntercept i \<lparr>in_phase = PToolCall, in_state = st, in_answer = ans\<rparr> (Inr (Replace st'))] st'"
| asks: "let_through i st (Some a) t st' \<Longrightarrow>
    let_through i st ans
      (OIntercept i \<lparr>in_phase = PToolCall, in_state = st, in_answer = ans\<rparr> (Inr (Ask p)) # OAsk p a # t) st'"

fun round_cleared :: "string list \<Rightarrow> hook_state \<Rightarrow> obs list \<Rightarrow> hook_state \<Rightarrow> bool" where
  "round_cleared [] st t st' \<longleftrightarrow> t = [] \<and> st' = st"
| "round_cleared (i # is) st t st' \<longleftrightarrow>
     (\<exists>t1 t2 st1. t = t1 @ t2 \<and> let_through i st None t1 st1 \<and> round_cleared is st1 t2 st')"

lemma let_through_consults: "let_through i st ans t st' \<Longrightarrow> consults PToolCall t"
  by (induction rule: let_through.induct) auto

lemma round_cleared_consults: "round_cleared is st t st' \<Longrightarrow> consults PToolCall t"
  by (induction "is" arbitrary: st t) (auto dest: let_through_consults)

lemma ask_loop_consults:
  assumes "ask_loop (obs_driver d) (obs_interceptor i) ph st ans wt = Some y"
  shows "\<exists>t. snd (snd y) = snd wt @ t \<and> consults ph t \<and>
           (\<forall>st'. ph = PToolCall \<longrightarrow> fst y = Inr st' \<longrightarrow> let_through (icp_id i) st ans t st')"
proof -
  let ?P = "\<lambda>d' i' ph st ans wt y. d' = obs_driver d \<longrightarrow> i' = obs_interceptor i \<longrightarrow>
     (\<exists>t. snd (snd y) = snd wt @ t \<and> consults ph t \<and>
        (\<forall>st'. ph = PToolCall \<longrightarrow> fst y = Inr st' \<longrightarrow> let_through (icp_id i) st ans t st'))"
  have "?P (obs_driver d) (obs_interceptor i) ph st ans wt y"
  proof (rule ask_loop.raw_induct [where P = ?P, OF _ assms], intro impI)
    fix f :: "('a \<times> obs list) driver \<Rightarrow> ('a \<times> obs list) interceptor \<Rightarrow> phase \<Rightarrow> hook_state \<Rightarrow>
      string option \<Rightarrow> 'a \<times> obs list \<Rightarrow> ((string + hook_state) \<times> 'a \<times> obs list) option"
    fix d' i' ph st ans wt y
    assume IH: "\<And>d' i' ph st ans wt y. f d' i' ph st ans wt = Some y \<Longrightarrow> ?P d' i' ph st ans wt y"
      and eq: "(case icp_intercept i' \<lparr>in_phase = ph, in_state = st, in_answer = ans\<rparr> wt of
        (r, w1) \<Rightarrow>
          (case r of
             Inr Proceed \<Rightarrow> Some (Inr st, w1)
           | Inr (Replace st') \<Rightarrow> Some (Inr st', w1)
           | Inr (Block reason) \<Rightarrow> Some (Inl reason, w1)
           | Inr (Ask p) \<Rightarrow> (case drv_ask d' p w1 of (a, w2) \<Rightarrow> f d' i' ph st (Some a) w2)
           | Inl e \<Rightarrow>
               Some (if ph = PToolCall then Inl (closed_reason (icp_id i')) else Inr st, w1))) = Some y"
      and [simp]: "d' = obs_driver d" "i' = obs_interceptor i"
    let ?inp = "\<lparr>in_phase = ph, in_state = st, in_answer = ans\<rparr>"
    obtain r w1 where r: "icp_intercept i ?inp (fst wt) = (r, w1)" by fastforce
    let ?t1 = "[OIntercept (icp_id i) ?inp r]"
    show "\<exists>t. snd (snd y) = snd wt @ t \<and> consults ph t \<and>
        (\<forall>st'. ph = PToolCall \<longrightarrow> fst y = Inr st' \<longrightarrow> let_through (icp_id i) st ans t st')"
    proof (cases "\<exists>p. r = Inr (Ask p)")
      case False
      with eq r have "snd (snd y) = snd wt @ ?t1 \<and>
          (\<forall>st'. ph = PToolCall \<longrightarrow> fst y = Inr st' \<longrightarrow> let_through (icp_id i) st ans ?t1 st')"
        by (auto split: sum.splits decision.splits intro: let_through.proceeds let_through.replaces)
      then show ?thesis by (intro exI [of _ ?t1]) auto
    next
      case True
      then obtain p where p: "r = Inr (Ask p)" ..
      obtain a w2 where a: "drv_ask d p w1 = (a, w2)" by fastforce
      from eq r p a have "f d' i' ph st (Some a) (w2, snd wt @ ?t1 @ [OAsk p a]) = Some y"
        by simp
      from IH [OF this] obtain t where
        t: "snd (snd y) = snd wt @ ?t1 @ [OAsk p a] @ t" "consults ph t"
           "\<forall>st'. ph = PToolCall \<longrightarrow> fst y = Inr st' \<longrightarrow> let_through (icp_id i) st (Some a) t st'" by auto
      with p show ?thesis
        by (intro exI [of _ "?t1 @ [OAsk p a] @ t"]) (auto intro: let_through.asks)
    qed
  qed
  then show ?thesis by simp
qed

text \<open>Who is asked at \<open>tool-call\<close>, in the order of loading.\<close>

definition gatekeepers :: "'w interceptor list \<Rightarrow> string list" where
  "gatekeepers is = map icp_id (filter (\<lambda>i. PToolCall \<in> set (icp_phases i)) is)"

lemma dispatch_consults:
  "dispatch (obs_driver d) (map obs_interceptor is) ph st wt = Some (out, st', wt') \<Longrightarrow>
     \<exists>t. snd wt' = snd wt @ t \<and> consults ph t \<and>
       (ph = PToolCall \<and> out = Proceeded \<longrightarrow> round_cleared (gatekeepers is) st t st')"
proof (induction "is" arbitrary: st wt)
  case Nil
  then show ?case by (auto simp: gatekeepers_def)
next
  case (Cons i "is")
  show ?case
  proof (cases "ph \<in> set (icp_phases i)")
    case False
    with Cons.prems have "dispatch (obs_driver d) (map obs_interceptor is) ph st wt = Some (out, st', wt')" by simp
    from Cons.IH [OF this] obtain t where
      "snd wt' = snd wt @ t" "consults ph t"
        "ph = PToolCall \<and> out = Proceeded \<longrightarrow> round_cleared (gatekeepers is) st t st'"
      by blast
    with False show ?thesis by (intro exI [of _ t]) (auto simp: gatekeepers_def)
  next
    case True
    with Cons.prems obtain r w1 where
      y: "ask_loop (obs_driver d) (obs_interceptor i) ph st None wt = Some (r, w1)"
      by (auto split: option.splits)
    from ask_loop_consults [OF y] obtain t1 where
      t1: "snd w1 = snd wt @ t1" "consults ph t1"
        "\<And>s. ph = PToolCall \<Longrightarrow> r = Inr s \<Longrightarrow> let_through (icp_id i) st None t1 s" by auto
    show ?thesis
    proof (cases r)
      case (Inl reason)
      with True Cons.prems y t1 show ?thesis by auto
    next
      case (Inr s)
      with True Cons.prems y
      have "dispatch (obs_driver d) (map obs_interceptor is) ph s w1 = Some (out, st', wt')" by simp
      from Cons.IH [OF this] obtain t2 where
        t2: "snd wt' = snd w1 @ t2" "consults ph t2"
          "ph = PToolCall \<and> out = Proceeded \<longrightarrow> round_cleared (gatekeepers is) s t2 st'"
        by auto
      with t1 Inr True show ?thesis
        by (intro exI [of _ "t1 @ t2"]) (auto simp: gatekeepers_def)
    qed
  qed
qed

lemma dispatch_env_consults:
  assumes "dispatch_env (observe e) ph st wt = Some (out, st', wt')"
  obtains t where "snd wt' = snd wt @ t" "consults ph t"
    "ph = PToolCall \<and> out = Proceeded \<longrightarrow> round_cleared (gatekeepers (env_interceptors e)) st t st'"
  using dispatch_consults [of "env_driver e" "env_interceptors e"] assms
  by (fastforce simp: dispatch_env_def)

lemma dispatch_env_returns:
  "\<forall>i \<in> set (env_interceptors e). settles i \<Longrightarrow> \<exists>r. dispatch_env e ph st w = Some r"
  unfolding dispatch_env_def by (rule dispatch_returns)

section \<open>No subscriber, no change\<close>

lemma dispatch_unsubscribed:
  "\<forall>i \<in> set is. ph \<notin> set (icp_phases i) \<Longrightarrow> dispatch d is ph st w = Some (Proceeded, st, w)"
  by (induction "is") auto

lemma dispatch_append:
  "dispatch d (xs @ ys) ph st w =
     (case dispatch d xs ph st w of
        None \<Rightarrow> None
      | Some (Blocked reason, st', w') \<Rightarrow> Some (Blocked reason, st', w')
      | Some (Proceeded, st', w') \<Rightarrow> dispatch d ys ph st' w')"
  by (induction xs arbitrary: st w) (auto split: option.split sum.split)

text \<open>The last subscriber has the last word: what goes on is what it let through.\<close>

lemma dispatch_last:
  assumes "dispatch d (xs @ g # ys) ph st w = Some (Proceeded, st', w')"
    "ph \<in> set (icp_phases g)" "\<forall>i \<in> set ys. ph \<notin> set (icp_phases i)"
  obtains st1 w1 where "dispatch d xs ph st w = Some (Proceeded, st1, w1)"
    "ask_loop d g ph st1 None w1 = Some (Inr st', w')"
  using assms dispatch_unsubscribed [OF assms(3)]
  by (auto simp: dispatch_append split: option.splits outcome.splits sum.splits)

end
