(* ===== verification/Conductor.thy ===== *)
theory Conductor
  imports Dispatch
begin

text \<open>
  The turn loop of \<open>host/agent/src/conductor.rs\<close>. A dispatch may never return, so every
  function that dispatches has an \<open>option\<close> result; the loop itself is bounded by
  \<open>limits.max-iterations\<close>, which is its termination measure. \<open>serde_json::from_str\<close> is the
  parameter \<open>pj\<close>.
\<close>

definition DEFAULT_MAX_ITERATIONS :: nat where "DEFAULT_MAX_ITERATIONS = 8"
definition MAX_RETRIES :: nat where "MAX_RETRIES = 3"

record limits =
  max_iterations :: nat

datatype run_result = Answered string bool | Failed string

datatype loop_step = LContinue | LBreak string

datatype tool_pass = TContinue | TTerminated | TCancelled

definition emit :: "'w env \<Rightarrow> event \<Rightarrow> 'w \<Rightarrow> 'w" where
  "emit e ev w = snd (env_emit e ev w)"

text \<open>The texts the loop writes, as constants.\<close>

definition all_failed_text :: "string list \<Rightarrow> string" where
  "all_failed_text failures = ''all providers failed ('' @ join_with ''; '' failures @ '')''"

definition no_providers_text :: string where
  "no_providers_text = ''no providers configured''"

definition fallback_warning :: "string \<Rightarrow> string" where
  "fallback_warning note = ''provider '' @ note @ ''; falling back''"

definition truncated_warning :: string where
  "truncated_warning = ''the model stopped at its token limit '' @ em_dash @
     '' this answer is cut off''"

definition malformed_text :: "string \<Rightarrow> string" where
  "malformed_text reason =
     ''malformed output after '' @ show_nat MAX_RETRIES @ '' retries: '' @ reason"

definition retry_warning :: "string \<Rightarrow> string" where
  "retry_warning reason = ''malformed output; retrying: '' @ reason"

definition correction_text :: "string \<Rightarrow> string" where
  "correction_text reason =
     ''Your previous response was invalid: '' @ reason @ ''. Reply again, correctly.''"

definition bad_arguments_text :: "string \<Rightarrow> string \<Rightarrow> string" where
  "bad_arguments_text name err =
     ''tool '' @ bquote name @ '' arguments are not valid JSON: '' @ err"

definition denied_warning :: "string \<Rightarrow> string \<Rightarrow> string" where
  "denied_warning name reason = ''tool '' @ bquote name @ '' denied: '' @ reason"

definition denied_content :: "string \<Rightarrow> string" where
  "denied_content reason = ''tool call denied: '' @ reason"

definition no_tool_content :: "string \<Rightarrow> string" where
  "no_tool_content name = ''no tool named '' @ bquote name"

definition wrong_case_text :: string where
  "wrong_case_text = ''interceptor replaced shaping state with the wrong case''"

section \<open>Completions: fallback, validation and retry\<close>

fun try_providers ::
  "'w env \<Rightarrow> 'w completer list \<Rightarrow> pending_request \<Rightarrow> string list \<Rightarrow> 'w
     \<Rightarrow> (string + completion) \<times> 'w" where
  "try_providers e [] req failures w =
     (Inl (all_failed_text failures), w)"
| "try_providers e (p # ps) req failures w =
     (case prov_complete p req w of
        (Inr c, w1) \<Rightarrow> (Inr c, w1)
      | (Inl err, w1) \<Rightarrow>
          (let note = prov_id p @ '': '' @ err;
               w2 = emit e (Warning (fallback_warning note)) w1
           in try_providers e ps req (failures @ [note]) w2))"

definition complete_with_fallback ::
  "'w env \<Rightarrow> pending_request \<Rightarrow> 'w \<Rightarrow> (string + completion) \<times> 'w" where
  "complete_with_fallback e req w =
     (if env_providers e = [] then (Inl no_providers_text, w)
      else try_providers e (env_providers e) req [] w)"

fun validate_calls :: "parser \<Rightarrow> tool_call list \<Rightarrow> string + unit" where
  "validate_calls pj [] = Inr ()"
| "validate_calls pj (c # cs) =
     (case pj (tc_arguments c) of
        Inl err \<Rightarrow> Inl (bad_arguments_text (tc_name c) err)
      | Inr _ \<Rightarrow> validate_calls pj cs)"

definition validate :: "parser \<Rightarrow> completion \<Rightarrow> string + unit" where
  "validate pj c = validate_calls pj (cmp_tool_calls c)"

definition push_message :: "pending_request \<Rightarrow> message \<Rightarrow> pending_request" where
  "push_message req m = req\<lparr>pr_messages := pr_messages req @ [m]\<rparr>"

definition plain_message :: "role \<Rightarrow> string \<Rightarrow> message" where
  "plain_message r s = \<lparr>msg_role = r, msg_content = s, msg_tool_call_id = None\<rparr>"

definition correction :: "pending_request \<Rightarrow> completion \<Rightarrow> string \<Rightarrow> pending_request" where
  "correction req c reason =
     push_message (push_message req (plain_message Assistant (cmp_text c)))
       (plain_message User (correction_text reason))"

text \<open>The attempts that are left after the first, \<open>k\<close> of them.\<close>

fun attempts ::
  "parser \<Rightarrow> 'w env \<Rightarrow> nat \<Rightarrow> pending_request \<Rightarrow> 'w \<Rightarrow> (string + completion) \<times> 'w" where
  "attempts pj e k req w =
     (case complete_with_fallback e req w of
        (Inl err, w1) \<Rightarrow> (Inl err, w1)
      | (Inr c, w1) \<Rightarrow>
          (let w2 = (if was_truncated c
                     then emit e (Warning truncated_warning) w1
                     else w1)
           in case validate pj c of
                Inr _ \<Rightarrow> (Inr c, w2)
              | Inl reason \<Rightarrow>
                  (case k of
                     0 \<Rightarrow> (Inl (malformed_text reason), w2)
                   | Suc k' \<Rightarrow>
                       attempts pj e k' (correction req c reason)
                         (emit e (Warning (retry_warning reason)) w2))))"

declare attempts.simps [simp del]

definition complete_validated ::
  "parser \<Rightarrow> 'w env \<Rightarrow> pending_request \<Rightarrow> 'w \<Rightarrow> (string + completion) \<times> 'w" where
  "complete_validated pj e req w = attempts pj e MAX_RETRIES req w"

section \<open>Phases around the loop\<close>

fun shaped_request :: "hook_state \<Rightarrow> pending_request option" where
  "shaped_request (SSelectModel r) = Some r"
| "shaped_request (SSelectContext r) = Some r"
| "shaped_request (SSelectTools r) = Some r"
| "shaped_request _ = None"

fun shaping_state :: "phase \<Rightarrow> pending_request \<Rightarrow> hook_state option" where
  "shaping_state PSelectModel r = Some (SSelectModel r)"
| "shaping_state PSelectContext r = Some (SSelectContext r)"
| "shaping_state PSelectTools r = Some (SSelectTools r)"
| "shaping_state _ r = None"

text \<open>The \<open>Debug\<close> name of a phase, which \<open>shape\<close> prints when it is misused.\<close>

fun phase_debug :: "phase \<Rightarrow> string" where
  "phase_debug PBeforeLoop = ''BeforeLoop''"
| "phase_debug PSelectModel = ''SelectModel''"
| "phase_debug PSelectContext = ''SelectContext''"
| "phase_debug PSelectTools = ''SelectTools''"
| "phase_debug PAfterResponse = ''AfterResponse''"
| "phase_debug PToolCall = ''ToolCall''"
| "phase_debug PToolResult = ''ToolResult''"
| "phase_debug PFinalize = ''Finalize''"
| "phase_debug PPrepareNextTurn = ''PrepareNextTurn''"

definition shape ::
  "'w env \<Rightarrow> phase \<Rightarrow> pending_request \<Rightarrow> 'w \<Rightarrow> ((string + pending_request) \<times> 'w) option" where
  "shape e ph req w =
     (case shaping_state ph req of
        None \<Rightarrow> Some (Inl (''shape called with non-shaping phase '' @ phase_debug ph), w)
      | Some st \<Rightarrow>
          (case dispatch_env e ph st w of
             None \<Rightarrow> None
           | Some (Blocked reason, _, w1) \<Rightarrow> Some (Inl reason, w1)
           | Some (Proceeded, st1, w1) \<Rightarrow>
               (case shaped_request st1 of
                  Some r \<Rightarrow> Some (Inr r, w1)
                | None \<Rightarrow>
                    Some (Inl wrong_case_text, w1))))"

fun shape_all ::
  "'w env \<Rightarrow> phase list \<Rightarrow> pending_request \<Rightarrow> 'w \<Rightarrow> ((string + pending_request) \<times> 'w) option" where
  "shape_all e [] req w = Some (Inr req, w)"
| "shape_all e (ph # phs) req w =
     (case shape e ph req w of
        None \<Rightarrow> None
      | Some (Inl reason, w1) \<Rightarrow> Some (Inl reason, w1)
      | Some (Inr req1, w1) \<Rightarrow> shape_all e phs req1 w1)"

fun post_state :: "phase \<Rightarrow> string \<Rightarrow> hook_state option" where
  "post_state PAfterResponse s = Some (SAfterResponse \<lparr>rr_text = s, rr_finish_reason = ''stop''\<rparr>)"
| "post_state PFinalize s = Some (SFinalize s)"
| "post_state _ s = None"

fun post_text :: "hook_state \<Rightarrow> string" where
  "post_text (SAfterResponse r) = rr_text r"
| "post_text (SFinalize s) = s"
| "post_text _ = []"

definition post_phase :: "'w env \<Rightarrow> phase \<Rightarrow> string \<Rightarrow> 'w \<Rightarrow> (string \<times> 'w) option" where
  "post_phase e ph s w =
     (case post_state ph s of
        None \<Rightarrow> Some (s, w)
      | Some st \<Rightarrow>
          (case dispatch_env e ph st w of
             None \<Rightarrow> None
           | Some (_, st1, w1) \<Rightarrow> Some (post_text st1, w1)))"

definition build_initial_request ::
  "'w env \<Rightarrow> string \<Rightarrow> string \<Rightarrow> message list \<Rightarrow> string option \<Rightarrow> 'w
     \<Rightarrow> (bool \<times> pending_request \<times> 'w) option" where
  "build_initial_request e session user_message history who w =
     (case dispatch_env e PBeforeLoop
             (SBeforeLoop \<lparr>ut_session = session, ut_user_message = user_message,
                           ut_principal = who\<rparr>) w of
        None \<Rightarrow> None
      | Some (out, st, w1) \<Rightarrow>
          (let agentic = (out = Proceeded);
               effective = (case st of SBeforeLoop t \<Rightarrow> ut_user_message t | _ \<Rightarrow> user_message);
               w2 = env_on_effective e effective w1
           in Some (agentic,
                \<lparr>pr_model = None, pr_messages = history @ [plain_message User effective],
                 pr_tools = [], pr_grammar = None, pr_max_tokens = None, pr_temperature = None\<rparr>,
                w2)))"

section \<open>Ending a turn early\<close>

definition note_incomplete :: "'w env \<Rightarrow> string \<Rightarrow> string \<Rightarrow> 'w \<Rightarrow> string \<times> 'w" where
  "note_incomplete e txt note w =
     (let w1 = emit e (Warning note) w
      in (if trim txt = [] then ''['' @ note @ '']''
          else txt @ [newline, newline] @ ''['' @ note @ '']'', w1))"

definition disconnected_note :: string where
  "disconnected_note = ''stopped before the turn finished '' @ em_dash @
     '' the client disconnected or cancelled''"

definition cut_short_note :: "nat \<Rightarrow> string" where
  "cut_short_note cap = ''stopped after '' @ show_nat cap @ '' tool cycles '' @ em_dash @
     '' the task was not finished. Raise '' @ bquote ''limits.max-iterations'' @
     '' if it needs more room.''"

definition cut_short :: "'w env \<Rightarrow> string \<Rightarrow> nat \<Rightarrow> 'w \<Rightarrow> string \<times> 'w" where
  "cut_short e txt cap w = note_incomplete e txt (cut_short_note cap) w"

section \<open>Tool calls\<close>

text \<open>The gate, the invocation and the events before the result phase, for one call.\<close>

definition gate_and_invoke ::
  "'w env \<Rightarrow> tool_call \<Rightarrow> tool_pass \<Rightarrow> 'w \<Rightarrow> (tool_invocation \<times> tool_pass \<times> 'w) option" where
  "gate_and_invoke e call stop w =
     (case dispatch_env e PToolCall (SToolCall call) w of
        None \<Rightarrow> None
      | Some (Blocked reason, _, w1) \<Rightarrow>
          Some (\<lparr>inv_content = denied_content reason, inv_failed = True\<rparr>, stop,
            emit e (Warning (denied_warning (tc_name call) reason)) w1)
      | Some (Proceeded, st, w1) \<Rightarrow>
          (let effective = (case st of SToolCall c \<Rightarrow> c | _ \<Rightarrow> call)
           in case env_emit e (ToolInvoked effective) w1 of
                (flow, w2) \<Rightarrow>
                  (case tools_invoke_asking (env_tools e) effective (env_driver e) w2 of
                     (res, w3) \<Rightarrow>
                       Some ((case res of
                                Some iv \<Rightarrow> iv
                              | None \<Rightarrow> \<lparr>inv_content = no_tool_content (tc_name effective),
                                        inv_failed = True\<rparr>),
                             (if flow = Stop then TCancelled else stop), w3))))"

fun run_tool_calls ::
  "'w env \<Rightarrow> tool_call list \<Rightarrow> tool_pass \<Rightarrow> pending_request \<Rightarrow> 'w
     \<Rightarrow> (tool_pass \<times> pending_request \<times> 'w) option" where
  "run_tool_calls e [] stop req w = Some (stop, req, w)"
| "run_tool_calls e (call # calls) stop req w =
     (case gate_and_invoke e call stop w of
        None \<Rightarrow> None
      | Some (iv, stop1, w1) \<Rightarrow>
          (case dispatch_env e PToolResult
                  (SToolResult \<lparr>out_tool_call_id = tc_id call, out_content = inv_content iv,
                                out_failed = inv_failed iv\<rparr>) w1 of
             None \<Rightarrow> None
           | Some (out, st, w2) \<Rightarrow>
               (let stop2 = (case out of Blocked _ \<Rightarrow> TTerminated | Proceeded \<Rightarrow> stop1);
                    res = (case st of
                             SToolResult o' \<Rightarrow> o'
                           | _ \<Rightarrow> \<lparr>out_tool_call_id = tc_id call, out_content = [],
                                   out_failed = True\<rparr>)
                in case env_emit e (ToolResult res) w2 of
                     (flow, w3) \<Rightarrow>
                       run_tool_calls e calls (if flow = Stop then TCancelled else stop2)
                         (push_message req
                            \<lparr>msg_role = Tool, msg_content = out_content res,
                             msg_tool_call_id = Some (tc_id call)\<rparr>) w3)))"

definition after_tool_calls :: "'w env \<Rightarrow> tool_pass \<Rightarrow> string \<Rightarrow> 'w \<Rightarrow> loop_step \<times> 'w" where
  "after_tool_calls e pass final_text w =
     (case pass of
        TContinue \<Rightarrow> (LContinue, w)
      | TTerminated \<Rightarrow> (LBreak final_text, w)
      | TCancelled \<Rightarrow>
          (case note_incomplete e final_text disconnected_note w of (t, w1) \<Rightarrow> (LBreak t, w1)))"

definition handle_no_tool_calls ::
  "'w env \<Rightarrow> pending_request \<Rightarrow> nat \<Rightarrow> limits \<Rightarrow> string \<Rightarrow> 'w
     \<Rightarrow> (loop_step \<times> pending_request \<times> nat \<times> 'w) option" where
  "handle_no_tool_calls e req iterations lim final_text w =
     (case drv_follow_up (env_driver e) w of
        (None, w1) \<Rightarrow> Some (LBreak final_text, req, iterations, w1)
      | (Some follow_up, w1) \<Rightarrow>
          (case dispatch_env e PPrepareNextTurn (SPrepareNextTurn req) w1 of
             None \<Rightarrow> None
           | Some (_, st, w2) \<Rightarrow>
               (let req1 = (case st of SPrepareNextTurn r \<Rightarrow> r | _ \<Rightarrow> req);
                    req2 = push_message req1 (plain_message User follow_up);
                    n = iterations + 1
                in if max_iterations lim \<le> n
                   then (case cut_short e final_text (max_iterations lim) w2 of
                           (t, w3) \<Rightarrow> Some (LBreak t, req2, n, w3))
                   else Some (LContinue, req2, n, w2))))"

section \<open>The loop\<close>

datatype cycle_result = CFailed string | CStep loop_step pending_request nat

text \<open>One pass of the body of \<open>loop\<close> in \<open>run_turn\<close>.\<close>

definition run_cycle ::
  "parser \<Rightarrow> 'w env \<Rightarrow> limits \<Rightarrow> pending_request \<Rightarrow> nat \<Rightarrow> 'w \<Rightarrow> (cycle_result \<times> 'w) option" where
  "run_cycle pj e lim req iterations w =
     (case complete_validated pj e req w of
        (Inl reason, w1) \<Rightarrow> Some (CFailed reason, emit e (Warning reason) w1)
      | (Inr c, w1) \<Rightarrow>
          (case post_phase e PAfterResponse (cmp_text c) w1 of
             None \<Rightarrow> None
           | Some (txt, w2) \<Rightarrow>
               (let req1 = push_message req (plain_message Assistant txt)
                in case (if txt = [] then (Continue, w2) else env_emit e (TextDelta txt) w2) of
                     (flow, w3) \<Rightarrow>
                       if flow = Stop
                       then (case note_incomplete e txt disconnected_note w3 of
                               (t, w4) \<Rightarrow> Some (CStep (LBreak t) req1 iterations, w4))
                       else if cmp_tool_calls c = []
                       then (case handle_no_tool_calls e req1 iterations lim txt w3 of
                               None \<Rightarrow> None
                             | Some (step, req2, n, w4) \<Rightarrow> Some (CStep step req2 n, w4))
                       else if max_iterations lim \<le> iterations + 1
                       then (case cut_short e txt (max_iterations lim) w3 of
                               (t, w4) \<Rightarrow> Some (CStep (LBreak t) req1 (iterations + 1), w4))
                       else (case run_tool_calls e (cmp_tool_calls c) TContinue req1 w3 of
                               None \<Rightarrow> None
                             | Some (pass, req2, w4) \<Rightarrow>
                                 (case after_tool_calls e pass txt w4 of
                                    (step, w5) \<Rightarrow> Some (CStep step req2 (iterations + 1), w5))))))"

lemma run_cycle_continue:
  assumes "run_cycle pj e lim req n w = Some (CStep LContinue req' n', w')"
  shows "n' = Suc n \<and> Suc n < max_iterations lim"
  using assms
  by (auto simp: run_cycle_def handle_no_tool_calls_def Let_def
      split: prod.splits sum.splits option.splits if_splits)

function react_loop ::
  "parser \<Rightarrow> 'w env \<Rightarrow> limits \<Rightarrow> pending_request \<Rightarrow> nat \<Rightarrow> 'w \<Rightarrow> ((string + string) \<times> 'w) option" where
  "react_loop pj e lim req iterations w =
     (case run_cycle pj e lim req iterations w of
        None \<Rightarrow> None
      | Some (CFailed reason, w1) \<Rightarrow> Some (Inl reason, w1)
      | Some (CStep (LBreak t) req1 n, w1) \<Rightarrow> Some (Inr t, w1)
      | Some (CStep LContinue req1 n, w1) \<Rightarrow> react_loop pj e lim req1 n w1)"
  by pat_completeness auto
termination
  by (relation "measure (\<lambda>(pj, e, lim, req, n, w). max_iterations lim - n)")
     (auto dest!: run_cycle_continue)

declare react_loop.simps [simp del]

definition run_turn ::
  "parser \<Rightarrow> 'w env \<Rightarrow> string \<Rightarrow> string \<Rightarrow> message list \<Rightarrow> limits \<Rightarrow> string option \<Rightarrow> 'w
     \<Rightarrow> (run_result \<times> 'w) option" where
  "run_turn pj e session user_message history lim who w =
     (case build_initial_request e session user_message history who
             (tools_bind_session (env_tools e) session w) of
        None \<Rightarrow> None
      | Some (agentic, req, w1) \<Rightarrow>
          (case (if agentic then shape_all e [PSelectModel, PSelectContext, PSelectTools] req w1
                 else Some (Inr req, w1)) of
             None \<Rightarrow> None
           | Some (Inl reason, w2) \<Rightarrow> Some (Failed reason, w2)
           | Some (Inr req1, w2) \<Rightarrow>
               (case react_loop pj e lim req1 0 w2 of
                  None \<Rightarrow> None
                | Some (Inl reason, w3) \<Rightarrow> Some (Failed reason, w3)
                | Some (Inr final_text, w3) \<Rightarrow>
                    (case post_phase e PFinalize final_text w3 of
                       None \<Rightarrow> None
                     | Some (txt, w4) \<Rightarrow>
                         Some (Answered txt agentic, emit e (Done txt agentic) w4)))))"

end
