(* ===== verification/Conductor_Facts.thy ===== *)
theory Conductor_Facts
  imports Conductor
begin

text \<open>
  What every stage of the turn loop leaves in the list of calls of an observed environment:
  \<open>extends b w w'\<close> says that the list grew by calls in which every tool invocation passed the
  \<open>tool-call\<close> gate and was announced, no \<open>Done\<close> event was emitted, and at most \<open>b\<close>
  completions were requested. The lemma of a run is the composition of its stages' lemmas.
\<close>

section \<open>The gate, as a property of the list of calls\<close>

text \<open>
  \<open>gated is t\<close>: wherever \<open>t\<close> has the invocation of a tool, the calls right before it are a full round of consultations of
  all of \<open>is\<close>, in order, that began with a call to a tool and ended by letting this one through, and its announcement.
\<close>

definition gated :: "string list \<Rightarrow> obs list \<Rightarrow> bool" where
  "gated is t \<longleftrightarrow>
     (\<forall>before c res after. t = before @ OInvoke c res # after \<longrightarrow>
        (\<exists>earlier round call st. before = earlier @ round @ [OEmit (ToolInvoked c)] \<and>
           round_cleared is (SToolCall call) round st \<and> c = (case st of SToolCall c' \<Rightarrow> c' | _ \<Rightarrow> call)))"

lemma gated_append: "gated is s \<Longrightarrow> gated is t \<Longrightarrow> gated is (s @ t)"
proof (unfold gated_def, intro allI impI)
  fix before c res after
  assume s: "\<forall>before c res after. s = before @ OInvoke c res # after \<longrightarrow>
      (\<exists>earlier round call st. before = earlier @ round @ [OEmit (ToolInvoked c)] \<and>
         round_cleared is (SToolCall call) round st \<and> c = (case st of SToolCall c' \<Rightarrow> c' | _ \<Rightarrow> call))"
    and t: "\<forall>before c res after. t = before @ OInvoke c res # after \<longrightarrow>
      (\<exists>earlier round call st. before = earlier @ round @ [OEmit (ToolInvoked c)] \<and>
         round_cleared is (SToolCall call) round st \<and> c = (case st of SToolCall c' \<Rightarrow> c' | _ \<Rightarrow> call))"
    and split: "s @ t = before @ OInvoke c res # after"
  from split consider (left) us where "s = before @ OInvoke c res # us"
    | (right) us where "before = s @ us" "t = us @ OInvoke c res # after"
    by (auto simp: append_eq_append_conv2 append_eq_Cons_conv)
  then show "\<exists>earlier round call st. before = earlier @ round @ [OEmit (ToolInvoked c)] \<and>
      round_cleared is (SToolCall call) round st \<and> c = (case st of SToolCall c' \<Rightarrow> c' | _ \<Rightarrow> call)"
  proof cases
    case left
    with s show ?thesis by blast
  next
    case right
    with t obtain earlier round call st where "us = earlier @ round @ [OEmit (ToolInvoked c)]"
      "round_cleared is (SToolCall call) round st" "c = (case st of SToolCall c' \<Rightarrow> c' | _ \<Rightarrow> call)"
      by blast
    with right(1) show ?thesis by (intro exI [of _ "s @ earlier"] exI) auto
  qed
qed

lemma gated_quiet: "invoked t = [] \<Longrightarrow> gated is t"
  by (auto simp: gated_def)

lemma gated_invocation:
  assumes "round_cleared is (SToolCall call) round st" "c = (case st of SToolCall c' \<Rightarrow> c' | _ \<Rightarrow> call)"
  shows "gated is (round @ [OEmit (ToolInvoked c), OInvoke c res])"
proof (unfold gated_def, intro allI impI)
  fix before c' res' after
  assume split: "round @ [OEmit (ToolInvoked c), OInvoke c res] = before @ OInvoke c' res' # after"
  have no: "OInvoke c' res' \<notin> set round"
    using round_cleared_consults [OF assms(1)] by (auto simp: consults_def)
  have "before = round @ [OEmit (ToolInvoked c)] \<and> c' = c"
  proof (cases "after = []")
    case True
    with split show ?thesis
      by (metis append.assoc append_Cons append_Nil append1_eq_conv obs.inject(7))
  next
    case False
    then obtain after' x where "after = after' @ [x]" by (metis rev_exhaust)
    with split have "round @ [OEmit (ToolInvoked c)] = before @ OInvoke c' res' # after'"
      by (metis append.assoc append_Cons append_Nil butlast_snoc)
    then have "OInvoke c' res' \<in> set (round @ [OEmit (ToolInvoked c)])" by simp
    with no show ?thesis by simp
  qed
  with assms show "\<exists>earlier round call st. before = earlier @ round @ [OEmit (ToolInvoked c')] \<and>
      round_cleared is (SToolCall call) round st \<and> c' = (case st of SToolCall c' \<Rightarrow> c' | _ \<Rightarrow> call)"
    by (intro exI [of _ "[]"] exI [of _ round] exI [of _ call] exI [of _ st]) auto
qed

section \<open>What a stage leaves behind\<close>

definition no_done :: "event list \<Rightarrow> bool" where
  "no_done evs \<longleftrightarrow> (\<forall>s a. Done s a \<notin> set evs)"

definition stage_ok :: "string list \<Rightarrow> nat \<Rightarrow> obs list \<Rightarrow> bool" where
  "stage_ok is b t \<longleftrightarrow>
     gated is t \<and> announced t = invoked t \<and> no_done (emitted t) \<and> completions t \<le> b"

definition extends :: "'w env \<Rightarrow> nat \<Rightarrow> 'w \<times> obs list \<Rightarrow> 'w \<times> obs list \<Rightarrow> bool" where
  "extends e b wt wt' \<longleftrightarrow>
     (\<exists>t. snd wt' = snd wt @ t \<and> stage_ok (gatekeepers (env_interceptors e)) b t)"

lemma stage_ok_Nil [simp]: "stage_ok is b []"
  by (simp add: stage_ok_def no_done_def gated_quiet)

lemma stage_ok_append: "stage_ok is a s \<Longrightarrow> stage_ok is b t \<Longrightarrow> stage_ok is (a + b) (s @ t)"
  by (auto simp: stage_ok_def no_done_def gated_append)

lemma stage_ok_mono: "stage_ok is a t \<Longrightarrow> a \<le> b \<Longrightarrow> stage_ok is b t"
  by (simp add: stage_ok_def)

lemma extends_refl [simp]: "extends e b wt wt"
  by (auto simp: extends_def intro: exI [of _ "[]"])

lemma extends_trans: "extends e a w1 w2 \<Longrightarrow> extends e b w2 w3 \<Longrightarrow> extends e (a + b) w1 w3"
  by (force simp: extends_def intro: stage_ok_append)

lemma extends_mono: "extends e a w1 w2 \<Longrightarrow> a \<le> b \<Longrightarrow> extends e b w1 w2"
  by (auto simp: extends_def intro: stage_ok_mono)

lemma extends_trans0: "extends e b w1 w2 \<Longrightarrow> extends e 0 w2 w3 \<Longrightarrow> extends e b w1 w3"
  using extends_trans [of e b w1 w2 0 w3] by simp

lemma extends_0_trans: "extends e 0 w1 w2 \<Longrightarrow> extends e b w2 w3 \<Longrightarrow> extends e b w1 w3"
  using extends_trans [of e 0 w1 w2 b w3] by simp

definition plain_event :: "event \<Rightarrow> bool" where
  "plain_event ev \<longleftrightarrow> (\<forall>c. ev \<noteq> ToolInvoked c) \<and> (\<forall>s a. ev \<noteq> Done s a)"

lemma plain_event_simps [simp]:
  "plain_event (Warning s)" "plain_event (TextDelta s)" "plain_event (ToolResult r)"
  by (simp_all add: plain_event_def)

lemma announced_plain: "plain_event ev \<Longrightarrow> announced [OEmit ev] = []"
  by (cases ev) (auto simp: plain_event_def)

lemma extends_emit:
  assumes "plain_event ev"
  shows "extends e 0 wt (emit (observe e) ev wt)"
  unfolding extends_def
  by (rule exI [of _ "[OEmit ev]"])
     (use assms announced_plain [OF assms] in
       \<open>auto simp: emit_def stage_ok_def no_done_def plain_event_def gated_quiet\<close>)

lemma extends_warn [intro]:
  "extends e b w1 w2 \<Longrightarrow> extends e b w1 (emit (observe e) (Warning s) w2)"
  by (rule extends_trans0 [OF _ extends_emit]) simp_all

lemma extends_env_emit:
  assumes "plain_event ev" "env_emit (observe e) ev wt = (f, wt')"
  shows "extends e 0 wt wt'"
  using extends_emit [OF assms(1), of e wt] assms(2) by (simp add: emit_def)

lemma extends_dispatch:
  assumes "dispatch_env (observe e) ph st wt = Some (out, st', wt')" "ph \<noteq> PToolCall"
  shows "extends e 0 wt wt'"
proof -
  from assms(1) obtain t where "snd wt' = snd wt @ t" "consults ph t"
    by (rule dispatch_env_consults)
  with assms(2) show ?thesis
    unfolding extends_def
    by (intro exI [of _ t]) (auto simp: stage_ok_def no_done_def gated_quiet)
qed

lemma extends_follow_up:
  "drv_follow_up (env_driver (observe e)) wt = (f, wt') \<Longrightarrow> extends e 0 wt wt'"
  unfolding extends_def
  by (intro exI [of _ "[OFollowUp f]"]) (auto simp: stage_ok_def no_done_def gated_quiet)

lemma extends_effective: "extends e 0 wt (env_on_effective (observe e) s wt)"
  unfolding extends_def
  by (intro exI [of _ "[OEffective s]"]) (auto simp: stage_ok_def no_done_def gated_quiet)

lemma extends_bind: "extends e 0 wt (tools_bind_session (env_tools (observe e)) s wt)"
  unfolding extends_def
  by (intro exI [of _ "[OBind s]"]) (auto simp: stage_ok_def no_done_def gated_quiet)

section \<open>Stage by stage\<close>

lemma extends_try_providers:
  "try_providers (observe e) (map obs_completer ps) req fs wt = (r, wt') \<Longrightarrow>
     extends e (length ps) wt wt'"
proof (induction ps arbitrary: fs wt)
  case Nil
  then show ?case by simp
next
  case (Cons p ps)
  let ?r = "fst (prov_complete p req (fst wt))"
  let ?w1 = "(snd (prov_complete p req (fst wt)), snd wt @ [OComplete (prov_id p) req ?r])"
  have c: "extends e 1 wt ?w1"
    unfolding extends_def
    by (intro exI [of _ "[OComplete (prov_id p) req ?r]"]) (auto simp: stage_ok_def no_done_def gated_quiet)
  show ?case
  proof (cases ?r)
    case (Inr d)
    with Cons.prems have "wt' = ?w1" by auto
    with c show ?thesis by (auto intro: extends_mono)
  next
    case (Inl err)
    let ?note = "prov_id p @ '': '' @ err"
    let ?w2 = "emit (observe e) (Warning (fallback_warning ?note)) ?w1"
    from Inl Cons.prems have
      "try_providers (observe e) (map obs_completer ps) req (fs @ [?note]) ?w2 = (r, wt')"
      by (simp add: Let_def)
    from extends_trans [OF extends_warn [OF c] Cons.IH [OF this]] show ?thesis by simp
  qed
qed

lemma extends_fallback:
  "complete_with_fallback (observe e) req wt = (r, wt') \<Longrightarrow>
     extends e (length (env_providers e)) wt wt'"
  by (auto simp: complete_with_fallback_def extends_try_providers split: if_splits)

lemma extends_attempts:
  "attempts pj (observe e) k req wt = (r, wt') \<Longrightarrow>
     extends e (Suc k * length (env_providers e)) wt wt'"
proof (induction k arbitrary: req wt)
  let ?np = "length (env_providers e)"
  let ?warn = "\<lambda>c w. if was_truncated c
     then emit (observe e) (Warning truncated_warning) w else w"
  have first: "extends e ?np wt (?warn c w1)"
    if "complete_with_fallback (observe e) req wt = (Inr c, w1)" for req wt c w1
    using extends_fallback [OF that] by auto
  {
    case 0
    then show ?case
      by (subst (asm) attempts.simps)
         (auto simp: Let_def split: prod.splits sum.splits dest: extends_fallback first)
  next
    case (Suc k)
    obtain c1 w1 where f: "complete_with_fallback (observe e) req wt = (c1, w1)"
      by (rule prod.exhaust)
    show ?case
    proof (cases c1)
      case (Inl err)
      with Suc.prems f have "wt' = w1" by (subst (asm) attempts.simps) simp
      with extends_fallback [OF f] show ?thesis by (auto intro: extends_mono)
    next
      case (Inr c)
      note one = first [OF f [unfolded Inr]]
      show ?thesis
      proof (cases "validate pj c")
        case (Inr u)
        with Suc.prems f \<open>c1 = Inr c\<close> have "wt' = ?warn c w1"
          by (subst (asm) attempts.simps) (simp add: Let_def)
        with one show ?thesis by (auto intro: extends_mono)
      next
        case (Inl reason)
        let ?w3 = "emit (observe e) (Warning (retry_warning reason)) (?warn c w1)"
        from Suc.prems f \<open>c1 = Inr c\<close> Inl
        have "attempts pj (observe e) k (correction req c reason) ?w3 = (r, wt')"
          by (subst (asm) attempts.simps) (simp add: Let_def)
        from extends_trans [OF extends_warn [OF one] Suc.IH [OF this]] show ?thesis by simp
      qed
    qed
  }
qed

definition per_cycle :: "'w env \<Rightarrow> nat" where
  "per_cycle e = Suc MAX_RETRIES * length (env_providers e)"

lemma extends_complete_validated:
  "complete_validated pj (observe e) req wt = (r, wt') \<Longrightarrow> extends e (per_cycle e) wt wt'"
  unfolding complete_validated_def per_cycle_def by (rule extends_attempts)

lemma extends_shape:
  "shape (observe e) ph req wt = Some (r, wt') \<Longrightarrow> extends e 0 wt wt'"
  by (cases ph)
     (auto simp: shape_def split: option.splits outcome.splits dest!: extends_dispatch)

lemma extends_shape_all:
  "shape_all (observe e) phs req wt = Some (r, wt') \<Longrightarrow> extends e 0 wt wt'"
proof (induction phs arbitrary: req wt)
  case Nil
  then show ?case by simp
next
  case (Cons ph phs)
  then obtain r1 w1 where s: "shape (observe e) ph req wt = Some (r1, w1)"
    by (auto split: option.splits)
  note one = extends_shape [OF s]
  show ?case
  proof (cases r1)
    case (Inl reason)
    with Cons.prems s one show ?thesis by simp
  next
    case (Inr req1)
    with Cons.prems s have "shape_all (observe e) phs req1 w1 = Some (r, wt')" by simp
    from one Cons.IH [OF this] show ?thesis by (rule extends_0_trans)
  qed
qed

lemma extends_post_phase:
  "post_phase (observe e) ph s wt = Some (r, wt') \<Longrightarrow> extends e 0 wt wt'"
  by (cases ph) (auto simp: post_phase_def split: option.splits dest!: extends_dispatch)

lemma extends_initial:
  assumes "build_initial_request (observe e) session msg history who wt = Some (a, req, wt')"
  shows "extends e 0 wt wt'"
  using assms
  by (auto simp: build_initial_request_def Let_def simp del: observe_simps split: option.splits
      dest!: extends_dispatch intro: extends_0_trans extends_effective)

lemma extends_note_incomplete:
  "note_incomplete (observe e) tx note wt = (s, wt') \<Longrightarrow> extends e 0 wt wt'"
  by (auto simp: note_incomplete_def Let_def)

lemma extends_cut_short: "cut_short (observe e) tx cap wt = (s, wt') \<Longrightarrow> extends e 0 wt wt'"
  unfolding cut_short_def by (rule extends_note_incomplete)

lemma extends_after_tool_calls:
  "after_tool_calls (observe e) pass tx wt = (st, wt') \<Longrightarrow> extends e 0 wt wt'"
  by (auto simp: after_tool_calls_def split: tool_pass.splits prod.splits
      dest: extends_note_incomplete)

lemma extends_handle_no_tool_calls:
  assumes "handle_no_tool_calls (observe e) req n lim tx wt = Some (st, req', n', wt')"
  shows "extends e 0 wt wt'"
proof -
  obtain f w1 where f: "drv_follow_up (env_driver (observe e)) wt = (f, w1)"
    by (rule prod.exhaust)
  note one = extends_follow_up [OF f]
  show ?thesis
  proof (cases f)
    case None
    with assms f one show ?thesis by (simp add: handle_no_tool_calls_def del: observe_simps)
  next
    case (Some m)
    with assms f obtain out st1 w2 where
      d: "dispatch_env (observe e) PPrepareNextTurn (SPrepareNextTurn req) w1 = Some (out, st1, w2)"
      by (auto simp: handle_no_tool_calls_def simp del: observe_simps split: option.splits)
    have two: "extends e 0 wt w2"
      using one extends_dispatch [OF d] by (auto intro: extends_0_trans)
    from assms f Some d show ?thesis
      by (auto simp: handle_no_tool_calls_def Let_def simp del: observe_simps
          split: if_splits prod.splits intro: two dest!: extends_cut_short intro: extends_0_trans [OF two])
  qed
qed

subsection \<open>The tool gate\<close>

lemma extends_gate_and_invoke:
  assumes "gate_and_invoke (observe e) call stop wt = Some (iv, stop', wt')"
  shows "extends e 0 wt wt'"
proof -
  from assms obtain out st w1 where
    d: "dispatch_env (observe e) PToolCall (SToolCall call) wt = Some (out, st, w1)"
    by (auto simp: gate_and_invoke_def split: option.splits)
  let ?gs = "gatekeepers (env_interceptors e)"
  from d obtain t where t: "snd w1 = snd wt @ t" "consults PToolCall t"
    "out = Proceeded \<longrightarrow> round_cleared ?gs (SToolCall call) t st"
    by (rule dispatch_env_consults) auto
  show ?thesis
  proof (cases out)
    case (Blocked reason)
    let ?ev = "Warning (denied_warning (tc_name call) reason)"
    from Blocked assms d have "wt' = emit (observe e) ?ev w1" by (simp add: gate_and_invoke_def)
    then have "snd wt' = snd wt @ t @ [OEmit ?ev]" using t(1) by (simp add: emit_def)
    moreover have "stage_ok ?gs 0 (t @ [OEmit ?ev])"
      using t(2) by (auto simp: stage_ok_def no_done_def gated_quiet)
    ultimately show ?thesis unfolding extends_def by blast
  next
    case Proceeded
    let ?c = "case st of SToolCall c \<Rightarrow> c | _ \<Rightarrow> call"
    let ?r = "fst (tools_invoke_asking (env_tools e) ?c (env_driver e) (snd (env_emit e (ToolInvoked ?c) (fst w1))))"
    from Proceeded assms d have
      "snd wt' = snd w1 @ [OEmit (ToolInvoked ?c), OInvoke ?c ?r]"
      by (auto simp: gate_and_invoke_def Let_def)
    moreover have "gated ?gs (t @ [OEmit (ToolInvoked ?c), OInvoke ?c ?r])"
      by (rule gated_invocation [of ?gs call t st]) (use t(3) Proceeded in simp_all)
    then have "stage_ok ?gs 0 (t @ [OEmit (ToolInvoked ?c), OInvoke ?c ?r])"
      using t(2) by (auto simp: stage_ok_def no_done_def)
    ultimately show ?thesis using t(1) unfolding extends_def by (metis append.assoc)
  qed
qed

lemma extends_run_tool_calls:
  "run_tool_calls (observe e) calls stop req wt = Some (pass, req', wt') \<Longrightarrow> extends e 0 wt wt'"
proof (induction calls arbitrary: stop req wt)
  case Nil
  then show ?case by simp
next
  case (Cons call calls)
  then obtain iv stop1 w1 where g: "gate_and_invoke (observe e) call stop wt = Some (iv, stop1, w1)"
    by (auto split: option.splits)
  let ?st = "SToolResult \<lparr>out_tool_call_id = tc_id call, out_content = inv_content iv,
                          out_failed = inv_failed iv\<rparr>"
  from Cons.prems g obtain out st w2 where
    d: "dispatch_env (observe e) PToolResult ?st w1 = Some (out, st, w2)"
    by (auto split: option.splits)
  let ?res = "case st of SToolResult o' \<Rightarrow> o'
    | _ \<Rightarrow> \<lparr>out_tool_call_id = tc_id call, out_content = [], out_failed = True\<rparr>"
  obtain f w3 where f: "env_emit (observe e) (ToolResult ?res) w2 = (f, w3)" by (rule prod.exhaust)
  have "extends e 0 wt w3"
    using extends_gate_and_invoke [OF g] extends_dispatch [OF d] extends_env_emit [OF _ f]
    by (auto intro: extends_0_trans)
  moreover from Cons.prems g d f have "\<exists>stop' req1.
      run_tool_calls (observe e) calls stop' req1 w3 = Some (pass, req', wt')"
    by (auto simp: Let_def simp del: observe_simps)
  ultimately show ?case using Cons.IH by (blast intro: extends_0_trans)
qed

subsection \<open>One cycle and the loop\<close>

lemma extends_run_cycle:
  assumes "run_cycle pj (observe e) lim req n wt = Some (res, wt')"
  shows "extends e (per_cycle e) wt wt'"
proof -
  obtain r w1 where c: "complete_validated pj (observe e) req wt = (r, w1)" by (rule prod.exhaust)
  note one = extends_complete_validated [OF c]
  show ?thesis
  proof (cases r)
    case (Inl reason)
    with assms c one show ?thesis by (auto simp: run_cycle_def)
  next
    case (Inr cmp)
    with assms c obtain tx w2 where
      p: "post_phase (observe e) PAfterResponse (cmp_text cmp) w1 = Some (tx, w2)"
      by (auto simp: run_cycle_def split: option.splits)
    obtain f w3 where
      f: "(if tx = [] then (Continue, w2) else env_emit (observe e) (TextDelta tx) w2) = (f, w3)"
      by (rule prod.exhaust)
    have "extends e 0 w2 w3"
      using f extends_env_emit [of "TextDelta tx" e w2 f w3]
      by (simp del: observe_simps split: if_splits)
    then have base: "extends e (per_cycle e) wt w3"
      using one extends_post_phase [OF p] by (blast intro: extends_trans0)
    have rest: "extends e 0 w3 wt'"
      using assms c Inr p f
      by (auto simp: run_cycle_def Let_def simp del: observe_simps
          split: if_splits option.splits prod.splits
          dest!: extends_note_incomplete extends_cut_short extends_handle_no_tool_calls
            extends_run_tool_calls extends_after_tool_calls
          intro: extends_0_trans)
    from base rest show ?thesis by (rule extends_trans0)
  qed
qed

lemma extends_react_loop:
  "react_loop pj (observe e) lim req n wt = Some (r, wt') \<Longrightarrow>
     extends e (max 1 (max_iterations lim - n) * per_cycle e) wt wt'"
proof (induction pj "observe e" lim req n wt rule: react_loop.induct)
  case (1 pj lim req n wt)
  from "1.prems" obtain res w1 where c: "run_cycle pj (observe e) lim req n wt = Some (res, w1)"
    by (subst (asm) react_loop.simps) (auto split: option.splits)
  note one = extends_run_cycle [OF c]
  show ?case
  proof (cases "\<exists>req1 n1. res = CStep LContinue req1 n1")
    case False
    with "1.prems" c have "wt' = w1"
      by (subst (asm) react_loop.simps) (auto split: cycle_result.splits loop_step.splits)
    with one show ?thesis by (auto intro: extends_mono)
  next
    case True
    then obtain req1 n1 where res: "res = CStep LContinue req1 n1" by blast
    with c have n1: "n1 = Suc n" "Suc n < max_iterations lim" by (auto dest: run_cycle_continue)
    from "1.prems" c res have rec: "react_loop pj (observe e) lim req1 n1 w1 = Some (r, wt')"
      by (subst (asm) react_loop.simps) simp
    have "max_iterations lim - n = Suc (max_iterations lim - n1)" "1 \<le> max_iterations lim - n1"
      using n1 by auto
    with extends_trans [OF one "1.hyps" [OF c refl res refl rec]] show ?thesis
      by (simp add: max_def)
  qed
qed

end
