(* ===== verification/Turn_Properties.thy ===== *)
theory Turn_Properties
  imports Conductor_Facts
begin

text \<open>
  The properties of the turn loop: it returns, its tool calls pass the gate, its provider
  calls are bounded, and its events and messages pair up with what happened. The witnesses
  run it on \<open>demo_env\<close>, a small environment with a gate that asks, one provider that calls a
  tool once, and a driver that says yes.
\<close>

section \<open>Returning\<close>

lemma shape_returns:
  "\<forall>i \<in> set (env_interceptors e). settles i \<Longrightarrow> \<exists>r. shape e ph req w = Some r"
proof -
  assume s: "\<forall>i \<in> set (env_interceptors e). settles i"
  show ?thesis
  proof (cases "shaping_state ph req")
    case None
    then show ?thesis by (simp add: shape_def)
  next
    case (Some st)
    from dispatch_env_returns [OF s, of ph st w] obtain out st1 w1 where
      "dispatch_env e ph st w = Some (out, st1, w1)" by auto
    with Some show ?thesis by (cases out) (auto simp: shape_def split: option.splits)
  qed
qed

lemma shape_all_returns:
  "\<forall>i \<in> set (env_interceptors e). settles i \<Longrightarrow> \<exists>r. shape_all e phs req w = Some r"
proof (induction phs arbitrary: req w)
  case Nil
  then show ?case by simp
next
  case (Cons ph phs)
  from shape_returns [OF Cons.prems, of ph req w] obtain r w1 where
    "shape e ph req w = Some (r, w1)" by auto
  with Cons show ?case by (cases r) auto
qed

lemma post_phase_returns:
  "\<forall>i \<in> set (env_interceptors e). settles i \<Longrightarrow> \<exists>s' w'. post_phase e ph s w = Some (s', w')"
proof -
  assume s: "\<forall>i \<in> set (env_interceptors e). settles i"
  show ?thesis
  proof (cases "post_state ph s")
    case None
    then show ?thesis by (simp add: post_phase_def)
  next
    case (Some st)
    from dispatch_env_returns [OF s, of ph st w] Some show ?thesis
      by (auto simp: post_phase_def)
  qed
qed

lemma gate_and_invoke_returns:
  "\<forall>i \<in> set (env_interceptors e). settles i \<Longrightarrow> \<exists>r. gate_and_invoke e call stop w = Some r"
proof -
  assume s: "\<forall>i \<in> set (env_interceptors e). settles i"
  from dispatch_env_returns [OF s, of PToolCall "SToolCall call" w] obtain out st1 w1 where
    "dispatch_env e PToolCall (SToolCall call) w = Some (out, st1, w1)" by auto
  then show ?thesis
    by (cases out) (auto simp: gate_and_invoke_def Let_def split: prod.splits)
qed

lemma run_tool_calls_returns:
  assumes s: "\<forall>i \<in> set (env_interceptors e). settles i"
  shows "\<exists>p r w'. run_tool_calls e calls stop req w = Some (p, r, w')"
proof (induction calls arbitrary: stop req w)
  case Nil
  then show ?case by simp
next
  case (Cons call calls)
  from gate_and_invoke_returns [OF s, of call stop w] obtain iv stop1 w1 where
    g: "gate_and_invoke e call stop w = Some (iv, stop1, w1)" by auto
  from dispatch_env_returns [OF s] obtain out st w2 where
    "dispatch_env e PToolResult (SToolResult \<lparr>out_tool_call_id = tc_id call,
       out_content = inv_content iv, out_failed = inv_failed iv\<rparr>) w1 = Some (out, st, w2)"
    by (metis prod_cases3)
  with g Cons show ?case by (simp add: Let_def split: prod.splits)
qed

lemma handle_no_tool_calls_returns:
  assumes s: "\<forall>i \<in> set (env_interceptors e). settles i"
  shows "\<exists>r. handle_no_tool_calls e req n lim s0 w = Some r"
proof -
  obtain f w1 where f: "drv_follow_up (env_driver e) w = (f, w1)" by (rule prod.exhaust)
  show ?thesis
  proof (cases f)
    case None
    with f show ?thesis by (simp add: handle_no_tool_calls_def)
  next
    case (Some m)
    from dispatch_env_returns [OF s, of PPrepareNextTurn "SPrepareNextTurn req" w1]
    obtain out st w2 where
      "dispatch_env e PPrepareNextTurn (SPrepareNextTurn req) w1 = Some (out, st, w2)" by auto
    with f Some show ?thesis
      by (auto simp: handle_no_tool_calls_def Let_def split: prod.splits)
  qed
qed

lemma run_cycle_returns:
  assumes s: "\<forall>i \<in> set (env_interceptors e). settles i"
  shows "\<exists>r. run_cycle pj e lim req n w = Some r"
proof -
  obtain c w1 where c: "complete_validated pj e req w = (c, w1)" by (rule prod.exhaust)
  show ?thesis
  proof (cases c)
    case (Inl reason)
    with c show ?thesis by (simp add: run_cycle_def)
  next
    case (Inr d)
    from post_phase_returns [OF s, of PAfterResponse "cmp_text d" w1] obtain tx w2 where
      p: "post_phase e PAfterResponse (cmp_text d) w1 = Some (tx, w2)" by auto
    obtain f w3 where f: "(if tx = [] then (Continue, w2) else env_emit e (TextDelta tx) w2) = (f, w3)"
      by (rule prod.exhaust)
    from handle_no_tool_calls_returns [OF s] obtain st req2 n2 w4 where
      "handle_no_tool_calls e (push_message req (plain_message Assistant tx)) n lim tx w3
         = Some (st, req2, n2, w4)" by (metis prod_cases4)
    moreover from run_tool_calls_returns [OF s] obtain pa rq w5 where
      "run_tool_calls e (cmp_tool_calls d) TContinue
         (push_message req (plain_message Assistant tx)) w3 = Some (pa, rq, w5)" by blast
    ultimately show ?thesis using c Inr p f
      by (auto simp: run_cycle_def Let_def split: prod.splits)
  qed
qed

lemma react_loop_returns:
  assumes s: "\<forall>i \<in> set (env_interceptors e). settles i"
  shows "\<exists>r w'. react_loop pj e lim req n w = Some (r, w')"
  using s
proof (induction pj e lim req n w rule: react_loop.induct)
  case (1 pj e lim req n w)
  from run_cycle_returns [OF "1.prems", of pj lim req n w] obtain res w1 where
    c: "run_cycle pj e lim req n w = Some (res, w1)" by auto
  show ?case
  proof (cases "\<exists>req1 n1. res = CStep LContinue req1 n1")
    case False
    with c show ?thesis
      by (subst react_loop.simps) (auto split: cycle_result.splits loop_step.splits)
  next
    case True
    then obtain req1 n1 where res: "res = CStep LContinue req1 n1" by blast
    from "1.IH" [OF c refl res refl "1.prems"] c res show ?thesis
      by (subst react_loop.simps) simp
  qed
qed

lemma run_turn_returns:
  assumes s: "\<forall>i \<in> set (env_interceptors e). settles i"
  shows "\<exists>r w'. run_turn pj e session msg history lim who w = Some (r, w')"
proof -
  let ?st = "SBeforeLoop \<lparr>ut_session = session, ut_user_message = msg, ut_principal = who\<rparr>"
  from dispatch_env_returns [OF s] obtain out st w1 where
    "dispatch_env e PBeforeLoop ?st (tools_bind_session (env_tools e) session w)
       = Some (out, st, w1)" by (metis prod_cases3)
  then obtain a req w2 where b: "build_initial_request e session msg history who
      (tools_bind_session (env_tools e) session w) = Some (a, req, w2)"
    by (simp add: build_initial_request_def Let_def)
  obtain r1 w3 where sh: "(if a then shape_all e [PSelectModel, PSelectContext, PSelectTools] req w2
      else Some (Inr req, w2)) = Some (r1, w3)"
    using shape_all_returns [OF s, of "[PSelectModel, PSelectContext, PSelectTools]" req w2]
    by (cases a) auto
  show ?thesis
  proof (cases r1)
    case (Inl reason)
    with b sh show ?thesis by (simp add: run_turn_def)
  next
    case (Inr req1)
    from react_loop_returns [OF s] obtain r2 w4 where
      l: "react_loop pj e lim req1 0 w3 = Some (r2, w4)" by blast
    show ?thesis
    proof (cases r2)
      case (Inl reason)
      with b sh \<open>r1 = Inr req1\<close> l show ?thesis by (simp add: run_turn_def)
    next
      case (Inr s1)
      from post_phase_returns [OF s] obtain tx w5 where
        "post_phase e PFinalize s1 w4 = Some (tx, w5)" by blast
      with b sh \<open>r1 = Inr req1\<close> l Inr show ?thesis by (simp add: run_turn_def)
    qed
  qed
qed

section \<open>The list of calls of a whole turn\<close>

lemma run_turn_extends:
  assumes "run_turn pj (observe e) session msg history lim who wt = Some (r, wt')"
  shows "\<exists>w3. extends e (max 1 (max_iterations lim) * per_cycle e) wt w3 \<and>
     wt' = (case r of Answered s a \<Rightarrow> emit (observe e) (Done s a) w3 | Failed _ \<Rightarrow> w3)"
proof -
  let ?b = "max 1 (max_iterations lim) * per_cycle e"
  let ?w0 = "tools_bind_session (env_tools (observe e)) session wt"
  from assms obtain a req w1 where
    b: "build_initial_request (observe e) session msg history who ?w0 = Some (a, req, w1)"
    by (auto simp: run_turn_def simp del: observe_simps obs_party_simps split: option.splits)
  have e1: "extends e 0 wt w1"
    using extends_bind extends_initial [OF b] by (rule extends_0_trans)
  from assms b obtain r1 w2 where
    sh: "(if a then shape_all (observe e) [PSelectModel, PSelectContext, PSelectTools] req w1
          else Some (Inr req, w1)) = Some (r1, w2)"
    by (auto simp: run_turn_def simp del: observe_simps obs_party_simps shape_all.simps
        split: option.splits)
  have e2: "extends e 0 wt w2"
    using e1 sh by (cases a) (auto simp del: shape_all.simps dest: extends_shape_all intro: extends_0_trans)
  show ?thesis
  proof (cases r1)
    case (Inl reason)
    with assms b sh have "wt' = w2" "r = Failed reason"
      by (auto simp: run_turn_def simp del: observe_simps obs_party_simps shape_all.simps)
    with extends_mono [OF e2, of ?b] show ?thesis by (intro exI [of _ w2]) simp
  next
    case (Inr req1)
    from assms b sh Inr obtain r2 w3 where
      l: "react_loop pj (observe e) lim req1 0 w2 = Some (r2, w3)"
      by (auto simp: run_turn_def simp del: observe_simps obs_party_simps shape_all.simps
          split: option.splits)
    have e3: "extends e ?b wt w3"
      using e2 extends_react_loop [OF l] by (auto intro: extends_0_trans)
    show ?thesis
    proof (cases r2)
      case (Inl reason)
      with assms b sh \<open>r1 = Inr req1\<close> l have "wt' = w3" "r = Failed reason"
        by (auto simp: run_turn_def simp del: observe_simps obs_party_simps shape_all.simps)
      with e3 show ?thesis by (intro exI [of _ w3]) simp
    next
      case (Inr s1)
      with assms b sh \<open>r1 = Inr req1\<close> l obtain tx w4 where
        p: "post_phase (observe e) PFinalize s1 w3 = Some (tx, w4)"
           "r = Answered tx a" "wt' = emit (observe e) (Done tx a) w4"
        by (auto simp: run_turn_def simp del: observe_simps obs_party_simps shape_all.simps
            split: option.splits)
      from extends_trans0 [OF e3 extends_post_phase [OF p(1)]] p(2,3) show ?thesis
        by (intro exI [of _ w4]) simp
    qed
  qed
qed

lemma run_turn_calls:
  assumes "run_turn pj (observe e) session msg history lim who (w, []) = Some (r, (w', t))"
  obtains t0 where "stage_ok (gatekeepers (env_interceptors e)) (max 1 (max_iterations lim) * per_cycle e) t0"
    "t = t0 @ (case r of Answered s a \<Rightarrow> [OEmit (Done s a)] | Failed _ \<Rightarrow> [])"
proof -
  from run_turn_extends [OF assms] obtain w3 where
    "extends e (max 1 (max_iterations lim) * per_cycle e) (w, []) w3"
    "(w', t) = (case r of Answered s a \<Rightarrow> emit (observe e) (Done s a) w3 | Failed _ \<Rightarrow> w3)"
    by blast
  then show thesis
    using that by (cases r) (auto simp: extends_def emit_def)
qed

section \<open>A small environment for the witnesses\<close>

definition demo_call :: tool_call where
  "demo_call = \<lparr>tc_id = ''1'', tc_name = ''fs'', tc_arguments = ''{}''\<rparr>"

definition demo_prompt :: user_prompt where
  "demo_prompt = \<lparr>up_question = ''run it?'', up_options = [''yes'', ''no''],
                  up_default_answer = ''no''\<rparr>"

text \<open>The gate asks once and then lets the call through.\<close>

definition demo_gate :: "nat interceptor" where
  "demo_gate = \<lparr>icp_id = ''gate'', icp_phases = [PToolCall],
     icp_intercept = (\<lambda>inp n. (case in_answer inp of
        None \<Rightarrow> (Inr (Ask demo_prompt), n) | Some a \<Rightarrow> (Inr Proceed, n)))\<rparr>"

text \<open>The provider calls the tool in its first completion and answers in its second.\<close>

definition demo_provider :: "nat completer" where
  "demo_provider = \<lparr>prov_id = ''p'',
     prov_complete = (\<lambda>req n. (Inr \<lparr>cmp_text = (if n = 0 then [] else ''done''),
        cmp_tool_calls = (if n = 0 then [demo_call] else []), cmp_finish_reason = ''stop''\<rparr>, n + 1))\<rparr>"

definition demo_env :: "nat env" where
  "demo_env = \<lparr>env_interceptors = [demo_gate], env_providers = [demo_provider],
     env_tools = \<lparr>tools_bind_session = (\<lambda>_ n. n),
       tools_invoke_asking = (\<lambda>c d n. (Some \<lparr>inv_content = ''ok'', inv_failed = False\<rparr>, n))\<rparr>,
     env_driver = \<lparr>drv_ask = (\<lambda>p n. (''yes'', n)), drv_follow_up = (\<lambda>n. (None, n))\<rparr>,
     env_emit = NoSink, env_on_effective = (\<lambda>_ n. n)\<rparr>"

definition demo_parser :: parser where
  "demo_parser s = Inr (JObj [])"

definition demo_limits :: limits where
  "demo_limits = \<lparr>max_iterations = DEFAULT_MAX_ITERATIONS\<rparr>"

lemma demo_settles: "\<forall>i \<in> set (env_interceptors demo_env). settles i"
  by (auto simp: demo_env_def demo_gate_def settles_def split: option.splits)

lemma demo_settles_observed: "\<forall>i \<in> set (env_interceptors (observe demo_env)). settles i"
  using demo_settles by simp

lemma demo_run:
  obtains r w' t where
    "run_turn demo_parser (observe demo_env) ''s'' ''hi'' [] demo_limits None (0, [])
       = Some (r, (w', t))"
  using run_turn_returns [OF demo_settles_observed] by (metis surj_pair)

section \<open>Properties\<close>

text \<open>
  C2 (turn_returns): a turn returns, whatever the providers, tools and driver do, as long as no
  interceptor asks again once it has been answered.
\<close>

theorem turn_returns:
  assumes "\<forall>i \<in> set (env_interceptors e). settles i"
  shows "\<exists>r w'. run_turn pj e session msg history lim who w = Some (r, w')"
  using assms by (rule run_turn_returns)

theorem turn_returns_witness:
  "\<exists>r w'. run_turn demo_parser demo_env ''s'' ''hi'' [] demo_limits None 0 = Some (r, w')"
  by (rule turn_returns [OF demo_settles])

text \<open>
  C1 (turn_gated): in every turn, right before each tool invocation every interceptor subscribed to \<open>tool-call\<close> was
  consulted, in load order, the first on a call of the model and each later one on what the one before let through; every
  one of them let it through (none blocked, failed or was left asking); and the call invoked is the one that came out of this
  round and was announced by a \<open>tool-invoked\<close> event. The announced calls are exactly the invoked calls.
\<close>

theorem turn_gated:
  assumes "run_turn pj (observe e) session msg history lim who (w, []) = Some (r, (w', t))"
  shows "gated (gatekeepers (env_interceptors e)) t \<and> announced t = invoked t"
proof -
  obtain t0 where t0: "stage_ok (gatekeepers (env_interceptors e)) (max 1 (max_iterations lim) * per_cycle e) t0"
    and t: "t = t0 @ (case r of Answered s a \<Rightarrow> [OEmit (Done s a)] | Failed _ \<Rightarrow> [])"
    using assms by (rule run_turn_calls)
  then show ?thesis
    by (cases r) (auto simp: stage_ok_def intro!: gated_append intro: gated_quiet)
qed

theorem turn_gated_witness:
  "\<exists>r w' t. run_turn demo_parser (observe demo_env) ''s'' ''hi'' [] demo_limits None (0, [])
      = Some (r, (w', t)) \<and> gated [''gate''] t \<and> announced t = invoked t"
proof -
  obtain r w' t where run: "run_turn demo_parser (observe demo_env) ''s'' ''hi'' [] demo_limits
      None (0, []) = Some (r, (w', t))" by (rule demo_run)
  from turn_gated [OF run] run show ?thesis
    by (auto simp: demo_env_def demo_gate_def gatekeepers_def)
qed

text \<open>
  C24 (turn_completions_bounded): a turn requests at most \<open>4 * providers\<close> completions per cycle,
  for at most \<open>limits.max-iterations\<close> cycles (one, when the limit is zero).
\<close>

theorem turn_completions_bounded:
  assumes "run_turn pj (observe e) session msg history lim who (w, []) = Some (r, (w', t))"
  shows "completions t \<le> max 1 (max_iterations lim) * (4 * length (env_providers e))"
proof -
  obtain t0 where "stage_ok (gatekeepers (env_interceptors e)) (max 1 (max_iterations lim) * per_cycle e) t0"
    "t = t0 @ (case r of Answered s a \<Rightarrow> [OEmit (Done s a)] | Failed _ \<Rightarrow> [])"
    using assms by (rule run_turn_calls)
  then show ?thesis
    by (cases r) (auto simp: stage_ok_def per_cycle_def MAX_RETRIES_def)
qed

theorem turn_completions_bounded_witness:
  "\<exists>r w' t. run_turn demo_parser (observe demo_env) ''s'' ''hi'' [] demo_limits None (0, [])
      = Some (r, (w', t)) \<and> completions t \<le> max 1 (max_iterations demo_limits) * (4 * 1)"
proof -
  obtain r w' t where run: "run_turn demo_parser (observe demo_env) ''s'' ''hi'' [] demo_limits
      None (0, []) = Some (r, (w', t))" by (rule demo_run)
  from turn_completions_bounded [OF run] run show ?thesis by (auto simp: demo_env_def)
qed

text \<open>
  an answered turn emits exactly one \<open>Done\<close>, as its last event and with the
  returned text and flag; a failed turn emits none.
\<close>

theorem turn_done_once:
  assumes "run_turn pj (observe e) session msg history lim who (w, []) = Some (r, (w', t))"
  shows "case r of
           Answered s a \<Rightarrow> \<exists>evs. emitted t = evs @ [Done s a] \<and> (\<forall>s' a'. Done s' a' \<notin> set evs)
         | Failed _ \<Rightarrow> \<forall>s' a'. Done s' a' \<notin> set (emitted t)"
proof -
  obtain t0 where t0: "stage_ok (gatekeepers (env_interceptors e)) (max 1 (max_iterations lim) * per_cycle e) t0"
    and t: "t = t0 @ (case r of Answered s a \<Rightarrow> [OEmit (Done s a)] | Failed _ \<Rightarrow> [])"
    using assms by (rule run_turn_calls)
  then show ?thesis by (cases r) (auto simp: stage_ok_def no_done_def)
qed

theorem turn_done_once_witness:
  "\<exists>r w' t. run_turn demo_parser (observe demo_env) ''s'' ''hi'' [] demo_limits None (0, [])
      = Some (r, (w', t)) \<and>
     (case r of
        Answered s a \<Rightarrow> \<exists>evs. emitted t = evs @ [Done s a] \<and> (\<forall>s' a'. Done s' a' \<notin> set evs)
      | Failed _ \<Rightarrow> \<forall>s' a'. Done s' a' \<notin> set (emitted t))"
proof -
  obtain r w' t where run: "run_turn demo_parser (observe demo_env) ''s'' ''hi'' [] demo_limits
      None (0, []) = Some (r, (w', t))" by (rule demo_run)
  with turn_done_once [OF run] show ?thesis by blast
qed

text \<open>
  C23 (tool_results_answer_calls): a pass over the tool calls appends one \<open>tool\<close> message per call,
  in order, each carrying the id the model gave its call, whatever the interceptors replaced,
  and changes nothing else in the request.
\<close>

theorem tool_results_answer_calls:
  assumes "run_tool_calls e calls stop req w = Some (pass, req', w')"
  shows "\<exists>ms. req' = req\<lparr>pr_messages := pr_messages req @ ms\<rparr> \<and>
     map msg_tool_call_id ms = map (\<lambda>c. Some (tc_id c)) calls \<and> (\<forall>m \<in> set ms. msg_role m = Tool)"
  using assms
proof (induction calls arbitrary: stop req w)
  case Nil
  then show ?case by (intro exI [of _ "[]"]) simp
next
  case (Cons call calls)
  then obtain stop1 body w1 where rec: "run_tool_calls e calls stop1 (push_message req
      \<lparr>msg_role = Tool, msg_content = body, msg_tool_call_id = Some (tc_id call)\<rparr>) w1
        = Some (pass, req', w')"
    by (auto simp: Let_def split: option.splits prod.splits)
  let ?m = "\<lparr>msg_role = Tool, msg_content = body, msg_tool_call_id = Some (tc_id call)\<rparr>"
  from Cons.IH [OF rec] obtain ms where
    "req' = req\<lparr>pr_messages := (pr_messages req @ [?m]) @ ms\<rparr>"
    "map msg_tool_call_id ms = map (\<lambda>c. Some (tc_id c)) calls" "\<forall>m \<in> set ms. msg_role m = Tool"
    by (auto simp: push_message_def)
  then show ?case by (intro exI [of _ "?m # ms"]) simp
qed

definition demo_request :: pending_request where
  "demo_request = \<lparr>pr_model = None, pr_messages = [], pr_tools = [], pr_grammar = None,
     pr_max_tokens = None, pr_temperature = None\<rparr>"

theorem tool_results_answer_calls_witness:
  "\<exists>pass req' w'. run_tool_calls demo_env [demo_call] TContinue demo_request 0
      = Some (pass, req', w') \<and> map msg_tool_call_id (pr_messages req') = [Some ''1'']"
proof -
  from run_tool_calls_returns [OF demo_settles] obtain pass req' w' where
    run: "run_tool_calls demo_env [demo_call] TContinue demo_request 0 = Some (pass, req', w')"
    by blast
  from tool_results_answer_calls [OF run] run show ?thesis
    by (auto simp: demo_request_def demo_call_def)
qed

lemma validate_calls_ok: "validate_calls pj cs = Inr u \<longleftrightarrow> (\<forall>c \<in> set cs. \<exists>v. pj (tc_arguments c) = Inr v)"
  by (induction cs) (auto split: sum.splits)

lemma try_providers_source:
  "try_providers (observe e) (map obs_completer ps) req fs wt = (Inr c, wt') \<Longrightarrow>
     \<exists>i. OComplete i req (Inr c) \<in> set (snd wt') \<and> set (snd wt) \<subseteq> set (snd wt')"
proof (induction ps arbitrary: fs wt)
  case Nil
  then show ?case by simp
next
  case (Cons p ps)
  show ?case
  proof (cases "fst (prov_complete p req (fst wt))")
    case (Inr d)
    with Cons.prems show ?thesis by auto
  next
    case (Inl err)
    with Cons.prems Cons.IH show ?thesis by (fastforce simp: Let_def emit_def)
  qed
qed

lemma attempts_valid:
  "attempts pj (observe e) k req wt = (Inr c, wt') \<Longrightarrow>
     (\<forall>d \<in> set (cmp_tool_calls c). \<exists>v. pj (tc_arguments d) = Inr v) \<and>
     (\<exists>i q. OComplete i q (Inr c) \<in> set (snd wt'))"
proof (induction k arbitrary: req wt)
  case 0
  then show ?case
    by (subst (asm) attempts.simps)
       (fastforce simp: Let_def emit_def complete_with_fallback_def validate_def validate_calls_ok
         split: prod.splits sum.splits if_splits dest!: try_providers_source)
next
  case (Suc k)
  show ?case
    using Suc.prems Suc.IH
    by (subst (asm) attempts.simps)
       (fastforce simp: Let_def emit_def complete_with_fallback_def validate_def validate_calls_ok
         split: prod.splits sum.splits if_splits dest!: try_providers_source)
qed

text \<open>
  what the loop accepts as a completion is one some provider really
  returned, and the arguments of every tool call in it parse as JSON.
\<close>

theorem completion_is_valid:
  assumes "complete_validated pj (observe e) req (w, []) = (Inr c, (w', t))"
  shows "(\<forall>d \<in> set (cmp_tool_calls c). \<exists>v. pj (tc_arguments d) = Inr v) \<and>
     (\<exists>i q. OComplete i q (Inr c) \<in> set t)"
  using attempts_valid [of pj e MAX_RETRIES req "(w, [])" c "(w', t)"] assms
  by (simp add: complete_validated_def)

theorem completion_is_valid_witness:
  "\<exists>c w' t. complete_validated demo_parser (observe demo_env) demo_request (0, []) = (Inr c, (w', t)) \<and>
     cmp_tool_calls c = [demo_call] \<and> (\<exists>v. demo_parser (tc_arguments demo_call) = Inr v)"
proof -
  have "\<exists>c w' t. complete_validated demo_parser (observe demo_env) demo_request (0, [])
      = (Inr c, (w', t)) \<and> cmp_tool_calls c = [demo_call]"
    by (simp add: complete_validated_def attempts.simps complete_with_fallback_def demo_env_def
        demo_provider_def validate_def demo_parser_def was_truncated_def TRUNCATED_def)
  then obtain c w' t where run: "complete_validated demo_parser (observe demo_env) demo_request
      (0, []) = (Inr c, (w', t))" and c: "cmp_tool_calls c = [demo_call]" by blast
  from completion_is_valid [OF run] run c show ?thesis by auto
qed

section \<open>A cancel that is lost\<close>

text \<open>
  The driver disconnects (the sink answers \<open>Stop\<close>) when the tool is announced, and a
  \<open>tool-result\<close> interceptor ends the loop.
\<close>

definition stopper :: "unit interceptor" where
  "stopper = \<lparr>icp_id = ''stop'', icp_phases = [PToolResult],
     icp_intercept = (\<lambda>inp u. (Inr (Block ''enough''), u))\<rparr>"

definition cancel_sink :: "unit sink" where
  "cancel_sink ev u = (case ev of ToolInvoked _ \<Rightarrow> (Stop, u) | _ \<Rightarrow> (Continue, u))"

definition cancel_env :: "unit env" where
  "cancel_env = \<lparr>env_interceptors = [stopper],
     env_providers = [\<lparr>prov_id = ''p'', prov_complete = (\<lambda>req u. (Inr \<lparr>cmp_text = ''partial'',
        cmp_tool_calls = [demo_call], cmp_finish_reason = ''stop''\<rparr>, u))\<rparr>],
     env_tools = \<lparr>tools_bind_session = (\<lambda>_ u. u), tools_invoke_asking = (\<lambda>c d u. (None, u))\<rparr>,
     env_driver = \<lparr>drv_ask = (\<lambda>p u. (''no'', u)), drv_follow_up = (\<lambda>u. (None, u))\<rparr>,
     env_emit = cancel_sink, env_on_effective = (\<lambda>_ u. u)\<rparr>"

text \<open>
  the pass reports \<open>Terminated\<close> although the sink cancelled it,
  so the turn's partial text is returned as a finished answer, without the note that marks an
  interrupted one.
\<close>

theorem cancel_lost_to_termination:
  "env_emit cancel_env (ToolInvoked demo_call) () = (Stop, ()) \<and>
   run_turn demo_parser cancel_env ''s'' ''hi'' [] demo_limits None () = Some (Answered ''partial'' True, ())"
proof -
  have no_sub: "dispatch_env cancel_env ph st () = Some (Proceeded, st, ())" if "ph \<noteq> PToolResult" for ph st
    unfolding dispatch_env_def by (rule dispatch_unsubscribed) (use that in \<open>simp add: cancel_env_def stopper_def\<close>)
  have sub: "dispatch_env cancel_env PToolResult st () = Some (Blocked ''enough'', st, ())" for st
    by (simp add: dispatch_env_def cancel_env_def stopper_def ask_loop.simps)
  have cmp: "complete_validated demo_parser cancel_env req () = (Inr \<lparr>cmp_text = ''partial'',
      cmp_tool_calls = [demo_call], cmp_finish_reason = ''stop''\<rparr>, ())" for req
    by (simp add: complete_validated_def attempts.simps complete_with_fallback_def cancel_env_def
        validate_def demo_parser_def was_truncated_def TRUNCATED_def)
  have emit: "env_emit cancel_env ev () = (case ev of ToolInvoked _ \<Rightarrow> (Stop, ()) | _ \<Rightarrow> (Continue, ()))" for ev
    by (simp add: cancel_env_def cancel_sink_def)
  have inv: "tools_invoke_asking (env_tools cancel_env) c d () = (None, ())" for c d
    by (simp add: cancel_env_def)
  have post: "post_phase cancel_env ph s () = Some (s, ())" for ph s
    by (cases ph) (simp_all add: post_phase_def no_sub)
  have pass: "\<exists>req'. run_tool_calls cancel_env [demo_call] TContinue req () = Some (TTerminated, req', ())" for req
    by (simp add: gate_and_invoke_def no_sub sub inv emit Let_def)
  have "\<exists>req'. run_cycle demo_parser cancel_env demo_limits req 0 ()
      = Some (CStep (LBreak ''partial'') req' 1, ())" for req
  proof -
    from pass obtain req' where p: "run_tool_calls cancel_env [demo_call] TContinue
        (push_message req (plain_message Assistant ''partial'')) () = Some (TTerminated, req', ())" by blast
    have "run_cycle demo_parser cancel_env demo_limits req 0 () = Some (CStep (LBreak ''partial'') req' 1, ())"
      by (simp add: run_cycle_def cmp post no_sub emit p demo_limits_def
          DEFAULT_MAX_ITERATIONS_def after_tool_calls_def del: run_tool_calls.simps)
    then show ?thesis by blast
  qed
  then have loop: "react_loop demo_parser cancel_env demo_limits req 0 () = Some (Inr ''partial'', ())" for req
    by (subst react_loop.simps) (fastforce dest: spec [of _ req])
  show ?thesis
    by (simp add: run_turn_def build_initial_request_def no_sub emit Let_def shape_def loop
        post emit_def)
qed

end
