(* ===== verification/Store.thy ===== *)
theory Store
  imports Prelude "HOL-Library.Product_Lexorder"
begin

text \<open>
  The SQLite-backed store of \<open>host/session/src/store.rs\<close>. Each table is the list of its rows in
  \<open>rowid\<close> order and each SQL statement of the source the list operation it denotes; an
  \<open>INTEGER\<close> column is an \<open>int\<close>. SHA-256 belongs to the \<open>sha2\<close> crate: it is the parameter
  \<open>sha\<close>, from the text digested to the hexadecimal digest. The wall clock (\<open>now_secs\<close>) is the
  parameter \<open>now\<close>. \<open>st_fault\<close> holds the message of a connection whose statements fail.
\<close>

record entry =
  en_id :: string
  en_namespace :: string
  en_key :: string
  en_value :: string
  en_created_at :: nat
  en_updated_at :: nat

record logged_event =
  le_session :: string
  le_seq :: nat
  le_ts :: nat
  le_kind :: string
  le_payload :: string

datatype store_error = NotFound | Backend string

record entry_row =
  er_namespace :: string
  er_key :: string
  er_value :: string
  er_created :: int
  er_updated :: int

record event_row =
  ev_session :: string
  ev_seq :: int
  ev_ts :: int
  ev_kind :: string
  ev_payload :: string
  ev_prev_digest :: "string option"

record store =
  st_entries :: "entry_row list"
  st_events :: "event_row list"
  st_has_digest :: bool
  st_fault :: "string option"

definition to_i64 :: "nat \<Rightarrow> int" where
  "to_i64 n = int (min n (2 ^ 63 - 1))"

definition to_u64 :: "int \<Rightarrow> nat" where
  "to_u64 i = (if i < 0 then 0 else nat i)"

text \<open>A statement on the connection: its value, or the backend's error.\<close>

definition query :: "store \<Rightarrow> 'a \<Rightarrow> store_error + 'a" where
  "query s a = (case st_fault s of Some d \<Rightarrow> Inl (Backend d) | None \<Rightarrow> Inr a)"

definition execute :: "store \<Rightarrow> (store \<Rightarrow> store) \<Rightarrow> (store_error + unit) \<times> store" where
  "execute s f = (case st_fault s of Some d \<Rightarrow> (Inl (Backend d), s) | None \<Rightarrow> (Inr (), f s))"

section \<open>Entries\<close>

definition entry_of_row :: "entry_row \<Rightarrow> entry" where
  "entry_of_row r =
     \<lparr>en_id = er_namespace r @ ''/'' @ er_key r, en_namespace = er_namespace r, en_key = er_key r,
      en_value = er_value r, en_created_at = to_u64 (er_created r),
      en_updated_at = to_u64 (er_updated r)\<rparr>"

definition at_key :: "string \<Rightarrow> string \<Rightarrow> entry_row \<Rightarrow> bool" where
  "at_key ns k r \<longleftrightarrow> er_namespace r = ns \<and> er_key r = k"

fun upsert :: "string \<Rightarrow> string \<Rightarrow> string \<Rightarrow> int \<Rightarrow> entry_row list \<Rightarrow> entry_row list" where
  "upsert ns k v t [] =
     [\<lparr>er_namespace = ns, er_key = k, er_value = v, er_created = t, er_updated = t\<rparr>]"
| "upsert ns k v t (r # rs) =
     (if at_key ns k r then r\<lparr>er_value := v, er_updated := t\<rparr> # rs else r # upsert ns k v t rs)"

definition store_get :: "string \<Rightarrow> string \<Rightarrow> store \<Rightarrow> store_error + entry" where
  "store_get ns k s =
     try_then (query s (List.find (at_key ns k) (st_entries s)))
       (\<lambda>r. ok_or NotFound (map_option entry_of_row r))"

definition store_set ::
  "string \<Rightarrow> string \<Rightarrow> string \<Rightarrow> nat \<Rightarrow> store \<Rightarrow> (store_error + entry) \<times> store" where
  "store_set ns k v now s =
     (case execute s (\<lambda>s. s\<lparr>st_entries := upsert ns k v (to_i64 now) (st_entries s)\<rparr>) of
        (Inl e, s1) \<Rightarrow> (Inl e, s1)
      | (Inr _, s1) \<Rightarrow> (store_get ns k s1, s1))"

definition store_delete :: "string \<Rightarrow> string \<Rightarrow> store \<Rightarrow> (store_error + unit) \<times> store" where
  "store_delete ns k s =
     execute s (\<lambda>s. s\<lparr>st_entries := filter (\<lambda>r. \<not> at_key ns k r) (st_entries s)\<rparr>)"

text \<open>\<open>WHERE namespace = ?1 ORDER BY updated_at DESC, rowid DESC\<close>.\<close>

definition newest :: "string \<Rightarrow> store \<Rightarrow> entry_row list" where
  "newest ns s = rev (sort_key er_updated (filter (\<lambda>r. er_namespace r = ns) (st_entries s)))"

definition store_list_keys :: "string \<Rightarrow> store \<Rightarrow> store_error + entry list" where
  "store_list_keys ns s =
     query s (map (\<lambda>r. entry_of_row (r\<lparr>er_value := []\<rparr>)) (newest ns s))"

definition store_recent :: "string \<Rightarrow> nat \<Rightarrow> store \<Rightarrow> store_error + entry list" where
  "store_recent ns limit s = query s (map entry_of_row (take limit (newest ns s)))"

text \<open>SQL \<open>LIKE\<close> over the scalars of pattern and text: \<open>%\<close>, \<open>_\<close>, ASCII case ignored.\<close>

function like_match :: "string list \<Rightarrow> string list \<Rightarrow> bool" where
  "like_match [] ts \<longleftrightarrow> ts = []"
| "like_match (p # ps) ts \<longleftrightarrow>
     (if p = ''%''
      then like_match ps ts \<or> (case ts of [] \<Rightarrow> False | _ # ts' \<Rightarrow> like_match (p # ps) ts')
      else (case ts of
              [] \<Rightarrow> False
            | t # ts' \<Rightarrow> (p = ''_'' \<or> to_lower p = to_lower t) \<and> like_match ps ts'))"
  by pat_completeness auto
termination
  by (relation "measure (\<lambda>(ps, ts). length ps + length ts)") auto

definition store_search ::
  "string \<Rightarrow> string \<Rightarrow> nat \<Rightarrow> store \<Rightarrow> store_error + entry list" where
  "store_search ns q limit s =
     (let pattern = utf8_chars (''%'' @ q @ ''%'')
      in query s (map entry_of_row
           (take limit (filter (\<lambda>r. like_match pattern (utf8_chars (er_value r))) (newest ns s)))))"

definition last_write :: "store \<Rightarrow> string \<Rightarrow> int" where
  "last_write s ns =
     fold max (map er_updated (filter (\<lambda>r. er_namespace r = ns) (st_entries s))) (- (2 ^ 63))"

definition store_list_namespaces :: "store \<Rightarrow> store_error + string list" where
  "store_list_namespaces s =
     query s (sort_key (\<lambda>ns. (- last_write s ns, ns)) (remdups (map er_namespace (st_entries s))))"

definition store_purge_namespace :: "string \<Rightarrow> store \<Rightarrow> (store_error + unit) \<times> store" where
  "store_purge_namespace ns s =
     execute s (\<lambda>s. s\<lparr>st_entries := filter (\<lambda>r. er_namespace r \<noteq> ns) (st_entries s)\<rparr>)"

section \<open>The event log\<close>

text \<open>The rows of a session \<open>ORDER BY seq\<close>.\<close>

definition rows_of :: "string \<Rightarrow> store \<Rightarrow> event_row list" where
  "rows_of session s = sort_key ev_seq (filter (\<lambda>r. ev_session r = session) (st_events s))"

definition logged :: "event_row \<Rightarrow> logged_event" where
  "logged r = \<lparr>le_session = ev_session r, le_seq = to_u64 (ev_seq r), le_ts = to_u64 (ev_ts r),
               le_kind = ev_kind r, le_payload = ev_payload r\<rparr>"

definition digest_text :: "nat \<Rightarrow> nat \<Rightarrow> string \<Rightarrow> string \<Rightarrow> string" where
  "digest_text q ts kind payload =
     show_nat q @ ''/'' @ show_nat ts @ ''/'' @ kind @ ''/'' @ payload"

definition compute_event_digest ::
  "(string \<Rightarrow> string) \<Rightarrow> nat \<Rightarrow> nat \<Rightarrow> string \<Rightarrow> string \<Rightarrow> string" where
  "compute_event_digest sha q ts kind payload = sha (digest_text q ts kind payload)"

definition row_digest :: "(string \<Rightarrow> string) \<Rightarrow> event_row \<Rightarrow> string" where
  "row_digest sha r =
     compute_event_digest sha (to_u64 (ev_seq r)) (to_u64 (ev_ts r)) (ev_kind r) (ev_payload r)"

definition max_seq :: "event_row list \<Rightarrow> int" where
  "max_seq rs = (case rs of [] \<Rightarrow> 0 | r # rs' \<Rightarrow> fold max (map ev_seq rs') (ev_seq r))"

definition append_event_at ::
  "(string \<Rightarrow> string) \<Rightarrow> string \<Rightarrow> string \<Rightarrow> string \<Rightarrow> nat \<Rightarrow> store
     \<Rightarrow> (store_error + logged_event) \<times> store" where
  "append_event_at sha session kind payload ts s =
     (case st_fault s of
        Some d \<Rightarrow> (Inl (Backend d), s)
      | None \<Rightarrow>
          (let rs = rows_of session s;
               prev = (if rs = [] then None else Some (row_digest sha (last rs)));
               q = max_seq (filter (\<lambda>r. ev_session r = session) (st_events s)) + 1;
               row = \<lparr>ev_session = session, ev_seq = q, ev_ts = to_i64 ts, ev_kind = kind,
                      ev_payload = payload, ev_prev_digest = prev\<rparr>
           in (Inr \<lparr>le_session = session, le_seq = to_u64 q, le_ts = ts, le_kind = kind,
                    le_payload = payload\<rparr>,
               s\<lparr>st_events := st_events s @ [row]\<rparr>)))"

definition append_event ::
  "(string \<Rightarrow> string) \<Rightarrow> string \<Rightarrow> string \<Rightarrow> string \<Rightarrow> nat \<Rightarrow> store
     \<Rightarrow> (store_error + logged_event) \<times> store" where
  "append_event sha session kind payload now s = append_event_at sha session kind payload now s"

definition session_events :: "string \<Rightarrow> store \<Rightarrow> store_error + logged_event list" where
  "session_events session s = query s (map logged (rows_of session s))"

definition KIND_USER_MESSAGE :: string where "KIND_USER_MESSAGE = ''user-message''"

definition recent_turns :: "string \<Rightarrow> nat \<Rightarrow> store \<Rightarrow> store_error + logged_event list" where
  "recent_turns session turns s =
     (if turns = 0 then Inr []
      else query s
        (let rs = rows_of session s;
             starts = take turns
               (rev (map ev_seq (filter (\<lambda>r. ev_kind r = KIND_USER_MESSAGE) rs)));
             from_seq = (if starts = [] then 0 else min_list starts)
         in map logged (filter (\<lambda>r. from_seq \<le> ev_seq r) rs)))"

definition last_event :: "store \<Rightarrow> string \<Rightarrow> int" where
  "last_event s session =
     fold max (map ev_ts (filter (\<lambda>r. ev_session r = session) (st_events s))) (- (2 ^ 63))"

definition event_sessions :: "store \<Rightarrow> store_error + string list" where
  "event_sessions s =
     query s (sort_key (\<lambda>n. (- last_event s n, n)) (remdups (map ev_session (st_events s))))"

definition fork_refusal :: "string \<Rightarrow> string" where
  "fork_refusal dest = bquote dest @ '' already has events; a fork needs an unused session''"

text \<open>
  \<open>INSERT \<dots> SELECT ?2, ROW_NUMBER() OVER (ORDER BY seq), ts, kind, payload\<close>: the statement
  names no \<open>prev_digest\<close>, so the column of the new rows is \<open>NULL\<close>.
\<close>

definition forked_row :: "string \<Rightarrow> nat \<Rightarrow> event_row \<Rightarrow> event_row" where
  "forked_row dest i r =
     \<lparr>ev_session = dest, ev_seq = int (i + 1), ev_ts = ev_ts r, ev_kind = ev_kind r,
      ev_payload = ev_payload r, ev_prev_digest = None\<rparr>"

definition fork_events ::
  "string \<Rightarrow> nat \<Rightarrow> string \<Rightarrow> store \<Rightarrow> (store_error + nat) \<times> store" where
  "fork_events session at_seq dest s =
     (case session_events dest s of
        Inl e \<Rightarrow> (Inl e, s)
      | Inr evs \<Rightarrow>
          (if evs \<noteq> [] then (Inl (Backend (fork_refusal dest)), s)
           else (let src = filter (\<lambda>r. ev_seq r \<le> to_i64 at_seq) (rows_of session s);
                     copies = map (\<lambda>(i, r). forked_row dest i r) (enumerate 0 src)
                 in (Inr (length copies), s\<lparr>st_events := st_events s @ copies\<rparr>))))"

definition purge_session_events :: "string \<Rightarrow> store \<Rightarrow> (store_error + unit) \<times> store" where
  "purge_session_events session s =
     execute s (\<lambda>s. s\<lparr>st_events := filter (\<lambda>r. ev_session r \<noteq> session) (st_events s)\<rparr>)"

section \<open>The digest chain\<close>

datatype chain_status = Intact | Broken nat string string

record chain_verification =
  cv_session :: string
  cv_status :: chain_status

datatype verify_error = VNotFound string | VBackend string

definition first_reason :: string where
  "first_reason = ''first event should have NULL prev_digest''"
definition missing_reason :: string where
  "missing_reason = ''non-first event missing prev_digest''"
definition mismatch_reason :: "string \<Rightarrow> string \<Rightarrow> string" where
  "mismatch_reason want got = ''prev_digest mismatch: expected '' @ want @ '', got '' @ got"

fun verify_rest :: "(string \<Rightarrow> string) \<Rightarrow> event_row \<Rightarrow> event_row list \<Rightarrow> chain_status" where
  "verify_rest sha prev [] = Intact"
| "verify_rest sha prev (r # rs) =
     (case ev_prev_digest r of
        Some d \<Rightarrow>
          (if d \<noteq> row_digest sha prev
           then Broken (to_u64 (ev_seq r)) (ev_kind r) (mismatch_reason (row_digest sha prev) d)
           else verify_rest sha r rs)
      | None \<Rightarrow> Broken (to_u64 (ev_seq r)) (ev_kind r) missing_reason)"

definition verify_rows :: "(string \<Rightarrow> string) \<Rightarrow> event_row \<Rightarrow> event_row list \<Rightarrow> chain_status" where
  "verify_rows sha r rs =
     (if ev_prev_digest r \<noteq> None then Broken (to_u64 (ev_seq r)) (ev_kind r) first_reason
      else verify_rest sha r rs)"

definition verify_chain ::
  "(string \<Rightarrow> string) \<Rightarrow> string \<Rightarrow> store \<Rightarrow> verify_error + chain_verification" where
  "verify_chain sha session s =
     (case st_fault s of
        Some d \<Rightarrow> Inl (VBackend d)
      | None \<Rightarrow>
          (case rows_of session s of
             [] \<Rightarrow> Inl (VNotFound session)
           | r # rs \<Rightarrow> Inr \<lparr>cv_session = session, cv_status = verify_rows sha r rs\<rparr>))"

text \<open>\<open>UPDATE events SET prev_digest = ?1 WHERE session = ?2 AND seq = ?3\<close>.\<close>

definition set_digest :: "string \<Rightarrow> int \<Rightarrow> string \<Rightarrow> event_row list \<Rightarrow> event_row list" where
  "set_digest session q d =
     map (\<lambda>r. if ev_session r = session \<and> ev_seq r = q then r\<lparr>ev_prev_digest := Some d\<rparr> else r)"

fun relink :: "(string \<Rightarrow> string) \<Rightarrow> string \<Rightarrow> event_row \<Rightarrow> event_row list \<Rightarrow> event_row list \<Rightarrow> event_row list" where
  "relink sha session prev [] tbl = tbl"
| "relink sha session prev (r # rs) tbl =
     relink sha session r rs (set_digest session (ev_seq r) (row_digest sha prev) tbl)"

definition relink_session :: "(string \<Rightarrow> string) \<Rightarrow> string \<Rightarrow> store \<Rightarrow> store" where
  "relink_session sha session s =
     (case rows_of session s of
        [] \<Rightarrow> s
      | r # rs \<Rightarrow> s\<lparr>st_events := relink sha session r rs (st_events s)\<rparr>)"

definition migrate_digests :: "(string \<Rightarrow> string) \<Rightarrow> store \<Rightarrow> (store_error + nat) \<times> store" where
  "migrate_digests sha s =
     (case st_fault s of
        Some d \<Rightarrow> (Inl (Backend d), s)
      | None \<Rightarrow>
          (let sessions = sort (remdups (map ev_session (st_events s)))
           in (Inr (length sessions), fold (relink_session sha) sessions s)))"

definition ensure_prev_digest_column ::
  "(string \<Rightarrow> string) \<Rightarrow> store \<Rightarrow> (store_error + unit) \<times> store" where
  "ensure_prev_digest_column sha s =
     (case st_fault s of
        Some d \<Rightarrow> (Inl (Backend d), s)
      | None \<Rightarrow>
          (if st_has_digest s then (Inr (), s)
           else (case migrate_digests sha (s\<lparr>st_has_digest := True\<rparr>) of
                   (r, s1) \<Rightarrow> (map_ok (\<lambda>_. ()) r, s1))))"

text \<open>A store just created: \<open>open_in_memory\<close>, or \<open>open\<close> on a new file.\<close>

definition empty_store :: store where
  "empty_store = \<lparr>st_entries = [], st_events = [], st_has_digest = True, st_fault = None\<rparr>"

end
