(* ===== verification/EventLog.thy ===== *)
theory EventLog
  imports Turn Store
begin

text \<open>
  The stored form of a turn (\<open>host/session/src/event_log.rs\<close>): events and records become rows, a
  kind plus a versioned JSON envelope, and are read back. serde_json's text parser and printer
  are the parameters \<open>parse\<close> and \<open>render\<close>. The persisting sink and driver wrap the parties of a
  turn; their world is the wrapped world together with the store, the two once-per-turn warning
  flags and the lines written to standard error. \<open>clock\<close> reads the wall clock in the world.
\<close>

datatype decode_error =
    UnknownKind string
  | NotAnEvent string
  | UnsupportedVersion nat
  | Malformed string

definition EVENT_LOG_VERSION :: nat where "EVENT_LOG_VERSION = 1"

definition KIND_ASK :: string where "KIND_ASK = ''ask''"
definition KIND_ANSWER :: string where "KIND_ANSWER = ''answer''"
definition KIND_FOLLOW_UP :: string where "KIND_FOLLOW_UP = ''follow-up''"
definition KIND_EXTENSION_LOADED :: string where "KIND_EXTENSION_LOADED = ''extension-loaded''"

lemmas kind_defs = KIND_USER_MESSAGE_def KIND_ASK_def KIND_ANSWER_def KIND_FOLLOW_UP_def
  KIND_EXTENSION_LOADED_def

definition envelope_json :: "json \<Rightarrow> json" where
  "envelope_json data = JObj [(''v'', JInt (int EVENT_LOG_VERSION)), (''data'', data)]"

definition envelope :: "printer \<Rightarrow> json \<Rightarrow> string" where
  "envelope render data = render (envelope_json data)"

fun encoded :: "event \<Rightarrow> string \<times> json" where
  "encoded (TextDelta t) = (''text-delta'', JObj [(''text'', JStr t)])"
| "encoded (ToolInvoked c) =
     (''tool-invoked'',
      JObj [(''id'', JStr (tc_id c)), (''name'', JStr (tc_name c)),
            (''arguments'', JStr (tc_arguments c))])"
| "encoded (ToolResult out) =
     (''tool-result'',
      JObj [(''id'', JStr (out_tool_call_id out)), (''content'', JStr (out_content out)),
            (''failed'', JBool (out_failed out))])"
| "encoded (Warning m) = (''warning'', JObj [(''message'', JStr m)])"
| "encoded (Done t a) = (''done'', JObj [(''answer'', JStr t), (''agentic'', JBool a)])"

definition encode :: "printer \<Rightarrow> event \<Rightarrow> string \<times> string" where
  "encode render ev = (case encoded ev of (kind, data) \<Rightarrow> (kind, envelope render data))"

datatype log_record =
    RUserMessage string
  | RAsk string "string list" string
  | RAnswer string
  | RFollowUp string
  | RExtensionLoaded string bool string
  | REvent event

definition no_version :: string where "no_version = ''no `v` in the envelope''"
definition no_data :: string where "no_data = ''no `data` in the envelope''"
definition no_agentic :: string where "no_agentic = ''`done` has no bool `agentic`''"
definition no_field :: "string \<Rightarrow> string \<Rightarrow> string \<Rightarrow> string" where
  "no_field kind what field = bquote kind @ '' has no '' @ what @ '' '' @ bquote field"
definition non_string :: "string \<Rightarrow> string \<Rightarrow> string" where
  "non_string kind field = bquote kind @ [CHR 0x27] @ ''s '' @ bquote field @ '' holds a non-string''"

definition open_envelope :: "parser \<Rightarrow> string \<Rightarrow> decode_error + json" where
  "open_envelope parse payload =
     try_then (map_err Malformed (parse payload)) (\<lambda>env.
     try_then (ok_or (Malformed no_version) (get_u64 ''v'' env)) (\<lambda>v.
       let version = (case to_u32 v of Some n \<Rightarrow> n | None \<Rightarrow> 2 ^ 32 - 1)
       in if EVENT_LOG_VERSION < version then Inl (UnsupportedVersion version)
          else ok_or (Malformed no_data) (jget ''data'' env)))"

definition text_field :: "string \<Rightarrow> json \<Rightarrow> string \<Rightarrow> decode_error + string" where
  "text_field kind data field = ok_or (Malformed (no_field kind ''string'' field)) (get_str field data)"

definition strings_field :: "string \<Rightarrow> json \<Rightarrow> string \<Rightarrow> decode_error + string list" where
  "strings_field kind data field =
     try_then (ok_or (Malformed (no_field kind ''list'' field)) (get_array field data)) (\<lambda>items.
       collect_ok (map (\<lambda>i. ok_or (Malformed (non_string kind field)) (as_str i)) items))"

definition record_of :: "string \<Rightarrow> json \<Rightarrow> decode_error + log_record" where
  "record_of kind data =
     (if kind = KIND_USER_MESSAGE then map_ok RUserMessage (text_field kind data ''message'')
      else if kind = KIND_ASK then
        try_then (text_field kind data ''question'') (\<lambda>q.
        try_then (strings_field kind data ''options'') (\<lambda>opts.
        map_ok (RAsk q opts) (text_field kind data ''default'')))
      else if kind = KIND_ANSWER then map_ok RAnswer (text_field kind data ''answer'')
      else if kind = KIND_FOLLOW_UP then map_ok RFollowUp (text_field kind data ''message'')
      else if kind = KIND_EXTENSION_LOADED then
        try_then (text_field kind data ''stem'') (\<lambda>stem.
        try_then (ok_or (Malformed (no_field kind ''boolean'' ''loaded'')) (get_bool ''loaded'' data))
          (\<lambda>loaded. map_ok (RExtensionLoaded stem loaded) (text_field kind data ''detail'')))
      else if kind = ''text-delta'' then map_ok (REvent \<circ> TextDelta) (text_field kind data ''text'')
      else if kind = ''tool-invoked'' then
        try_then (text_field kind data ''id'') (\<lambda>i.
        try_then (text_field kind data ''name'') (\<lambda>n.
        map_ok (\<lambda>a. REvent (ToolInvoked \<lparr>tc_id = i, tc_name = n, tc_arguments = a\<rparr>))
          (text_field kind data ''arguments'')))
      else if kind = ''tool-result'' then
        try_then (text_field kind data ''id'') (\<lambda>i.
        map_ok (\<lambda>c. REvent (ToolResult \<lparr>out_tool_call_id = i, out_content = c,
            out_failed = (case get_bool ''failed'' data of Some b \<Rightarrow> b | None \<Rightarrow> False)\<rparr>))
          (text_field kind data ''content''))
      else if kind = ''warning'' then map_ok (REvent \<circ> Warning) (text_field kind data ''message'')
      else if kind = ''done'' then
        try_then (text_field kind data ''answer'') (\<lambda>t.
        map_ok (\<lambda>a. REvent (Done t a)) (ok_or (Malformed no_agentic) (get_bool ''agentic'' data)))
      else Inl (UnknownKind kind))"

definition decode_record :: "parser \<Rightarrow> string \<Rightarrow> string \<Rightarrow> decode_error + log_record" where
  "decode_record parse kind payload = try_then (open_envelope parse payload) (record_of kind)"

definition decode :: "parser \<Rightarrow> string \<Rightarrow> string \<Rightarrow> decode_error + event" where
  "decode parse kind payload =
     try_then (decode_record parse kind payload)
       (\<lambda>r. case r of REvent ev \<Rightarrow> Inr ev | _ \<Rightarrow> Inl (NotAnEvent kind))"

section \<open>The persisting sink and driver\<close>

record 'w logging =
  lg_world :: 'w
  lg_store :: store
  lg_warned_sink :: bool
  lg_warned_driver :: bool
  lg_stderr :: "string list"

fun error_text :: "store_error \<Rightarrow> string" where
  "error_text NotFound = ''entry not found''"
| "error_text (Backend d) = ''storage backend error: '' @ d"

definition warn_head :: string where "warn_head = ''WARN [core] logging events for session ''"
definition warn_tail :: string where
  "warn_tail = ''. The turn continues; further failures this turn are not repeated.''"
definition warn_line :: "string \<Rightarrow> store_error \<Rightarrow> string" where
  "warn_line session err = warn_head @ session @ '' failed: '' @ error_text err @ warn_tail"

text \<open>\<open>append_encoded\<close>: the new \<open>warned\<close> flag, the store after it and what it wrote to stderr.\<close>

definition append_encoded ::
  "(string \<Rightarrow> string) \<Rightarrow> nat \<Rightarrow> string \<Rightarrow> string \<Rightarrow> string \<Rightarrow> bool \<Rightarrow> store
     \<Rightarrow> bool \<times> string list \<times> store" where
  "append_encoded sha now session kind payload warned s =
     (case append_event sha session kind payload now s of
        (Inr _, s1) \<Rightarrow> (warned, [], s1)
      | (Inl err, s1) \<Rightarrow> (True, if warned then [] else [warn_line session err], s1))"

definition append_sink ::
  "(string \<Rightarrow> string) \<Rightarrow> ('w \<Rightarrow> nat) \<Rightarrow> string \<Rightarrow> string \<times> string \<Rightarrow> 'w logging \<Rightarrow> 'w logging" where
  "append_sink sha clock session row w =
     (case append_encoded sha (clock (lg_world w)) session (fst row) (snd row) (lg_warned_sink w)
             (lg_store w) of
        (warned, lines, s) \<Rightarrow>
          w\<lparr>lg_warned_sink := warned, lg_stderr := lg_stderr w @ lines, lg_store := s\<rparr>)"

definition append_driver ::
  "(string \<Rightarrow> string) \<Rightarrow> ('w \<Rightarrow> nat) \<Rightarrow> string \<Rightarrow> string \<times> string \<Rightarrow> 'w logging \<Rightarrow> 'w logging" where
  "append_driver sha clock session row w =
     (case append_encoded sha (clock (lg_world w)) session (fst row) (snd row) (lg_warned_driver w)
             (lg_store w) of
        (warned, lines, s) \<Rightarrow>
          w\<lparr>lg_warned_driver := warned, lg_stderr := lg_stderr w @ lines, lg_store := s\<rparr>)"

definition persisting_sink ::
  "(string \<Rightarrow> string) \<Rightarrow> printer \<Rightarrow> ('w \<Rightarrow> nat) \<Rightarrow> string \<Rightarrow> 'w sink \<Rightarrow> 'w logging sink" where
  "persisting_sink sha render clock session inner ev w =
     (let w1 = append_sink sha clock session (encode render ev) w
      in case inner ev (lg_world w1) of (f, v) \<Rightarrow> (f, w1\<lparr>lg_world := v\<rparr>))"

definition ask_data :: "user_prompt \<Rightarrow> json" where
  "ask_data p = JObj [(''question'', JStr (up_question p)),
     (''options'', JArr (map JStr (up_options p))), (''default'', JStr (up_default_answer p))]"

definition answer_data :: "string \<Rightarrow> json" where
  "answer_data a = JObj [(''answer'', JStr a)]"

definition message_data :: "string \<Rightarrow> json" where
  "message_data m = JObj [(''message'', JStr m)]"

definition ask_row :: "printer \<Rightarrow> user_prompt \<Rightarrow> string \<times> string" where
  "ask_row render p =
     (KIND_ASK, envelope render (ask_data p))"

definition answer_row :: "printer \<Rightarrow> string \<Rightarrow> string \<times> string" where
  "answer_row render a = (KIND_ANSWER, envelope render (answer_data a))"

definition follow_up_row :: "printer \<Rightarrow> string \<Rightarrow> string \<times> string" where
  "follow_up_row render m = (KIND_FOLLOW_UP, envelope render (message_data m))"

definition user_message_row :: "printer \<Rightarrow> string \<Rightarrow> string \<times> string" where
  "user_message_row render m = (KIND_USER_MESSAGE, envelope render (message_data m))"

definition persisting_driver ::
  "(string \<Rightarrow> string) \<Rightarrow> printer \<Rightarrow> ('w \<Rightarrow> nat) \<Rightarrow> string \<Rightarrow> 'w driver \<Rightarrow> 'w logging driver" where
  "persisting_driver sha render clock session inner =
     \<lparr>drv_ask = (\<lambda>p w.
        let w1 = append_driver sha clock session (ask_row render p) w
        in case drv_ask inner p (lg_world w1) of
             (a, v) \<Rightarrow> (a, append_driver sha clock session (answer_row render a) (w1\<lparr>lg_world := v\<rparr>))),
      drv_follow_up = (\<lambda>w.
        case drv_follow_up inner (lg_world w) of
          (None, v) \<Rightarrow> (None, w\<lparr>lg_world := v\<rparr>)
        | (Some m, v) \<Rightarrow>
            (Some m, append_driver sha clock session (follow_up_row render m) (w\<lparr>lg_world := v\<rparr>)))\<rparr>"

text \<open>\<open>log_user_message\<close> warns with a flag of its own.\<close>

definition log_user_message ::
  "(string \<Rightarrow> string) \<Rightarrow> printer \<Rightarrow> nat \<Rightarrow> string \<Rightarrow> string \<Rightarrow> store \<Rightarrow> string list \<times> store" where
  "log_user_message sha render now session m s =
     (case append_encoded sha now session (fst (user_message_row render m))
             (snd (user_message_row render m)) False s of
        (_, lines, s1) \<Rightarrow> (lines, s1))"

section \<open>Migrating pre-log transcripts\<close>

definition migrated_turns :: "entry list \<Rightarrow> (nat \<times> entry) list" where
  "migrated_turns es =
     sort_key fst (List.map_filter (\<lambda>e.
       Option.bind (strip_prefix ''turn-'' (en_key e)) (\<lambda>n.
         map_option (\<lambda>k. (k, e)) (parse_u64 n))) es)"

definition migrate_turn ::
  "(string \<Rightarrow> string) \<Rightarrow> parser \<Rightarrow> printer \<Rightarrow> string \<Rightarrow> entry \<Rightarrow> store
     \<Rightarrow> (store_error + unit) \<times> store" where
  "migrate_turn sha parse render session e s =
     (case parse (en_value e) of
        Inl _ \<Rightarrow> (Inr (), s)
      | Inr turn \<Rightarrow>
          (let (r, s1) = (case get_str ''user'' turn of
                  None \<Rightarrow> (Inr (), s)
                | Some u \<Rightarrow>
                    (case append_event_at sha session KIND_USER_MESSAGE
                            (envelope render (message_data u)) (en_created_at e) s of
                       (x, s1) \<Rightarrow> (map_ok (\<lambda>_. ()) x, s1)))
           in case r of
                Inl err \<Rightarrow> (Inl err, s1)
              | Inr _ \<Rightarrow>
                  (case get_str ''answer'' turn of
                     None \<Rightarrow> (Inr (), s1)
                   | Some a \<Rightarrow>
                       (case append_event_at sha session (fst (encode render (Done a False)))
                               (snd (encode render (Done a False))) (en_created_at e) s1 of
                          (x, s2) \<Rightarrow> (map_ok (\<lambda>_. ()) x, s2)))))"

fun migrate_turns ::
  "(string \<Rightarrow> string) \<Rightarrow> parser \<Rightarrow> printer \<Rightarrow> string \<Rightarrow> (nat \<times> entry) list \<Rightarrow> store
     \<Rightarrow> (store_error + unit) \<times> store" where
  "migrate_turns sha parse render session [] s = (Inr (), s)"
| "migrate_turns sha parse render session ((_, e) # es) s =
     (case migrate_turn sha parse render session e s of
        (Inl err, s1) \<Rightarrow> (Inl err, s1)
      | (Inr _, s1) \<Rightarrow> migrate_turns sha parse render session es s1)"

fun migrate_sessions ::
  "(string \<Rightarrow> string) \<Rightarrow> parser \<Rightarrow> printer \<Rightarrow> string list \<Rightarrow> nat \<Rightarrow> store
     \<Rightarrow> (store_error + nat) \<times> store" where
  "migrate_sessions sha parse render [] k s = (Inr k, s)"
| "migrate_sessions sha parse render (x # xs) k s =
     (if CHR ''/'' \<in> set x then migrate_sessions sha parse render xs k s
      else case session_events x s of
             Inl err \<Rightarrow> (Inl err, s)
           | Inr evs \<Rightarrow>
               (if evs \<noteq> [] then migrate_sessions sha parse render xs k s
                else case store_recent x (2 ^ 32 - 1) s of
                       Inl err \<Rightarrow> (Inl err, s)
                     | Inr es \<Rightarrow>
                         (if migrated_turns es = [] then migrate_sessions sha parse render xs k s
                          else case migrate_turns sha parse render x (migrated_turns es) s of
                                 (Inl err, s1) \<Rightarrow> (Inl err, s1)
                               | (Inr _, s1) \<Rightarrow> migrate_sessions sha parse render xs (k + 1) s1)))"

definition migrate_transcripts ::
  "(string \<Rightarrow> string) \<Rightarrow> parser \<Rightarrow> printer \<Rightarrow> store \<Rightarrow> (store_error + nat) \<times> store" where
  "migrate_transcripts sha parse render s =
     (case store_list_namespaces s of
        Inl err \<Rightarrow> (Inl err, s)
      | Inr nss \<Rightarrow> migrate_sessions sha parse render nss 0 s)"

end
