(* ===== verification/Store_Facts.thy ===== *)
theory Store_Facts
  imports Store
begin

text \<open>
  Facts about the store: the numbering of a session's rows, the digest chain under appends,
  purges, forks and edits, and the key-value laws of the entries table.
\<close>

named_theorems store_defs \<open>the store's statement wrappers\<close>
declare query_def [store_defs] execute_def [store_defs]

lemma to_i64_nonneg [simp]: "0 \<le> to_i64 n"
  by (simp add: to_i64_def)

lemma to_u64_int [simp]: "to_u64 (int n) = n"
  by (simp add: to_u64_def)

section \<open>Numbering\<close>

definition numbered :: "event_row list \<Rightarrow> bool" where
  "numbered rs \<longleftrightarrow> map ev_seq rs = map int [1..<Suc (length rs)]"

definition of_session :: "string \<Rightarrow> event_row list \<Rightarrow> event_row list" where
  "of_session x rs = filter (\<lambda>r. ev_session r = x) rs"

definition wf_log :: "store \<Rightarrow> bool" where
  "wf_log s \<longleftrightarrow> (\<forall>x. numbered (of_session x (st_events s)))"

lemma of_session_append [simp]: "of_session x (a @ b) = of_session x a @ of_session x b"
  by (simp add: of_session_def)

lemma numbered_Nil [simp]: "numbered []"
  by (simp add: numbered_def)

lemma sorted_upto_int: "sorted (map int [a..<b])"
  by (simp add: sorted_iff_nth_mono)

lemma numbered_sorted: "numbered rs \<Longrightarrow> sorted (map ev_seq rs)"
  unfolding numbered_def by (simp only: sorted_upto_int)

lemma numbered_snoc:
  "numbered (rs @ [r]) \<longleftrightarrow> numbered rs \<and> ev_seq r = int (Suc (length rs))"
  by (auto simp: numbered_def)

lemma rows_of_wf: "wf_log s \<Longrightarrow> rows_of x s = of_session x (st_events s)"
  by (simp add: rows_of_def wf_log_def of_session_def sort_key_id_if_sorted numbered_sorted)

lemma max_seq_snoc: "max_seq (rs @ [r]) = (if rs = [] then ev_seq r else max (ev_seq r) (max_seq rs))"
  by (cases rs) (simp_all add: max_seq_def)

lemma max_seq_numbered: "numbered rs \<Longrightarrow> max_seq rs = int (length rs)"
proof (induction rs rule: rev_induct)
  case Nil
  then show ?case by (simp add: max_seq_def)
next
  case (snoc r rs)
  then have "max_seq rs = int (length rs)" "ev_seq r = int (Suc (length rs))"
    by (simp_all add: numbered_snoc)
  then show ?case by (simp add: max_seq_snoc)
qed

lemma numbered_nth: "numbered rs \<Longrightarrow> i < length rs \<Longrightarrow> ev_seq (rs ! i) = int (Suc i)"
proof -
  assume "numbered rs" "i < length rs"
  then have "map ev_seq rs ! i = map int [1..<Suc (length rs)] ! i"
    by (simp only: numbered_def)
  with \<open>i < length rs\<close> show ?thesis by (simp del: upt_Suc)
qed

lemma numbered_append_seqs:
  assumes "numbered (a @ u # b)"
  shows "ev_seq u = int (Suc (length a))"
    and "r \<in> set a \<Longrightarrow> ev_seq r < ev_seq u" and "r \<in> set b \<Longrightarrow> ev_seq u < ev_seq r"
proof -
  have nth: "\<And>i. i < length (a @ u # b) \<Longrightarrow> ev_seq ((a @ u # b) ! i) = int (Suc i)"
    using numbered_nth [OF assms] by blast
  show u: "ev_seq u = int (Suc (length a))" using nth [of "length a"] by simp
  show "r \<in> set a \<Longrightarrow> ev_seq r < ev_seq u"
  proof -
    assume "r \<in> set a"
    then obtain i where "i < length a" "a ! i = r" by (auto simp: in_set_conv_nth)
    then show ?thesis using nth [of i] u by (simp add: nth_append)
  qed
  show "r \<in> set b \<Longrightarrow> ev_seq u < ev_seq r"
  proof -
    assume "r \<in> set b"
    then obtain i where "i < length b" "b ! i = r" by (auto simp: in_set_conv_nth)
    then show ?thesis using nth [of "Suc (length a + i)"] u by (simp add: nth_append)
  qed
qed

section \<open>The chain\<close>

definition chain_status_of :: "(string \<Rightarrow> string) \<Rightarrow> event_row list \<Rightarrow> chain_status" where
  "chain_status_of sha rs = (case rs of [] \<Rightarrow> Intact | r # rs' \<Rightarrow> verify_rows sha r rs')"

definition chain_ok :: "(string \<Rightarrow> string) \<Rightarrow> event_row list \<Rightarrow> bool" where
  "chain_ok sha rs \<longleftrightarrow> (case rs of [] \<Rightarrow> True | r # rs' \<Rightarrow> verify_rows sha r rs' = Intact)"

definition log_ok :: "(string \<Rightarrow> string) \<Rightarrow> store \<Rightarrow> bool" where
  "log_ok sha s \<longleftrightarrow> wf_log s \<and> (\<forall>x. chain_ok sha (of_session x (st_events s)))"

lemma verify_rest_snoc:
  "verify_rest sha p (rs @ [r]) = Intact \<longleftrightarrow>
     verify_rest sha p rs = Intact \<and> ev_prev_digest r = Some (row_digest sha (last (p # rs)))"
  by (induction rs arbitrary: p) (auto split: option.splits)

lemma chain_ok_snoc:
  "chain_ok sha (rs @ [r]) \<longleftrightarrow> chain_ok sha rs \<and>
     ev_prev_digest r = (if rs = [] then None else Some (row_digest sha (last rs)))"
  by (cases rs) (auto simp: chain_ok_def verify_rows_def verify_rest_snoc)

lemma verify_chain_intact:
  assumes "log_ok sha s" "st_fault s = None" "rows_of x s \<noteq> []"
  shows "verify_chain sha x s = Inr \<lparr>cv_session = x, cv_status = Intact\<rparr>"
proof -
  from assms(1) have "chain_ok sha (rows_of x s)" by (simp add: log_ok_def rows_of_wf)
  with assms show ?thesis by (auto simp: verify_chain_def chain_ok_def split: list.splits)
qed

lemma verify_chain_status:
  "wf_log s \<Longrightarrow> st_fault s = None \<Longrightarrow> of_session x (st_events s) = r # rs \<Longrightarrow>
     verify_chain sha x s = Inr \<lparr>cv_session = x, cv_status = chain_status_of sha (r # rs)\<rparr>"
  by (simp add: verify_chain_def rows_of_wf chain_status_of_def)

lemma of_session_mem: "r \<in> set (of_session x rs) \<Longrightarrow> ev_session r = x \<and> r \<in> set rs"
  by (simp add: of_session_def)

lemma log_ok_empty [simp]: "log_ok sha empty_store"
  by (simp add: log_ok_def wf_log_def empty_store_def of_session_def chain_ok_def)

lemma of_session_filter_self:
  "of_session x [r] = (if ev_session r = x then [r] else [])"
  by (simp add: of_session_def)

lemma append_events:
  assumes "wf_log s" "st_fault s = None"
  shows "append_event_at sha x kind payload ts s =
    (let rs = of_session x (st_events s);
         row = \<lparr>ev_session = x, ev_seq = int (Suc (length rs)), ev_ts = to_i64 ts, ev_kind = kind,
                ev_payload = payload,
                ev_prev_digest = (if rs = [] then None else Some (row_digest sha (last rs)))\<rparr>
     in (Inr \<lparr>le_session = x, le_seq = Suc (length rs), le_ts = ts, le_kind = kind,
              le_payload = payload\<rparr>, s\<lparr>st_events := st_events s @ [row]\<rparr>))"
proof -
  have "max_seq (of_session x (st_events s)) = int (length (of_session x (st_events s)))"
    using assms by (simp add: wf_log_def max_seq_numbered)
  then show ?thesis using assms
    by (simp add: append_event_at_def rows_of_wf of_session_def Let_def add.commute
        flip: of_nat_Suc del: of_nat_Suc)
qed

lemma log_ok_append:
  assumes "log_ok sha s" "st_fault s = None"
  shows "log_ok sha (snd (append_event_at sha x kind payload ts s))"
  using assms
  by (auto simp: log_ok_def append_events Let_def wf_log_def of_session_filter_self numbered_snoc
      chain_ok_snoc)

lemma of_session_filter_out:
  "of_session x (filter (\<lambda>r. ev_session r \<noteq> y) rs) = (if x = y then [] else of_session x rs)"
  by (induction rs) (auto simp: of_session_def)

lemma log_ok_purge: "log_ok sha s \<Longrightarrow> log_ok sha (snd (purge_session_events x s))"
  by (auto simp: log_ok_def wf_log_def purge_session_events_def execute_def of_session_filter_out
      chain_ok_def split: option.splits)

lemma log_ok_entries: "st_events s' = st_events s \<Longrightarrow> log_ok sha s' = log_ok sha s"
  by (simp add: log_ok_def wf_log_def)

lemma set_events [simp]: "st_events (snd (store_set ns k v now s)) = st_events s"
  by (auto simp: store_set_def execute_def split: option.splits)

lemma delete_events [simp]: "st_events (snd (store_delete ns k s)) = st_events s"
  by (auto simp: store_delete_def execute_def split: option.splits)

lemma purge_namespace_events [simp]: "st_events (snd (store_purge_namespace ns s)) = st_events s"
  by (auto simp: store_purge_namespace_def execute_def split: option.splits)

text \<open>The stores a gateway reaches from an empty one without forking.\<close>

inductive log_run :: "(string \<Rightarrow> string) \<Rightarrow> store \<Rightarrow> bool" for sha where
  opened: "log_run sha empty_store"
| appended: "log_run sha s \<Longrightarrow> log_run sha (snd (append_event_at sha x kind payload ts s))"
| purged: "log_run sha s \<Longrightarrow> log_run sha (snd (purge_session_events x s))"
| stored: "log_run sha s \<Longrightarrow> log_run sha (snd (store_set ns k v now s))"
| deleted: "log_run sha s \<Longrightarrow> log_run sha (snd (store_delete ns k s))"
| purged_namespace: "log_run sha s \<Longrightarrow> log_run sha (snd (store_purge_namespace ns s))"

inductive_simps log_run_empty: "log_run sha empty_store"

lemma fault_kept [simp]:
  "st_fault (snd (append_event_at sha x kind payload ts s)) = st_fault s"
  "st_fault (snd (purge_session_events x s)) = st_fault s"
  "st_fault (snd (store_set ns k v now s)) = st_fault s"
  "st_fault (snd (store_delete ns k s)) = st_fault s"
  "st_fault (snd (store_purge_namespace ns s)) = st_fault s"
  by (auto simp: append_event_at_def purge_session_events_def store_set_def store_delete_def
      store_purge_namespace_def execute_def Let_def split: option.splits)

lemma log_run_ok: "log_run sha s \<Longrightarrow> log_ok sha s \<and> st_fault s = None"
proof (induction rule: log_run.induct)
  case opened
  have "st_fault empty_store = None" by (simp add: empty_store_def)
  then show ?case by simp
next
  case (stored s ns k v now)
  then show ?case using log_ok_entries [OF set_events] by simp
next
  case (deleted s ns k)
  then show ?case using log_ok_entries [OF delete_events] by simp
next
  case (purged_namespace s ns)
  then show ?case using log_ok_entries [OF purge_namespace_events] by simp
qed (simp_all add: log_ok_append log_ok_purge)

section \<open>Forks\<close>

lemma map_enumerate_fork:
  "map (\<lambda>(i, r). forked_row d i r) (enumerate n rs) =
     map (\<lambda>i. forked_row d (n + i) (rs ! i)) [0..<length rs]"
  by (rule nth_equalityI) (auto simp: nth_enumerate_eq)

definition copies_of :: "string \<Rightarrow> event_row list \<Rightarrow> event_row list" where
  "copies_of d src = map (\<lambda>(i, r). forked_row d i r) (enumerate 0 src)"

lemma copies_of_simps [simp]:
  "length (copies_of d src) = length src"
  "of_session x (copies_of d src) = (if x = d then copies_of d src else [])"
  by (auto simp: copies_of_def of_session_def map_enumerate_fork forked_row_def filter_id_conv
      filter_empty_conv)

lemma numbered_copies [simp]: "numbered (copies_of d src)"
  unfolding numbered_def copies_of_def map_enumerate_fork
  by (rule nth_equalityI) (simp_all add: forked_row_def del: upt_Suc)

lemma fork_result:
  assumes "wf_log s" "st_fault s = None" "of_session d (st_events s) = []"
  shows "fork_events x at_seq d s =
    (let src = filter (\<lambda>r. ev_seq r \<le> to_i64 at_seq) (of_session x (st_events s))
     in (Inr (length src), s\<lparr>st_events := st_events s @ copies_of d src\<rparr>))"
  using assms
  by (simp add: fork_events_def session_events_def query_def rows_of_wf copies_of_def Let_def)

lemma fork_wf:
  assumes "wf_log s" "st_fault s = None"
  shows "wf_log (snd (fork_events x at_seq d s))"
proof (cases "of_session d (st_events s) = []")
  case True
  then show ?thesis using assms by (auto simp: fork_result Let_def wf_log_def)
next
  case False
  then show ?thesis using assms
    by (simp add: fork_events_def session_events_def query_def rows_of_wf)
qed

lemma take_numbered: "numbered rs \<Longrightarrow> filter (\<lambda>r. ev_seq r \<le> int n) rs = take n rs"
proof (induction rs rule: rev_induct)
  case (snoc r rs)
  then show ?case by (auto simp: numbered_snoc take_Cons split: nat.split)
qed simp

lemma logged_copies:
  assumes "numbered rs" "\<forall>r \<in> set rs. ev_session r = x"
  shows "map logged (copies_of d (take n rs)) =
    map (\<lambda>e. e\<lparr>le_session := d\<rparr>) (take n (map logged rs))"
  unfolding copies_of_def map_enumerate_fork
  using assms(1)
  by (intro nth_equalityI) (simp_all add: forked_row_def logged_def numbered_nth)

lemma fork_events_healthy:
  assumes "wf_log s" "st_fault s = None" "of_session d (st_events s) = []" "n < 2 ^ 63"
  shows "fork_events x n d s =
    (Inr (min n (length (of_session x (st_events s)))),
     s\<lparr>st_events := st_events s @ copies_of d (take n (of_session x (st_events s)))\<rparr>)"
proof -
  have "to_i64 n = int n" using assms(4) by (simp add: to_i64_def)
  moreover have "numbered (of_session x (st_events s))" using assms(1) by (simp add: wf_log_def)
  ultimately show ?thesis
    using fork_result [OF assms(1-3)] by (simp add: take_numbered Let_def min.commute)
qed

lemma fork_keeps_run_facts:
  "wf_log s \<Longrightarrow> st_fault s = None \<Longrightarrow> st_fault (snd (fork_events x n d s)) = None"
  by (simp add: fork_events_def session_events_def query_def Let_def)

lemma copies_chain:
  assumes "length src = Suc (Suc n)"
  shows "chain_status_of sha (copies_of d src) = Broken 2 (ev_kind (src ! 1)) missing_reason"
proof -
  obtain r1 r2 rs where "src = r1 # r2 # rs" using assms by (auto simp: length_Suc_conv)
  then show ?thesis
    by (simp add: copies_of_def chain_status_of_def verify_rows_def forked_row_def to_u64_def)
qed

section \<open>An edited row\<close>

lemma of_session_map:
  "(\<And>r. ev_session (f r) = ev_session r) \<Longrightarrow> of_session x (map f rs) = map f (of_session x rs)"
  by (induction rs) (auto simp: of_session_def)

lemma verify_rest_edit:
  assumes "verify_rest sha p (a @ r # r2 # b) = Intact" "ev_prev_digest r' = ev_prev_digest r"
    "row_digest sha r' \<noteq> row_digest sha r"
  shows "verify_rest sha p (a @ r' # r2 # b) = Broken (to_u64 (ev_seq r2)) (ev_kind r2)
    (mismatch_reason (row_digest sha r') (row_digest sha r))"
  using assms by (induction a arbitrary: p) (auto split: option.splits if_splits)

lemma verify_rows_edit:
  assumes "chain_ok sha (a @ r # r2 # b)" "ev_prev_digest r' = ev_prev_digest r"
    "row_digest sha r' \<noteq> row_digest sha r"
  shows "chain_status_of sha (a @ r' # r2 # b) = Broken (to_u64 (ev_seq r2)) (ev_kind r2)
    (mismatch_reason (row_digest sha r') (row_digest sha r))"
proof (cases a)
  case Nil
  then show ?thesis using assms
    by (auto simp: chain_ok_def chain_status_of_def verify_rows_def split: option.splits if_splits)
next
  case (Cons h a')
  then show ?thesis
    using assms verify_rest_edit [of sha h a' r r2 b r']
    by (auto simp: chain_ok_def chain_status_of_def verify_rows_def split: if_splits)
qed

lemma chain_ok_edit_last:
  "chain_ok sha (a @ [r]) \<Longrightarrow> ev_prev_digest r' = ev_prev_digest r \<Longrightarrow> chain_ok sha (a @ [r'])"
  by (simp add: chain_ok_snoc)

lemma numbered_edit:
  assumes "numbered (a @ u # b)" "\<And>r. ev_seq r \<noteq> ev_seq u \<Longrightarrow> f r = r"
  shows "map f (a @ u # b) = a @ f u # b"
proof -
  have "map f a = a" using assms(2) numbered_append_seqs(2) [OF assms(1)]
    by (force intro: map_idI)
  moreover have "map f b = b" using assms(2) numbered_append_seqs(3) [OF assms(1)]
    by (force intro: map_idI)
  ultimately show ?thesis by simp
qed

section \<open>Linking an old log\<close>

fun linked :: "(string \<Rightarrow> string) \<Rightarrow> event_row \<Rightarrow> event_row list \<Rightarrow> event_row list" where
  "linked sha p [] = []"
| "linked sha p (r # rs) = r\<lparr>ev_prev_digest := Some (row_digest sha p)\<rparr> # linked sha r rs"

lemma row_digest_update [simp]: "row_digest sha (r\<lparr>ev_prev_digest := d\<rparr>) = row_digest sha r"
  by (simp add: row_digest_def)

lemma verify_linked:
  "row_digest sha p' = row_digest sha p \<Longrightarrow> verify_rest sha p' (linked sha p rs) = Intact"
  by (induction rs arbitrary: p p') auto

lemma linked_seqs [simp]: "map ev_seq (linked sha p rs) = map ev_seq rs"
  by (induction rs arbitrary: p) auto

lemma numbered_seqs: "map ev_seq rs = map ev_seq rs' \<Longrightarrow> numbered rs = numbered rs'"
  unfolding numbered_def by (metis length_map)

lemma of_session_set_digest:
  "of_session y (set_digest x q d tbl) =
     (if y = x then map (\<lambda>r. if ev_seq r = q then r\<lparr>ev_prev_digest := Some d\<rparr> else r)
        (of_session y tbl) else of_session y tbl)"
  unfolding set_digest_def
  by (subst of_session_map) (auto simp: of_session_def intro!: map_idI)

lemma of_session_relink:
  "numbered (a @ rs) \<Longrightarrow> of_session x tbl = a @ rs \<Longrightarrow>
     of_session x (relink sha x p rs tbl) = a @ linked sha p rs"
proof (induction rs arbitrary: a p tbl)
  case (Cons r rs)
  let ?r = "r\<lparr>ev_prev_digest := Some (row_digest sha p)\<rparr>"
  let ?tbl = "set_digest x (ev_seq r) (row_digest sha p) tbl"
  have "of_session x ?tbl = (a @ [?r]) @ rs"
    unfolding of_session_set_digest using Cons.prems
    by (subst Cons.prems(2)) (subst numbered_edit, auto)
  moreover have "numbered ((a @ [?r]) @ rs)"
    using Cons.prems(1) numbered_seqs [of "(a @ [?r]) @ rs" "a @ r # rs"] by simp
  ultimately show ?case using Cons.IH [of "a @ [?r]" ?tbl r] by simp
qed simp

lemma of_session_relink_other:
  "y \<noteq> x \<Longrightarrow> of_session y (relink sha x p rs tbl) = of_session y tbl"
  by (induction rs arbitrary: p tbl) (simp_all add: of_session_set_digest)

lemma relink_session_spec:
  assumes "wf_log s"
  shows "st_fault (relink_session sha x s) = st_fault s"
    and "of_session y (st_events (relink_session sha x s)) =
      (if y = x then (case of_session x (st_events s) of [] \<Rightarrow> [] | r # rs \<Rightarrow> r # linked sha r rs)
       else of_session y (st_events s))"
proof -
  show "st_fault (relink_session sha x s) = st_fault s"
    by (simp add: relink_session_def split: list.split)
  show "of_session y (st_events (relink_session sha x s)) =
      (if y = x then (case of_session x (st_events s) of [] \<Rightarrow> [] | r # rs \<Rightarrow> r # linked sha r rs)
       else of_session y (st_events s))"
  proof (cases "of_session x (st_events s)")
    case Nil
    with assms show ?thesis by (simp add: relink_session_def rows_of_wf)
  next
    case (Cons r rs)
    have "numbered ([r] @ rs)" using assms Cons by (simp add: wf_log_def) (metis Cons)
    with assms Cons show ?thesis
      using of_session_relink [of "[r]" rs x "st_events s" sha r]
      by (simp add: relink_session_def rows_of_wf of_session_relink_other)
  qed
qed

lemma relink_session_wf: "wf_log s \<Longrightarrow> wf_log (relink_session sha x s)"
  unfolding wf_log_def
proof
  fix y
  assume wf: "\<forall>x. numbered (of_session x (st_events s))"
  then have "wf_log s" by (simp add: wf_log_def)
  moreover have "numbered (r # linked sha r rs)" if "of_session x (st_events s) = r # rs" for r rs
    using wf that numbered_seqs [of "r # linked sha r rs" "r # rs"] by (metis linked_seqs list.simps(9))
  ultimately show "numbered (of_session y (st_events (relink_session sha x s)))"
    using wf by (auto simp: relink_session_spec split: list.split)
qed

lemma fold_relink:
  assumes "wf_log s" "distinct xs"
  shows "wf_log (fold (relink_session sha) xs s) \<and>
    st_fault (fold (relink_session sha) xs s) = st_fault s \<and>
    of_session y (st_events (fold (relink_session sha) xs s)) =
      (if y \<in> set xs
       then (case of_session y (st_events s) of [] \<Rightarrow> [] | r # rs \<Rightarrow> r # linked sha r rs)
       else of_session y (st_events s))"
  using assms
proof (induction xs arbitrary: s)
  case (Cons x xs)
  have "wf_log (relink_session sha x s)" using Cons.prems by (simp add: relink_session_wf)
  with Cons show ?case by (auto simp: relink_session_spec split: list.split)
qed simp

lemma migrated_log_ok:
  assumes "wf_log s" "st_fault s = None" "\<forall>r \<in> set (st_events s). ev_prev_digest r = None"
  shows "log_ok sha (snd (migrate_digests sha s))"
proof -
  let ?xs = "sort (remdups (map ev_session (st_events s)))"
  let ?s = "fold (relink_session sha) ?xs s"
  have "chain_ok sha (of_session y (st_events ?s))" for y
  proof (cases "of_session y (st_events s)")
    case Nil
    then show ?thesis using fold_relink [OF assms(1), of ?xs sha y] by (simp add: chain_ok_def)
  next
    case (Cons r rs)
    then have "r \<in> set (of_session y (st_events s))" by simp
    then have "r \<in> set (st_events s)" "ev_session r = y" by (auto simp: of_session_def)
    then have "y \<in> set ?xs" "ev_prev_digest r = None" using assms(3) by auto
    then show ?thesis using Cons fold_relink [OF assms(1), of ?xs sha y]
      by (simp add: chain_ok_def verify_rows_def verify_linked)
  qed
  then show ?thesis using fold_relink [OF assms(1), of ?xs sha] assms(2)
    by (simp add: migrate_digests_def Let_def log_ok_def)
qed

section \<open>Entries\<close>

definition keys_of :: "store \<Rightarrow> (string \<times> string) list" where
  "keys_of s = map (\<lambda>r. (er_namespace r, er_key r)) (st_entries s)"

definition wf_entries :: "store \<Rightarrow> bool" where
  "wf_entries s \<longleftrightarrow> distinct (keys_of s)"

lemma at_key_update [simp]: "at_key ns k (r\<lparr>er_value := v, er_updated := t\<rparr>) = at_key ns k r"
  by (simp add: at_key_def)

lemma at_key_at_key: "at_key ns k r \<Longrightarrow> at_key n q r \<longleftrightarrow> n = ns \<and> q = k"
  by (auto simp: at_key_def)

lemma at_key_new [simp]:
  "at_key n q \<lparr>er_namespace = ns, er_key = k, er_value = v, er_created = c, er_updated = t\<rparr>
     \<longleftrightarrow> n = ns \<and> q = k"
  by (auto simp: at_key_def)

lemma find_upsert:
  "List.find (at_key n q) (upsert ns k v t rs) =
     (if n = ns \<and> q = k
      then Some (case List.find (at_key ns k) rs of
             Some r \<Rightarrow> r\<lparr>er_value := v, er_updated := t\<rparr>
           | None \<Rightarrow> \<lparr>er_namespace = ns, er_key = k, er_value = v, er_created = t, er_updated = t\<rparr>)
      else List.find (at_key n q) rs)"
proof (induction rs)
  case (Cons r rs)
  then show ?case by (cases "at_key ns k r") (auto simp: at_key_at_key)
qed simp

lemma find_filter_not:
  "List.find (at_key n q) (filter (\<lambda>r. \<not> at_key ns k r) rs) =
     (if n = ns \<and> q = k then None else List.find (at_key n q) rs)"
proof (induction rs)
  case (Cons r rs)
  then show ?case by (cases "at_key ns k r") (auto simp: at_key_at_key)
qed simp

lemma keys_upsert:
  "set (map (\<lambda>r. (er_namespace r, er_key r)) (upsert ns k v t rs)) =
     insert (ns, k) (set (map (\<lambda>r. (er_namespace r, er_key r)) rs))"
  by (induction rs) (auto simp: at_key_def)

lemma distinct_upsert:
  "distinct (map (\<lambda>r. (er_namespace r, er_key r)) rs) \<Longrightarrow>
     distinct (map (\<lambda>r. (er_namespace r, er_key r)) (upsert ns k v t rs))"
proof (induction rs)
  case (Cons r rs)
  then show ?case
    using keys_upsert [of ns k v t rs] by (auto simp: at_key_def)
qed simp

lemma wf_entries_set: "wf_entries s \<Longrightarrow> wf_entries (snd (store_set ns k v now s))"
  by (auto simp: wf_entries_def keys_of_def store_set_def execute_def distinct_upsert
      split: option.splits)

lemma wf_entries_delete: "wf_entries s \<Longrightarrow> wf_entries (snd (store_delete ns k s))"
  by (auto simp: wf_entries_def keys_of_def store_delete_def execute_def distinct_map_filter
      split: option.splits)

end
