(* ===== verification/Projection.thy ===== *)
theory Projection
  imports EventLog Store_Facts
begin

text \<open>
  The conversation a session's log describes (\<open>host/session/src/projection.rs\<close>), and the facts
  that tie it to the rows the persisting sink writes.
\<close>

fun event_message :: "event \<Rightarrow> message option" where
  "event_message (Done t a) =
     Some \<lparr>msg_role = Assistant, msg_content = t, msg_tool_call_id = None\<rparr>"
| "event_message (ToolResult out) =
     Some \<lparr>msg_role = Tool, msg_content = out_content out,
           msg_tool_call_id = Some (out_tool_call_id out)\<rparr>"
| "event_message _ = None"

fun message_for :: "log_record \<Rightarrow> message option" where
  "message_for (RUserMessage m) =
     Some \<lparr>msg_role = User, msg_content = m, msg_tool_call_id = None\<rparr>"
| "message_for (RFollowUp m) =
     Some \<lparr>msg_role = User, msg_content = m, msg_tool_call_id = None\<rparr>"
| "message_for (REvent ev) = event_message ev"
| "message_for _ = None"

definition placed_transcript :: "parser \<Rightarrow> logged_event list \<Rightarrow> (nat \<times> message) list" where
  "placed_transcript parse events =
     List.map_filter (\<lambda>row.
       Option.bind (ok_of (decode_record parse (le_kind row) (le_payload row))) (\<lambda>r.
         map_option (\<lambda>m. (le_seq row, m)) (message_for r))) events"

definition transcript :: "parser \<Rightarrow> logged_event list \<Rightarrow> message list" where
  "transcript parse events = map snd (placed_transcript parse events)"

definition last_turns :: "logged_event list \<Rightarrow> nat \<Rightarrow> logged_event list" where
  "last_turns events turns =
     (if turns = 0 then []
      else (let starts = map fst (filter (\<lambda>(_, row). le_kind row = KIND_USER_MESSAGE)
                                    (enumerate 0 events))
            in if length starts \<le> turns then events
               else drop (starts ! (length starts - turns)) events))"

section \<open>Decoding what was encoded\<close>

lemma open_envelope_of:
  "parse (envelope render d) = Inr (envelope_json d) \<Longrightarrow>
     open_envelope parse (envelope render d) = Inr d"
  by (simp add: open_envelope_def envelope_json_def EVENT_LOG_VERSION_def json_simps to_u32_def)

lemma record_of_encoded: "record_of (fst (encoded ev)) (snd (encoded ev)) = Inr (REvent ev)"
  by (cases ev) (simp_all add: record_of_def kind_defs text_field_def json_simps)

lemma record_of_message:
  "record_of KIND_USER_MESSAGE (message_data m) = Inr (RUserMessage m)"
  "record_of KIND_FOLLOW_UP (message_data m) = Inr (RFollowUp m)"
  by (simp_all add: record_of_def kind_defs text_field_def json_simps message_data_def)

lemma collect_strings [simp]:
  "collect_ok (map (\<lambda>i. ok_or e (as_str i)) (map JStr xs)) = Inr xs"
  by (induction xs) simp_all

lemma record_of_ask:
  "record_of KIND_ASK (ask_data p) =
     Inr (RAsk (up_question p) (up_options p) (up_default_answer p))"
  by (simp add: record_of_def kind_defs text_field_def strings_field_def json_simps ask_data_def
      del: map_map)

lemma record_of_answer: "record_of KIND_ANSWER (answer_data a) = Inr (RAnswer a)"
  by (simp add: record_of_def kind_defs text_field_def json_simps answer_data_def)

lemma decode_record_of:
  "parse (envelope render d) = Inr (envelope_json d) \<Longrightarrow>
     decode_record parse kind (envelope render d) = record_of kind d"
  by (simp add: decode_record_def open_envelope_of)

lemma encode_parts: "encode render ev = (fst (encoded ev), envelope render (snd (encoded ev)))"
  by (simp add: encode_def split: prod.split)

section \<open>The log under the persisting sink\<close>

lemma transcript_append [simp]:
  "transcript parse (a @ b) = transcript parse a @ transcript parse b"
  by (simp add: transcript_def placed_transcript_def List.map_filter_def)

lemma transcript_Nil [simp]: "transcript parse [] = []"
  by (simp add: transcript_def placed_transcript_def List.map_filter_def)

definition read_row :: "parser \<Rightarrow> string \<times> string \<Rightarrow> message list" where
  "read_row parse row =
     (case ok_of (decode_record parse (fst row) (snd row)) of
        None \<Rightarrow> [] | Some r \<Rightarrow> (case message_for r of None \<Rightarrow> [] | Some m \<Rightarrow> [m]))"

lemma transcript_row:
  "transcript parse [e] = read_row parse (le_kind e, le_payload e)"
  by (auto simp: transcript_def placed_transcript_def List.map_filter_def read_row_def
      split: option.splits)

definition events_now :: "string \<Rightarrow> store \<Rightarrow> logged_event list" where
  "events_now x s = map logged (of_session x (st_events s))"

lemma session_events_now:
  "wf_log s \<Longrightarrow> st_fault s = None \<Longrightarrow> session_events x s = Inr (events_now x s)"
  by (simp add: session_events_def query_def rows_of_wf events_now_def)

definition append_row ::
  "(string \<Rightarrow> string) \<Rightarrow> nat \<Rightarrow> string \<Rightarrow> string \<times> string \<Rightarrow> store \<Rightarrow> store" where
  "append_row sha now x row s = snd (append_event_at sha x (fst row) (snd row) now s)"

lemma append_row_run: "log_run sha s \<Longrightarrow> log_run sha (append_row sha now x row s)"
  by (simp add: append_row_def log_run.appended)

lemma transcript_append_row:
  assumes "log_ok sha s" "st_fault s = None"
  shows "transcript parse (events_now y (append_row sha now x row s)) =
    transcript parse (events_now y s) @ (if y = x then read_row parse row else [])"
  using assms
  by (simp add: append_row_def append_events log_ok_def Let_def events_now_def of_session_filter_self
      transcript_row logged_def)

section \<open>The last turns of a log\<close>

abbreviation user_row :: "event_row \<Rightarrow> bool" where
  "user_row r \<equiv> ev_kind r = KIND_USER_MESSAGE"

lemma split_at_nth_last:
  assumes "0 < n" "n \<le> length (filter P xs)"
  shows "\<exists>a u b. xs = a @ u # b \<and> P u \<and> length (filter P b) = n - 1"
  using assms
proof (induction xs)
  case (Cons x xs)
  show ?case
  proof (cases "n \<le> length (filter P xs)")
    case True
    with Cons obtain a u b where "xs = a @ u # b" "P u" "length (filter P b) = n - 1" by blast
    then have "x # xs = (x # a) @ u # b \<and> P u \<and> length (filter P b) = n - 1" by simp
    then show ?thesis by blast
  next
    case False
    with Cons.prems have "x # xs = [] @ x # xs \<and> P x \<and> length (filter P xs) = n - 1"
      by (auto split: if_splits)
    then show ?thesis by blast
  qed
qed simp

lemma enumerate_append: "enumerate n (a @ b) = enumerate n a @ enumerate (n + length a) b"
  by (induction a arbitrary: n) simp_all

definition user_starts :: "nat \<Rightarrow> logged_event list \<Rightarrow> nat list" where
  "user_starts n es =
     map fst (filter (\<lambda>(_, row). le_kind row = KIND_USER_MESSAGE) (enumerate n es))"

lemma user_starts_append: "user_starts n (a @ b) = user_starts n a @ user_starts (n + length a) b"
  by (simp add: user_starts_def enumerate_append)

lemma length_user_starts:
  "length (user_starts n es) = length (filter (\<lambda>r. le_kind r = KIND_USER_MESSAGE) es)"
  by (induction es arbitrary: n) (auto simp: user_starts_def)

lemma last_turns_split:
  assumes "le_kind u = KIND_USER_MESSAGE"
    and "length (filter (\<lambda>r. le_kind r = KIND_USER_MESSAGE) b) = n - 1" and "0 < n"
    and "\<exists>r \<in> set a. le_kind r = KIND_USER_MESSAGE"
  shows "last_turns (a @ u # b) n = u # b"
proof -
  have st: "user_starts 0 (a @ u # b) = user_starts 0 a @ length a # user_starts (Suc (length a)) b"
    using assms(1) by (simp add: user_starts_append) (simp add: user_starts_def)
  have "filter (\<lambda>r. le_kind r = KIND_USER_MESSAGE) a \<noteq> []"
    using assms(4) by (simp add: filter_empty_conv)
  then have "0 < length (user_starts 0 a)" by (simp add: length_user_starts)
  then show ?thesis
    using assms(2,3) st
    by (simp add: last_turns_def length_user_starts flip: user_starts_def) (simp add: nth_append length_user_starts)
qed

lemma last_turns_all:
  "length (filter (\<lambda>r. le_kind r = KIND_USER_MESSAGE) es) \<le> n \<Longrightarrow> 0 < n \<Longrightarrow> last_turns es n = es"
  by (simp add: last_turns_def length_user_starts flip: user_starts_def)

lemma filter_from_split:
  assumes "numbered (a @ u # b)"
  shows "filter (\<lambda>r. ev_seq u \<le> ev_seq r) (a @ u # b) = u # b"
proof -
  have "filter (\<lambda>r. ev_seq u \<le> ev_seq r) a = []"
    using numbered_append_seqs(2) [OF assms] by (force simp: filter_empty_conv)
  moreover have "filter (\<lambda>r. ev_seq u \<le> ev_seq r) b = b"
    using numbered_append_seqs(3) [OF assms] by (force simp: filter_id_conv)
  ultimately show ?thesis by simp
qed

lemma min_list_rev_first:
  "\<forall>y \<in> set ys. (x::int) < y \<Longrightarrow> min_list (rev ys @ [x]) = x"
  by (subst min_list_Min) (auto intro!: Min_eqI simp: less_imp_le)

lemma recent_split:
  assumes "numbered (a @ u # b)" "user_row u" "length (filter user_row b) = n - 1" "0 < n"
  shows "min_list (take n (rev (map ev_seq (filter user_row (a @ u # b))))) = ev_seq u"
proof -
  have "rev (map ev_seq (filter user_row (a @ u # b))) =
      (rev (map ev_seq (filter user_row b)) @ [ev_seq u]) @ rev (map ev_seq (filter user_row a))"
    using assms(2) by simp
  moreover have "n = length (rev (map ev_seq (filter user_row b)) @ [ev_seq u])"
    using assms(3,4) by simp
  ultimately have "take n (rev (map ev_seq (filter user_row (a @ u # b)))) =
      rev (map ev_seq (filter user_row b)) @ [ev_seq u]"
    by (metis append_eq_conv_conj)
  then show ?thesis
    using min_list_rev_first numbered_append_seqs(3) [OF assms(1)] by auto
qed

lemma le_kind_logged [simp]: "le_kind (logged r) = ev_kind r"
  by (simp add: logged_def)

lemma user_logged [simp]: "(\<lambda>e. le_kind e = KIND_USER_MESSAGE) \<circ> logged = user_row"
  by (simp add: fun_eq_iff)

lemma filter_user_logged [simp]:
  "length (filter (\<lambda>e. le_kind e = KIND_USER_MESSAGE) (map logged rs)) = length (filter user_row rs)"
  by (simp add: filter_map o_def)

lemma numbered_nonneg: "numbered rs \<Longrightarrow> filter (\<lambda>r. 0 \<le> ev_seq r) rs = rs"
  by (auto simp: filter_id_conv in_set_conv_nth numbered_nth)

definition recent_rows :: "nat \<Rightarrow> event_row list \<Rightarrow> event_row list" where
  "recent_rows n rs =
     (let starts = take n (rev (map ev_seq (filter user_row rs)));
          from_seq = (if starts = [] then 0 else min_list starts)
      in filter (\<lambda>r. from_seq \<le> ev_seq r) rs)"

lemma recent_rows_split:
  assumes "numbered (a @ u # b)" "user_row u" "length (filter user_row b) = n - 1" "0 < n"
  shows "recent_rows n (a @ u # b) = u # b"
proof -
  have "take n (rev (map ev_seq (filter user_row (a @ u # b)))) \<noteq> []"
    using assms(2,4) by simp
  then show ?thesis
    using recent_split [OF assms] filter_from_split [OF assms(1)]
    unfolding recent_rows_def Let_def by (simp only: if_False)
qed

lemma recent_rows_all:
  "length (filter user_row rs) \<le> n \<Longrightarrow> recent_rows n rs = recent_rows (length (filter user_row rs)) rs"
  by (simp add: recent_rows_def)

lemma dropWhile_split:
  "user_row u \<Longrightarrow> filter user_row a = [] \<Longrightarrow> dropWhile (\<lambda>r. \<not> user_row r) (a @ u # b) = u # b"
  by (induction a) (auto split: if_splits)

text \<open>
  What the query keeps: everything when no user message was logged, else the log from a user
  message on, the \<open>n\<close>-th from the end or the first when there are not more than \<open>n\<close>.
\<close>

lemma recent_rows_eq:
  assumes "numbered rs" "0 < n"
  shows "map logged (recent_rows n rs) =
    (if (\<exists>r \<in> set rs. user_row r) \<and> length (filter user_row rs) \<le> n
     then map logged (dropWhile (\<lambda>r. \<not> user_row r) rs) else last_turns (map logged rs) n)"
proof (cases "filter user_row rs = []")
  case True
  then have "recent_rows n rs = rs" "\<not> (\<exists>r \<in> set rs. user_row r)"
    using numbered_nonneg [OF assms(1)] by (auto simp: recent_rows_def filter_empty_conv)
  then show ?thesis using True assms(2) by (subst last_turns_all) simp_all
next
  case False
  let ?k = "length (filter user_row rs)"
  define m where "m = min n ?k"
  have m: "0 < m" "m \<le> ?k" using False assms(2) by (auto simp: m_def)
  from split_at_nth_last [OF m] obtain a u b
    where rs: "rs = a @ u # b" and u: "user_row u" and b: "length (filter user_row b) = m - 1"
    by blast
  have rec: "recent_rows m rs = u # b" using recent_rows_split assms(1) u b m(1) unfolding rs by blast
  show ?thesis
  proof (cases "?k \<le> n")
    case True
    then have "m = ?k" by (simp add: m_def)
    moreover have "length (filter user_row a) = 0"
      using b u m(1) arg_cong [OF rs, of "\<lambda>rs. length (filter user_row rs)"] \<open>m = ?k\<close>
      by (simp del: length_0_conv length_greater_0_conv)
    then have "filter user_row a = []" by simp
    ultimately show ?thesis using True rec u rs recent_rows_all [of rs n] dropWhile_split [of u a b]
      by simp
  next
    case more: False
    then have "m = n" by (simp add: m_def)
    moreover have "\<exists>r \<in> set (map logged a). le_kind r = KIND_USER_MESSAGE"
      using more b u rs \<open>m = n\<close> assms(2) by (auto simp: filter_empty_conv)
    ultimately show ?thesis
      using last_turns_split [of "logged u" "map logged b" n "map logged a"] b u rec rs more assms(2)
      by simp
  qed
qed

lemma recent_turns_rows:
  "recent_turns x n s = (if n = 0 then Inr [] else query s (map logged (recent_rows n (rows_of x s))))"
  by (simp add: recent_turns_def recent_rows_def Let_def)

end
