(* ===== verification/Store_Properties.thy ===== *)
theory Store_Properties
  imports Projection
begin

text \<open>
  The properties of the store, the event log and the projection: what each promises over every
  store reached by its own operations, and where the digest chain stops promising anything.
\<close>

section \<open>A concrete log\<close>

text \<open>A store of three rows; the digest parameter is the identity, which is injective.\<close>

definition demo_sha :: "string \<Rightarrow> string" where "demo_sha s = s"

definition demo_log :: store where
  "demo_log =
     append_row demo_sha 30 ''s'' (''done'', ''c'') (append_row demo_sha 20 ''s'' (''warning'', ''b'')
       (append_row demo_sha 10 ''s'' (KIND_USER_MESSAGE, ''a'') empty_store))"

lemma demo_log_run: "log_run demo_sha demo_log"
  unfolding demo_log_def by (intro append_row_run log_run.opened)

definition demo_row1 :: event_row where
  "demo_row1 = \<lparr>ev_session = ''s'', ev_seq = 1, ev_ts = 10, ev_kind = KIND_USER_MESSAGE,
     ev_payload = ''a'', ev_prev_digest = None\<rparr>"

definition demo_row2 :: event_row where
  "demo_row2 = \<lparr>ev_session = ''s'', ev_seq = 2, ev_ts = 20, ev_kind = ''warning'',
     ev_payload = ''b'', ev_prev_digest = Some (digest_text 1 10 KIND_USER_MESSAGE ''a'')\<rparr>"

definition demo_row3 :: event_row where
  "demo_row3 = \<lparr>ev_session = ''s'', ev_seq = 3, ev_ts = 30, ev_kind = ''done'',
     ev_payload = ''c'', ev_prev_digest = Some (digest_text 2 20 ''warning'' ''b'')\<rparr>"

lemmas demo_row_defs = demo_row1_def demo_row2_def demo_row3_def

lemma demo_log_events: "st_events demo_log = [demo_row1, demo_row2, demo_row3]"
  by (simp add: demo_log_def append_row_def append_event_at_def rows_of_def empty_store_def
      max_seq_def to_i64_def row_digest_def compute_event_digest_def demo_sha_def to_u64_def demo_row_defs)

lemma demo_rows: "rows_of ''s'' demo_log = [demo_row1, demo_row2, demo_row3]"
  using log_run_ok [OF demo_log_run]
  by (simp add: log_ok_def rows_of_wf of_session_def demo_log_events demo_row_defs)

lemma demo_other: "x \<noteq> ''s'' \<Longrightarrow> rows_of x demo_log = []"
  by (auto simp: rows_of_def demo_log_events demo_row_defs)

section \<open>The chain\<close>

text \<open>C18 (store_chain_intact): Over every store reached from an empty one by appends, purges and
  key-value writes, verifying a session with events reports the chain intact.\<close>

theorem store_chain_intact:
  assumes "log_run sha s" "rows_of x s \<noteq> []"
  shows "verify_chain sha x s = Inr \<lparr>cv_session = x, cv_status = Intact\<rparr>"
  using assms log_run_ok verify_chain_intact by blast

theorem store_chain_intact_witness:
  "verify_chain demo_sha ''s'' demo_log = Inr \<lparr>cv_session = ''s'', cv_status = Intact\<rparr>"
  by (rule store_chain_intact [OF demo_log_run]) (simp add: demo_rows)

text \<open>A party other than the writer rewrites one row of the table in place.\<close>

definition tamper ::
  "string \<Rightarrow> nat \<Rightarrow> nat \<Rightarrow> string \<Rightarrow> string \<Rightarrow> store \<Rightarrow> store" where
  "tamper x q ts kind payload s =
     s\<lparr>st_events := map (\<lambda>r. if ev_session r = x \<and> ev_seq r = int q
        then r\<lparr>ev_ts := int ts, ev_kind := kind, ev_payload := payload\<rparr> else r) (st_events s)\<rparr>"

lemma tamper_rows:
  assumes "wf_log s" "of_session x (st_events s) = a @ r # b"
  shows "wf_log (tamper x (Suc (length a)) ts kind payload s)"
    and "of_session x (st_events (tamper x (Suc (length a)) ts kind payload s)) =
      a @ r\<lparr>ev_ts := int ts, ev_kind := kind, ev_payload := payload\<rparr> # b"
proof -
  let ?f = "\<lambda>r. if ev_session r = x \<and> ev_seq r = int (Suc (length a))
        then r\<lparr>ev_ts := int ts, ev_kind := kind, ev_payload := payload\<rparr> else r"
  have of: "of_session y (st_events (tamper x (Suc (length a)) ts kind payload s)) =
      map ?f (of_session y (st_events s))" for y
    by (simp add: tamper_def) (rule of_session_map, simp)
  have "numbered (map ?f rs) = numbered rs" for rs
    by (rule numbered_seqs) simp
  then show "wf_log (tamper x (Suc (length a)) ts kind payload s)"
    using assms(1) unfolding wf_log_def of by blast
  have num: "numbered (a @ r # b)" using assms by (metis wf_log_def)
  have "ev_session r = x" using of_session_mem [of r x "st_events s"] assms(2) by simp
  then show "of_session x (st_events (tamper x (Suc (length a)) ts kind payload s)) =
      a @ r\<lparr>ev_ts := int ts, ev_kind := kind, ev_payload := payload\<rparr> # b"
    unfolding of assms(2) using numbered_append_seqs(1) [OF num]
    by (subst numbered_edit [OF num]) auto
qed

text \<open>
  What is hashed is the text \<open>seq/ts/kind/payload\<close>, which is not injective: a slash can move between the kind and the
  payload. It is injective on kinds without a slash, such as those the sinks write.
\<close>

lemma slash_split:
  assumes "a @ CHR ''/'' # b = c @ CHR ''/'' # d" "CHR ''/'' \<notin> set a" "CHR ''/'' \<notin> set c"
  shows "a = c \<and> b = d"
  using assms by (induction a arbitrary: c) (auto simp: Cons_eq_append_conv)

lemma show_nat_inject [simp]: "show_nat m = show_nat n \<longleftrightarrow> m = n"
  by (metis digits_value_show)

lemma digest_text_inject:
  assumes "digest_text q ts k p = digest_text q' ts' k' p'" "CHR ''/'' \<notin> set k" "CHR ''/'' \<notin> set k'"
  shows "q = q' \<and> ts = ts' \<and> k = k' \<and> p = p'"
  using assms by (auto simp: digest_text_def dest!: slash_split)

lemma edit_reported:
  assumes "log_run sha s" and rows: "rows_of x s = a @ r # r2 # b"
    and changed: "sha (digest_text (Suc (length a)) ts kind payload) \<noteq> row_digest sha r"
  shows "verify_chain sha x (tamper x (Suc (length a)) ts kind payload s) =
    Inr \<lparr>cv_session = x, cv_status = Broken (length a + 2) (ev_kind r2)
      (mismatch_reason (sha (digest_text (Suc (length a)) ts kind payload)) (row_digest sha r))\<rparr>"
proof -
  let ?r = "r\<lparr>ev_ts := int ts, ev_kind := kind, ev_payload := payload\<rparr>"
  have wf: "wf_log s" and ok: "\<forall>x. chain_ok sha (of_session x (st_events s))"
    and fault: "st_fault s = None" using log_run_ok [OF assms(1)] by (auto simp: log_ok_def)
  have of: "of_session x (st_events s) = a @ r # r2 # b" using rows wf by (simp add: rows_of_wf)
  then have num: "numbered (a @ r # r2 # b)" using wf by (metis wf_log_def)
  have seqs: "ev_seq r = int (Suc (length a))" "ev_seq r2 = int (length a + 2)"
    using numbered_append_seqs(1) [OF num] numbered_append_seqs(1) [of "a @ [r]" r2 b] num by simp_all
  then have dig: "row_digest sha ?r = sha (digest_text (Suc (length a)) ts kind payload)"
    by (simp add: row_digest_def compute_event_digest_def to_u64_int del: of_nat_Suc)
  have "chain_status_of sha (a @ ?r # r2 # b) = Broken (to_u64 (ev_seq r2)) (ev_kind r2)
      (mismatch_reason (row_digest sha ?r) (row_digest sha r))"
    using ok of changed dig by (intro verify_rows_edit) (metis, simp_all)
  moreover have "st_fault (tamper x (Suc (length a)) ts kind payload s) = None"
    using fault by (simp add: tamper_def)
  moreover obtain h t where "a @ ?r # r2 # b = h # t" by (cases a) auto
  ultimately show ?thesis
    using tamper_rows [OF wf of, of ts kind payload]
    by (simp add: verify_chain_status dig seqs(2) to_u64_int del: of_nat_Suc of_nat_add)
qed



lemma chain_ok_same_digest:
  assumes "chain_ok sha (a @ r # b)" "row_digest sha r' = row_digest sha r" "ev_prev_digest r' = ev_prev_digest r"
  shows "chain_ok sha (a @ r' # b)"
  using assms(1)
proof (induction b rule: rev_induct)
  case Nil
  then show ?case using assms(3) by (simp add: chain_ok_edit_last)
next
  case (snoc y b)
  then show ?case
    using chain_ok_snoc [of sha "a @ r # b" y] chain_ok_snoc [of sha "a @ r' # b" y] assms(2,3)
    by (cases b) simp_all
qed

text \<open>The slash between the kind and the payload can be moved: an event whose payload has a slash in it can be rewritten
  into one with a longer kind and the rest of the payload, and the chain still verifies.\<close>

theorem slash_shift_undetected:
  assumes "log_run sha s" and rows: "rows_of x s = a @ r # b" and payload: "ev_payload r = p @ ''/'' @ q"
  shows "verify_chain sha x
      (tamper x (Suc (length a)) (to_u64 (ev_ts r)) (ev_kind r @ ''/'' @ p) q s) =
    Inr \<lparr>cv_session = x, cv_status = Intact\<rparr>"
proof -
  let ?r = "r\<lparr>ev_ts := int (to_u64 (ev_ts r)), ev_kind := ev_kind r @ ''/'' @ p, ev_payload := q\<rparr>"
  have wf: "wf_log s" and ok: "\<forall>x. chain_ok sha (of_session x (st_events s))"
    and fault: "st_fault s = None" using log_run_ok [OF assms(1)] by (auto simp: log_ok_def)
  have of: "of_session x (st_events s) = a @ r # b" using rows wf by (simp add: rows_of_wf)
  have same: "row_digest sha ?r = row_digest sha r"
    by (simp add: row_digest_def compute_event_digest_def digest_text_def payload to_u64_int)
  have chain: "chain_ok sha (a @ r # b)" using ok of by metis
  have "chain_ok sha (a @ ?r # b)" by (rule chain_ok_same_digest [OF chain same]) simp
  then have "chain_status_of sha (a @ ?r # b) = Intact"
    by (auto simp: chain_ok_def chain_status_of_def split: list.splits)
  moreover have "st_fault (tamper x (Suc (length a)) (to_u64 (ev_ts r)) (ev_kind r @ ''/'' @ p) q s) = None"
    using fault by (simp add: tamper_def)
  moreover obtain h t where "a @ ?r # b = h # t" by (cases a) auto
  ultimately show ?thesis
    using tamper_rows [OF wf of, of "to_u64 (ev_ts r)" "ev_kind r @ ''/'' @ p" q]
    by (simp add: verify_chain_status)
qed

text \<open>An edit of a session's newest event, or of its only one, is not
  detected: the chain still verifies, although the row now says something else.\<close>

theorem last_row_edit_undetected:
  assumes "log_run sha s" and rows: "rows_of x s = a @ [r]"
  shows "verify_chain sha x (tamper x (Suc (length a)) ts kind payload s) =
      Inr \<lparr>cv_session = x, cv_status = Intact\<rparr> \<and>
    rows_of x (tamper x (Suc (length a)) ts kind payload s) =
      a @ [r\<lparr>ev_ts := int ts, ev_kind := kind, ev_payload := payload\<rparr>]"
proof -
  let ?r = "r\<lparr>ev_ts := int ts, ev_kind := kind, ev_payload := payload\<rparr>"
  have wf: "wf_log s" and ok: "\<forall>x. chain_ok sha (of_session x (st_events s))"
    and fault: "st_fault s = None" using log_run_ok [OF assms(1)] by (auto simp: log_ok_def)
  have of: "of_session x (st_events s) = a @ [r]" using rows wf by (simp add: rows_of_wf)
  have "chain_ok sha (a @ [r])" using ok of by metis
  then have "chain_ok sha (a @ [?r])" by (rule chain_ok_edit_last) simp
  then have "chain_status_of sha (a @ [?r]) = Intact"
    by (auto simp: chain_ok_def chain_status_of_def split: list.splits)
  moreover have "st_fault (tamper x (Suc (length a)) ts kind payload s) = None"
    using fault by (simp add: tamper_def)
  moreover obtain h t where "a @ [?r] = h # t" by (cases a) auto
  ultimately show ?thesis
    using tamper_rows [OF wf of, of ts kind payload] by (simp add: verify_chain_status rows_of_wf)
qed

theorem last_row_edit_undetected_witness:
  "verify_chain demo_sha ''s'' (tamper ''s'' 3 30 ''done'' ''C'' demo_log) =
     Inr \<lparr>cv_session = ''s'', cv_status = Intact\<rparr>"
proof -
  have "rows_of ''s'' demo_log = [demo_row1, demo_row2] @ [demo_row3]" by (simp add: demo_rows)
  from last_row_edit_undetected [OF demo_log_run this, of 30 "''done''" "''C''"] show ?thesis
    by (simp add: numeral_3_eq_3)
qed

text \<open>Forking a session into an unused one gives the new session exactly the
  source's events up to the fork point, renumbered from one, and changes no other session.\<close>

theorem fork_copies_prefix:
  assumes run: "log_run sha s" and unused: "rows_of d s = []" and n: "n < 2 ^ 63"
  shows "fst (fork_events x n d s) = Inr (min n (length (rows_of x s))) \<and>
    session_events d (snd (fork_events x n d s)) =
      map_ok (\<lambda>es. map (\<lambda>e. e\<lparr>le_session := d\<rparr>) (take n es)) (session_events x s) \<and>
    (\<forall>y. y \<noteq> d \<longrightarrow> session_events y (snd (fork_events x n d s)) = session_events y s)"
proof -
  have wf: "wf_log s" and fault: "st_fault s = None"
    using log_run_ok [OF run] by (auto simp: log_ok_def)
  have d: "of_session d (st_events s) = []" using unused wf by (simp add: rows_of_wf)
  have num: "numbered (of_session x (st_events s))" using wf by (simp add: wf_log_def)
  note fork = fork_events_healthy [OF wf fault d n]
  have wf': "wf_log (snd (fork_events x n d s))" by (rule fork_wf [OF wf fault])
  have mem: "\<forall>r \<in> set (of_session x (st_events s)). ev_session r = x"
    using of_session_mem by blast
  show ?thesis
    using wf' fault d logged_copies [OF num mem]
    by (simp add: fork session_events_now wf events_now_def rows_of_wf)
qed

theorem fork_copies_prefix_witness:
  "session_events ''t'' (snd (fork_events ''s'' 2 ''t'' demo_log)) =
     map_ok (\<lambda>es. map (\<lambda>e. e\<lparr>le_session := ''t''\<rparr>) (take 2 es)) (session_events ''s'' demo_log)"
  using fork_copies_prefix [OF demo_log_run, of "''t''" 2 "''s''"]
  by (simp add: demo_rows demo_other)

text \<open>C28 (fork_breaks_chain): A fork of two or more events never verifies: its rows carry no digest of
  the event before, so verification reports the copy broken at its second event.\<close>

theorem fork_breaks_chain:
  assumes run: "log_run sha s" and unused: "rows_of d s = []" and n: "n < 2 ^ 63"
    and two: "1 < n" "1 < length (rows_of x s)"
  shows "verify_chain sha d (snd (fork_events x n d s)) =
    Inr \<lparr>cv_session = d, cv_status = Broken 2 (ev_kind (rows_of x s ! 1)) missing_reason\<rparr>"
proof -
  have wf: "wf_log s" and fault: "st_fault s = None"
    using log_run_ok [OF run] by (auto simp: log_ok_def)
  have d: "of_session d (st_events s) = []" using unused wf by (simp add: rows_of_wf)
  let ?src = "take n (of_session x (st_events s))"
  note fork = fork_events_healthy [OF wf fault d n, of x]
  have "1 < length ?src" using two wf by (simp add: rows_of_wf)
  then have len: "length ?src = Suc (Suc (length ?src - 2))" by linarith
  then have "copies_of d ?src \<noteq> []" using copies_of_simps(1) [of d ?src] by (metis list.size(3) nat.simps(3))
  then obtain r rs where "copies_of d ?src = r # rs" by (cases "copies_of d ?src") blast
  then show ?thesis
    using fork_wf [OF wf fault, of x n d] fault d copies_chain [OF len, of sha d] two wf
      copies_of_simps(2) [of d d ?src]
    by (simp add: fork verify_chain_status rows_of_wf)
qed

theorem fork_breaks_chain_witness:
  "verify_chain demo_sha ''t'' (snd (fork_events ''s'' 3 ''t'' demo_log)) =
     Inr \<lparr>cv_session = ''t'', cv_status = Broken 2 ''warning'' missing_reason\<rparr>"
  using fork_breaks_chain [OF demo_log_run, of "''t''" 3 "''s''"]
  by (simp add: demo_rows demo_other demo_row2_def)

text \<open>Opening a store written before the chain existed links every
  session of it: afterwards each session with events verifies intact.\<close>

theorem migration_links_every_session:
  assumes "wf_log s" "st_fault s = None" "\<not> st_has_digest s"
    and "\<forall>r \<in> set (st_events s). ev_prev_digest r = None"
    and "rows_of x (snd (ensure_prev_digest_column sha s)) \<noteq> []"
  shows "fst (ensure_prev_digest_column sha s) = Inr () \<and>
    verify_chain sha x (snd (ensure_prev_digest_column sha s)) =
      Inr \<lparr>cv_session = x, cv_status = Intact\<rparr>"
proof -
  let ?s = "s\<lparr>st_has_digest := True\<rparr>"
  have "wf_log ?s" "st_fault ?s = None" "\<forall>r \<in> set (st_events ?s). ev_prev_digest r = None"
    using assms by (simp_all add: wf_log_def)
  note ok = migrated_log_ok [OF this, of sha]
  have eq: "ensure_prev_digest_column sha s = (Inr (), snd (migrate_digests sha ?s))"
    using assms(2,3) by (simp add: ensure_prev_digest_column_def migrate_digests_def Let_def)
  have "st_fault (snd (migrate_digests sha ?s)) = None"
    using fold_relink [OF \<open>wf_log ?s\<close>] assms(2) by (simp add: migrate_digests_def Let_def)
  with ok assms(5) show ?thesis by (simp add: eq verify_chain_intact)
qed

definition old_log :: store where
  "old_log = \<lparr>st_entries = [], st_events =
     [\<lparr>ev_session = ''s'', ev_seq = 1, ev_ts = 10, ev_kind = ''done'', ev_payload = ''a'',
       ev_prev_digest = None\<rparr>,
      \<lparr>ev_session = ''s'', ev_seq = 2, ev_ts = 20, ev_kind = ''done'', ev_payload = ''b'',
       ev_prev_digest = None\<rparr>], st_has_digest = False, st_fault = None\<rparr>"

theorem migration_links_every_session_witness:
  "verify_chain demo_sha ''s'' (snd (ensure_prev_digest_column demo_sha old_log)) =
     Inr \<lparr>cv_session = ''s'', cv_status = Intact\<rparr>"
proof -
  have "wf_log old_log" by (simp add: wf_log_def old_log_def of_session_def numbered_def)
  moreover have "rows_of ''s'' (snd (ensure_prev_digest_column demo_sha old_log)) \<noteq> []"
    by (simp add: old_log_def ensure_prev_digest_column_def migrate_digests_def relink_session_def
        rows_of_def set_digest_def)
  ultimately show ?thesis
    using migration_links_every_session [of old_log "''s''" demo_sha] by (simp add: old_log_def)
qed

section \<open>The event log read back\<close>

text \<open>C29 (encode_decode): Every event and every other row the log writes decodes to what was written,
  whenever the JSON parser reads back the envelope the printer wrote.\<close>

theorem encode_decode:
  assumes "parse (envelope render (snd (encoded ev))) = Inr (envelope_json (snd (encoded ev)))"
    and "parse (envelope render (ask_data p)) = Inr (envelope_json (ask_data p))"
    and "parse (envelope render (answer_data a)) = Inr (envelope_json (answer_data a))"
    and "parse (envelope render (message_data m)) = Inr (envelope_json (message_data m))"
  shows "decode parse (fst (encode render ev)) (snd (encode render ev)) = Inr ev \<and>
    decode_record parse (fst (ask_row render p)) (snd (ask_row render p)) =
      Inr (RAsk (up_question p) (up_options p) (up_default_answer p)) \<and>
    decode_record parse (fst (answer_row render a)) (snd (answer_row render a)) = Inr (RAnswer a) \<and>
    decode_record parse (fst (follow_up_row render m)) (snd (follow_up_row render m)) =
      Inr (RFollowUp m) \<and>
    decode_record parse (fst (user_message_row render m)) (snd (user_message_row render m)) =
      Inr (RUserMessage m)"
  using assms
  by (simp add: decode_def encode_parts decode_record_of record_of_encoded ask_row_def
      record_of_ask answer_row_def record_of_answer follow_up_row_def user_message_row_def
      record_of_message)

text \<open>A printer and a parser that agree on a few envelopes.\<close>

definition demo_jsons :: "json list" where
  "demo_jsons = map envelope_json
     [snd (encoded (Done ''hi'' True)), ask_data \<lparr>up_question = ''q'', up_options = [''y''],
        up_default_answer = ''n''\<rparr>, answer_data ''y'', message_data ''m'']"

definition demo_render :: printer where
  "demo_render j = show_nat (length (takeWhile (\<lambda>k. k \<noteq> j) demo_jsons))"

definition demo_parse :: parser where
  "demo_parse s = (case List.find (\<lambda>j. demo_render j = s) demo_jsons of
     Some j \<Rightarrow> Inr j | None \<Rightarrow> Inl ''bad'')"

lemma demo_parse_render:
  "d \<in> {snd (encoded (Done ''hi'' True)), ask_data \<lparr>up_question = ''q'', up_options = [''y''],
        up_default_answer = ''n''\<rparr>, answer_data ''y'', message_data ''m''} \<Longrightarrow>
     demo_parse (envelope demo_render d) = Inr (envelope_json d)"
  by (auto simp: demo_parse_def demo_render_def demo_jsons_def envelope_def envelope_json_def
      ask_data_def answer_data_def message_data_def show_nat.simps)

theorem encode_decode_witness:
  "decode demo_parse (fst (encode demo_render (Done ''hi'' True)))
     (snd (encode demo_render (Done ''hi'' True))) = Inr (Done ''hi'' True)"
  using encode_decode [of demo_parse demo_render "Done ''hi'' True"
      "\<lparr>up_question = ''q'', up_options = [''y''], up_default_answer = ''n''\<rparr>" "''y''" "''m''"]
    demo_parse_render by blast

text \<open>In a session whose first event is a user message, the store's query
  for the last turns returns exactly what the projection's \<open>last_turns\<close> keeps of the whole log.\<close>

theorem recent_turns_last_turns:
  assumes run: "log_run sha s" and first: "rows_of x s = r # rs" "ev_kind r = KIND_USER_MESSAGE"
  shows "recent_turns x n s = map_ok (\<lambda>es. last_turns es n) (session_events x s)"
proof (cases "n = 0")
  case True
  then show ?thesis using log_run_ok [OF run]
    by (simp add: recent_turns_rows session_events_def query_def last_turns_def)
next
  case False
  have "numbered (rows_of x s)" using log_run_ok [OF run] by (simp add: log_ok_def rows_of_wf wf_log_def)
  moreover have "dropWhile (\<lambda>r. \<not> user_row r) (rows_of x s) = rows_of x s" using first by simp
  ultimately show ?thesis
    using recent_rows_eq [of "rows_of x s" n] False log_run_ok [OF run]
      last_turns_all [of "map logged (rows_of x s)" n]
    by (auto simp: recent_turns_rows session_events_def query_def simp del: filter_map)
qed

theorem recent_turns_last_turns_witness:
  "recent_turns ''s'' 1 demo_log = map_ok (\<lambda>es. last_turns es 1) (session_events ''s'' demo_log)"
  by (rule recent_turns_last_turns [OF demo_log_run demo_rows]) (simp add: demo_row1_def)

text \<open>In a session whose log opens with any other row, an
  \<open>extension-loaded\<close> record say, and holds between one and \<open>n\<close> user messages, the query leaves out the
  rows before the first user message while \<open>last_turns\<close> keeps the whole log: the two differ.\<close>

theorem recent_turns_drops_preamble:
  assumes run: "log_run sha s"
    and log: "rows_of x s = a @ u # b" "a \<noteq> []" "\<forall>r \<in> set a. \<not> user_row r" "user_row u"
    and few: "length (filter user_row (u # b)) \<le> n"
  shows "recent_turns x n s = Inr (map logged (u # b)) \<and>
    map_ok (\<lambda>es. last_turns es n) (session_events x s) = Inr (map logged (a @ u # b)) \<and>
    recent_turns x n s \<noteq> map_ok (\<lambda>es. last_turns es n) (session_events x s)"
proof -
  have none: "filter user_row a = []" using log(3) by (simp add: filter_empty_conv)
  have n: "0 < n" using few log(4) by simp
  have ok: "numbered (rows_of x s)" "st_fault s = None"
    using log_run_ok [OF run] by (simp_all add: log_ok_def rows_of_wf wf_log_def)
  have "map logged (recent_rows n (rows_of x s)) = map logged (u # b)"
    using recent_rows_eq [OF ok(1) n] few none log dropWhile_split [OF log(4) none, of b] by simp
  then have "recent_turns x n s = Inr (map logged (u # b))"
    using n ok(2) by (simp add: recent_turns_rows query_def)
  moreover have "last_turns (map logged (a @ u # b)) n = map logged (a @ u # b)"
    using few none log(4) n by (intro last_turns_all) (simp_all only: filter_user_logged filter_append, simp_all)
  then have "map_ok (\<lambda>es. last_turns es n) (session_events x s) = Inr (map logged (a @ u # b))"
    using ok(2) log(1) by (simp add: session_events_def query_def)
  moreover have "length (map logged (u # b)) \<noteq> length (map logged (a @ u # b))"
    using log(2) by simp
  ultimately show ?thesis by (metis sum.inject(2))
qed

definition preamble_log :: store where
  "preamble_log =
     append_row demo_sha 20 ''s'' (KIND_USER_MESSAGE, ''b'')
       (append_row demo_sha 10 ''s'' (KIND_EXTENSION_LOADED, ''a'') empty_store)"

theorem recent_turns_drops_preamble_witness:
  "recent_turns ''s'' 1 preamble_log \<noteq>
     map_ok (\<lambda>es. last_turns es 1) (session_events ''s'' preamble_log)"
proof -
  have run: "log_run demo_sha preamble_log"
    unfolding preamble_log_def by (intro append_row_run log_run.opened)
  obtain r u where "rows_of ''s'' preamble_log = [r] @ u # []" "\<not> user_row r" "user_row u"
    by (simp add: preamble_log_def append_row_def append_event_at_def rows_of_def empty_store_def
        max_seq_def kind_defs)
  with recent_turns_drops_preamble [OF run, of "''s''" "[r]" u "[]" 1] show ?thesis by simp
qed

end
