(* ===== verification/Permission.thy ===== *)
theory Permission
  imports Turn
begin

text \<open>
  The permission rules (\<open>extensions/interceptor-permission/src/rules.rs\<close>): what a call's arguments
  name, whether it is known to be read-only, the scope a standing decision covers, the text shown
  to the user and how an answer is read. \<open>parse\<close> is serde_json's parser.
\<close>

definition DEFAULT_SAFE_CALLS :: "string list" where
  "DEFAULT_SAFE_CALLS = [''find'', ''fs:read'', ''fs:grep'', ''git'', ''edit:view'', ''proc-probe'']"

record policy =
  pol_safe_calls :: "string list"
  pol_allow_absolute_paths :: bool
  pol_allow_parent_traversal :: bool

definition default_policy :: policy where
  "default_policy = \<lparr>pol_safe_calls = DEFAULT_SAFE_CALLS, pol_allow_absolute_paths = False,
     pol_allow_parent_traversal = False\<rparr>"

definition string_list :: "json \<Rightarrow> string \<Rightarrow> string list option" where
  "string_list section key =
     map_option (List.map_filter (\<lambda>v. map_option to_lower (as_str v))) (get_array key section)"

definition or_default :: "'a \<Rightarrow> 'a option \<Rightarrow> 'a" where
  "or_default d m = (case m of Some a \<Rightarrow> a | None \<Rightarrow> d)"

definition policy_from_config :: "json \<Rightarrow> policy" where
  "policy_from_config section =
     \<lparr>pol_safe_calls = or_default (pol_safe_calls default_policy) (string_list section ''safe-calls''),
      pol_allow_absolute_paths =
        or_default (pol_allow_absolute_paths default_policy) (get_bool ''allow-absolute-paths'' section),
      pol_allow_parent_traversal =
        or_default (pol_allow_parent_traversal default_policy)
          (get_bool ''allow-parent-traversal'' section)\<rparr>"

section \<open>What the arguments name\<close>

definition PATH_KEYS :: "string list" where
  "PATH_KEYS = [''path'', ''paths'', ''file'', ''files'', ''dir'', ''directory'', ''cwd'',
     ''command'', ''args'']"

fun path_walk :: "bool \<Rightarrow> json \<Rightarrow> string list"
  and path_walks :: "bool \<Rightarrow> json list \<Rightarrow> string list"
  and path_members :: "bool \<Rightarrow> (string \<times> json) list \<Rightarrow> string list" where
  "path_walk inner (JStr s) = (if inner then [s] else [])"
| "path_walk inner (JArr xs) = path_walks inner xs"
| "path_walk inner (JObj ms) = path_members inner ms"
| "path_walk inner _ = []"
| "path_walks inner [] = []"
| "path_walks inner (x # xs) = path_walk inner x @ path_walks inner xs"
| "path_members inner [] = []"
| "path_members inner ((k, v) # ms) =
     path_walk (inner \<or> to_lower k \<in> set PATH_KEYS) v @ path_members inner ms"

definition path_values :: "json \<Rightarrow> string list" where
  "path_values v = path_walk False v"

definition token_escapes :: "policy \<Rightarrow> string \<Rightarrow> bool" where
  "token_escapes p token \<longleftrightarrow>
     \<not> pol_allow_absolute_paths p \<and> starts_with ''/'' token \<or>
     \<not> pol_allow_parent_traversal p \<and> ''..'' \<in> set (split_on CHR ''/'' token)"

definition path_escapes :: "policy \<Rightarrow> string \<Rightarrow> bool" where
  "path_escapes p s \<longleftrightarrow> list_ex (token_escapes p) (s # split_whitespace s)"

definition args_escape_scope :: "parser \<Rightarrow> policy \<Rightarrow> string \<Rightarrow> bool" where
  "args_escape_scope parse p arguments =
     (if pol_allow_absolute_paths p \<and> pol_allow_parent_traversal p then False
      else (case parse arguments of
              Inr (JObj ms) \<Rightarrow> list_ex (path_escapes p) (path_values (JObj ms))
            | _ \<Rightarrow> False))"

definition CREDENTIAL_NAMES :: "string list" where
  "CREDENTIAL_NAMES = [''.env'', ''.envrc'', ''.netrc'', ''.npmrc'', ''.pgpass'',
     ''.git-credentials'', ''credentials'', ''id_rsa'']"

definition CREDENTIAL_SUFFIXES :: "string list" where
  "CREDENTIAL_SUFFIXES = [''.pem'', ''.key'', ''.p12'', ''.pfx'', ''.jks'', ''.keystore'', ''.ppk'']"

definition credential_name :: "string \<Rightarrow> bool" where
  "credential_name name =
     (let lower = to_lower name
      in lower \<in> set CREDENTIAL_NAMES \<or>
         list_ex (\<lambda>suffix. ends_with suffix lower) CREDENTIAL_SUFFIXES \<or>
         starts_with ''.env.'' lower \<or> starts_with ''id_ed25519'' lower \<or>
         starts_with ''id_ecdsa'' lower)"

definition names_a_credential_file :: "parser \<Rightarrow> string \<Rightarrow> bool" where
  "names_a_credential_file parse arguments =
     (case parse arguments of
        Inl _ \<Rightarrow> False
      | Inr v \<Rightarrow> list_ex (\<lambda>path. credential_name (last_piece CHR ''/'' path)) (path_values v))"

section \<open>The concern a call raises\<close>

definition scope_key :: "parser \<Rightarrow> string \<Rightarrow> string \<Rightarrow> string" where
  "scope_key parse name arguments =
     (let v = (case parse arguments of Inr v \<Rightarrow> v | Inl _ \<Rightarrow> JNull)
      in case get_str ''op'' v of
           Some op \<Rightarrow> name @ '':'' @ to_lower op
         | None \<Rightarrow>
             (case get_str ''command'' v of
                Some command \<Rightarrow>
                  (let program = (case split_whitespace command of [] \<Rightarrow> command | p # _ \<Rightarrow> p)
                   in name @ '':'' @ to_lower (last_piece CHR ''/'' program))
              | None \<Rightarrow> to_lower name))"

definition is_known_safe :: "parser \<Rightarrow> policy \<Rightarrow> string \<Rightarrow> string \<Rightarrow> bool" where
  "is_known_safe parse p name arguments =
     list_ex (\<lambda>entry. entry = scope_key parse name arguments \<or> entry = to_lower name)
       (pol_safe_calls p)"

datatype concern = NotKnownSafe | EscapesScope | TouchesCredentials

definition not_read_only :: string where "not_read_only = '' is not a known read-only call''"
definition names_credentials :: string where
  "names_credentials =
     '' names a credentials file, and anything it returns is sent to the model provider''"
definition outside_workspace :: string where
  "outside_workspace = '' arguments reference a path outside the workspace''"

fun describe :: "concern \<Rightarrow> string \<Rightarrow> string" where
  "describe NotKnownSafe tool = bquote tool @ not_read_only"
| "describe TouchesCredentials tool = bquote tool @ names_credentials"
| "describe EscapesScope tool = ''tool '' @ bquote tool @ outside_workspace"

fun is_rememberable :: "concern \<Rightarrow> bool" where
  "is_rememberable EscapesScope = False"
| "is_rememberable TouchesCredentials = False"
| "is_rememberable NotKnownSafe = True"

definition review :: "parser \<Rightarrow> policy \<Rightarrow> string \<Rightarrow> string \<Rightarrow> concern option" where
  "review parse p name arguments =
     (if args_escape_scope parse p arguments then Some EscapesScope
      else if names_a_credential_file parse arguments then Some TouchesCredentials
      else if is_known_safe parse p name arguments then None
      else Some NotKnownSafe)"

section \<open>What the user is shown\<close>

text \<open>\<open>one_line\<close>: \<open>out\<close> is the scalars pushed so far, \<open>spaced\<close> whether the last was a space.\<close>

fun one_line_loop :: "nat \<Rightarrow> string list \<Rightarrow> bool \<Rightarrow> string list \<Rightarrow> string list" where
  "one_line_loop limit out spaced [] = out"
| "one_line_loop limit out spaced (ch # chs) =
     (let ch' = (if is_control ch then '' '' else ch)
      in if ch' = '' '' \<and> spaced then one_line_loop limit out True chs
         else if limit \<le> length out then out @ [ellipsis]
         else one_line_loop limit (out @ [ch']) (ch' = '' '') chs)"

definition one_line :: "string \<Rightarrow> nat \<Rightarrow> string" where
  "one_line text limit = concat (one_line_loop limit [] False (utf8_chars text))"

definition bytes_text :: "nat \<Rightarrow> string" where
  "bytes_text n =
     (if n < 1024 then show_nat n @ '' B''
      else show_nat (n div 1024) @ ''.'' @ show_nat ((n mod 1024) * 10 div 1024) @ '' kB'')"

definition quoted_line :: "string \<Rightarrow> nat \<Rightarrow> string" where
  "quoted_line text limit = dquote @ one_line text limit @ dquote"

definition invalid_json_call :: string where
  "invalid_json_call = '' with arguments that are not valid JSON''"

definition summarise_path :: "string \<Rightarrow> string option \<Rightarrow> string \<Rightarrow> string" where
  "summarise_path op contents here =
     (if op = [] then ''act on '' @ here
      else if op = ''write'' then
        (case contents of
           None \<Rightarrow> ''write to '' @ here
         | Some t \<Rightarrow> ''write '' @ bytes_text (length t) @ '' to '' @ here @ '': '' @ quoted_line t 100)
      else if op = ''replace'' \<or> op = ''insert'' then
        (case contents of
           Some t \<Rightarrow> (if t = [] then ''delete lines in '' @ here
                      else op @ '' in '' @ here @ '': '' @ quoted_line t 100)
         | None \<Rightarrow> op @ '' in '' @ here)
      else one_line op 24 @ '' '' @ here)"

definition summarise :: "parser \<Rightarrow> string \<Rightarrow> string \<Rightarrow> string" where
  "summarise parse name arguments =
     (case parse arguments of
        Inl _ \<Rightarrow> bquote name @ invalid_json_call
      | Inr v \<Rightarrow>
          (let op = to_lower (or_default [] (get_str ''op'' v))
           in case get_str ''command'' v of
                Some command \<Rightarrow> ''run '' @ bquote (one_line command 160)
              | None \<Rightarrow>
                  (case get_str ''url'' v of
                     Some url \<Rightarrow> ''fetch '' @ one_line url 160
                   | None \<Rightarrow>
                       (case get_str ''path'' v of
                          Some path \<Rightarrow>
                            summarise_path op (get_str ''contents'' v) (bquote (one_line path 80))
                        | None \<Rightarrow>
                            (if op = [] then ''call '' @ bquote name
                             else bquote name @ '' '' @ one_line op 24)))))"

definition REFUSALS_BEFORE_STANDING_DENY :: nat where "REFUSALS_BEFORE_STANDING_DENY = 3"

definition standing_tail :: string where
  "standing_tail = ''. This kind of call is refused for the rest of the session '' @ em_dash @
     '' do not attempt it again. If the task cannot be completed without it, say so and stop.''"
definition refused_tail :: string where
  "refused_tail = ''. Do not repeat the same call. Either continue without it, or explain what you '' @
     ''need and let the user decide.''"

definition denial_message :: "string \<Rightarrow> bool \<Rightarrow> string" where
  "denial_message what standing =
     (if standing then ''Refused: '' @ what @ standing_tail
      else ''Refused by the user: '' @ what @ refused_tail)"

section \<open>Answers and verdicts\<close>

datatype verdict = Allow | Deny

datatype answer = Once | Always | No | Never

definition YES_ANSWERS :: "string list" where
  "YES_ANSWERS = [''y'', ''yes'', ''allow'', ''approve'', ''ok'']"
definition ALWAYS_ANSWERS :: "string list" where
  "ALWAYS_ANSWERS = [''a'', ''always'', ''yes-always'', ''allow-always'']"
definition NEVER_ANSWERS :: "string list" where
  "NEVER_ANSWERS = [''never'', ''no-never'', ''deny-always'']"

definition answer_parse :: "string \<Rightarrow> answer" where
  "answer_parse a =
     (let s = to_lower (trim a)
      in if s \<in> set YES_ANSWERS then Once
         else if s \<in> set ALWAYS_ANSWERS then Always
         else if s \<in> set NEVER_ANSWERS then Never
         else No)"

fun approves :: "answer \<Rightarrow> bool" where
  "approves Once = True"
| "approves Always = True"
| "approves _ = False"

fun standing :: "answer \<Rightarrow> verdict option" where
  "standing Always = Some Allow"
| "standing Never = Some Deny"
| "standing _ = None"

fun verdict_str :: "verdict \<Rightarrow> string" where
  "verdict_str Allow = ''allow''"
| "verdict_str Deny = ''deny''"

definition verdict_parse :: "string \<Rightarrow> verdict option" where
  "verdict_parse stored =
     (let s = trim stored
      in if s = ''allow'' then Some Allow else if s = ''deny'' then Some Deny else None)"

section \<open>Facts\<close>

lemma verdict_parse_str [simp]: "verdict_parse (verdict_str v) = Some v"
proof (cases v)
  case Allow
  have "verdict_parse ''allow'' = Some Allow" by code_simp
  with Allow show ?thesis by simp
next
  case Deny
  have "verdict_parse ''deny'' = Some Deny" by code_simp
  with Deny show ?thesis by simp
qed

lemma review_None:
  "review parse p name arguments = None \<longleftrightarrow>
     \<not> args_escape_scope parse p arguments \<and> \<not> names_a_credential_file parse arguments \<and>
     is_known_safe parse p name arguments"
  by (simp add: review_def)

lemma review_rememberable:
  "review parse p name arguments = Some c \<Longrightarrow> is_rememberable c \<longleftrightarrow>
     \<not> args_escape_scope parse p arguments \<and> \<not> names_a_credential_file parse arguments"
  by (auto simp: review_def split: if_splits)

lemma standing_approves:
  "standing a = Some Allow \<Longrightarrow> approves a" "standing a = Some Deny \<Longrightarrow> \<not> approves a"
  by (cases a; simp)+

lemma one_line_loop_bound:
  "length out \<le> limit \<Longrightarrow> length (one_line_loop limit out spaced chs) \<le> Suc limit"
  by (induction limit out spaced chs rule: one_line_loop.induct) (auto simp: Let_def)

lemma not_control_ellipsis [simp]: "\<not> is_control ellipsis"
  by (simp add: is_control_def ellipsis_def)

lemma not_control_space [simp]: "\<not> is_control '' ''"
  by (simp add: is_control_def)

lemma one_line_loop_controls:
  "\<forall>c \<in> set out. \<not> is_control c \<Longrightarrow>
     \<forall>c \<in> set (one_line_loop limit out spaced chs). \<not> is_control c"
proof (induction limit out spaced chs rule: one_line_loop.induct)
  case (2 limit out spaced ch chs)
  define ch' where "ch' = (if is_control ch then '' '' else ch)"
  have "\<not> is_control ch'" by (simp add: ch'_def)
  then have "\<forall>c \<in> set (out @ [ch']). \<not> is_control c" using "2.prems" by simp
  note pushed = "2.IH"(2) [OF ch'_def _ _ this]
  note skipped = "2.IH"(1) [OF ch'_def _ "2.prems"]
  show ?case
  proof (cases "ch' = '' '' \<and> spaced")
    case True
    then show ?thesis using skipped unfolding one_line_loop.simps Let_def ch'_def by presburger
  next
    case False
    show ?thesis
    proof (cases "limit \<le> length out")
      case True
      with False show ?thesis using "2.prems"
        unfolding one_line_loop.simps Let_def ch'_def [symmetric]
        by (simp only: if_False if_True set_append) simp
    next
      case more: False
      with False show ?thesis using pushed
        unfolding one_line_loop.simps Let_def ch'_def [symmetric] by presburger
    qed
  qed
qed simp

end
