(* ===== verification/GuestStorage.thy ===== *)
theory GuestStorage
  imports Store_Facts
begin

text \<open>
  The storage a guest component sees (\<open>host/wasm/src/guest_storage.rs\<close>) over the \<open>Entries\<close> seam, and
  the seam's implementation on the session store (\<open>host/agent/src/session_entries.rs\<close>). A backing
  store is a record of operations over an arbitrary state \<open>'w\<close>; the locale \<open>entries_store\<close> is
  its contract, under which the scoping lemmas are proved, and \<open>SessionEntries\<close> is interpreted in
  it. A \<open>HashMap\<close> is the list of its entries in iteration order.
\<close>

record row =
  row_namespace :: string
  row_key :: string
  row_value :: string
  row_created_at :: nat
  row_updated_at :: nat

record stored_entry =
  se_id :: string
  se_namespace :: string
  se_key :: string
  se_value :: string
  se_created_at :: nat
  se_updated_at :: nat

datatype storage_fault = FNotFound | FBackend

record 'w entries =
  es_set :: "string \<Rightarrow> string \<Rightarrow> string \<Rightarrow> 'w \<Rightarrow> (storage_fault + row) \<times> 'w"
  es_get :: "string \<Rightarrow> string \<Rightarrow> 'w \<Rightarrow> storage_fault + row"
  es_delete :: "string \<Rightarrow> string \<Rightarrow> 'w \<Rightarrow> (storage_fault + unit) \<times> 'w"
  es_recent :: "string \<Rightarrow> nat \<Rightarrow> 'w \<Rightarrow> storage_fault + row list"

datatype backing =
    Ephemeral "((string \<times> string) \<times> (string \<times> nat \<times> nat)) list" nat
  | Durable string

record guest_storage =
  gs_backing :: backing
  gs_by_session :: bool
  gs_session :: "string option"

definition shared_storage :: "backing \<Rightarrow> guest_storage" where
  "shared_storage b = \<lparr>gs_backing = b, gs_by_session = False, gs_session = None\<rparr>"

definition per_session :: "backing \<Rightarrow> guest_storage" where
  "per_session b = \<lparr>gs_backing = b, gs_by_session = True, gs_session = None\<rparr>"

definition bind_storage_session :: "string \<Rightarrow> guest_storage \<Rightarrow> guest_storage" where
  "bind_storage_session session g = g\<lparr>gs_session := Some session\<rparr>"

definition session_prefix :: "string \<Rightarrow> string" where
  "session_prefix session = ''s/'' @ session @ ''/''"

definition owner_prefix :: "string \<Rightarrow> string" where
  "owner_prefix owner = ''ext/'' @ owner @ ''/''"

definition scope :: "guest_storage \<Rightarrow> string \<Rightarrow> storage_fault + string" where
  "scope g ns =
     try_then
       (if gs_by_session g
        then (case gs_session g of
                Some session \<Rightarrow> Inr (session_prefix session @ ns)
              | None \<Rightarrow> Inl FBackend)
        else Inr ns)
       (\<lambda>inner. Inr (case gs_backing g of
            Ephemeral _ _ \<Rightarrow> inner
          | Durable owner \<Rightarrow> owner_prefix owner @ inner))"

definition strip_or_keep :: "string \<Rightarrow> string \<Rightarrow> string" where
  "strip_or_keep p s = (case strip_prefix p s of Some r \<Rightarrow> r | None \<Rightarrow> s)"

definition unscope :: "guest_storage \<Rightarrow> string \<Rightarrow> string" where
  "unscope g ns =
     (let outer = (case gs_backing g of
            Ephemeral _ _ \<Rightarrow> ns
          | Durable owner \<Rightarrow> strip_or_keep (owner_prefix owner) ns)
      in if gs_by_session g
         then (case gs_session g of
                 Some session \<Rightarrow> strip_or_keep (session_prefix session) outer
               | None \<Rightarrow> outer)
         else outer)"

definition present :: "guest_storage \<Rightarrow> row \<Rightarrow> stored_entry" where
  "present g r =
     (let ns = unscope g (row_namespace r)
      in \<lparr>se_id = ns @ ''/'' @ row_key r, se_namespace = ns, se_key = row_key r,
          se_value = row_value r, se_created_at = row_created_at r,
          se_updated_at = row_updated_at r\<rparr>)"

definition guest_entry :: "string \<Rightarrow> string \<Rightarrow> string \<times> nat \<times> nat \<Rightarrow> stored_entry" where
  "guest_entry ns k = (\<lambda>(v, created, updated).
     \<lparr>se_id = ns @ ''/'' @ k, se_namespace = ns, se_key = k, se_value = v,
      se_created_at = created, se_updated_at = updated\<rparr>)"

fun map_insert :: "'k \<Rightarrow> 'v \<Rightarrow> ('k \<times> 'v) list \<Rightarrow> ('k \<times> 'v) list" where
  "map_insert k v [] = [(k, v)]"
| "map_insert k v ((k', v') # m) = (if k' = k then (k, v) # m else (k', v') # map_insert k v m)"

definition guest_set ::
  "'w entries \<Rightarrow> string \<Rightarrow> string \<Rightarrow> string \<Rightarrow> guest_storage \<times> 'w
     \<Rightarrow> (storage_fault + stored_entry) \<times> guest_storage \<times> 'w" where
  "guest_set E ns k v = (\<lambda>(g, w).
     case scope g ns of
       Inl f \<Rightarrow> (Inl f, g, w)
     | Inr scoped \<Rightarrow>
         (case gs_backing g of
            Ephemeral m clock \<Rightarrow>
              (let now = clock + 1;
                   created = (case map_of m (scoped, k) of Some (_, c, _) \<Rightarrow> c | None \<Rightarrow> now)
               in (Inr (guest_entry ns k (v, created, now)),
                   g\<lparr>gs_backing := Ephemeral (map_insert (scoped, k) (v, created, now) m) now\<rparr>, w))
          | Durable owner \<Rightarrow>
              (case es_set E scoped k v w of (r, w') \<Rightarrow> (map_ok (present g) r, g, w'))))"

definition guest_get ::
  "'w entries \<Rightarrow> string \<Rightarrow> string \<Rightarrow> guest_storage \<times> 'w \<Rightarrow> storage_fault + stored_entry" where
  "guest_get E ns k = (\<lambda>(g, w).
     try_then (scope g ns) (\<lambda>scoped.
       case gs_backing g of
         Ephemeral m _ \<Rightarrow> ok_or FNotFound (map_option (guest_entry ns k) (map_of m (scoped, k)))
       | Durable _ \<Rightarrow> map_ok (present g) (es_get E scoped k w)))"

definition guest_delete ::
  "'w entries \<Rightarrow> string \<Rightarrow> string \<Rightarrow> guest_storage \<times> 'w
     \<Rightarrow> (storage_fault + unit) \<times> guest_storage \<times> 'w" where
  "guest_delete E ns k = (\<lambda>(g, w).
     case scope g ns of
       Inl f \<Rightarrow> (Inl f, g, w)
     | Inr scoped \<Rightarrow>
         (case gs_backing g of
            Ephemeral m clock \<Rightarrow>
              (case map_of m (scoped, k) of
                 None \<Rightarrow> (Inl FNotFound, g, w)
               | Some _ \<Rightarrow>
                   (Inr (), g\<lparr>gs_backing := Ephemeral (filter (\<lambda>e. fst e \<noteq> (scoped, k)) m) clock\<rparr>, w))
          | Durable _ \<Rightarrow> (case es_delete E scoped k w of (r, w') \<Rightarrow> (r, g, w'))))"

definition guest_entries_in ::
  "'w entries \<Rightarrow> string \<Rightarrow> guest_storage \<times> 'w \<Rightarrow> storage_fault + stored_entry list" where
  "guest_entries_in E ns = (\<lambda>(g, w).
     try_then (scope g ns) (\<lambda>scoped.
       case gs_backing g of
         Ephemeral m _ \<Rightarrow>
           Inr (map (\<lambda>((_, k), x). guest_entry ns k x) (filter (\<lambda>e. fst (fst e) = scoped) m))
       | Durable _ \<Rightarrow> map_ok (map (present g)) (es_recent E scoped (2 ^ 32 - 1) w)))"

definition guest_recent ::
  "'w entries \<Rightarrow> string \<Rightarrow> nat \<Rightarrow> guest_storage \<times> 'w \<Rightarrow> storage_fault + stored_entry list" where
  "guest_recent E ns limit gw =
     map_ok (\<lambda>es. take limit (sort_key (\<lambda>e. - int (se_updated_at e)) es)) (guest_entries_in E ns gw)"

section \<open>The session store as a backing\<close>

fun fault_of :: "store_error \<Rightarrow> storage_fault" where
  "fault_of NotFound = FNotFound"
| "fault_of (Backend _) = FBackend"

definition row_of :: "entry \<Rightarrow> row" where
  "row_of e = \<lparr>row_namespace = en_namespace e, row_key = en_key e, row_value = en_value e,
               row_created_at = en_created_at e, row_updated_at = en_updated_at e\<rparr>"

definition session_entries :: "nat \<Rightarrow> store entries" where
  "session_entries now =
     \<lparr>es_set = (\<lambda>ns k v s.
        case store_set ns k v now s of (r, s') \<Rightarrow> (map_ok row_of (map_err fault_of r), s')),
      es_get = (\<lambda>ns k s. map_ok row_of (map_err fault_of (store_get ns k s))),
      es_delete = (\<lambda>ns k s. case store_delete ns k s of (r, s') \<Rightarrow> (map_err fault_of r, s')),
      es_recent = (\<lambda>ns limit s. map_ok (map row_of) (map_err fault_of (store_recent ns limit s)))\<rparr>"

section \<open>Scoping\<close>

lemma strip_or_keep_append [simp]: "strip_or_keep p (p @ s) = s"
  by (simp add: strip_or_keep_def)

lemma unscope_scope: "scope g ns = Inr scoped \<Longrightarrow> unscope g scoped = ns"
  by (auto simp: scope_def unscope_def split: if_splits option.splits backing.splits)

lemma slash_prefix_inj:
  assumes "CHR ''/'' \<notin> set a" "CHR ''/'' \<notin> set b" "a @ ''/'' @ x = b @ ''/'' @ y"
  shows "a = b \<and> x = y"
  using assms
proof (induction a arbitrary: b)
  case Nil
  then show ?case by (cases b) auto
next
  case (Cons c a)
  then show ?case by (cases b) auto
qed

text \<open>Two storages that share a backing store and may not see each other's rows.\<close>

definition owner_of :: "guest_storage \<Rightarrow> string" where
  "owner_of g = (case gs_backing g of Durable owner \<Rightarrow> owner | Ephemeral _ _ \<Rightarrow> [])"

definition durable :: "guest_storage \<Rightarrow> bool" where
  "durable g \<longleftrightarrow> (case gs_backing g of Durable _ \<Rightarrow> True | Ephemeral _ _ \<Rightarrow> False)"

definition session_of :: "guest_storage \<Rightarrow> string" where
  "session_of g = (case gs_session g of Some x \<Rightarrow> x | None \<Rightarrow> [])"

definition plain :: "string \<Rightarrow> bool" where
  "plain s \<longleftrightarrow> CHR ''/'' \<notin> set s"

definition apart :: "guest_storage \<Rightarrow> guest_storage \<Rightarrow> bool" where
  "apart g h \<longleftrightarrow> durable g \<and> durable h \<and> plain (owner_of g) \<and> plain (owner_of h) \<and>
     (owner_of g \<noteq> owner_of h \<or>
      gs_by_session g \<and> gs_by_session h \<and> plain (session_of g) \<and> plain (session_of h) \<and>
      session_of g \<noteq> session_of h)"

lemma scope_durable:
  assumes "durable g" "scope g ns = Inr scoped"
  shows "scoped = owner_prefix (owner_of g) @
    (if gs_by_session g then session_prefix (session_of g) @ ns else ns)"
  using assms
  by (auto simp: scope_def durable_def owner_of_def session_of_def split: backing.splits option.splits
      if_splits)

lemma scopes_apart:
  assumes "apart g h" "scope g ns = Inr a" "scope h ms = Inr b"
  shows "a \<noteq> b"
proof
  assume eq: "a = b"
  let ?in = "\<lambda>g ns. if gs_by_session g then session_prefix (session_of g) @ ns else ns"
  have "owner_of g @ ''/'' @ ?in g ns = owner_of h @ ''/'' @ ?in h ms"
  proof -
    have "durable g" "durable h" using assms(1) by (simp_all add: apart_def)
    then have "owner_prefix (owner_of g) @ ?in g ns = owner_prefix (owner_of h) @ ?in h ms"
      using scope_durable [OF _ assms(2)] scope_durable [OF _ assms(3)] eq by metis
    then show ?thesis by (simp only: owner_prefix_def append_assoc same_append_eq)
  qed
  moreover have "CHR ''/'' \<notin> set (owner_of g)" "CHR ''/'' \<notin> set (owner_of h)"
    using assms(1) unfolding apart_def plain_def by blast+
  ultimately have both: "owner_of g = owner_of h \<and> ?in g ns = ?in h ms"
    by (intro slash_prefix_inj)
  then have sess: "gs_by_session g" "gs_by_session h" "session_of g \<noteq> session_of h"
    "CHR ''/'' \<notin> set (session_of g)" "CHR ''/'' \<notin> set (session_of h)"
    using assms(1) unfolding apart_def plain_def by blast+
  then have "session_of g @ ''/'' @ ns = session_of h @ ''/'' @ ms"
    using both by (simp only: session_prefix_def if_True append_assoc same_append_eq)
  from slash_prefix_inj [OF sess(4,5) this] sess(3) show False by blast
qed

section \<open>The contract of a backing store\<close>

locale entries_store =
  fixes E :: "'w entries" and ok :: "'w \<Rightarrow> bool"
  assumes set_result: "ok w \<Longrightarrow> \<exists>r. fst (es_set E ns k v w) = Inr r \<and>
      row_namespace r = ns \<and> row_key r = k \<and> row_value r = v"
    and set_ok: "ok w \<Longrightarrow> ok (snd (es_set E ns k v w))"
    and get_set: "ok w \<Longrightarrow> es_get E n q (snd (es_set E ns k v w)) =
      (if n = ns \<and> q = k then fst (es_set E ns k v w) else es_get E n q w)"
    and delete_ok: "ok w \<Longrightarrow> ok (snd (es_delete E ns k w))"
    and get_delete: "ok w \<Longrightarrow> es_get E n q (snd (es_delete E ns k w)) =
      (if n = ns \<and> q = k then Inl FNotFound else es_get E n q w)"
    and recent_other: "n \<noteq> ns \<Longrightarrow>
      es_recent E n l (snd (es_set E ns k v w)) = es_recent E n l w \<and>
      es_recent E n l (snd (es_delete E ns k w)) = es_recent E n l w"
begin

text \<open>What was set is read back, in the guest's own namespace and with what \<open>set\<close> returned.\<close>

lemma guest_get_set:
  assumes "ok w" "durable g" "scope g ns = Inr scoped"
  shows "\<exists>e. guest_set E ns k v (g, w) = (Inr e, g, snd (snd (guest_set E ns k v (g, w)))) \<and>
    se_namespace e = ns \<and> se_key e = k \<and> se_value e = v \<and> se_id e = ns @ ''/'' @ k \<and>
    guest_get E ns k (snd (guest_set E ns k v (g, w))) = Inr e"
proof -
  obtain w' where w': "snd (es_set E scoped k v w) = w'" by blast
  obtain r where r: "fst (es_set E scoped k v w) = Inr r"
    "row_namespace r = scoped" "row_key r = k" "row_value r = v"
    using set_result [OF assms(1)] by blast
  have set: "es_set E scoped k v w = (Inr r, w')" using r(1) w' by (metis prod.collapse)
  have "es_get E scoped k w' = Inr r" using get_set [OF assms(1), of scoped k scoped k v] set by simp
  moreover obtain owner where "gs_backing g = Durable owner"
    using assms(2) by (auto simp: durable_def split: backing.splits)
  ultimately show ?thesis
    using assms(3) set r unscope_scope [OF assms(3)]
    by (simp add: guest_set_def guest_get_def present_def Let_def)
qed

text \<open>A storage apart from the one written sees the same rows as before.\<close>

lemma guest_isolated:
  assumes "ok w" "apart g h"
  shows "guest_get E ms q (h, snd (snd (guest_set E ns k v (g, w)))) = guest_get E ms q (h, w) \<and>
    guest_get E ms q (h, snd (snd (guest_delete E ns k (g, w)))) = guest_get E ms q (h, w) \<and>
    guest_recent E ms l (h, snd (snd (guest_set E ns k v (g, w)))) = guest_recent E ms l (h, w) \<and>
    guest_recent E ms l (h, snd (snd (guest_delete E ns k (g, w)))) = guest_recent E ms l (h, w)"
proof -
  obtain og where og: "gs_backing g = Durable og"
    using assms(2) by (auto simp: apart_def durable_def split: backing.splits)
  obtain oh where oh: "gs_backing h = Durable oh"
    using assms(2) by (auto simp: apart_def durable_def split: backing.splits)
  show ?thesis
  proof (cases "scope g ns")
    case (Inl f)
    then show ?thesis by (simp add: guest_set_def guest_delete_def)
  next
    case (Inr a)
    have w1: "snd (snd (guest_set E ns k v (g, w))) = snd (es_set E a k v w)"
      and w2: "snd (snd (guest_delete E ns k (g, w))) = snd (es_delete E a k w)"
      using Inr og by (simp_all add: guest_set_def guest_delete_def split: prod.split)
    show ?thesis
    proof (cases "scope h ms")
      case (Inl f)
      then show ?thesis by (simp add: guest_get_def guest_recent_def guest_entries_in_def)
    next
      case inner: (Inr b)
      then have "b \<noteq> a" using scopes_apart [OF assms(2) Inr] by metis
      then show ?thesis
        using inner oh get_set [OF assms(1), of b q a k v] get_delete [OF assms(1), of b q a k]
          recent_other [of b a "2 ^ 32 - 1" k v w]
        unfolding w1 w2 by (simp add: guest_get_def guest_recent_def guest_entries_in_def)
    qed
  qed
qed

end

section \<open>The session store keeps the contract\<close>

lemma newest_upsert:
  "n \<noteq> ns \<Longrightarrow> filter (\<lambda>r. er_namespace r = n) (upsert ns k v t rs) =
     filter (\<lambda>r. er_namespace r = n) rs"
  by (induction rs) (auto simp: at_key_def)

lemma newest_delete:
  "n \<noteq> ns \<Longrightarrow> filter (\<lambda>r. er_namespace r = n) (filter (\<lambda>r. \<not> at_key ns k r) rs) =
     filter (\<lambda>r. er_namespace r = n) rs"
  by (induction rs) (auto simp: at_key_def)

lemma newest_other:
  assumes "n \<noteq> ns"
  shows "newest n (snd (store_set ns k v now s)) = newest n s"
    and "newest n (snd (store_delete ns k s)) = newest n s"
  using newest_upsert [OF assms] newest_delete [OF assms]
  by (simp_all add: newest_def store_set_def store_delete_def execute_def del: filter_filter
      split: option.split)

lemma store_get_set:
  assumes "st_fault s = None"
  shows "store_get n q (snd (store_set ns k v now s)) =
    (if n = ns \<and> q = k then fst (store_set ns k v now s) else store_get n q s)"
  using assms by (simp add: store_set_def store_get_def store_defs find_upsert split: option.split)

lemma store_get_delete:
  assumes "st_fault s = None"
  shows "store_get n q (snd (store_delete ns k s)) =
    (if n = ns \<and> q = k then Inl NotFound else store_get n q s)"
  using assms by (simp add: store_delete_def store_get_def store_defs find_filter_not)

lemma find_at_key: "List.find (at_key ns k) rs = Some r \<Longrightarrow> at_key ns k r"
  by (auto simp: find_Some_iff)

lemma store_set_result:
  assumes "st_fault s = None"
  shows "\<exists>e. fst (store_set ns k v now s) = Inr e \<and> en_namespace e = ns \<and> en_key e = k \<and>
    en_value e = v"
  using assms
  by (auto simp: store_set_def store_get_def store_defs find_upsert entry_of_row_def at_key_def
      dest: find_at_key split: option.split)

interpretation session_rows: entries_store "session_entries now" "\<lambda>s. st_fault s = None" for now
proof
  fix w :: store and ns k v n q l
  show "\<exists>r. fst (es_set (session_entries now) ns k v w) = Inr r \<and>
      row_namespace r = ns \<and> row_key r = k \<and> row_value r = v" if "st_fault w = None"
    using store_set_result [OF that, of ns k v now]
    by (auto simp: session_entries_def row_of_def split: prod.split)
  show "st_fault (snd (es_set (session_entries now) ns k v w)) = None" if "st_fault w = None"
    using that fault_kept(3) [of ns k v now w] by (simp add: session_entries_def case_prod_beta)
  show "es_get (session_entries now) n q (snd (es_set (session_entries now) ns k v w)) =
      (if n = ns \<and> q = k then fst (es_set (session_entries now) ns k v w)
       else es_get (session_entries now) n q w)" if "st_fault w = None"
    using store_get_set [OF that, of n q ns k v now]
    by (auto simp: session_entries_def split: prod.split)
  show "st_fault (snd (es_delete (session_entries now) ns k w)) = None" if "st_fault w = None"
    using that fault_kept(4) [of ns k w] by (simp add: session_entries_def case_prod_beta)
  show "es_get (session_entries now) n q (snd (es_delete (session_entries now) ns k w)) =
      (if n = ns \<and> q = k then Inl FNotFound else es_get (session_entries now) n q w)"
    if "st_fault w = None"
    using store_get_delete [OF that, of n q ns k]
    by (auto simp: session_entries_def split: prod.split)
  show "es_recent (session_entries now) n l (snd (es_set (session_entries now) ns k v w)) =
        es_recent (session_entries now) n l w \<and>
      es_recent (session_entries now) n l (snd (es_delete (session_entries now) ns k w)) =
        es_recent (session_entries now) n l w" if "n \<noteq> ns"
    using newest_other [OF that] fault_kept(3,4)
    by (simp add: session_entries_def store_recent_def query_def case_prod_beta split: option.split)
qed

lemma guest_get_now: "guest_get (session_entries now') ns k gw = guest_get (session_entries now) ns k gw"
proof -
  have "es_get (session_entries now') = es_get (session_entries now)"
    by (simp add: session_entries_def)
  then show ?thesis unfolding guest_get_def by (simp only:)
qed

section \<open>Properties\<close>

text \<open>Over a healthy session store, what a component stores it reads back: the same
  entry, under the namespace and key it named, whatever prefix the host stored it under.\<close>

theorem guest_set_get:
  assumes "st_fault s = None" "durable g" "\<not> gs_by_session g \<or> gs_session g \<noteq> None"
  shows "\<exists>e. fst (guest_set (session_entries now) ns k v (g, s)) = Inr e \<and>
    se_namespace e = ns \<and> se_key e = k \<and> se_value e = v \<and> se_id e = ns @ ''/'' @ k \<and>
    guest_get (session_entries now') ns k (snd (guest_set (session_entries now) ns k v (g, s))) = Inr e"
proof -
  obtain scoped where "scope g ns = Inr scoped"
    by (cases "scope g ns") (use assms(3) in \<open>auto simp: scope_def split: if_splits\<close>)
  from session_rows.guest_get_set [OF assms(1,2) this, of now k v] show ?thesis
    by (metis fst_conv guest_get_now)
qed

definition demo_guest :: "string \<Rightarrow> guest_storage" where
  "demo_guest owner = bind_storage_session ''one'' (per_session (Durable owner))"

lemma demo_guest_simps [simp]:
  "durable (demo_guest owner)" "gs_by_session (demo_guest owner)"
  "gs_session (demo_guest owner) = Some ''one''" "owner_of (demo_guest owner) = owner"
  by (simp_all add: demo_guest_def durable_def owner_of_def per_session_def bind_storage_session_def)

theorem guest_set_get_witness:
  "\<exists>e. guest_get (session_entries 2) ''n'' ''k''
     (snd (guest_set (session_entries 1) ''n'' ''k'' ''v'' (demo_guest ''a'', empty_store))) = Inr e \<and>
     se_value e = ''v''"
  using guest_set_get [of empty_store "demo_guest ''a''" 1 "''n''" "''k''" "''v''" 2]
  by (auto simp: empty_store_def)

text \<open>C9 (guest_storage_isolated): Two components of different names, or one component bound to two
  different sessions under a per-session grant, never see each other's writes or deletions: every
  read of the one is the same before and after. Names and sessions hold no slash.\<close>

theorem guest_storage_isolated:
  assumes "st_fault s = None" "apart g h"
  shows "guest_get (session_entries now) ms q (h, snd (snd (guest_set (session_entries now) ns k v (g, s))))
      = guest_get (session_entries now) ms q (h, s) \<and>
    guest_get (session_entries now) ms q (h, snd (snd (guest_delete (session_entries now) ns k (g, s))))
      = guest_get (session_entries now) ms q (h, s) \<and>
    guest_recent (session_entries now) ms l (h, snd (snd (guest_set (session_entries now) ns k v (g, s))))
      = guest_recent (session_entries now) ms l (h, s) \<and>
    guest_recent (session_entries now) ms l (h, snd (snd (guest_delete (session_entries now) ns k (g, s))))
      = guest_recent (session_entries now) ms l (h, s)"
  by (rule session_rows.guest_isolated [OF assms])

theorem guest_storage_isolated_witness:
  "guest_get (session_entries 1) ''n'' ''k''
     (demo_guest ''b'', snd (snd (guest_set (session_entries 1) ''n'' ''k'' ''v''
        (demo_guest ''a'', empty_store)))) =
   guest_get (session_entries 1) ''n'' ''k'' (demo_guest ''b'', empty_store)"
proof -
  have "apart (demo_guest ''a'') (demo_guest ''b'')" by (simp add: apart_def plain_def)
  then show ?thesis
    using guest_storage_isolated [of empty_store "demo_guest ''a''" "demo_guest ''b''"]
    by (simp add: empty_store_def)
qed

text \<open>A per-session storage no session was bound to refuses every
  operation with a backend fault and leaves the backing and the store as they were.\<close>

theorem guest_storage_fails_closed:
  "guest_set E ns k v (per_session b, w) = (Inl FBackend, per_session b, w) \<and>
   guest_get E ns k (per_session b, w) = Inl FBackend \<and>
   guest_delete E ns k (per_session b, w) = (Inl FBackend, per_session b, w) \<and>
   guest_entries_in E ns (per_session b, w) = Inl FBackend \<and>
   guest_recent E ns l (per_session b, w) = Inl FBackend"
  by (simp add: guest_set_def guest_get_def guest_delete_def guest_entries_in_def guest_recent_def
      scope_def per_session_def)

text \<open>Deleting an entry that is not there succeeds over the session store,
  although over the private map the same call reports it as not found.\<close>

theorem durable_delete_missing:
  assumes "st_fault s = None" "scope (shared_storage (Durable owner)) ns = Inr scoped"
    "store_get scoped k s = Inl NotFound"
  shows "fst (guest_delete (session_entries now) ns k (shared_storage (Durable owner), s)) = Inr () \<and>
    fst (guest_delete E ns k (shared_storage (Ephemeral [] c), w)) = Inl FNotFound"
  using assms
  by (simp add: guest_delete_def session_entries_def store_delete_def execute_def shared_storage_def
      scope_def)

theorem durable_delete_missing_witness:
  "fst (guest_delete (session_entries 1) ''n'' ''k'' (shared_storage (Durable ''a''), empty_store)) = Inr ()"
  using durable_delete_missing [of empty_store "''a''" "''n''" "''ext/a/n''" "''k''" 1
      "session_entries 1" 0 empty_store]
  by (simp add: empty_store_def scope_def shared_storage_def owner_prefix_def store_get_def query_def)

end
