(* ===== verification/GuestFs.thy ===== *)
theory GuestFs
  imports Prelude
begin

text \<open>
  The shared file helpers of the guest tools (\<open>extensions/guest-fs/src/lib.rs\<close>): output truncation,
  glob matching, the bounded walk. The glob loop is the code's, on positions of the scalars of
  pattern and name; \<open>glob\<close> is the reference it is proved equal to. The directory listing the walk
  is given is the parameter \<open>ls\<close>.
\<close>

definition MAX_OUTPUT_BYTES :: nat where "MAX_OUTPUT_BYTES = 64 * 1024"
definition MAX_RESULTS :: nat where "MAX_RESULTS = 500"
definition MAX_VISITS :: nat where "MAX_VISITS = 20000"
definition MAX_DEPTH :: nat where "MAX_DEPTH = 24"

definition PRUNED_DIRS :: "string list" where
  "PRUNED_DIRS = [''.git'', ''node_modules'', ''target'', ''.venv'', ''__pycache__'', ''.jj'']"

record dir_entry =
  de_name :: string
  de_is_dir :: bool

record walk_outcome =
  oc_paths :: "string list"
  oc_bounded_by :: "string option"

section \<open>Truncation\<close>

fun safe_len :: "string \<Rightarrow> nat \<Rightarrow> nat" where
  "safe_len s 0 = 0"
| "safe_len s (Suc n) = (if is_char_boundary s (Suc n) then Suc n else safe_len s n)"

definition truncate_output :: "string \<Rightarrow> string" where
  "truncate_output s =
     (if length s \<le> MAX_OUTPUT_BYTES then s
      else (let n = safe_len s MAX_OUTPUT_BYTES
            in take n s @ newline # ellipsis @ ''[truncated: '' @ show_nat (length s - n) @
               '' bytes omitted]''))"

section \<open>Globs\<close>

definition normalize :: "string \<Rightarrow> string" where
  "normalize pattern = (if CHR ''/'' \<in> set pattern then pattern else ''**/'' @ pattern)"

text \<open>\<open>match_name\<close>: \<open>pi\<close>, \<open>ti\<close> positions in pattern and text, \<open>star\<close> the last star, \<open>eaten\<close> where
  the text it covers ends.\<close>

function match_loop ::
  "string list \<Rightarrow> string list \<Rightarrow> nat \<Rightarrow> nat \<Rightarrow> nat option \<Rightarrow> nat \<Rightarrow> bool" where
  "match_loop pat tx pi ti star eaten =
     (if ti < length tx then
        (if pi < length pat \<and> (pat ! pi = ''?'' \<or> pat ! pi = tx ! ti)
         then match_loop pat tx (pi + 1) (ti + 1) star eaten
         else if pi < length pat \<and> pat ! pi = ''*''
         then match_loop pat tx (pi + 1) ti (Some pi) ti
         else (case star of
                 Some s \<Rightarrow> match_loop pat tx (s + 1) (eaten + 1) star (eaten + 1)
               | None \<Rightarrow> False))
      else list_all (\<lambda>c. c = ''*'') (drop pi pat))"
  by pat_completeness auto
termination
  by (relation "measures
       [\<lambda>(pat, tx, pi, ti, star, eaten). if star \<noteq> None \<and> ti < eaten then 1 else 0,
        \<lambda>(pat, tx, pi, ti, star, eaten). if star = None then Suc (length tx) else length tx - eaten,
        \<lambda>(pat, tx, pi, ti, star, eaten). length tx - ti,
        \<lambda>(pat, tx, pi, ti, star, eaten). length pat - pi]")
     (auto split: if_splits)

declare match_loop.simps [simp del]

definition match_name :: "string \<Rightarrow> string \<Rightarrow> bool" where
  "match_name pattern name = match_loop (utf8_chars pattern) (utf8_chars name) 0 0 None 0"

fun match_segments :: "string list \<Rightarrow> string list \<Rightarrow> bool" where
  "match_segments [] seg = (seg = [])"
| "match_segments (p # rest) seg =
     (if p = ''**'' then list_ex (\<lambda>i. match_segments rest (drop i seg)) [0..<Suc (length seg)]
      else (case seg of
              name # tail \<Rightarrow> match_name p name \<and> match_segments rest tail
            | [] \<Rightarrow> False))"

definition segments :: "string \<Rightarrow> string list" where
  "segments s = filter (\<lambda>x. x \<noteq> []) (split_on CHR ''/'' s)"

definition matches :: "string \<Rightarrow> string \<Rightarrow> bool" where
  "matches pattern path = match_segments (segments pattern) (segments path)"

section \<open>The walk\<close>

definition CREDENTIAL_FILES :: "string list" where
  "CREDENTIAL_FILES = [''.env'', ''.envrc'', ''.netrc'', ''.npmrc'', ''.pgpass'',
     ''.git-credentials'', ''credentials'', ''id_rsa'']"

definition CREDENTIAL_ENDINGS :: "string list" where
  "CREDENTIAL_ENDINGS = [''.pem'', ''.key'', ''.p12'', ''.pfx'', ''.jks'', ''.keystore'', ''.ppk'']"

definition is_credential_file :: "string \<Rightarrow> bool" where
  "is_credential_file name =
     (let lower = to_lower name
      in lower \<in> set CREDENTIAL_FILES \<or> list_ex (\<lambda>e. ends_with e lower) CREDENTIAL_ENDINGS \<or>
         starts_with ''.env.'' lower \<or> starts_with ''id_ed25519'' lower \<or>
         starts_with ''id_ecdsa'' lower)"

definition should_descend :: "string \<Rightarrow> string \<Rightarrow> bool" where
  "should_descend name pattern \<longleftrightarrow>
     name \<notin> set PRUNED_DIRS \<or> name \<in> set (split_on CHR ''/'' pattern)"

definition hidden_credential :: "string \<Rightarrow> string \<Rightarrow> bool" where
  "hidden_credential name pattern \<longleftrightarrow>
     is_credential_file name \<and> name \<notin> set (split_on CHR ''/'' pattern)"

definition join :: "string \<Rightarrow> string \<Rightarrow> string" where
  "join base rest =
     (let base = (if base = ''.'' then [] else base)
      in if base = [] then rest else if rest = [] then base else base @ ''/'' @ rest)"

record walk_state =
  ws_paths :: "string list"
  ws_bounded :: "string option"
  ws_visits :: nat
  ws_queue :: "(string \<times> nat) list"

text \<open>The entries of one directory; the queue is the code's vector, its last element popped next.\<close>

fun scan ::
  "string \<Rightarrow> string \<Rightarrow> string \<Rightarrow> nat \<Rightarrow> dir_entry list \<Rightarrow> walk_state \<Rightarrow> walk_state" where
  "scan root pattern dir depth [] w = w"
| "scan root pattern dir depth (e # es) w =
     (let w = w\<lparr>ws_visits := ws_visits w + 1\<rparr>
      in if MAX_VISITS < ws_visits w then w\<lparr>ws_bounded := Some ''visit budget'', ws_queue := []\<rparr>
         else (let rel = join dir (de_name e)
               in if de_is_dir e then
                    (if depth + 1 < MAX_DEPTH \<and> should_descend (de_name e) pattern
                     then scan root pattern dir depth es
                            (w\<lparr>ws_queue := ws_queue w @ [(rel, depth + 1)]\<rparr>)
                     else scan root pattern dir depth es w)
                  else if matches pattern rel \<and> \<not> hidden_credential (de_name e) pattern then
                    (if length (ws_paths w) = MAX_RESULTS
                     then w\<lparr>ws_bounded := Some ''result cap'', ws_queue := []\<rparr>
                     else scan root pattern dir depth es
                            (w\<lparr>ws_paths := ws_paths w @ [join root rel]\<rparr>))
                  else scan root pattern dir depth es w))"

lemma scan_visits: "ws_visits w \<le> ws_visits (scan root pattern dir depth es w)"
proof (induction es arbitrary: w)
  case (Cons e es)
  show ?case
    by (auto simp: Let_def intro: order_trans [OF _ Cons.IH])
qed simp

lemma scan_progress:
  "es \<noteq> [] \<Longrightarrow> ws_visits w < ws_visits (scan root pattern dir depth es w) \<and>
     (MAX_VISITS \<le> ws_visits w \<longrightarrow> ws_queue (scan root pattern dir depth es w) = [])"
proof (cases es)
  case (Cons e es')
  have "ws_visits w < ws_visits (scan root pattern dir depth es' w')" if "ws_visits w' = Suc (ws_visits w)"
    for w' using scan_visits [of w' root pattern dir depth es'] that by simp
  with Cons show ?thesis by (auto simp: Let_def)
qed simp

function walk_loop ::
  "(string \<Rightarrow> dir_entry list option) \<Rightarrow> string \<Rightarrow> string \<Rightarrow> walk_state \<Rightarrow> walk_state" where
  "walk_loop ls root pattern w =
     (if ws_queue w = [] then w
      else (let (dir, depth) = last (ws_queue w); w1 = w\<lparr>ws_queue := butlast (ws_queue w)\<rparr>
            in case ls (join root dir) of
                 None \<Rightarrow> walk_loop ls root pattern w1
               | Some es \<Rightarrow> walk_loop ls root pattern (scan root pattern dir depth es w1)))"
  by pat_completeness auto
termination
proof (relation "measures [\<lambda>(ls, root, pattern, w). MAX_VISITS - ws_visits w,
    \<lambda>(ls, root, pattern, w). length (ws_queue w)]", goal_cases)
  case 1
  then show ?case by simp
next
  case (2 ls root pattern w x dir depth w1)
  then show ?case by simp
next
  case (3 ls root pattern w x dir depth w1 es)
  then show ?case
  proof (cases "es = []")
    case True
    with 3 show ?thesis by simp
  next
    case False
    with 3 scan_progress [OF False, of w1 root pattern dir depth] show ?thesis
      by (cases "MAX_VISITS \<le> ws_visits w") auto
  qed
qed

declare walk_loop.simps [simp del]

definition walk :: "string \<Rightarrow> string \<Rightarrow> (string \<Rightarrow> dir_entry list option) \<Rightarrow> walk_outcome" where
  "walk root pattern ls =
     (let w = walk_loop ls root (normalize pattern)
            \<lparr>ws_paths = [], ws_bounded = None, ws_visits = 0, ws_queue = [([], 0)]\<rparr>
      in \<lparr>oc_paths = sort (ws_paths w), oc_bounded_by = ws_bounded w\<rparr>)"

section \<open>The glob loop against the reference\<close>

fun glob :: "string list \<Rightarrow> string list \<Rightarrow> bool" where
  "glob [] ts = (ts = [])"
| "glob (p # ps) ts =
     (if p = ''*'' then glob ps ts \<or> (case ts of [] \<Rightarrow> False | _ # ts' \<Rightarrow> glob (p # ps) ts')
      else (case ts of [] \<Rightarrow> False | t # ts' \<Rightarrow> (p = ''?'' \<or> p = t) \<and> glob ps ts'))"

lemma glob_star: "glob (''*'' # ps) ts \<longleftrightarrow> (\<exists>k \<le> length ts. glob ps (drop k ts))"
proof (induction ts)
  case (Cons t ts)
  have "(\<exists>k \<le> length (t # ts). glob ps (drop k (t # ts))) \<longleftrightarrow>
      glob ps (t # ts) \<or> (\<exists>k \<le> length ts. glob ps (drop k ts))"
    by (metis (no_types, lifting) Suc_le_mono drop0 drop_Suc_Cons le0 length_Cons not0_implies_Suc)
  with Cons show ?case by simp
qed simp

lemma glob_Nil: "glob ps [] \<longleftrightarrow> list_all (\<lambda>c. c = ''*'') ps"
  by (induction ps) auto

text \<open>The reference read at positions of pattern and text.\<close>

definition glob_at :: "string list \<Rightarrow> string list \<Rightarrow> nat \<Rightarrow> nat \<Rightarrow> bool" where
  "glob_at pat tx pi ti = glob (drop pi pat) (drop ti tx)"

definition fits :: "string list \<Rightarrow> string list \<Rightarrow> nat \<Rightarrow> nat \<Rightarrow> bool" where
  "fits pat tx pi ti \<longleftrightarrow> pat ! pi \<noteq> ''*'' \<and> (pat ! pi = ''?'' \<or> pat ! pi = tx ! ti)"

lemma at_literal:
  assumes "pi < length pat" "pat ! pi \<noteq> ''*''"
  shows "glob_at pat tx pi ti \<longleftrightarrow>
    ti < length tx \<and> fits pat tx pi ti \<and> glob_at pat tx (Suc pi) (Suc ti)"
proof -
  have p: "drop pi pat = pat ! pi # drop (Suc pi) pat" using assms(1) by (simp add: Cons_nth_drop_Suc)
  show ?thesis
  proof (cases "ti < length tx")
    case True
    then have "drop ti tx = tx ! ti # drop (Suc ti) tx" by (simp add: Cons_nth_drop_Suc)
    with p True assms(2) show ?thesis by (simp add: glob_at_def fits_def)
  qed (use p assms(2) in \<open>simp add: glob_at_def\<close>)
qed

lemma at_star:
  assumes "pi < length pat" "pat ! pi = ''*''" "ti \<le> length tx"
  shows "glob_at pat tx pi ti \<longleftrightarrow> (\<exists>k. ti \<le> k \<and> k \<le> length tx \<and> glob_at pat tx (Suc pi) k)"
proof -
  have p: "drop pi pat = ''*'' # drop (Suc pi) pat"
    using assms(1,2) by (metis Cons_nth_drop_Suc)
  have "(\<exists>j \<le> length (drop ti tx). glob (drop (Suc pi) pat) (drop j (drop ti tx))) \<longleftrightarrow>
      (\<exists>k. ti \<le> k \<and> k \<le> length tx \<and> glob (drop (Suc pi) pat) (drop k tx))" (is "?L \<longleftrightarrow> ?R")
  proof
    assume ?L
    then obtain j where "j \<le> length tx - ti" "glob (drop (Suc pi) pat) (drop (j + ti) tx)"
      by auto
    then show ?R using assms(3) by (intro exI [of _ "j + ti"]) auto
  next
    assume ?R
    then obtain k where "ti \<le> k" "k \<le> length tx" "glob (drop (Suc pi) pat) (drop k tx)" by blast
    then show ?L by (intro exI [of _ "k - ti"]) auto
  qed
  then show ?thesis unfolding glob_at_def p glob_star .
qed

lemma at_end: "length pat \<le> pi \<Longrightarrow> glob_at pat tx pi ti \<longleftrightarrow> length tx \<le> ti"
  by (simp add: glob_at_def)

text \<open>A run of literals consumes exactly as many scalars, wherever it starts.\<close>

lemma literals_forward:
  assumes "\<forall>i < d. j + i < length pat \<and> pat ! (j + i) \<noteq> ''*''" "k \<le> length tx" "glob_at pat tx j k"
  shows "k + d \<le> length tx \<and> glob_at pat tx (j + d) (k + d)"
  using assms
proof (induction d)
  case (Suc d)
  then have "k + d \<le> length tx" "glob_at pat tx (j + d) (k + d)" by simp_all
  with Suc.prems(1) show ?case using at_literal [of "j + d" pat tx "k + d"] by simp
qed simp

lemma literals_backward:
  assumes "\<forall>i < d. j + i < length pat \<and> k + i < length tx \<and> fits pat tx (j + i) (k + i)"
    "glob_at pat tx (j + d) (k + d)"
  shows "glob_at pat tx j k"
  using assms
proof (induction d)
  case (Suc d)
  have "fits pat tx (j + d) (k + d)" "j + d < length pat" "k + d < length tx"
    using Suc.prems(1) by simp_all
  then have "glob_at pat tx (j + d) (k + d)"
    using Suc.prems(2) at_literal [of "j + d" pat tx "k + d"] by (simp add: fits_def)
  with Suc.IH Suc.prems(1) show ?case by simp
qed simp

text \<open>What the loop computes from a reachable state: without a star the reference at the
  positions, with one the reference after the star from any later scalar.\<close>

definition loop_state :: "string list \<Rightarrow> string list \<Rightarrow> nat \<Rightarrow> nat \<Rightarrow> nat option \<Rightarrow> nat \<Rightarrow> bool" where
  "loop_state pat tx pi ti star eaten \<longleftrightarrow>
     (case star of
        None \<Rightarrow> True
      | Some s \<Rightarrow> s < pi \<and> s < length pat \<and> pat ! s = ''*'' \<and> eaten + (pi - Suc s) = ti \<and>
          (\<forall>i < pi - Suc s. Suc s + i < length pat \<and> eaten + i < length tx \<and>
             fits pat tx (Suc s + i) (eaten + i)))"

definition loop_value :: "string list \<Rightarrow> string list \<Rightarrow> nat \<Rightarrow> nat \<Rightarrow> nat option \<Rightarrow> nat \<Rightarrow> bool" where
  "loop_value pat tx pi ti star eaten \<longleftrightarrow>
     (case star of
        None \<Rightarrow> glob_at pat tx pi ti
      | Some s \<Rightarrow> \<exists>k. eaten \<le> k \<and> k \<le> length tx \<and> glob_at pat tx (Suc s) k)"

lemma loop_state_fit:
  assumes st: "loop_state pat tx pi ti star eaten" and lt: "pi < length pat" "ti < length tx"
    and fit: "fits pat tx pi ti"
  shows "loop_state pat tx (pi + 1) (ti + 1) star eaten"
proof (cases star)
  case None
  then show ?thesis by (simp add: loop_state_def)
next
  case (Some s)
  let ?d = "pi - Suc s"
  have s: "s < pi" "s < length pat" "pat ! s = ''*''" "eaten + ?d = ti"
    and lits: "\<forall>i < ?d. Suc s + i < length pat \<and> eaten + i < length tx \<and>
      fits pat tx (Suc s + i) (eaten + i)"
    using st Some by (simp_all add: loop_state_def)
  have d: "pi + 1 - Suc s = Suc ?d" "Suc s + ?d = pi" using s(1) by simp_all
  have "\<forall>i < Suc ?d. Suc s + i < length pat \<and> eaten + i < length tx \<and>
      fits pat tx (Suc s + i) (eaten + i)"
  proof (intro allI impI)
    fix i
    assume "i < Suc ?d"
    then consider "i < ?d" | "i = ?d" by linarith
    then show "Suc s + i < length pat \<and> eaten + i < length tx \<and> fits pat tx (Suc s + i) (eaten + i)"
    proof cases
      case 1
      with lits show ?thesis by blast
    next
      case 2
      then show ?thesis using d(2) s(4) lt fit by metis
    qed
  qed
  moreover have "eaten + Suc ?d = ti + 1" using s(4) by simp
  ultimately show ?thesis
    unfolding loop_state_def Some option.case d(1) using s(1,2,3) less_SucI [OF s(1)]
    by (simp only: Suc_eq_plus1 [symmetric])
qed

lemma value_of_star:
  assumes "loop_state pat tx pi ti star eaten" "ti \<le> length tx"
  shows "loop_value pat tx pi ti star eaten \<Longrightarrow>
      \<exists>k. ti \<le> k \<and> k \<le> length tx \<and> glob_at pat tx pi k"
    and "glob_at pat tx pi ti \<Longrightarrow> loop_value pat tx pi ti star eaten"
proof -
  show "\<exists>k. ti \<le> k \<and> k \<le> length tx \<and> glob_at pat tx pi k"
    if v: "loop_value pat tx pi ti star eaten"
  proof (cases star)
    case None
    then show ?thesis using v assms(2) by (auto simp: loop_value_def)
  next
    case (Some s)
    let ?d = "pi - Suc s"
    obtain k where k: "eaten \<le> k" "k \<le> length tx" "glob_at pat tx (Suc s) k"
      using v Some by (auto simp: loop_value_def)
    have d: "Suc s + ?d = pi" "eaten + ?d = ti"
      and lits: "\<forall>i < ?d. Suc s + i < length pat \<and> pat ! (Suc s + i) \<noteq> ''*''"
      using assms(1) Some by (auto simp: loop_state_def fits_def)
    from literals_forward [OF lits k(2,3)] d k(1) show ?thesis
      by (intro exI [of _ "k + ?d"]) (metis add_le_mono1 d(1,2))
  qed
  show "loop_value pat tx pi ti star eaten" if a: "glob_at pat tx pi ti"
  proof (cases star)
    case None
    then show ?thesis using a by (simp add: loop_value_def)
  next
    case (Some s)
    let ?d = "pi - Suc s"
    have d: "Suc s + ?d = pi" "eaten + ?d = ti"
      and lits: "\<forall>i < ?d. Suc s + i < length pat \<and> eaten + i < length tx \<and>
        fits pat tx (Suc s + i) (eaten + i)"
      using assms(1) Some by (auto simp: loop_state_def)
    have "glob_at pat tx (Suc s) eaten" using literals_backward [OF lits] a d by simp
    then show ?thesis using Some d(2) assms(2) by (auto simp: loop_value_def)
  qed
qed

lemma match_loop_glob:
  assumes "''*'' \<notin> set tx" "loop_state pat tx pi ti star eaten" "ti \<le> length tx"
  shows "match_loop pat tx pi ti star eaten \<longleftrightarrow> loop_value pat tx pi ti star eaten"
  using assms
proof (induction pat tx pi ti star eaten rule: match_loop.induct)
  case (1 pat tx pi ti star eaten)
  note simps = match_loop.simps [of pat tx pi ti star eaten]
  show ?case
  proof (cases "ti < length tx")
    case fin: False
    then have ti: "ti = length tx" using "1.prems"(3) by simp
    have "list_all (\<lambda>c. c = ''*'') (drop pi pat) \<longleftrightarrow> glob_at pat tx pi ti"
      using ti by (simp add: glob_at_def glob_Nil)
    also have "\<dots> \<longleftrightarrow> loop_value pat tx pi ti star eaten"
      using value_of_star [OF "1.prems"(2,3)] ti by (metis le_antisym)
    finally show ?thesis using fin simps by simp
  next
    case ti: True
    have "tx ! ti \<noteq> ''*''" using ti "1.prems"(1) by (metis nth_mem)
    show ?thesis
    proof (cases "pi < length pat \<and> (pat ! pi = ''?'' \<or> pat ! pi = tx ! ti)")
      case True
      then have fit: "fits pat tx pi ti" using \<open>tx ! ti \<noteq> ''*''\<close> by (auto simp: fits_def)
      have st: "loop_state pat tx (pi + 1) (ti + 1) star eaten"
        using loop_state_fit [OF "1.prems"(2)] True ti fit by simp
      have "match_loop pat tx pi ti star eaten = match_loop pat tx (pi + 1) (ti + 1) star eaten"
        using simps ti True by simp
      also have "\<dots> = loop_value pat tx (pi + 1) (ti + 1) star eaten"
        using "1.IH"(1) [OF ti True "1.prems"(1) st] ti by simp
      also have "\<dots> = loop_value pat tx pi ti star eaten"
        using at_literal [of pi pat tx ti] True ti fit
        by (auto simp: loop_value_def fits_def split: option.splits)
      finally show ?thesis .
    next
      case nofit: False
      show ?thesis
      proof (cases "pi < length pat \<and> pat ! pi = ''*''")
        case True
        have st: "loop_state pat tx (pi + 1) ti (Some pi) ti" using True by (simp add: loop_state_def)
        have "match_loop pat tx pi ti star eaten = match_loop pat tx (pi + 1) ti (Some pi) ti"
          using simps ti nofit True by simp
        also have "\<dots> = loop_value pat tx (pi + 1) ti (Some pi) ti"
          using "1.IH"(2) [OF ti nofit True "1.prems"(1) st] ti by simp
        also have "\<dots> = glob_at pat tx pi ti"
          using at_star [of pi pat ti tx] True ti by (simp add: loop_value_def)
        also have "\<dots> = loop_value pat tx pi ti star eaten"
        proof
          assume "glob_at pat tx pi ti"
          then show "loop_value pat tx pi ti star eaten"
            using value_of_star(2) [OF "1.prems"(2,3)] by blast
        next
          assume "loop_value pat tx pi ti star eaten"
          then obtain k where "ti \<le> k" "k \<le> length tx" "glob_at pat tx pi k"
            using value_of_star(1) [OF "1.prems"(2,3)] by blast
          then show "glob_at pat tx pi ti"
            using at_star [of pi pat k tx] at_star [of pi pat ti tx] True ti
            by (meson le_trans less_imp_le)
        qed
        finally show ?thesis .
      next
        case nostar: False
        have no: "\<not> glob_at pat tx pi ti"
          using nofit nostar ti at_end [of pat pi tx ti] at_literal [of pi pat tx ti]
          by (cases "pi < length pat") (auto simp: fits_def)
        show ?thesis
        proof (cases star)
          case None
          then show ?thesis using simps ti nofit nostar no by (simp add: loop_value_def)
        next
          case (Some s)
          have st: "loop_state pat tx (s + 1) (eaten + 1) star (eaten + 1)"
            using "1.prems"(2) Some by (simp add: loop_state_def)
          have le: "eaten + 1 \<le> length tx"
            using "1.prems"(2) Some ti by (simp add: loop_state_def)
          have "match_loop pat tx pi ti star eaten =
              match_loop pat tx (s + 1) (eaten + 1) star (eaten + 1)"
            using simps ti nofit nostar Some by simp
          also have "\<dots> = loop_value pat tx (s + 1) (eaten + 1) star (eaten + 1)"
            using "1.IH"(3) [OF ti nofit nostar Some "1.prems"(1) st le] .
          also have "\<dots> = loop_value pat tx pi ti star eaten"
          proof -
            have "\<not> glob_at pat tx (Suc s) eaten"
            proof
              assume a: "glob_at pat tx (Suc s) eaten"
              let ?d = "pi - Suc s"
              have "\<forall>i < ?d. Suc s + i < length pat \<and> pat ! (Suc s + i) \<noteq> ''*''" "Suc s + ?d = pi"
                "eaten + ?d = ti"
                using "1.prems"(2) Some by (auto simp: loop_state_def fits_def)
              then show False using literals_forward [OF _ _ a, of ?d] le no by auto
            qed
            then have "(eaten \<le> k \<and> glob_at pat tx (Suc s) k) \<longleftrightarrow>
                (Suc eaten \<le> k \<and> glob_at pat tx (Suc s) k)" for k
              by (metis Suc_leD Suc_leI le_neq_implies_less)
            then show ?thesis using Some by (simp add: loop_value_def) metis
          qed
          finally show ?thesis .
        qed
      qed
    qed
  qed
qed

section \<open>What a walk returns\<close>

text \<open>A path the walk may return: under the root, matched by the pattern, not a hidden credential.\<close>

definition walk_hit :: "string \<Rightarrow> string \<Rightarrow> string \<Rightarrow> bool" where
  "walk_hit root pattern path \<longleftrightarrow>
     (\<exists>dir name. path = join root (join dir name) \<and> matches pattern (join dir name) \<and>
        \<not> hidden_credential name pattern)"

definition walk_ok :: "string \<Rightarrow> string \<Rightarrow> walk_state \<Rightarrow> bool" where
  "walk_ok root pattern w \<longleftrightarrow>
     length (ws_paths w) \<le> MAX_RESULTS \<and> (\<forall>path \<in> set (ws_paths w). walk_hit root pattern path) \<and>
     (\<forall>(dir, depth) \<in> set (ws_queue w). depth < MAX_DEPTH)"

lemma walk_ok_simps [simp]:
  "walk_ok root pattern (w\<lparr>ws_visits := n\<rparr>) = walk_ok root pattern w"
  "walk_ok root pattern w \<Longrightarrow> walk_ok root pattern (w\<lparr>ws_bounded := b, ws_queue := []\<rparr>)"
  by (simp_all add: walk_ok_def)

lemma scan_ok: "walk_ok root pattern w \<Longrightarrow> walk_ok root pattern (scan root pattern dir depth es w)"
proof (induction es arbitrary: w)
  case (Cons e es)
  let ?w = "w\<lparr>ws_visits := ws_visits w + 1\<rparr>"
  let ?rel = "join dir (de_name e)"
  have ok: "walk_ok root pattern ?w" using Cons.prems by simp
  have pushed: "walk_ok root pattern (?w\<lparr>ws_queue := ws_queue ?w @ [(?rel, depth + 1)]\<rparr>)"
    if "depth + 1 < MAX_DEPTH" using ok that by (simp add: walk_ok_def)
  have hit: "walk_ok root pattern (?w\<lparr>ws_paths := ws_paths ?w @ [join root ?rel]\<rparr>)"
    if "matches pattern ?rel" "\<not> hidden_credential (de_name e) pattern"
      "length (ws_paths ?w) \<noteq> MAX_RESULTS"
  proof -
    have "walk_hit root pattern (join root ?rel)" using that(1,2) by (auto simp: walk_hit_def)
    with ok that(3) show ?thesis by (simp add: walk_ok_def)
  qed
  show ?case
    using ok Cons.IH [OF ok] Cons.IH [OF pushed] Cons.IH [OF hit]
    by (auto simp: Let_def simp del: walk_ok_simps(1) intro: walk_ok_simps(2))
qed simp

lemma walk_loop_ok: "walk_ok root pattern w \<Longrightarrow> walk_ok root pattern (walk_loop ls root pattern w)"
proof (induction ls root pattern w rule: walk_loop.induct)
  case (1 ls root pattern w)
  show ?case
  proof (cases "ws_queue w = []")
    case True
    then show ?thesis using "1.prems" by (simp add: walk_loop.simps)
  next
    case False
    obtain dir depth where l: "last (ws_queue w) = (dir, depth)" by fastforce
    let ?w = "w\<lparr>ws_queue := butlast (ws_queue w)\<rparr>"
    have ok: "walk_ok root pattern ?w"
      using "1.prems" by (auto simp: walk_ok_def dest: in_set_butlastD)
    show ?thesis
    proof (cases "ls (join root dir)")
      case None
      have "walk_ok root pattern (walk_loop ls root pattern ?w)"
        using "1.IH"(1) [OF False l [symmetric] refl refl None ok] .
      then show ?thesis using False l None by (subst walk_loop.simps) simp
    next
      case (Some es)
      have "walk_ok root pattern (walk_loop ls root pattern (scan root pattern dir depth es ?w))"
        using "1.IH"(2) [OF False l [symmetric] refl refl Some scan_ok [OF ok]] .
      then show ?thesis using False l Some by (subst walk_loop.simps) simp
    qed
  qed
qed

section \<open>Properties\<close>

text \<open>On a name without a literal star the backtracking loop decides exactly the reference
  glob: a star stands for any run of scalars, a question mark for one.\<close>

theorem match_name_glob:
  assumes "''*'' \<notin> set (utf8_chars name)"
  shows "match_name pattern name \<longleftrightarrow> glob (utf8_chars pattern) (utf8_chars name)"
  using match_loop_glob [OF assms, of "utf8_chars pattern" 0 0 None 0]
  by (simp add: match_name_def loop_state_def loop_value_def glob_at_def)

theorem match_name_glob_witness: "match_name ''a*b?'' ''axybz'' \<longleftrightarrow> True"
proof -
  have "''*'' \<notin> set (utf8_chars ''axybz'')" "glob (utf8_chars ''a*b?'') (utf8_chars ''axybz'')"
    by code_simp+
  then show ?thesis using match_name_glob by blast
qed

text \<open>A name that itself begins with a star is not matched by the pattern of a lone
  star, which stands for every name: the loop takes the pattern's star for the name's.\<close>

theorem literal_star_in_name:
  "\<not> match_name ''*'' ''*a'' \<and> glob (utf8_chars ''*'') (utf8_chars ''*a'') \<and>
   match_name ''*'' ''a''"
proof -
  have "utf8_chars ''*'' = [''*'']" "utf8_chars ''*a'' = [''*'', ''a'']" "utf8_chars ''a'' = [''a'']"
    by (simp_all add: utf8_len_def)
  then show ?thesis by (simp add: match_name_def match_loop.simps)
qed

text \<open>A walk returns at most \<open>MAX_RESULTS\<close> paths, in order, each the join of the
  root and a path the pattern matches, and none a credentials file the pattern does not name.\<close>

theorem walk_returns_only_hits:
  "length (oc_paths (walk root pattern ls)) \<le> MAX_RESULTS \<and> sorted (oc_paths (walk root pattern ls)) \<and>
   list_all (walk_hit root (normalize pattern)) (oc_paths (walk root pattern ls))"
proof -
  have "walk_ok root (normalize pattern) (walk_loop ls root (normalize pattern)
      \<lparr>ws_paths = [], ws_bounded = None, ws_visits = 0, ws_queue = [([], 0)]\<rparr>)"
    by (rule walk_loop_ok) (simp add: walk_ok_def MAX_DEPTH_def)
  then show ?thesis by (simp add: walk_def walk_ok_def Let_def list_all_iff)
qed

end
