(* ===== verification/Ordered_Map.thy ===== *)
theory Ordered_Map
  imports Prelude
begin

text \<open>
  \<open>std::collections::BTreeMap\<close> as an association list sorted by key: what inserting, removing and
  rebuilding do to it, and that a map is determined by its lookups. Iterating a map is reading the list.
\<close>

type_synonym ('k, 'v) btree = "('k \<times> 'v) list"

fun bt_insert :: "'k::linorder \<Rightarrow> 'v \<Rightarrow> ('k, 'v) btree \<Rightarrow> ('k, 'v) btree" where
  "bt_insert k v [] = [(k, v)]"
| "bt_insert k v ((q, u) # m) =
     (if k < q then (k, v) # (q, u) # m
      else if k = q then (k, v) # m
      else (q, u) # bt_insert k v m)"

definition bt_remove :: "'k \<Rightarrow> ('k, 'v) btree \<Rightarrow> ('k, 'v) btree" where
  "bt_remove k m = filter (\<lambda>(q, _). q \<noteq> k) m"

definition bt_from :: "('k::linorder \<times> 'v) list \<Rightarrow> ('k, 'v) btree" where
  "bt_from kvs = fold (\<lambda>(k, v). bt_insert k v) kvs []"

definition bt_wf :: "('k::linorder, 'v) btree \<Rightarrow> bool" where
  "bt_wf m \<longleftrightarrow> sorted_wrt (<) (map fst m)"

lemma map_of_bt_insert [simp]: "map_of (bt_insert k v m) = (map_of m)(k \<mapsto> v)"
  by (induction m) (auto simp: fun_eq_iff)

lemma map_of_bt_remove [simp]: "map_of (bt_remove k m) = (map_of m)(k := None)"
  by (induction m) (auto simp: bt_remove_def fun_eq_iff)

lemma keys_bt_insert [simp]: "fst ` set (bt_insert k v m) = insert k (fst ` set m)"
  by (simp add: dom_map_of_conv_image_fst [symmetric])

lemma bt_wf_Nil [simp]: "bt_wf []"
  by (simp add: bt_wf_def)

lemma bt_wf_Cons: "bt_wf ((k, v) # m) \<longleftrightarrow> (\<forall>q \<in> fst ` set m. k < q) \<and> bt_wf m"
  by (auto simp: bt_wf_def)

lemma bt_wf_insert [simp]: "bt_wf m \<Longrightarrow> bt_wf (bt_insert k v m)"
  by (induction m) (fastforce simp: bt_wf_Cons)+

lemma bt_wf_remove [simp]: "bt_wf m \<Longrightarrow> bt_wf (bt_remove k m)"
  unfolding bt_wf_def bt_remove_def
  by (induction m) auto

lemma bt_wf_from [simp]: "bt_wf (bt_from kvs)"
proof -
  have "bt_wf m \<Longrightarrow> bt_wf (fold (\<lambda>(k, v). bt_insert k v) kvs m)" for m :: "('a, 'b) btree"
    by (induction kvs arbitrary: m) auto
  then show ?thesis by (simp add: bt_from_def)
qed

lemma bt_insert_last: "\<forall>q \<in> fst ` set m. q < k \<Longrightarrow> bt_insert k v m = m @ [(k, v)]"
  by (induction m) auto

text \<open>Rebuilding a map from its own list is that map.\<close>

lemma bt_from_self: "bt_wf m \<Longrightarrow> bt_from m = m"
proof -
  have "bt_wf (a @ b) \<Longrightarrow> fold (\<lambda>(k, v). bt_insert k v) b a = a @ b" for a b :: "('a, 'b) btree"
  proof (induction b arbitrary: a)
    case (Cons x b)
    obtain k v where x: "x = (k, v)" by fastforce
    have "\<forall>q \<in> fst ` set a. q < k"
      using Cons.prems x by (auto simp: bt_wf_def sorted_wrt_append)
    then show ?case using Cons.IH [of "a @ [x]"] Cons.prems x by (simp add: bt_insert_last)
  qed simp
  from this [of "[]" m] show "bt_wf m \<Longrightarrow> bt_from m = m" by (simp add: bt_from_def)
qed

lemma set_bt_insert: "set (bt_insert k v m) \<subseteq> insert (k, v) (set m)"
  by (induction m) (auto split: if_splits)

lemma set_bt_from: "set (bt_from kvs) \<subseteq> set kvs"
proof -
  have "set (fold (\<lambda>(k, v). bt_insert k v) kvs m) \<subseteq> set m \<union> set kvs" for m :: "('a::linorder, 'b) btree"
  proof (induction kvs arbitrary: m)
    case (Cons x kvs)
    then show ?case using set_bt_insert [of "fst x" "snd x" m] by (cases x) force
  qed simp
  from this [of "[]"] show ?thesis by (simp add: bt_from_def)
qed

end
