(* ===== verification/HostApi.thy ===== *)
theory HostApi
  imports GuestStorage GuestFs Ordered_Map
begin

text \<open>
  What a guest calls on the host (\<open>wit/host-storage.wit\<close>, \<open>host-fs.wit\<close>, \<open>host-process.wit\<close>), as records of
  operations over a state \<open>'w\<close>, and the errors a tool answers with (\<open>wit/tool-callable.wit\<close>). \<open>host_store\<close>
  is what a guest relies on of its storage; the guest storage over the session store is interpreted in it.
\<close>

datatype tool_error = InvalidArguments | ExecutionFailed | RateLimited | BackendFailed

section \<open>Storage\<close>

record 'w host_storage =
  hs_get :: "string \<Rightarrow> string \<Rightarrow> 'w \<Rightarrow> storage_fault + stored_entry"
  hs_set :: "string \<Rightarrow> string \<Rightarrow> string \<Rightarrow> 'w \<Rightarrow> (storage_fault + stored_entry) \<times> 'w"

definition guest_host :: "'w entries \<Rightarrow> (guest_storage \<times> 'w) host_storage" where
  "guest_host E =
     \<lparr>hs_get = guest_get E, hs_set = (\<lambda>ns k v gw. guest_set E ns k v gw)\<rparr>"

text \<open>How the storing tools read their one text: no entry is no text, any other fault ends the call.\<close>

definition stored_text ::
  "'w host_storage \<Rightarrow> string \<Rightarrow> string \<Rightarrow> 'w \<Rightarrow> tool_error + string option" where
  "stored_text hs ns key w =
     (case hs_get hs ns key w of
        Inr e \<Rightarrow> Inr (Some (se_value e))
      | Inl FNotFound \<Rightarrow> Inr None
      | Inl FBackend \<Rightarrow> Inl BackendFailed)"

definition write_stored ::
  "'w host_storage \<Rightarrow> string \<Rightarrow> string \<Rightarrow> string \<Rightarrow> string \<Rightarrow> 'w \<Rightarrow> (tool_error + string) \<times> 'w" where
  "write_stored hs ns key rendered result w =
     (case hs_set hs ns key rendered w of
        (Inl _, w1) \<Rightarrow> (Inl BackendFailed, w1)
      | (Inr _, w1) \<Rightarrow> (Inr result, w1))"

locale host_store =
  fixes hs :: "'w host_storage" and ok :: "'w \<Rightarrow> bool"
  assumes set_keeps: "ok w \<Longrightarrow> ok (snd (hs_set hs ns k v w))"
    and get_set: "ok w \<Longrightarrow> map_ok se_value (hs_get hs n q (snd (hs_set hs ns k v w))) =
      (if n = ns \<and> q = k then Inr v else map_ok se_value (hs_get hs n q w))"
begin

lemma value_set:
  "ok w \<Longrightarrow> map_option se_value (ok_of (hs_get hs n q (snd (hs_set hs ns k v w)))) =
     (if n = ns \<and> q = k then Some v else map_option se_value (ok_of (hs_get hs n q w)))"
  using get_set [of w n q ns k v]
  by (cases "hs_get hs n q (snd (hs_set hs ns k v w))"; cases "hs_get hs n q w") (auto split: if_splits)

end

lemma scope_inj: "scope g ns = Inr a \<Longrightarrow> scope g ms = Inr a \<Longrightarrow> ns = ms"
  using unscope_scope by metis

definition bound :: "guest_storage \<Rightarrow> bool" where
  "bound g \<longleftrightarrow> durable g \<and> (gs_by_session g \<longrightarrow> gs_session g \<noteq> None)"

lemma bound_scope: "bound g \<Longrightarrow> \<exists>a. scope g ns = Inr a"
  by (cases "scope g ns") (auto simp: bound_def scope_def split: if_splits)

interpretation guest_rows: host_store "guest_host (session_entries now)"
    "\<lambda>gs. bound (fst gs) \<and> st_fault (snd gs) = None" for now
proof
  fix w :: "guest_storage \<times> store" and ns k v n q
  assume ok: "bound (fst w) \<and> st_fault (snd w) = None"
  obtain g s where w: "w = (g, s)" by fastforce
  obtain a where a: "scope g ns = Inr a" using bound_scope ok w by fastforce
  obtain b where b: "scope g n = Inr b" using bound_scope ok w by fastforce
  have d: "durable g" "st_fault s = None" using ok w by (simp_all add: bound_def)
  then obtain owner where owner: "gs_backing g = Durable owner"
    by (auto simp: durable_def split: backing.splits)
  let ?E = "session_entries now"
  have gw: "snd (guest_set ?E ns k v (g, s)) = (g, snd (es_set ?E a k v s))"
    using a owner by (simp add: guest_set_def case_prod_beta)
  show "bound (fst (snd (hs_set (guest_host ?E) ns k v w))) \<and>
      st_fault (snd (snd (hs_set (guest_host ?E) ns k v w))) = None"
    using ok w gw session_rows.set_ok [of s now a k v] by (simp add: guest_host_def)
  show "map_ok se_value (hs_get (guest_host ?E) n q (snd (hs_set (guest_host ?E) ns k v w))) =
      (if n = ns \<and> q = k then Inr v else map_ok se_value (hs_get (guest_host ?E) n q w))"
  proof (cases "n = ns \<and> q = k")
    case True
    then show ?thesis
      using session_rows.guest_get_set [OF d(2,1) a, of now k v] w by (auto simp: guest_host_def)
  next
    case False
    then have "\<not> (b = a \<and> q = k)" using scope_inj a b by blast
    then have "es_get ?E b q (snd (es_set ?E a k v s)) = es_get ?E b q s"
      using session_rows.get_set [OF d(2), of now b q a k v] by presburger
    then show ?thesis using False w gw b owner by (auto simp: guest_host_def guest_get_def)
  qed
qed

text \<open>A store that works: every write is taken and no read fails in the backend.\<close>

locale working_store = host_store +
  assumes set_done: "ok w \<Longrightarrow> \<exists>e. fst (hs_set hs ns k v w) = Inr e"
    and get_works: "ok w \<Longrightarrow> hs_get hs ns k w \<noteq> Inl FBackend"
begin

text \<open>What a guest that keeps one text under one key reads back after writing it.\<close>

lemma stored_set:
  assumes "ok w"
  shows "stored_text hs n q (snd (hs_set hs ns k v w)) =
    (if n = ns \<and> q = k then Inr (Some v) else stored_text hs n q w)"
proof -
  have "ok (snd (hs_set hs ns k v w))" using set_keeps assms .
  note works = get_works [OF this, of n q] get_works [OF assms, of n q]
  show ?thesis
    using works get_set [OF assms, of n q ns k v]
    by (cases "hs_get hs n q (snd (hs_set hs ns k v w))"; cases "hs_get hs n q w")
      (auto simp: stored_text_def split: if_splits storage_fault.splits)
qed

lemma stored_sound: "ok w \<Longrightarrow> \<exists>t. stored_text hs ns k w = Inr t"
  using get_works [of w ns k] by (auto simp: stored_text_def split: sum.split storage_fault.split)

end

interpretation guest_rows: working_store "guest_host (session_entries now)"
    "\<lambda>gs. bound (fst gs) \<and> st_fault (snd gs) = None" for now
proof
  fix w :: "guest_storage \<times> store" and ns k v
  assume ok: "bound (fst w) \<and> st_fault (snd w) = None"
  obtain g s where w: "w = (g, s)" by fastforce
  obtain a where a: "scope g ns = Inr a" using bound_scope ok w by fastforce
  obtain owner where owner: "gs_backing g = Durable owner"
    using ok w by (auto simp: bound_def durable_def split: backing.splits)
  show "\<exists>e. fst (hs_set (guest_host (session_entries now)) ns k v w) = Inr e"
    using ok w a owner session_rows.set_result [of s now a k v]
    by (fastforce simp: guest_host_def guest_set_def split: prod.split)
  show "hs_get (guest_host (session_entries now)) ns k w \<noteq> Inl FBackend"
    using ok w a owner
    by (auto simp: guest_host_def guest_get_def session_entries_def store_get_def store_defs
        split: option.split) (simp add: ok_or_def split: option.splits)
qed

section \<open>Files and processes\<close>

text \<open>
  The file calls as the tools use them: which fault it was is never looked at, so an error is \<open>None\<close> or
  \<open>False\<close>. Reading and listing look at the state, writing changes it.
\<close>

record 'w host_fs =
  hf_read :: "string \<Rightarrow> 'w \<Rightarrow> string option"
  hf_write :: "string \<Rightarrow> string \<Rightarrow> 'w \<Rightarrow> bool \<times> 'w"
  hf_list :: "string \<Rightarrow> 'w \<Rightarrow> dir_entry list option"

datatype proc_error = ProcDenied | ProcTimeout | SpawnFailed

record proc_exit =
  ex_code :: int
  ex_stdout :: string
  ex_stderr :: string

record 'w host_process =
  hp_exec :: "string \<Rightarrow> string list \<Rightarrow> string option \<Rightarrow> string option \<Rightarrow> 'w \<Rightarrow> (proc_error + proc_exit) \<times> 'w"
  hp_granted :: "'w \<Rightarrow> string list"
  hp_spawn :: "string \<Rightarrow> 'w \<Rightarrow> (proc_error + nat) \<times> 'w"
  hp_write_stdin :: "nat \<Rightarrow> string \<Rightarrow> 'w \<Rightarrow> bool \<times> 'w"
  hp_read_stdout :: "nat \<Rightarrow> nat \<Rightarrow> nat \<Rightarrow> 'w \<Rightarrow> string option \<times> 'w"
  hp_is_running :: "nat \<Rightarrow> 'w \<Rightarrow> bool"
  hp_kill :: "nat \<Rightarrow> 'w \<Rightarrow> 'w"

section \<open>HTTP\<close>

text \<open>\<open>wit/host-http.wit\<close>; a body is its bytes.\<close>

datatype http_error =
    HInvalidUrl | HConnectionFailed | HTimeout | HTlsError | HClientError u16 | HServerError u16 | HBackend

record http_request =
  hq_method :: string
  hq_url :: string
  hq_headers :: "(string \<times> string) list"
  hq_body :: "string option"
  hq_timeout_ms :: nat

record http_response =
  hr_status :: u16
  hr_headers :: "(string \<times> string) list"
  hr_body :: string

type_synonym 'w host_http = "http_request \<Rightarrow> 'w \<Rightarrow> (http_error + http_response) \<times> 'w"

end
