(* ===== verification/PermissionGate.thy ===== *)
theory PermissionGate
  imports Permission Dispatch HostApi
begin

text \<open>
  The tool-call gate of \<open>extensions/interceptor-permission/src/lib.rs\<close>: the decision on a call, the
  standing verdicts and the refusal counter it keeps in host storage. Its laws on them are proved in the
  \<open>host_store\<close> contract. The log lines are not modelled.
\<close>

definition NAMESPACE :: string where "NAMESPACE = ''permission''"

definition counter_key :: "string \<Rightarrow> string" where
  "counter_key key = ''refusals:'' @ key"

definition refusals :: "'w host_storage \<Rightarrow> string \<Rightarrow> 'w \<Rightarrow> nat" where
  "refusals hs key w =
     or_default 0 (Option.bind (ok_of (hs_get hs NAMESPACE (counter_key key) w))
       (\<lambda>e. parse_u32 (se_value e)))"

definition count_refusal :: "'w host_storage \<Rightarrow> string \<Rightarrow> 'w \<Rightarrow> nat \<times> 'w" where
  "count_refusal hs key w =
     (let next_count = min (2 ^ 32 - 1) (refusals hs key w + 1)
      in (next_count, snd (hs_set hs NAMESPACE (counter_key key) (show_nat next_count) w)))"

definition recall :: "'w host_storage \<Rightarrow> string \<Rightarrow> 'w \<Rightarrow> verdict option" where
  "recall hs key w =
     Option.bind (ok_of (hs_get hs NAMESPACE key w)) (\<lambda>e. verdict_parse (se_value e))"

definition remember :: "'w host_storage \<Rightarrow> string \<Rightarrow> verdict \<Rightarrow> 'w \<Rightarrow> 'w" where
  "remember hs key v w = snd (hs_set hs NAMESPACE key (verdict_str v) w)"

definition gate_prompt ::
  "parser \<Rightarrow> string \<Rightarrow> string \<Rightarrow> string \<Rightarrow> string option \<Rightarrow> user_prompt" where
  "gate_prompt parse tool arguments reason span =
     (let what = summarise parse tool arguments
      in case span of
           Some key \<Rightarrow>
             \<lparr>up_question = ''Allow '' @ bquote tool @ '' to '' @ what @ ''? ('' @ reason @ ''. '' @
                bquote ''always'' @ ''/'' @ bquote ''never'' @ '' apply to '' @ bquote key @
                '' for the rest of this run.)'',
              up_options = [''yes'', ''no'', ''always'', ''never''], up_default_answer = ''no''\<rparr>
         | None \<Rightarrow>
             \<lparr>up_question = ''Allow '' @ bquote tool @ '' to '' @ what @ ''? ('' @ reason @ '')'',
              up_options = [''yes'', ''no''], up_default_answer = ''no''\<rparr>)"

definition denied :: "parser \<Rightarrow> tool_call \<Rightarrow> bool \<Rightarrow> decision" where
  "denied parse call stands =
     Block (denial_message (summarise parse (tc_name call) (tc_arguments call)) stands)"

text \<open>The gate on a call with a concern: unanswered, and answered.\<close>

definition unanswered ::
  "parser \<Rightarrow> 'w host_storage \<Rightarrow> tool_call \<Rightarrow> concern \<Rightarrow> string option \<Rightarrow> 'w \<Rightarrow> decision" where
  "unanswered parse hs call concern span w =
     (case Option.bind span (\<lambda>key. recall hs key w) of
        Some Allow \<Rightarrow> Proceed
      | Some Deny \<Rightarrow> denied parse call True
      | None \<Rightarrow> Ask (gate_prompt parse (tc_name call) (tc_arguments call)
                   (describe concern (tc_name call)) span))"

definition remember_standing ::
  "'w host_storage \<Rightarrow> string option \<Rightarrow> answer \<Rightarrow> 'w \<Rightarrow> 'w" where
  "remember_standing hs span a w =
     (case (span, standing a) of (Some key, Some v) \<Rightarrow> remember hs key v w | _ \<Rightarrow> w)"

definition refuse ::
  "parser \<Rightarrow> 'w host_storage \<Rightarrow> tool_call \<Rightarrow> string option \<Rightarrow> 'w \<Rightarrow> decision \<times> 'w" where
  "refuse parse hs call span w =
     (case span of
        None \<Rightarrow> (denied parse call False, w)
      | Some key \<Rightarrow>
          (case count_refusal hs key w of
             (count, w1) \<Rightarrow>
               (if REFUSALS_BEFORE_STANDING_DENY \<le> count
                then (denied parse call True, remember hs key Deny w1)
                else (denied parse call False, w1))))"

definition permission_intercept ::
  "parser \<Rightarrow> policy \<Rightarrow> 'w host_storage \<Rightarrow> intercept_input \<Rightarrow> 'w
     \<Rightarrow> (interceptor_error + decision) \<times> 'w" where
  "permission_intercept parse p hs inp w =
     (case in_state inp of
        SToolCall call \<Rightarrow>
          (case review parse p (tc_name call) (tc_arguments call) of
             None \<Rightarrow> (Inr Proceed, w)
           | Some concern \<Rightarrow>
               (let span = (if is_rememberable concern
                             then Some (scope_key parse (tc_name call) (tc_arguments call)) else None)
                in case in_answer inp of
                     None \<Rightarrow> (Inr (unanswered parse hs call concern span w), w)
                   | Some reply \<Rightarrow>
                       (let a = answer_parse reply;
                            w1 = remember_standing hs span a w
                        in if approves a then (Inr Proceed, w1)
                           else (case refuse parse hs call span w1 of (d, w2) \<Rightarrow> (Inr d, w2)))))
      | _ \<Rightarrow> (Inl InvalidState, w))"

definition permission_gate :: "parser \<Rightarrow> policy \<Rightarrow> 'w host_storage \<Rightarrow> 'w interceptor" where
  "permission_gate parse p hs =
     \<lparr>icp_id = ''interceptor-permission'', icp_phases = [PToolCall],
      icp_intercept = permission_intercept parse p hs\<rparr>"

section \<open>The gate settles\<close>

lemma refuse_not_ask [simp]: "fst (refuse parse hs call span w) \<noteq> Ask q"
  by (simp add: refuse_def denied_def split: option.split prod.split)

interpretation gate: settling "permission_intercept parse p hs" for parse p and hs :: "'w host_storage"
proof
  fix inp :: intercept_input and w :: 'w and q
  assume answered: "in_answer inp \<noteq> None"
  then obtain reply where reply: "in_answer inp = Some reply" by blast
  show "fst (permission_intercept parse p hs inp w) \<noteq> Inr (Ask q)"
    by (simp add: permission_intercept_def reply Let_def case_prod_beta split: hook_state.split option.split)
qed

lemma permission_gate_settles: "settles (permission_gate parse p hs)"
  by (rule gate.settles_record [of _ parse p hs]) (simp add: permission_gate_def)

section \<open>What the gate needs of host storage\<close>

text \<open>A call of scope \<open>key\<close> that stays in the workspace, names no credentials file and is not known to be safe.\<close>

definition call_in_scope :: "parser \<Rightarrow> policy \<Rightarrow> string \<Rightarrow> tool_call \<Rightarrow> bool" where
  "call_in_scope parse p key call \<longleftrightarrow>
     review parse p (tc_name call) (tc_arguments call) = Some NotKnownSafe \<and>
     scope_key parse (tc_name call) (tc_arguments call) = key"

text \<open>A consultation of the gate on a call, with the user's answer when the gate has asked: it refuses the scope, or it
  allows it for good.\<close>

definition refused_call :: "parser \<Rightarrow> policy \<Rightarrow> string \<Rightarrow> tool_call \<times> string option \<Rightarrow> bool" where
  "refused_call parse p key ca \<longleftrightarrow> call_in_scope parse p key (fst ca) \<and>
     (\<exists>reply. snd ca = Some reply \<and> \<not> approves (answer_parse reply))"

definition always_allowed :: "parser \<Rightarrow> policy \<Rightarrow> string \<Rightarrow> tool_call \<times> string option \<Rightarrow> bool" where
  "always_allowed parse p key ca \<longleftrightarrow> call_in_scope parse p key (fst ca) \<and>
     (\<exists>reply. snd ca = Some reply \<and> answer_parse reply = Always)"

text \<open>The counter of a scope and the verdict of another share a key when the other is a tool named \<open>refusals\<close>.\<close>

definition counts_apart :: "parser \<Rightarrow> tool_call \<Rightarrow> bool" where
  "counts_apart parse call \<longleftrightarrow>
     (\<forall>key. scope_key parse (tc_name call) (tc_arguments call) \<noteq> counter_key key)"

fun consult_gate ::
  "parser \<Rightarrow> policy \<Rightarrow> 'w host_storage \<Rightarrow> (tool_call \<times> string option) list \<Rightarrow> 'w \<Rightarrow> 'w" where
  "consult_gate parse p hs [] w = w"
| "consult_gate parse p hs ((call, ans) # cas) w =
     consult_gate parse p hs cas (snd (permission_intercept parse p hs
       \<lparr>in_phase = PToolCall, in_state = SToolCall call, in_answer = ans\<rparr> w))"

lemma consult_gate_snoc:
  "consult_gate parse p hs (cas @ [(call, ans)]) w =
     snd (permission_intercept parse p hs \<lparr>in_phase = PToolCall, in_state = SToolCall call, in_answer = ans\<rparr>
       (consult_gate parse p hs cas w))"
  by (induction cas arbitrary: w) auto

lemma rememberable_iff: "is_rememberable c \<longleftrightarrow> c = NotKnownSafe"
  by (cases c) simp_all

lemma counter_key_inject [simp]: "counter_key a = counter_key b \<longleftrightarrow> a = b"
  by (simp add: counter_key_def)

context host_store begin

lemma recall_value:
  "recall hs key w = Option.bind (map_option se_value (ok_of (hs_get hs NAMESPACE key w))) verdict_parse"
  by (cases "ok_of (hs_get hs NAMESPACE key w)") (simp_all add: recall_def)

lemma refusals_value:
  "refusals hs key w = or_default 0
     (Option.bind (map_option se_value (ok_of (hs_get hs NAMESPACE (counter_key key) w))) parse_u32)"
  by (cases "ok_of (hs_get hs NAMESPACE (counter_key key) w)") (simp_all add: refusals_def)

lemma counter_not_key [simp]: "counter_key key \<noteq> key" "key \<noteq> counter_key key"
proof -
  have "length (counter_key key) \<noteq> length key" by (simp add: counter_key_def)
  then show "counter_key key \<noteq> key" "key \<noteq> counter_key key" by auto
qed

lemma remember_facts:
  assumes "ok w"
  shows "ok (remember hs key v w)" "recall hs key (remember hs key v w) = Some v"
    "refusals hs key (remember hs key v w) = refusals hs key w"
  using assms
  by (simp_all add: remember_def set_keeps recall_value refusals_value value_set)

lemma count_refusal_facts:
  assumes "ok w"
  shows "ok (snd (count_refusal hs key w))"
    "recall hs key (snd (count_refusal hs key w)) = recall hs key w"
    "refusals hs key (snd (count_refusal hs key w)) = fst (count_refusal hs key w)"
    "fst (count_refusal hs key w) = min (2 ^ 32 - 1) (refusals hs key w + 1)"
  using assms
  by (simp_all add: count_refusal_def set_keeps recall_value refusals_value [of _ "snd _"] value_set
      parse_show_u32 or_default_def Let_def)

lemma refuse_facts:
  assumes "ok w" "refuse parse hs call (Some key) w = (d, w')"
  shows "ok w'" "refusals hs key w' = min (2 ^ 32 - 1) (refusals hs key w + 1)"
    "3 \<le> refusals hs key w' \<Longrightarrow> recall hs key w' = Some Deny"
proof -
  obtain c w1 where c: "count_refusal hs key w = (c, w1)" by fastforce
  note facts = count_refusal_facts [OF assms(1), of key, unfolded c fst_conv snd_conv]
  show "ok w'" "refusals hs key w' = min (2 ^ 32 - 1) (refusals hs key w + 1)"
    "3 \<le> refusals hs key w' \<Longrightarrow> recall hs key w' = Some Deny"
    using assms(2) c facts remember_facts [OF facts(1), of key Deny]
    by (auto simp: refuse_def REFUSALS_BEFORE_STANDING_DENY_def split: if_splits)
qed

lemma remember_apart:
  assumes "ok w" "k \<noteq> key" "k \<noteq> counter_key key"
  shows "recall hs key (remember hs k v w) = recall hs key w"
    "refusals hs key (remember hs k v w) = refusals hs key w"
  using assms by (auto simp: remember_def recall_value refusals_value value_set)

lemma count_apart:
  assumes "ok w" "k \<noteq> key" "counter_key k \<noteq> key"
  shows "recall hs key (snd (count_refusal hs k w)) = recall hs key w"
    "refusals hs key (snd (count_refusal hs k w)) = refusals hs key w"
  using assms by (auto simp: count_refusal_def recall_value refusals_value [of key] value_set Let_def)

text \<open>What the gate has counted and remembered of a scope that was refused \<open>n\<close> times.\<close>

definition denied_by :: "string \<Rightarrow> nat \<Rightarrow> 'w \<Rightarrow> bool" where
  "denied_by key n w \<longleftrightarrow> ok w \<and> min 3 n \<le> refusals hs key w \<and> (3 \<le> n \<longrightarrow> recall hs key w = Some Deny)"

lemma refuse_apart:
  assumes "denied_by key n w" "k \<noteq> key" "k \<noteq> counter_key key" "counter_key k \<noteq> key"
  shows "denied_by key n (snd (refuse parse hs call (Some k) w))"
proof -
  obtain c w1 where c: "count_refusal hs k w = (c, w1)" by fastforce
  have w1: "denied_by key n w1"
    using assms(1) count_refusal_facts(1) [of w k] count_apart [of w k key] assms(2,4)
    by (auto simp: denied_by_def c)
  then show ?thesis
    using remember_facts(1) [of w1 k Deny] remember_apart [of w1 k key Deny] assms(2,3)
    by (auto simp: denied_by_def refuse_def c)
qed

lemma standing_apart:
  assumes "denied_by key n w" "k \<noteq> key" "k \<noteq> counter_key key"
  shows "denied_by key n (remember_standing hs (Some k) a w)"
  using assms remember_facts(1) [of w k] remember_apart [of w k key]
  by (auto simp: denied_by_def remember_standing_def split: option.split)

lemma refused_step:
  assumes "denied_by key n w" "refused_call parse p key (call, ans)"
  shows "denied_by key (Suc n) (snd (permission_intercept parse p hs
       \<lparr>in_phase = PToolCall, in_state = SToolCall call, in_answer = ans\<rparr> w))"
proof -
  obtain reply where reply: "ans = Some reply" "\<not> approves (answer_parse reply)"
    "review parse p (tc_name call) (tc_arguments call) = Some NotKnownSafe"
    "scope_key parse (tc_name call) (tc_arguments call) = key"
    using assms(2) by (auto simp: refused_call_def call_in_scope_def)
  define w1 where "w1 = remember_standing hs (Some key) (answer_parse reply) w"
  have w1: "ok w1" "refusals hs key w1 = refusals hs key w"
    using remember_facts assms(1)
    by (auto simp: w1_def remember_standing_def denied_by_def split: option.split)
  obtain d w2 where r: "refuse parse hs call (Some key) w1 = (d, w2)" by fastforce
  have "snd (permission_intercept parse p hs
       \<lparr>in_phase = PToolCall, in_state = SToolCall call, in_answer = ans\<rparr> w) = w2"
    using reply r by (simp add: permission_intercept_def Let_def w1_def)
  with refuse_facts [OF w1(1) r] w1(2) assms(1) show ?thesis by (auto simp: denied_by_def)
qed

lemma other_step:
  assumes "denied_by key n w" "\<not> refused_call parse p key (call, ans)" "\<not> always_allowed parse p key (call, ans)"
    and "counts_apart parse call" "\<forall>k. key \<noteq> counter_key k"
  shows "denied_by key n (snd (permission_intercept parse p hs
       \<lparr>in_phase = PToolCall, in_state = SToolCall call, in_answer = ans\<rparr> w))"
proof (cases "ans = None \<or> review parse p (tc_name call) (tc_arguments call) \<noteq> Some NotKnownSafe")
  case True
  then show ?thesis
    using assms(1) rememberable_iff
    by (auto simp: permission_intercept_def remember_standing_def refuse_def Let_def split: option.split)
next
  case False
  then obtain reply where reply: "ans = Some reply"
    "review parse p (tc_name call) (tc_arguments call) = Some NotKnownSafe" by auto
  let ?k = "scope_key parse (tc_name call) (tc_arguments call)"
  show ?thesis
  proof (cases "?k = key")
    case True
    with assms(2,3) reply have "answer_parse reply = Once"
      by (cases "answer_parse reply") (auto simp: refused_call_def always_allowed_def call_in_scope_def)
    with reply assms(1) show ?thesis
      by (simp add: permission_intercept_def remember_standing_def Let_def)
  next
    case False
    have apart: "?k \<noteq> counter_key key" "counter_key ?k \<noteq> key" using assms(4,5) by (auto simp: counts_apart_def)
    note w1 = standing_apart [OF assms(1) False apart(1), of "answer_parse reply"]
    from refuse_apart [OF this False apart, of parse call] w1 reply show ?thesis
      by (simp add: permission_intercept_def Let_def case_prod_beta)
  qed
qed

lemma refused_run:
  assumes "ok w" "\<forall>ca \<in> set cas. \<not> always_allowed parse p key ca \<and> counts_apart parse (fst ca)"
    "\<forall>k. key \<noteq> counter_key k"
  shows "denied_by key (length (filter (refused_call parse p key) cas)) (consult_gate parse p hs cas w)"
  using assms(2)
proof (induction cas rule: rev_induct)
  case Nil
  then show ?case using assms(1) by (simp add: denied_by_def)
next
  case (snoc ca cas)
  obtain call ans where ca: "ca = (call, ans)" by fastforce
  have IH: "denied_by key (length (filter (refused_call parse p key) cas)) (consult_gate parse p hs cas w)"
    using snoc by simp
  show ?case
  proof (cases "refused_call parse p key ca")
    case True
    with refused_step [OF IH] show ?thesis by (simp add: ca consult_gate_snoc)
  next
    case False
    with other_step [OF IH] snoc.prems assms(3) show ?thesis by (simp add: ca consult_gate_snoc)
  qed
qed

lemma refused_thrice:
  assumes "ok w" "\<forall>ca \<in> set cas. \<not> always_allowed parse p key ca \<and> counts_apart parse (fst ca)"
    "\<forall>k. key \<noteq> counter_key k" "3 \<le> length (filter (refused_call parse p key) cas)"
  shows "recall hs key (consult_gate parse p hs cas w) = Some Deny"
  using refused_run [OF assms(1-3)] assms(4) by (simp add: denied_by_def)

end

lemma approves_iff:
  "approves (answer_parse reply) \<longleftrightarrow> to_lower (trim reply) \<in> set (YES_ANSWERS @ ALWAYS_ANSWERS)"
  by (auto simp: answer_parse_def Let_def)

lemma refuse_denies: "\<exists>stands. fst (refuse parse hs call span w) = denied parse call stands"
  by (cases span) (auto simp: refuse_def case_prod_beta)

lemma always_parse: "answer_parse ''always'' = Always"
  by code_simp

section \<open>Concrete calls\<close>

definition call_parse :: parser where
  "call_parse s =
     (if s = ''w'' then Inr (JObj [(''op'', JStr ''write''), (''path'', JStr ''a'')])
      else if s = ''c'' then Inr (JObj [(''command'', JStr ''cargo'')])
      else if s = ''x'' then Inr (JObj [(''op'', JStr ''cargo''), (''command'', JStr ''rm'')])
      else if s = ''e'' then Inr (JObj [(''path'', JStr ''/etc/passwd'')])
      else Inl ''bad'')"

definition demo_call :: "string \<Rightarrow> string \<Rightarrow> tool_call" where
  "demo_call name arguments = \<lparr>tc_id = ''1'', tc_name = name, tc_arguments = arguments\<rparr>"

lemma demo_call_simps [simp]:
  "tc_name (demo_call name arguments) = name" "tc_arguments (demo_call name arguments) = arguments"
  by (simp_all add: demo_call_def)

lemma demo_reviews:
  "review call_parse default_policy ''git'' ''w'' = None"
  "review call_parse default_policy ''fs'' ''w'' = Some NotKnownSafe"
  "review call_parse default_policy ''shell'' ''c'' = Some NotKnownSafe"
  by code_simp+

lemma demo_escapes:
  "args_escape_scope call_parse default_policy ''e''"
  "\<not> args_escape_scope call_parse default_policy ''x''"
  "\<not> names_a_credential_file call_parse ''x''"
  by code_simp+

lemma demo_no: "\<not> approves (answer_parse ''no'')"
  by code_simp

lemma demo_scope_key: "scope_key call_parse ''fs'' ''w'' = ''fs:write''"
  by code_simp

abbreviation demo_host :: "(guest_storage \<times> store) host_storage" where
  "demo_host \<equiv> guest_host (session_entries 1)"

lemma demo_bound: "bound (shared_storage (Durable ''p''))"
  by (simp add: bound_def shared_storage_def durable_def)

lemma demo_empty_fault: "st_fault empty_store = None"
  by (simp add: empty_store_def)

lemma demo_refused:
  "refused_call call_parse default_policy ''fs:write'' (demo_call ''fs'' ''w'', Some ''no'')"
  "call_in_scope call_parse default_policy ''fs:write'' (demo_call ''fs'' ''w'')"
  by (simp_all add: refused_call_def call_in_scope_def demo_reviews demo_no demo_scope_key)

section \<open>Properties\<close>

text \<open>Whatever the policy, the stored decisions and the user's answers, the gate's
  dispatch of a call returns: it asks at most once and then decides.\<close>

theorem gate_dispatch_returns:
  "\<exists>r. dispatch d [permission_gate parse p hs] PToolCall (SToolCall call) w = Some r"
  by (rule dispatch_returns) (simp add: permission_gate_settles)

text \<open>C5 (gate_silent_only_when_safe): The gate lets an unanswered call through only when its arguments
  reach outside no workspace and name no credentials file and it is known to be read-only or its
  scope carries a standing allow.\<close>

theorem gate_silent_only_when_safe:
  assumes "fst (permission_intercept parse p hs
      \<lparr>in_phase = ph, in_state = SToolCall call, in_answer = None\<rparr> w) = Inr Proceed"
  shows "\<not> args_escape_scope parse p (tc_arguments call) \<and>
    \<not> names_a_credential_file parse (tc_arguments call) \<and>
    (is_known_safe parse p (tc_name call) (tc_arguments call) \<or>
     recall hs (scope_key parse (tc_name call) (tc_arguments call)) w = Some Allow)"
proof (cases "review parse p (tc_name call) (tc_arguments call)")
  case None
  then show ?thesis by (simp add: review_None)
next
  case (Some c)
  with assms have r: "is_rememberable c" "recall hs (scope_key parse (tc_name call) (tc_arguments call)) w = Some Allow"
    by (auto simp: permission_intercept_def unanswered_def denied_def Let_def
        split: option.splits verdict.splits if_splits)
  with review_rememberable [OF Some] show ?thesis by simp
qed

theorem gate_silent_only_when_safe_witness:
  "is_known_safe call_parse default_policy ''git'' ''w'' \<or>
   recall demo_host (scope_key call_parse ''git'' ''w'') (shared_storage (Durable ''p''), empty_store) =
     Some Allow"
proof -
  have "fst (permission_intercept call_parse default_policy demo_host
      \<lparr>in_phase = PToolCall, in_state = SToolCall (demo_call ''git'' ''w''), in_answer = None\<rparr>
      (shared_storage (Durable ''p''), empty_store)) = Inr Proceed"
    by (simp add: permission_intercept_def demo_reviews)
  from gate_silent_only_when_safe [OF this] show ?thesis by simp
qed

text \<open>With an answer, a call that raised a concern goes through
  exactly when the answer, trimmed and in lower case, is one of the listed approvals; any other text
  blocks it.\<close>

theorem only_an_explicit_yes_approves:
  assumes "review parse p (tc_name call) (tc_arguments call) = Some c"
  shows "if to_lower (trim reply) \<in> set (YES_ANSWERS @ ALWAYS_ANSWERS)
    then fst (permission_intercept parse p hs
      \<lparr>in_phase = ph, in_state = SToolCall call, in_answer = Some reply\<rparr> w) = Inr Proceed
    else (\<exists>stands. fst (permission_intercept parse p hs
      \<lparr>in_phase = ph, in_state = SToolCall call, in_answer = Some reply\<rparr> w) =
        Inr (denied parse call stands))"
  using assms approves_iff [of reply] refuse_denies
  by (auto simp: permission_intercept_def Let_def case_prod_beta)

theorem only_an_explicit_yes_approves_witness:
  "\<exists>stands. fst (permission_intercept call_parse default_policy demo_host
      \<lparr>in_phase = PToolCall, in_state = SToolCall (demo_call ''fs'' ''w''), in_answer = Some ''no''\<rparr>
      (shared_storage (Durable ''p''), empty_store)) = Inr (denied call_parse (demo_call ''fs'' ''w'') stands)"
proof -
  have "review call_parse default_policy (tc_name (demo_call ''fs'' ''w''))
      (tc_arguments (demo_call ''fs'' ''w'')) = Some NotKnownSafe"
    by (simp add: demo_reviews)
  moreover have "to_lower (trim ''no'') \<notin> set (YES_ANSWERS @ ALWAYS_ANSWERS)" by code_simp
  ultimately show ?thesis using only_an_explicit_yes_approves by metis
qed

text \<open>A call that reaches outside the workspace or names a
  credentials file is put to the user every time, with no standing options, whatever was stored;
  and whatever is answered, nothing is stored.\<close>

theorem one_argument_concerns_never_stand:
  assumes "args_escape_scope parse p (tc_arguments call) \<or>
    names_a_credential_file parse (tc_arguments call)"
  shows "\<exists>q. up_options q = [''yes'', ''no''] \<and> up_default_answer q = ''no'' \<and>
    permission_intercept parse p hs
      \<lparr>in_phase = ph, in_state = SToolCall call, in_answer = None\<rparr> w = (Inr (Ask q), w) \<and>
    snd (permission_intercept parse p hs
      \<lparr>in_phase = ph, in_state = SToolCall call, in_answer = Some reply\<rparr> w) = w"
proof -
  obtain c where "review parse p (tc_name call) (tc_arguments call) = Some c" "\<not> is_rememberable c"
    using assms by (cases "args_escape_scope parse p (tc_arguments call)") (auto simp: review_def)
  then show ?thesis
    by (simp add: permission_intercept_def unanswered_def gate_prompt_def remember_standing_def
        refuse_def Let_def)
qed

theorem one_argument_concerns_never_stand_witness:
  "snd (permission_intercept call_parse default_policy demo_host
      \<lparr>in_phase = PToolCall, in_state = SToolCall (demo_call ''fs'' ''e''), in_answer = Some ''always''\<rparr>
      (shared_storage (Durable ''p''), empty_store)) = (shared_storage (Durable ''p''), empty_store)"
  using one_argument_concerns_never_stand [of call_parse default_policy "demo_call ''fs'' ''e''"]
    demo_escapes by (metis demo_call_simps(2))

text \<open>C6 (third_refusal_stands): Over host storage that is bound and works, once three questions about calls of a scope have
  been answered with a refusal, in any sequence of consultations in which nobody answered \<open>always\<close> to that scope and no tool
  is named \<open>refusals\<close>, a further call of that scope is refused without asking and nothing changes. This is of calls that stay in
  the workspace and name no credentials file: the others are asked about every time.\<close>

theorem third_refusal_stands:
  assumes "bound g" "st_fault s = None"
    and "3 \<le> length (filter (refused_call parse p key) cas)"
    and "\<forall>ca \<in> set cas. \<not> always_allowed parse p key ca \<and> counts_apart parse (fst ca)"
    and "call_in_scope parse p key call" "counts_apart parse call"
    and "w = consult_gate parse p (guest_host (session_entries now)) cas (g, s)"
  shows "dispatch d [permission_gate parse p (guest_host (session_entries now))] PToolCall
      (SToolCall call) w =
    Some (Blocked (denial_message (summarise parse (tc_name call) (tc_arguments call)) True),
      SToolCall call, w)"
proof -
  have "\<forall>k. key \<noteq> counter_key k" using assms(5,6) by (auto simp: counts_apart_def call_in_scope_def)
  then have "recall (guest_host (session_entries now)) key w = Some Deny"
    using guest_rows.refused_thrice [of "(g, s)" cas parse p key now] assms by simp
  then show ?thesis
    using assms(5)
    by (simp add: permission_gate_def call_in_scope_def permission_intercept_def unanswered_def
        denied_def ask_loop.simps Let_def)
qed

theorem third_refusal_stands_witness:
  "\<forall>d. \<exists>w. dispatch d [permission_gate call_parse default_policy demo_host] PToolCall
      (SToolCall (demo_call ''fs'' ''w'')) w =
    Some (Blocked (denial_message (summarise call_parse ''fs'' ''w'') True),
      SToolCall (demo_call ''fs'' ''w''), w)"
proof
  fix d
  let ?no = "(demo_call ''fs'' ''w'', Some ''no'')"
  let ?cas = "[?no, (demo_call ''fs'' ''e'', Some ''yes''), ?no, (demo_call ''shell'' ''c'', Some ''always''), ?no]"
  have scopes: "scope_key call_parse ''fs'' ''e'' = ''fs''" "scope_key call_parse ''shell'' ''c'' = ''shell:cargo''"
    by code_simp+
  have apart: "counts_apart call_parse (demo_call ''fs'' ''w'')"
    "\<forall>ca \<in> set ?cas. \<not> always_allowed call_parse default_policy ''fs:write'' ca \<and> counts_apart call_parse (fst ca)"
    using demo_no
    by (auto simp: counts_apart_def counter_key_def always_allowed_def call_in_scope_def demo_scope_key scopes)
  have "3 \<le> length (filter (refused_call call_parse default_policy ''fs:write'') ?cas)"
    using demo_refused(1) by simp
  from third_refusal_stands [OF demo_bound demo_empty_fault this apart(2) demo_refused(2) apart(1) refl]
  show "\<exists>w. dispatch d [permission_gate call_parse default_policy demo_host] PToolCall
      (SToolCall (demo_call ''fs'' ''w'')) w =
    Some (Blocked (denial_message (summarise call_parse ''fs'' ''w'') True),
      SToolCall (demo_call ''fs'' ''w''), w)"
    unfolding demo_call_simps by (rule exI)
qed

text \<open>The scope of a call is read from its \<open>op\<close> member first. After \<open>always\<close> was
  answered for a command-running call, a call of the same tool whose \<open>op\<close> names that program goes
  through unasked, whatever program its own \<open>command\<close> names.\<close>

theorem op_field_hides_command:
  assumes store: "bound g" "st_fault s = None"
    and asked: "parse (tc_arguments first) = Inr v0" "get_str ''op'' v0 = None"
      "get_str ''command'' v0 = Some program" "split_whitespace program = [program]"
      "CHR ''/'' \<notin> set program" "to_lower program = to_lower op"
      "review parse p (tc_name first) (tc_arguments first) = Some NotKnownSafe"
    and hidden: "parse (tc_arguments call) = Inr v" "get_str ''op'' v = Some op"
      "tc_name call = tc_name first" "\<not> args_escape_scope parse p (tc_arguments call)"
      "\<not> names_a_credential_file parse (tc_arguments call)"
    and w: "w = snd (permission_intercept parse p (guest_host (session_entries now))
      \<lparr>in_phase = PToolCall, in_state = SToolCall first, in_answer = Some ''always''\<rparr> (g, s))"
  shows "permission_intercept parse p (guest_host (session_entries now))
      \<lparr>in_phase = PToolCall, in_state = SToolCall call, in_answer = None\<rparr> w = (Inr Proceed, w)"
proof -
  let ?key = "tc_name first @ '':'' @ to_lower op"
  have "scope_key parse (tc_name first) (tc_arguments first) = ?key"
    using asked by (simp add: scope_key_def last_piece_def split_on_free)
  then have "w = remember (guest_host (session_entries now)) ?key Allow (g, s)"
    using asked(7) w
    by (simp add: permission_intercept_def remember_standing_def Let_def always_parse)
  then have "recall (guest_host (session_entries now)) ?key w = Some Allow"
    using guest_rows.remember_facts(2) [of "(g, s)" now ?key Allow] store by simp
  moreover have "scope_key parse (tc_name call) (tc_arguments call) = ?key"
    using hidden by (simp add: scope_key_def)
  ultimately show ?thesis
    using hidden(4,5) by (auto simp: permission_intercept_def unanswered_def review_def Let_def)
qed

theorem op_field_hides_command_witness:
  "\<exists>w. permission_intercept call_parse default_policy demo_host
      \<lparr>in_phase = PToolCall, in_state = SToolCall (demo_call ''shell'' ''x''), in_answer = None\<rparr> w =
    (Inr Proceed, w)"
proof -
  let ?first = "demo_call ''shell'' ''c''" and ?call = "demo_call ''shell'' ''x''"
  have first: "call_parse (tc_arguments ?first) = Inr (JObj [(''command'', JStr ''cargo'')])"
    and call: "call_parse (tc_arguments ?call) =
      Inr (JObj [(''op'', JStr ''cargo''), (''command'', JStr ''rm'')])"
    by (simp_all add: call_parse_def)
  have words: "split_whitespace ''cargo'' = [''cargo'']" by code_simp
  have fields: "get_str ''op'' (JObj [(''command'', JStr ''cargo'')]) = None"
    "get_str ''command'' (JObj [(''command'', JStr ''cargo'')]) = Some ''cargo''"
    "get_str ''op'' (JObj [(''op'', JStr ''cargo''), (''command'', JStr ''rm'')]) = Some ''cargo''"
    by (simp_all add: json_simps)
  have rev: "review call_parse default_policy (tc_name ?first) (tc_arguments ?first) = Some NotKnownSafe"
    by (simp add: demo_reviews)
  have safe: "tc_name ?call = tc_name ?first"
    "\<not> args_escape_scope call_parse default_policy (tc_arguments ?call)"
    "\<not> names_a_credential_file call_parse (tc_arguments ?call)"
    using demo_escapes by simp_all
  have "CHR ''/'' \<notin> set ''cargo''" by simp
  from op_field_hides_command [OF demo_bound demo_empty_fault first fields(1,2) words this refl rev
      call fields(3) safe refl] show ?thesis by blast
qed

text \<open>Arguments that are not JSON do not make a call unsafe: when its
  bare name is on the list it goes through unasked, stored decisions or not.\<close>

theorem unparseable_arguments_safe_by_name:
  assumes "parse (tc_arguments call) = Inl e" "to_lower (tc_name call) \<in> set (pol_safe_calls p)"
  shows "is_known_safe parse p (tc_name call) (tc_arguments call) \<and>
    permission_intercept parse p hs
      \<lparr>in_phase = ph, in_state = SToolCall call, in_answer = None\<rparr> w = (Inr Proceed, w)"
proof -
  have "is_known_safe parse p (tc_name call) (tc_arguments call)"
    using assms(2) by (auto simp: is_known_safe_def list_ex_iff)
  moreover have "\<not> args_escape_scope parse p (tc_arguments call)"
    "\<not> names_a_credential_file parse (tc_arguments call)"
    using assms(1) by (simp_all add: args_escape_scope_def names_a_credential_file_def)
  ultimately show ?thesis by (simp add: permission_intercept_def review_def)
qed

theorem unparseable_arguments_safe_by_name_witness:
  "permission_intercept call_parse default_policy demo_host
      \<lparr>in_phase = PToolCall, in_state = SToolCall (demo_call ''git'' ''?''), in_answer = None\<rparr>
      (shared_storage (Durable ''p''), empty_store) =
    (Inr Proceed, (shared_storage (Durable ''p''), empty_store))"
proof -
  have "call_parse (tc_arguments (demo_call ''git'' ''?'')) = Inl ''bad''" by (simp add: call_parse_def)
  moreover have "to_lower (tc_name (demo_call ''git'' ''?'')) \<in> set (pol_safe_calls default_policy)"
    by code_simp
  ultimately show ?thesis by (metis unparseable_arguments_safe_by_name)
qed

text \<open>Text a model supplies reaches the prompt as at most \<open>limit\<close> characters and a final
  ellipsis, none of them a control character: it cannot start a line of the prompt.\<close>

theorem one_line_safe:
  "length (one_line_loop limit [] False (utf8_chars text)) \<le> Suc limit \<and>
   list_all (\<lambda>ch. \<not> is_control ch) (one_line_loop limit [] False (utf8_chars text)) \<and>
   one_line text limit = concat (one_line_loop limit [] False (utf8_chars text))"
  using one_line_loop_bound [of "[]" limit] one_line_loop_controls [of "[]"]
  by (simp add: one_line_def list_all_iff)

end
