(* ===== verification/Edit.thy ===== *)
theory Edit
  imports HostApi
begin

unbundle bit_operations_syntax

text \<open>
  The hash-anchored editor (\<open>extensions/tool-edit/src/lib.rs\<close>): anchors are FNV-1a over a line's
  number and text, on 32-bit words; an edit is applied to the lines the anchors name. The host's
  file calls are a record of operations over a state \<open>'w\<close>.
\<close>

definition FNV_OFFSET :: u32 where "FNV_OFFSET = 0x811c9dc5"
definition FNV_PRIME :: u32 where "FNV_PRIME = 0x01000193"

definition fnv1a32 :: "string \<Rightarrow> u32" where
  "fnv1a32 bytes = fold (\<lambda>byte hash. (hash XOR of_nat (of_char byte)) * FNV_PRIME) bytes FNV_OFFSET"

text \<open>\<open>{:08x}\<close> of a 32-bit word.\<close>

definition hex8 :: "u32 \<Rightarrow> string" where
  "hex8 h = map (\<lambda>i. hex_digit (unat h div 16 ^ (7 - i) mod 16)) [0..<8]"

definition anchor :: "nat \<Rightarrow> string \<Rightarrow> string" where
  "anchor lineno line = hex8 (fnv1a32 (show_nat lineno @ [CHR 0x00] @ line))"

definition lines_of :: "string \<Rightarrow> string list \<times> bool" where
  "lines_of content =
     (case strip_suffix [newline] content of
        None \<Rightarrow> (split_on newline content, False)
      | Some body \<Rightarrow> (split_on newline body, True))"

definition join_lines :: "string list \<Rightarrow> bool \<Rightarrow> string" where
  "join_lines ls trailing = join_with [newline] ls @ (if trailing then [newline] else [])"

definition contents_lines :: "string \<Rightarrow> string list" where
  "contents_lines contents =
     (if contents = [] then []
      else split_on newline
             (case strip_suffix [newline] contents of Some body \<Rightarrow> body | None \<Rightarrow> contents))"

definition anchor_hits :: "string list \<Rightarrow> string \<Rightarrow> nat list" where
  "anchor_hits ls target = filter (\<lambda>i. anchor (i + 1) (ls ! i) = target) [0..<length ls]"

definition no_match_text :: string where
  "no_match_text = '' matches no line '' @ em_dash @ '' the file changed since you viewed it. '' @
     ''Run op=view again and retry with fresh anchors.''"

definition find_anchor :: "string list \<Rightarrow> string \<Rightarrow> string + nat" where
  "find_anchor ls target =
     (case anchor_hits ls target of
        [only] \<Rightarrow> Inr only
      | [] \<Rightarrow> Inl (''anchor '' @ bquote target @ no_match_text)
      | hits \<Rightarrow> Inl (''anchor '' @ bquote target @ '' is ambiguous ('' @ show_nat (length hits) @
                    '' matching lines). Run op=view again.''))"

definition view_line :: "nat \<Rightarrow> string \<Rightarrow> string" where
  "view_line i line = anchor (i + 1) line @ ''|'' @ show_nat (i + 1) @ ''|'' @ line"

definition render_view :: "string \<Rightarrow> string" where
  "render_view content =
     join_with [newline] (map (\<lambda>(i, line). view_line i line) (enumerate 0 (fst (lines_of content))))"

definition precedes_text :: "string \<Rightarrow> string \<Rightarrow> string" where
  "precedes_text last_anchor start =
     ''end anchor '' @ bquote last_anchor @ '' precedes start anchor '' @ bquote start @ '' '' @ em_dash @
     '' swap them.''"

definition replace ::
  "string \<Rightarrow> string \<Rightarrow> string option \<Rightarrow> string \<Rightarrow> string + (string \<times> nat)" where
  "replace content start fin contents =
     (case lines_of content of
        (ls, trailing) \<Rightarrow>
          try_then (find_anchor ls start) (\<lambda>first.
          try_then (case fin of Some a \<Rightarrow> find_anchor ls a | None \<Rightarrow> Inr first) (\<lambda>last.
            if last < first
            then Inl (precedes_text (case fin of Some a \<Rightarrow> a | None \<Rightarrow> start) start)
            else Inr (join_lines (take first ls @ contents_lines contents @ drop (last + 1) ls) trailing,
                      last - first + 1))))"

definition empty_insert_text :: string where
  "empty_insert_text = bquote ''contents'' @ '' is empty '' @ em_dash @ '' nothing to insert.''"

definition insert_lines ::
  "string \<Rightarrow> string \<Rightarrow> bool \<Rightarrow> string \<Rightarrow> string + (string \<times> nat)" where
  "insert_lines content target before contents =
     (case lines_of content of
        (ls, trailing) \<Rightarrow>
          try_then (find_anchor ls target) (\<lambda>index.
            (let block = contents_lines contents
             in if block = [] then Inl empty_insert_text
                else (let k = (if before then index else index + 1)
                      in Inr (join_lines (take k ls @ block @ drop k ls) trailing, length block)))))"

section \<open>The tool's invocation\<close>

definition rejected :: "string \<Rightarrow> string" where
  "rejected reason = ''REJECTED (nothing was written): '' @ reason"

definition both_text :: string where
  "both_text = ''pass either '' @ bquote ''after'' @ '' or '' @ bquote ''before'' @ '', not both.''"

definition applied_text :: "string \<Rightarrow> string \<Rightarrow> nat \<Rightarrow> string" where
  "applied_text op path n = op @ '' applied to '' @ path @ '' ('' @ show_nat n @
     '' line(s)). Anchors after the change are now stale '' @ em_dash @
     '' run op=view before the next edit to this file.''"

text \<open>What the operation answers before anything is written: an error, a rejection, or the edit.\<close>

datatype edit_plan = PError tool_error | PReject string | PEdit "string + (string \<times> nat)"

definition plan_edit :: "json \<Rightarrow> string \<Rightarrow> string \<Rightarrow> edit_plan" where
  "plan_edit v op content =
     (case get_str ''contents'' v of
        None \<Rightarrow> PError InvalidArguments
      | Some contents \<Rightarrow>
          (if op = ''replace'' then
             (case get_str ''start'' v of
                None \<Rightarrow> PError InvalidArguments
              | Some start \<Rightarrow> PEdit (replace content start (get_str ''end'' v) contents))
           else if op = ''insert'' then
             (case (get_str ''after'' v, get_str ''before'' v) of
                (Some _, Some _) \<Rightarrow> PReject both_text
              | (Some target, None) \<Rightarrow> PEdit (insert_lines content target False contents)
              | (None, Some target) \<Rightarrow> PEdit (insert_lines content target True contents)
              | (None, None) \<Rightarrow> PError InvalidArguments)
           else PError InvalidArguments))"

definition edit_invoke ::
  "parser \<Rightarrow> 'w host_fs \<Rightarrow> string \<Rightarrow> 'w \<Rightarrow> (tool_error + string) \<times> 'w" where
  "edit_invoke parse fs arguments w =
     (case parse arguments of
        Inl _ \<Rightarrow> (Inl InvalidArguments, w)
      | Inr v \<Rightarrow>
          (case (get_str ''op'' v, get_str ''path'' v) of
             (Some op, Some path) \<Rightarrow>
               (case hf_read fs path w of
                  None \<Rightarrow> (Inl ExecutionFailed, w)
                | Some content \<Rightarrow>
                    (if op = ''view'' then (Inr (truncate_output (render_view content)), w)
                     else (case plan_edit v op content of
                             PError e \<Rightarrow> (Inl e, w)
                           | PReject reason \<Rightarrow> (Inr (rejected reason), w)
                           | PEdit (Inl reason) \<Rightarrow> (Inr (rejected reason), w)
                           | PEdit (Inr (updated, n)) \<Rightarrow>
                               (case hf_write fs path updated w of
                                  (False, w1) \<Rightarrow> (Inl ExecutionFailed, w1)
                                | (True, w1) \<Rightarrow> (Inr (applied_text op path n), w1)))))
           | _ \<Rightarrow> (Inl InvalidArguments, w)))"

section \<open>Facts\<close>

lemma lines_of_join:
  assumes "ls \<noteq> []" "\<forall>l \<in> set ls. newline \<notin> set l"
  shows "lines_of (join_lines ls True) = (ls, True)"
proof -
  have "split_on newline (join_with [newline] ls) = ls"
    using assms by (simp add: split_on_join)
  then show ?thesis by (simp add: lines_of_def join_lines_def)
qed

lemma contents_lines_free: "l \<in> set (contents_lines c) \<Longrightarrow> newline \<notin> set l"
  by (auto simp: contents_lines_def split_on_pieces_free split: if_splits)

lemma lines_of_free: "lines_of content = (ls, tr) \<Longrightarrow> l \<in> set ls \<Longrightarrow> newline \<notin> set l"
  by (auto simp: lines_of_def split_on_pieces_free split: option.splits)

text \<open>No two lines of the file share an anchor.\<close>

definition clear_anchors :: "string list \<Rightarrow> bool" where
  "clear_anchors ls \<longleftrightarrow> distinct (map (\<lambda>i. anchor (i + 1) (ls ! i)) [0..<length ls])"

lemma find_own_anchor:
  assumes "clear_anchors ls" "i < length ls"
  shows "find_anchor ls (anchor (i + 1) (ls ! i)) = Inr i"
proof -
  have "j = i" if "j < length ls" "anchor (j + 1) (ls ! j) = anchor (i + 1) (ls ! i)" for j
  proof -
    let ?as = "map (\<lambda>i. anchor (i + 1) (ls ! i)) [0..<length ls]"
    have "?as ! j = ?as ! i" using that assms(2) by simp
    moreover have "j < length ?as" "i < length ?as" using that(1) assms(2) by simp_all
    ultimately show ?thesis
      using assms(1) unfolding clear_anchors_def by (simp only: nth_eq_iff_index_eq)
  qed
  then have "anchor_hits ls (anchor (i + 1) (ls ! i)) = filter (\<lambda>j. j = i) [0..<length ls]"
    unfolding anchor_hits_def by (intro filter_cong) auto
  also have "\<dots> = [i]"
  proof -
    have "[0..<length ls] = [0..<i] @ i # [Suc i..<length ls]"
      using assms(2) upt_add_eq_append [of 0 i "length ls - i"] upt_conv_Cons [of i "length ls"] by simp
    then show ?thesis by (simp add: filter_empty_conv)
  qed
  finally show ?thesis by (simp add: find_anchor_def)
qed

lemma contents_lines_nonempty: "contents \<noteq> [] \<Longrightarrow> contents_lines contents \<noteq> []"
  by (simp add: contents_lines_def)

section \<open>Properties\<close>

text \<open>On a file whose anchors are distinct, replacing from the anchor of one line
  to that of another puts the new lines in place of exactly that span: reading the result back gives
  the lines before, the new ones and the lines after, unchanged.\<close>

theorem replace_changes_only_the_span:
  assumes src: "lines_of content = (ls, True)" "clear_anchors ls"
    and span: "i \<le> j" "j < length ls" and new: "contents \<noteq> []"
  shows "\<exists>out. replace content (anchor (i + 1) (ls ! i)) (Some (anchor (j + 1) (ls ! j))) contents =
      Inr (out, j - i + 1) \<and>
    lines_of out = (take i ls @ contents_lines contents @ drop (j + 1) ls, True)"
proof -
  let ?new = "take i ls @ contents_lines contents @ drop (j + 1) ls"
  have "i < length ls" using span by simp
  note found = find_own_anchor [OF src(2) this] find_own_anchor [OF src(2) span(2)]
  have "replace content (anchor (i + 1) (ls ! i)) (Some (anchor (j + 1) (ls ! j))) contents =
      Inr (join_lines ?new True, j - i + 1)"
    using span(1) found by (simp add: replace_def src(1))
  moreover have "lines_of (join_lines ?new True) = (?new, True)"
  proof (rule lines_of_join)
    show "?new \<noteq> []" using contents_lines_nonempty [OF new] by simp
    show "\<forall>l \<in> set ?new. newline \<notin> set l"
      using lines_of_free [OF src(1)] contents_lines_free
      by (auto dest: in_set_takeD in_set_dropD)
  qed
  ultimately show ?thesis by blast
qed

definition two_lines :: string where
  "two_lines = ''a'' @ [newline] @ ''b'' @ [newline]"

lemma upt8: "[0..<8] = [0, 1, 2, 3, 4, 5, 6, 7]"
  by (simp add: upt_rec)

lemma demo_anchors: "anchor 1 ''a'' = ''380c7b2f''" "anchor 2 ''b'' = ''71bfc6d7''"
  by (simp_all add: anchor_def fnv1a32_def FNV_OFFSET_def FNV_PRIME_def hex8_def hex_digit_def
      show_nat.simps upt8) (simp_all add: char_of_def bit_0)

lemma two_lines_facts: "lines_of two_lines = ([''a'', ''b''], True)" "clear_anchors [''a'', ''b'']"
proof -
  show "lines_of two_lines = ([''a'', ''b''], True)" by code_simp
  show "clear_anchors [''a'', ''b'']"
    using demo_anchors by (simp add: clear_anchors_def numeral_2_eq_2)
qed

theorem replace_changes_only_the_span_witness:
  "\<exists>out. replace two_lines (anchor 2 ''b'') (Some (anchor 2 ''b'')) ''X'' = Inr (out, 1) \<and>
     lines_of out = ([''a'', ''X''], True)"
proof -
  have "contents_lines ''X'' = [''X'']" by code_simp
  then show ?thesis
    using replace_changes_only_the_span [OF two_lines_facts, of 1 1 "''X''"] by (simp add: numeral_2_eq_2)
qed

text \<open>When the first anchor of a replace or insert matches no line of the file
  as it is now, the tool answers with a rejection and writes nothing: the world is the one before the
  call.\<close>

theorem stale_anchor_writes_nothing:
  assumes "parse arguments = Inr v" "get_str ''op'' v = Some op" "get_str ''path'' v = Some path"
    and "hf_read fs path w = Some content" "get_str ''contents'' v = Some contents"
    and "op = ''replace'' \<and> get_str ''start'' v = Some stale \<or>
      op = ''insert'' \<and> get_str ''after'' v = Some stale \<and> get_str ''before'' v = None \<or>
      op = ''insert'' \<and> get_str ''after'' v = None \<and> get_str ''before'' v = Some stale"
    and "\<forall>i < length (fst (lines_of content)). anchor (i + 1) (fst (lines_of content) ! i) \<noteq> stale"
  shows "\<exists>reason. edit_invoke parse fs arguments w = (Inr (rejected reason), w)"
proof -
  obtain ls tr where ls: "lines_of content = (ls, tr)" by fastforce
  then have "anchor_hits ls stale = []" using assms(7) by (simp add: anchor_hits_def filter_empty_conv)
  then obtain r where "find_anchor ls stale = Inl r" by (simp add: find_anchor_def)
  then have "\<exists>reason. plan_edit v op content = PEdit (Inl reason)"
    using assms(5,6) ls by (auto simp: plan_edit_def replace_def insert_lines_def)
  moreover have "op \<noteq> ''view''" using assms(6) by auto
  ultimately show ?thesis using assms(1-4) by (auto simp: edit_invoke_def)
qed

definition demo_fs :: "string host_fs" where
  "demo_fs = \<lparr>hf_read = (\<lambda>path w. Some w), hf_write = (\<lambda>path c w. (True, c)), hf_list = (\<lambda>path w. None)\<rparr>"

definition demo_edit :: json where
  "demo_edit = JObj [(''op'', JStr ''replace''), (''path'', JStr ''f''), (''start'', JStr ''00000000''),
     (''contents'', JStr ''X'')]"

theorem stale_anchor_writes_nothing_witness:
  "\<exists>reason. edit_invoke (\<lambda>_. Inr demo_edit) demo_fs ''x'' two_lines = (Inr (rejected reason), two_lines)"
proof (rule stale_anchor_writes_nothing)
  show "get_str ''op'' demo_edit = Some ''replace''" "get_str ''path'' demo_edit = Some ''f''"
    "get_str ''contents'' demo_edit = Some ''X''"
    by (simp_all add: demo_edit_def json_simps)
  show "''replace'' = ''replace'' \<and> get_str ''start'' demo_edit = Some ''00000000'' \<or>
      ''replace'' = ''insert'' \<and> get_str ''after'' demo_edit = Some ''00000000'' \<and>
        get_str ''before'' demo_edit = None \<or>
      ''replace'' = ''insert'' \<and> get_str ''after'' demo_edit = None \<and>
        get_str ''before'' demo_edit = Some ''00000000''"
    by (simp add: demo_edit_def json_simps)
  have "anchor 1 ''a'' \<noteq> ''00000000''" "anchor 2 ''b'' \<noteq> ''00000000''"
    by (simp_all only: demo_anchors) simp_all
  then show "\<forall>i < length (fst (lines_of two_lines)).
      anchor (i + 1) (fst (lines_of two_lines) ! i) \<noteq> ''00000000''"
    by (simp add: two_lines_facts(1) All_less_Suc numeral_2_eq_2)
qed (simp_all add: demo_fs_def)

text \<open>Anchors of different texts can be equal, and then an edit against the old
  text is applied to the new one: a stale anchor overwrites a line that has changed since.\<close>

theorem anchor_collision_overwrites:
  "''ky1k2XRl'' \<noteq> ''aC3tvuvP'' \<and>
   replace (''aC3tvuvP'' @ [newline]) (anchor 1 ''ky1k2XRl'') None ''X'' = Inr (''X'' @ [newline], 1)"
proof -
  have "fnv1a32 (show_nat 1 @ [CHR 0x00] @ ''ky1k2XRl'') = 0x566a2d78"
    "fnv1a32 (show_nat 1 @ [CHR 0x00] @ ''aC3tvuvP'') = 0x566a2d78"
    by (simp_all add: fnv1a32_def FNV_OFFSET_def FNV_PRIME_def show_nat.simps)
  then have same: "anchor 1 ''ky1k2XRl'' = anchor 1 ''aC3tvuvP''" by (simp add: anchor_def)
  have lines: "lines_of (''aC3tvuvP'' @ [newline]) = ([''aC3tvuvP''], True)"
    "contents_lines ''X'' = [''X'']" by code_simp+
  have "clear_anchors [''aC3tvuvP'']" by (simp add: clear_anchors_def)
  from find_own_anchor [OF this, of 0] same
  have "find_anchor [''aC3tvuvP''] (anchor 1 ''ky1k2XRl'') = Inr 0" by simp
  then show ?thesis unfolding replace_def lines prod.case by (simp add: join_lines_def)
qed

end
