(* ===== verification/Egress.thy ===== *)
theory Egress
  imports Prelude
begin

unbundle bit_operations_syntax

text \<open>
  The egress policy (\<open>host/wasm/src/egress.rs\<close>). An address is its 32 or 128 bits; the standard
  library's predicates on addresses are written out on those bits. The parser of address literals
  (\<open>parse_ip\<close>) and the name resolver (\<open>lookup\<close>, \<open>None\<close> when it fails) are parameters.
\<close>

datatype ip_addr = V4 "32 word" | V6 "128 word"

type_synonym socket_addr = "ip_addr \<times> nat"

datatype destination = Resolved "socket_addr list" | AsNamed

text \<open>\<open>http::WireError\<close>, which the policy's refusals are variants of.\<close>

datatype wire_error =
    InvalidUrl | ConnectionFailed | WireTimeout | TlsError | ClientError u16 | ServerError u16 | WireBackend

record egress_policy =
  ep_allowed :: "string list"

section \<open>Public addresses\<close>

definition octet :: "32 word \<Rightarrow> nat \<Rightarrow> nat" where
  "octet ip i = unat (drop_bit (8 * (3 - i)) ip AND 0xff)"

definition is_public_v4 :: "32 word \<Rightarrow> bool" where
  "is_public_v4 ip =
     (let a = octet ip 0; b = octet ip 1; c = octet ip 2;
          loopback = (a = 127);
          private = (a = 10 \<or> a = 172 \<and> 16 \<le> b \<and> b \<le> 31 \<or> a = 192 \<and> b = 168);
          link_local = (a = 169 \<and> b = 254);
          broadcast = (ip = 0xffffffff);
          documentation = (a = 192 \<and> b = 0 \<and> c = 2 \<or> a = 198 \<and> b = 51 \<and> c = 100 \<or>
                           a = 203 \<and> b = 0 \<and> c = 113);
          unspecified = (ip = 0)
      in \<not> (loopback \<or> private \<or> link_local \<or> broadcast \<or> documentation \<or> unspecified \<or>
            a = 0 \<or> (a = 100 \<and> 64 \<le> b \<and> b \<le> 127) \<or> (a = 198 \<and> (b = 18 \<or> b = 19)) \<or> 240 \<le> a))"

definition to_ipv4_mapped :: "128 word \<Rightarrow> 32 word option" where
  "to_ipv4_mapped ip = (if drop_bit 32 ip = 0xffff then Some (ucast ip) else None)"

definition is_public_v6 :: "128 word \<Rightarrow> bool" where
  "is_public_v6 ip =
     (if ip = 1 \<or> ip = 0 then False
      else (case to_ipv4_mapped ip of
              Some v4 \<Rightarrow> is_public_v4 v4
            | None \<Rightarrow>
                (let seg = (ucast (drop_bit 112 ip) :: 16 word)
                 in \<not> (seg AND 0xfe00 = 0xfc00 \<or> seg AND 0xffc0 = 0xfe80))))"

fun is_public :: "ip_addr \<Rightarrow> bool" where
  "is_public (V4 ip) = is_public_v4 ip"
| "is_public (V6 ip) = is_public_v6 ip"

section \<open>Origins\<close>

definition parse_u16 :: "string \<Rightarrow> nat option" where
  "parse_u16 s = Option.bind (parse_u64 s) (\<lambda>n. if n < 2 ^ 16 then Some n else None)"

definition split_authority :: "string \<Rightarrow> string \<Rightarrow> (string \<times> nat) option" where
  "split_authority authority scheme =
     (let default_port = (if scheme = ''https'' then 443 else 80)
      in case strip_prefix ''['' authority of
           Some rest \<Rightarrow>
             Option.bind (split_once '']'' rest) (\<lambda>(host, tail).
               map_option (\<lambda>port. (to_lower host, port))
                 (case strip_prefix '':'' tail of None \<Rightarrow> Some default_port | Some p \<Rightarrow> parse_u16 p))
         | None \<Rightarrow>
             (case rsplit_once CHR '':'' authority of
                Some (host, port) \<Rightarrow>
                  (if host \<noteq> [] then map_option (\<lambda>p. (to_lower host, p)) (parse_u16 port)
                   else Some (to_lower authority, default_port))
              | None \<Rightarrow> Some (to_lower authority, default_port)))"

definition authority_of :: "string \<Rightarrow> string" where
  "authority_of rest =
     last_piece CHR ''@'' (takeWhile (\<lambda>c. c \<notin> {CHR ''/'', CHR ''?'', CHR ''#''}) rest)"

definition host_port :: "string \<Rightarrow> (string \<times> nat) option" where
  "host_port url =
     Option.bind (split_once ''://'' url) (\<lambda>(scheme, rest).
       split_authority (authority_of rest) (to_lower scheme))"

definition origin_of :: "string \<Rightarrow> string option" where
  "origin_of url =
     Option.bind (split_once ''://'' url) (\<lambda>(scheme, rest).
       (let s = to_lower scheme; authority = authority_of rest
        in if s \<noteq> ''http'' \<and> s \<noteq> ''https'' then None
           else if authority = [] then None
           else map_option (\<lambda>(host, port). s @ ''://'' @ host @ '':'' @ show_nat port)
                  (split_authority authority s)))"

section \<open>The policy\<close>

definition public_only :: egress_policy where
  "public_only = \<lparr>ep_allowed = []\<rparr>"

definition allowing :: "string \<Rightarrow> egress_policy \<Rightarrow> egress_policy" where
  "allowing url p =
     (case origin_of url of
        Some origin \<Rightarrow> p\<lparr>ep_allowed := List.insert origin (ep_allowed p)\<rparr>
      | None \<Rightarrow> p)"

text \<open>The loop over the resolver's answers: the first private one ends it.\<close>

fun all_public :: "socket_addr list \<Rightarrow> socket_addr list \<Rightarrow> wire_error + socket_addr list" where
  "all_public acc [] = Inr acc"
| "all_public acc (a # as) =
     (if \<not> is_public (fst a) then Inl ConnectionFailed else all_public (acc @ [a]) as)"

definition check ::
  "(string \<Rightarrow> ip_addr option) \<Rightarrow> (string \<Rightarrow> nat \<Rightarrow> socket_addr list option) \<Rightarrow> egress_policy \<Rightarrow> string
     \<Rightarrow> wire_error + destination" where
  "check parse_ip lookup p url =
     (case origin_of url of
        None \<Rightarrow> Inl InvalidUrl
      | Some origin \<Rightarrow>
          (if origin \<in> set (ep_allowed p) then Inr AsNamed
           else (case host_port url of
                   None \<Rightarrow> Inl InvalidUrl
                 | Some (host, port) \<Rightarrow>
                     (case parse_ip host of
                        Some ip \<Rightarrow> (if is_public ip then Inr AsNamed else Inl ConnectionFailed)
                      | None \<Rightarrow>
                          (case lookup host port of
                             None \<Rightarrow> Inl ConnectionFailed
                           | Some resolved \<Rightarrow>
                               try_then (all_public [] resolved) (\<lambda>addrs.
                                 if addrs = [] then Inl ConnectionFailed
                                 else Inr (Resolved addrs)))))))"

section \<open>Facts\<close>

lemma all_public_Inr:
  "all_public acc as = Inr r \<longleftrightarrow> r = acc @ as \<and> (\<forall>a \<in> set as. is_public (fst a))"
  by (induction as arbitrary: acc) auto

lemma all_public_error: "all_public acc as = Inl e \<Longrightarrow> e = ConnectionFailed"
  by (induction as arbitrary: acc) (auto split: if_splits)

text \<open>A block of addresses, by its first address and the length of its prefix.\<close>

definition in_block :: "32 word \<Rightarrow> nat \<Rightarrow> 32 word \<Rightarrow> bool" where
  "in_block base len ip \<longleftrightarrow> drop_bit (32 - len) ip = drop_bit (32 - len) base"

definition BLOCKED_V4 :: "(32 word \<times> nat) list" where
  "BLOCKED_V4 =
     [(0x00000000, 8), (0x0a000000, 8), (0x64400000, 10), (0x7f000000, 8), (0xa9fe0000, 16),
      (0xac100000, 12), (0xc0000200, 24), (0xc0a80000, 16), (0xc6120000, 15), (0xc6336400, 24),
      (0xcb007100, 24), (0xf0000000, 4)]"

section \<open>The blocked IPv4 ranges as blocks\<close>

lemma unat_shift: "unat (drop_bit k (ip :: 32 word)) = unat ip div 2 ^ k"
  by (subst unat_drop_bit_eq) (rule drop_bit_eq_div)

lemma unat_low_byte: "unat (x AND 0xff :: 32 word) = unat x mod 256"
proof -
  have "x AND 0xff = take_bit 8 x"
    by (simp add: take_bit_eq_mask mask_eq_exp_minus_1 and.commute)
  then have "unat (x AND 0xff) = take_bit 8 (unat x)" by (simp only: unsigned_take_bit_eq)
  then show ?thesis by (simp add: take_bit_eq_mod)
qed

lemma octet_div: "octet ip i = unat ip div 2 ^ (8 * (3 - i)) mod 256"
  by (simp only: octet_def unat_low_byte unat_shift)

lemma in_block_div:
  "in_block base len ip \<longleftrightarrow> unat ip div 2 ^ (32 - len) = unat base div 2 ^ (32 - len)"
  unfolding in_block_def by (simp only: word_unat_eq_iff unat_shift)

lemma div_eq_iff_bounds:
  "0 < m \<Longrightarrow> (b :: nat) div m = k \<longleftrightarrow> k * m \<le> b \<and> b < Suc k * m"
  using less_eq_div_iff_mult_less_eq [of m k b] div_less_iff_less_mult [of m b "Suc k"] by linarith

lemma digits_eq:
  assumes "b < m" "y < m"
  shows "(a :: nat) * m + b = x * m + y \<longleftrightarrow> a = x \<and> b = y"
proof
  assume eq: "a * m + b = x * m + y"
  have "(a * m + b) div m = a" "(x * m + y) div m = x" using assms by simp_all
  with eq show "a = x \<and> b = y" by simp
qed simp

lemmas digits2 = digits_eq [where m = 256]

lemma digits3:
  assumes "b < 256" "c < 256" "y < 256" "z < 256"
  shows "(a :: nat) * 65536 + b * 256 + c = x * 65536 + y * 256 + z \<longleftrightarrow> a = x \<and> b = y \<and> c = z"
  using digits2 [OF assms(2,4), of "a * 256 + b" "x * 256 + y"] digits2 [OF assms(1,3), of a x]
  by (simp add: algebra_simps)

lemma split_octets:
  fixes n a b c d :: nat
  assumes n: "n = ((a * 256 + b) * 256 + c) * 256 + d" and lt: "b < 256" "c < 256" "d < 256"
  shows "n div 16777216 = a" "n div 65536 = a * 256 + b" "n div 256 = a * 65536 + b * 256 + c"
    "n div 1048576 = a * 16 + b div 16" "n div 4194304 = a * 4 + b div 64"
    "n div 131072 = a * 128 + b div 2" "n div 268435456 = a div 16"
proof -
  have step: "(x * 256 + y) div 256 = x" if "y < 256" for x y :: nat using that by simp
  have n8: "n div 256 = (a * 256 + b) * 256 + c" unfolding n using lt(3) by (rule step)
  then have "n div 256 div 256 = a * 256 + b" using step [OF lt(2)] by simp
  then show n16: "n div 65536 = a * 256 + b" by (simp flip: div_mult2_eq)
  then have "n div 65536 div 256 = a" using step [OF lt(1)] by simp
  then show n24: "n div 16777216 = a" by (simp flip: div_mult2_eq)
  show "n div 256 = a * 65536 + b * 256 + c" using n8 by simp
  have "n div 65536 div 16 = a * 16 + b div 16"
    unfolding n16 using div_mult_self3 [of 16 "a * 16" b] by simp
  then show "n div 1048576 = a * 16 + b div 16" by (simp flip: div_mult2_eq)
  have "n div 65536 div 64 = a * 4 + b div 64"
    unfolding n16 using div_mult_self3 [of 64 "a * 4" b] by simp
  then show "n div 4194304 = a * 4 + b div 64" by (simp flip: div_mult2_eq)
  have "n div 65536 div 2 = a * 128 + b div 2"
    unfolding n16 using div_mult_self3 [of 2 "a * 128" b] by simp
  then show "n div 131072 = a * 128 + b div 2" by (simp flip: div_mult2_eq)
  have "n div 16777216 div 16 = a div 16" unfolding n24 by simp
  then show "n div 268435456 = a div 16" by (simp flip: div_mult2_eq)
qed

lemma octets_of:
  fixes ip :: "32 word"
  obtains a b c d where "unat ip = ((a * 256 + b) * 256 + c) * 256 + d"
    "a < 256" "b < 256" "c < 256" "d < 256" "octet ip 0 = a" "octet ip 1 = b" "octet ip 2 = c"
proof
  let ?n = "unat ip"
  have n: "?n < 2 ^ 32" using unsigned_less [of ip] by simp
  have "?n = ?n div 256 * 256 + ?n mod 256" by simp
  moreover have "?n div 256 = ?n div 65536 * 256 + ?n div 256 mod 256"
    using div_mult_mod_eq [of "?n div 256" 256] by (simp flip: div_mult2_eq)
  moreover have "?n div 65536 = ?n div 16777216 * 256 + ?n div 65536 mod 256"
    using div_mult_mod_eq [of "?n div 65536" 256] by (simp flip: div_mult2_eq)
  ultimately show "?n = ((?n div 16777216 * 256 + ?n div 65536 mod 256) * 256 +
      ?n div 256 mod 256) * 256 + ?n mod 256" by metis
  show top: "?n div 16777216 < 256" using n by simp
  show "octet ip 0 = ?n div 16777216" using top by (simp add: octet_div)
  show "octet ip 1 = ?n div 65536 mod 256" "octet ip 2 = ?n div 256 mod 256"
    by (simp_all add: octet_div)
qed simp_all

lemma public_v4_blocks:
  "is_public_v4 ip \<longleftrightarrow> list_all (\<lambda>(base, len). \<not> in_block base len ip) BLOCKED_V4"
proof -
  obtain a b c d where n: "unat ip = ((a * 256 + b) * 256 + c) * 256 + d"
    and lt: "a < 256" "b < 256" "c < 256" "d < 256"
    and oct: "octet ip 0 = a" "octet ip 1 = b" "octet ip 2 = c"
    by (rule octets_of)
  note divs = split_octets [OF n lt(2,3,4)]
  have all: "240 \<le> a" if "ip = 0xffffffff" using that divs(1) by auto
  have none: "a = 0" if "ip = 0" using that divs(1) by auto
  have blocks1:
    "in_block 0x00000000 8 ip \<longleftrightarrow> a = 0" "in_block 0x0a000000 8 ip \<longleftrightarrow> a = 10"
    "in_block 0x7f000000 8 ip \<longleftrightarrow> a = 127"
    using lt by (simp_all add: in_block_div divs)
  have b1: "in_block 0x64400000 10 ip \<longleftrightarrow> a = 100 \<and> 64 \<le> b \<and> b \<le> 127"
  proof -
    have "b div 64 < 4" using lt by simp
    then have "a * 4 + b div 64 = 401 \<longleftrightarrow> a = 100 \<and> b div 64 = 1"
      using digits_eq [of "b div 64" 4 1 a 100] by simp
    moreover have "b div 64 = 1 \<longleftrightarrow> 64 \<le> b \<and> b \<le> 127"
      by (subst div_eq_iff_bounds) auto
    ultimately show ?thesis by (simp add: in_block_div divs)
  qed
  have b2: "in_block 0xa9fe0000 16 ip \<longleftrightarrow> a = 169 \<and> b = 254"
    using digits2 [OF lt(2), of 254 a 169] by (simp add: in_block_div divs)
  have b3: "in_block 0xac100000 12 ip \<longleftrightarrow> a = 172 \<and> 16 \<le> b \<and> b \<le> 31"
  proof -
    have "b div 16 < 16" using lt by simp
    then have "a * 16 + b div 16 = 2753 \<longleftrightarrow> a = 172 \<and> b div 16 = 1"
      using digits_eq [of "b div 16" 16 1 a 172] by simp
    moreover have "b div 16 = 1 \<longleftrightarrow> 16 \<le> b \<and> b \<le> 31"
      by (subst div_eq_iff_bounds) auto
    ultimately show ?thesis by (simp add: in_block_div divs)
  qed
  have b4: "in_block 0xc0000200 24 ip \<longleftrightarrow> a = 192 \<and> b = 0 \<and> c = 2"
    using digits3 [OF lt(2,3), of 0 2 a 192] by (simp add: in_block_div divs)
  have b5: "in_block 0xc0a80000 16 ip \<longleftrightarrow> a = 192 \<and> b = 168"
    using digits2 [OF lt(2), of 168 a 192] by (simp add: in_block_div divs)
  have b6: "in_block 0xc6120000 15 ip \<longleftrightarrow> a = 198 \<and> (b = 18 \<or> b = 19)"
  proof -
    have "b div 2 < 128" using lt by simp
    then have "a * 128 + b div 2 = 25353 \<longleftrightarrow> a = 198 \<and> b div 2 = 9"
      using digits_eq [of "b div 2" 128 9 a 198] by simp
    moreover have "b div 2 = 9 \<longleftrightarrow> b = 18 \<or> b = 19"
      by (subst div_eq_iff_bounds) auto
    ultimately show ?thesis by (simp add: in_block_div divs)
  qed
  have b7: "in_block 0xc6336400 24 ip \<longleftrightarrow> a = 198 \<and> b = 51 \<and> c = 100"
    using digits3 [OF lt(2,3), of 51 100 a 198] by (simp add: in_block_div divs)
  have b8: "in_block 0xcb007100 24 ip \<longleftrightarrow> a = 203 \<and> b = 0 \<and> c = 113"
    using digits3 [OF lt(2,3), of 0 113 a 203] by (simp add: in_block_div divs)
  have b9: "in_block 0xf0000000 4 ip \<longleftrightarrow> 240 \<le> a"
    using lt(1) div_eq_iff_bounds [of 16 a 15] by (auto simp: in_block_div divs)
  have "list_all (\<lambda>(base, len). \<not> in_block base len ip) BLOCKED_V4 \<longleftrightarrow>
      \<not> (a = 0 \<or> a = 10 \<or> a = 100 \<and> 64 \<le> b \<and> b \<le> 127 \<or> a = 127 \<or> a = 169 \<and> b = 254 \<or>
         a = 172 \<and> 16 \<le> b \<and> b \<le> 31 \<or> a = 192 \<and> b = 0 \<and> c = 2 \<or> a = 192 \<and> b = 168 \<or>
         a = 198 \<and> (b = 18 \<or> b = 19) \<or> a = 198 \<and> b = 51 \<and> c = 100 \<or>
         a = 203 \<and> b = 0 \<and> c = 113 \<or> 240 \<le> a)"
    by (simp only: BLOCKED_V4_def list.pred_inject prod.case blocks1 b1 b2 b3 b4 b5 b6 b7 b8 b9
        de_Morgan_disj simp_thms)
  moreover have "(ip = 0xffffffff \<longrightarrow> 240 \<le> a) \<and> (ip = 0 \<longrightarrow> a = 0)" using all none by blast
  ultimately show ?thesis
    unfolding is_public_v4_def Let_def oct by sat
qed

section \<open>Properties\<close>

text \<open>A request the policy lets out goes to an origin the operator granted, to a public
  address literal, or to a non-empty list of addresses, each an answer of the resolver and public.\<close>

theorem egress_only_public:
  assumes "check parse_ip lookup p url = Inr dest"
  shows "(\<exists>origin. origin_of url = Some origin \<and> origin \<in> set (ep_allowed p) \<and> dest = AsNamed) \<or>
    (\<exists>host port ip. host_port url = Some (host, port) \<and> parse_ip host = Some ip \<and>
       is_public ip \<and> dest = AsNamed) \<or>
    (\<exists>host port addrs. host_port url = Some (host, port) \<and> parse_ip host = None \<and>
       lookup host port = Some addrs \<and> addrs \<noteq> [] \<and> list_all (is_public \<circ> fst) addrs \<and>
       dest = Resolved addrs)"
  using assms
  by (auto simp: check_def all_public_Inr try_then_eq_Inr list_all_iff
      split: option.splits if_splits prod.splits)

definition lookup_demo :: "string \<Rightarrow> nat \<Rightarrow> socket_addr list option" where
  "lookup_demo host port = Some [(V4 0x01010101, port)]"

theorem egress_only_public_witness:
  "\<exists>addrs. lookup_demo ''a.b'' 443 = Some addrs \<and> addrs \<noteq> [] \<and> list_all (is_public \<circ> fst) addrs"
proof -
  have "origin_of ''https://a.b/x'' = Some ''https://a.b:443''"
    "host_port ''https://a.b/x'' = Some (''a.b'', 443)" by code_simp+
  moreover have "is_public_v4 0x01010101" by code_simp
  ultimately have "check (\<lambda>_. None) lookup_demo public_only ''https://a.b/x'' =
      Inr (Resolved [(V4 0x01010101, 443)])"
    by (simp add: check_def public_only_def lookup_demo_def)
  from egress_only_public [OF this] show ?thesis
    by (auto simp: public_only_def lookup_demo_def)
qed

text \<open>The hand-written test of IPv4 addresses is membership in none of the twelve blocks
  it means to exclude, on all 2^32 addresses.\<close>

theorem ipv4_public_blocks:
  "is_public_v4 ip \<longleftrightarrow> list_all (\<lambda>(base, len). \<not> in_block base len ip) BLOCKED_V4"
  by (rule public_v4_blocks)

text \<open>Some destinations that are not public pass: IPv4 and IPv6 multicast, and the IPv6 forms
  of private IPv4 addresses under the NAT64 prefix and 6to4.\<close>

theorem egress_gaps:
  "list_all is_public
    [V4 0xe0000001, V6 0xff020000000000000000000000000001,
     V6 0x0064ff9b00000000000000000a000001, V6 0x20020a00000100000000000000000001]"
  by (simp add: is_public_v4_def octet_def is_public_v6_def to_ipv4_mapped_def Let_def)

end
