(* ===== verification/Plan.thy ===== *)
theory Plan
  imports HostApi
begin

text \<open>
  The plan tool's state (\<open>extensions/tool-plan/src/plan.rs\<close>): steps with ids the plan issues itself.
  Ids are \<open>u32\<close> values; the increment of \<open>issued\<close> wraps at 2^32, as the release build's does. Every
  call of the tool reads the plan from its stored text and writes it back.
\<close>

datatype step_state = Todo | Doing | Finished

record step =
  st_id :: nat
  st_text :: string
  st_state :: step_state

record plan =
  pl_steps :: "step list"
  pl_issued :: nat

datatype plan_error = BadArguments string | NoSuchStep nat | EmptyText

fun plan_error_text :: "plan_error \<Rightarrow> string" where
  "plan_error_text (BadArguments d) = ''not a plan operation: '' @ d"
| "plan_error_text (NoSuchStep i) = ''no step '' @ show_nat i @ '' in this plan''"
| "plan_error_text EmptyText = ''a step needs text''"

fun state_str :: "step_state \<Rightarrow> string" where
  "state_str Todo = ''todo''"
| "state_str Doing = ''doing''"
| "state_str Finished = ''done''"

definition state_parse :: "string \<Rightarrow> step_state option" where
  "state_parse s =
     (if s = ''todo'' then Some Todo else if s = ''doing'' then Some Doing
      else if s = ''done'' then Some Finished else None)"

definition empty_plan :: plan where
  "empty_plan = \<lparr>pl_steps = [], pl_issued = 0\<rparr>"

definition get_u32 :: "string \<Rightarrow> json \<Rightarrow> nat option" where
  "get_u32 k v = Option.bind (get_u64 k v) to_u32"

definition step_parse :: "json \<Rightarrow> step option" where
  "step_parse v =
     Option.bind (get_u32 ''id'' v) (\<lambda>i.
     Option.bind (get_str ''text'' v) (\<lambda>t.
     Option.bind (get_str ''state'' v) (\<lambda>s.
       map_option (\<lambda>st. \<lparr>st_id = i, st_text = t, st_state = st\<rparr>) (state_parse s))))"

definition plan_parse :: "parser \<Rightarrow> string option \<Rightarrow> plan" where
  "plan_parse parse stored =
     (case Option.bind (Option.bind stored (\<lambda>t. ok_of (parse t))) (get_array ''steps'') of
        None \<Rightarrow> empty_plan
      | Some items \<Rightarrow>
          (let steps = List.map_filter step_parse items;
               issued = (case Option.bind (Option.bind stored (\<lambda>t. ok_of (parse t)))
                               (get_u32 ''issued'') of
                           Some n \<Rightarrow> n
                         | None \<Rightarrow> fold max (map st_id steps) 0)
           in \<lparr>pl_steps = steps, pl_issued = issued\<rparr>))"

fun set_state :: "nat \<Rightarrow> step_state \<Rightarrow> step list \<Rightarrow> step list option" where
  "set_state i st [] = None"
| "set_state i st (s # ss) =
     (if st_id s = i then Some (s\<lparr>st_state := st\<rparr> # ss) else map_option (\<lambda>r. s # r) (set_state i st ss))"

definition no_op_text :: string where "no_op_text = ''no '' @ bquote ''op''"
definition bad_id_text :: string where "bad_id_text = bquote ''id'' @ '' must be a number''"
definition bad_text_text :: string where "bad_text_text = bquote ''text'' @ '' must be a string''"
definition bad_state_text :: string where
  "bad_state_text = bquote ''state'' @ '' is todo, doing or done''"

definition plan_op :: "json \<Rightarrow> string \<Rightarrow> plan \<Rightarrow> (plan_error + unit) \<times> plan" where
  "plan_op call op p =
     (if op = ''list'' then (Inr (), p)
      else if op = ''add'' then
        (case get_str ''text'' call of
           None \<Rightarrow> (Inl (BadArguments bad_text_text), p)
         | Some t \<Rightarrow>
             (if trim t = [] then (Inl EmptyText, p)
              else (let n = (pl_issued p + 1) mod 2 ^ 32
                    in (Inr (), p\<lparr>pl_issued := n,
                          pl_steps := pl_steps p @ [\<lparr>st_id = n, st_text = trim t, st_state = Todo\<rparr>]\<rparr>))))
      else if op = ''set-state'' then
        (case get_u32 ''id'' call of
           None \<Rightarrow> (Inl (BadArguments bad_id_text), p)
         | Some i \<Rightarrow>
             (case Option.bind (get_str ''state'' call) state_parse of
                None \<Rightarrow> (Inl (BadArguments bad_state_text), p)
              | Some st \<Rightarrow>
                  (case set_state i st (pl_steps p) of
                     None \<Rightarrow> (Inl (NoSuchStep i), p)
                   | Some ss \<Rightarrow> (Inr (), p\<lparr>pl_steps := ss\<rparr>))))
      else if op = ''remove'' then
        (case get_u32 ''id'' call of
           None \<Rightarrow> (Inl (BadArguments bad_id_text), p)
         | Some i \<Rightarrow>
             (let kept = filter (\<lambda>s. st_id s \<noteq> i) (pl_steps p)
              in (if length kept = length (pl_steps p) then Inl (NoSuchStep i) else Inr (),
                  p\<lparr>pl_steps := kept\<rparr>)))
      else if op = ''clear'' then (Inr (), p\<lparr>pl_steps := []\<rparr>)
      else (Inl (BadArguments (''unknown op '' @ bquote op)), p))"

definition plan_apply :: "parser \<Rightarrow> string \<Rightarrow> plan \<Rightarrow> (plan_error + unit) \<times> plan" where
  "plan_apply parse arguments p =
     (case parse arguments of
        Inl err \<Rightarrow> (Inl (BadArguments err), p)
      | Inr call \<Rightarrow>
          (case get_str ''op'' call of
             None \<Rightarrow> (Inl (BadArguments no_op_text), p)
           | Some op \<Rightarrow> plan_op call op p))"

definition step_json :: "step \<Rightarrow> json" where
  "step_json s = JObj [(''id'', JInt (int (st_id s))), (''text'', JStr (st_text s)),
     (''state'', JStr (state_str (st_state s)))]"

definition plan_json :: "plan \<Rightarrow> json" where
  "plan_json p = JObj [(''steps'', JArr (map step_json (pl_steps p))),
     (''issued'', JInt (int (pl_issued p)))]"

definition plan_render :: "printer \<Rightarrow> plan \<Rightarrow> string" where
  "plan_render render p = render (plan_json p)"

section \<open>The tool's invocation\<close>

text \<open>\<open>extensions/tool-plan/src/lib.rs\<close>: the plan is read, changed, written and answered whole.\<close>

definition PLAN_NAMESPACE :: string where "PLAN_NAMESPACE = ''plan''"
definition PLAN_KEY :: string where "PLAN_KEY = ''steps''"

definition plan_invoke ::
  "parser \<Rightarrow> printer \<Rightarrow> 'w host_storage \<Rightarrow> string \<Rightarrow> 'w \<Rightarrow> (tool_error + string) \<times> 'w" where
  "plan_invoke parse render hs arguments w =
     (case stored_text hs PLAN_NAMESPACE PLAN_KEY w of
        Inl e \<Rightarrow> (Inl e, w)
      | Inr stored \<Rightarrow>
          (case plan_apply parse arguments (plan_parse parse stored) of
             (Inl _, _) \<Rightarrow> (Inl InvalidArguments, w)
           | (Inr _, p) \<Rightarrow>
               write_stored hs PLAN_NAMESPACE PLAN_KEY (plan_render render p) (plan_render render p) w))"

text \<open>Over a working store, what an accepted call answers is what the next call reads.\<close>

context working_store begin

lemma plan_invoke_keeps:
  assumes "ok w" "plan_invoke parse render hs arguments w = (Inr out, w')"
  shows "ok w' \<and> stored_text hs PLAN_NAMESPACE PLAN_KEY w' = Inr (Some out)"
  using assms set_keeps [OF assms(1)] stored_set [OF assms(1)]
  by (auto simp: plan_invoke_def write_stored_def split: sum.splits prod.splits)
    (metis snd_conv)+

end

section \<open>The invariant\<close>

definition ids_of :: "plan \<Rightarrow> nat list" where
  "ids_of p = map st_id (pl_steps p)"

definition plan_wf :: "plan \<Rightarrow> bool" where
  "plan_wf p \<longleftrightarrow> distinct (ids_of p) \<and> (\<forall>i \<in> set (ids_of p). i \<le> pl_issued p) \<and> pl_issued p < 2 ^ 32"

lemma state_parse_str [simp]: "state_parse (state_str st) = Some st"
  by (cases st) (simp_all add: state_parse_def)

lemma step_parse_json: "st_id s < 2 ^ 32 \<Longrightarrow> step_parse (step_json s) = Some s"
  by (simp add: step_parse_def step_json_def get_u32_def json_simps to_u32_def)

lemma set_state_ids: "set_state i st ss = Some ss' \<Longrightarrow> map st_id ss' = map st_id ss"
  by (induction ss arbitrary: ss') (auto split: if_splits)

lemma plan_round_trip:
  assumes "plan_wf p" "parse (render (plan_json p)) = Inr (plan_json p)"
  shows "plan_parse parse (Some (plan_render render p)) = p"
proof -
  have "List.map_filter step_parse (map step_json ss) = ss" if "\<forall>s \<in> set ss. st_id s < 2 ^ 32" for ss
    using that by (induction ss) (auto simp: List.map_filter_simps step_parse_json)
  moreover have "\<forall>s \<in> set (pl_steps p). st_id s < 2 ^ 32"
    using assms(1) by (force simp: plan_wf_def ids_of_def)
  ultimately show ?thesis
    using assms
    by (simp add: plan_parse_def plan_render_def plan_json_def get_u32_def json_simps to_u32_def plan_wf_def)
qed

text \<open>One operation: the invariant is kept, and an id not there before is above every id issued.\<close>

lemma plan_op_wf:
  assumes "plan_wf p" "pl_issued p + 1 < 2 ^ 32"
  shows "plan_wf (snd (plan_op call op p)) \<and> pl_issued p \<le> pl_issued (snd (plan_op call op p)) \<and>
    (\<forall>i \<in> set (ids_of (snd (plan_op call op p))). i \<in> set (ids_of p) \<or> pl_issued p < i)"
proof -
  let ?ok = "\<lambda>q. plan_wf q \<and> pl_issued p \<le> pl_issued q \<and>
    (\<forall>i \<in> set (ids_of q). i \<in> set (ids_of p) \<or> pl_issued p < i)"
  have same: "?ok p" using assms(1) by simp
  have add: "?ok (p\<lparr>pl_issued := Suc (pl_issued p),
      pl_steps := pl_steps p @ [\<lparr>st_id = Suc (pl_issued p), st_text = t, st_state = Todo\<rparr>]\<rparr>)" for t
    using assms by (fastforce simp: plan_wf_def ids_of_def)
  have set_st: "?ok (p\<lparr>pl_steps := ss\<rparr>)" if "set_state i st (pl_steps p) = Some ss" for i st ss
    using set_state_ids [OF that] assms(1) by (simp add: plan_wf_def ids_of_def)
  have kept: "?ok (p\<lparr>pl_steps := filter P (pl_steps p)\<rparr>)" for P
    using assms(1) by (auto simp: plan_wf_def ids_of_def distinct_map_filter)
  have none: "?ok (p\<lparr>pl_steps := []\<rparr>)" using assms(1) by (simp add: plan_wf_def ids_of_def)
  show ?thesis
    using same add set_st kept none assms(2)
    by (simp add: plan_op_def Let_def split: option.split)
qed

lemma plan_apply_wf:
  assumes "plan_wf p" "pl_issued p + 1 < 2 ^ 32"
  shows "plan_wf (snd (plan_apply parse arguments p)) \<and>
    pl_issued p \<le> pl_issued (snd (plan_apply parse arguments p)) \<and>
    (\<forall>i \<in> set (ids_of (snd (plan_apply parse arguments p))). i \<in> set (ids_of p) \<or> pl_issued p < i)"
  using plan_op_wf [OF assms] assms(1) by (simp add: plan_apply_def split: sum.split option.split)

text \<open>A call on a stored plan, read, changed and kept, issues ids only above every id
  the plan ever issued, removed steps' included, and keeps the ids distinct.\<close>

theorem plan_ids_never_reused:
  assumes "plan_wf p" "pl_issued p + 1 < 2 ^ 32" "parse (render (plan_json p)) = Inr (plan_json p)"
    and "q = snd (plan_apply parse arguments (plan_parse parse (Some (plan_render render p))))"
  shows "plan_wf q \<and> pl_issued p \<le> pl_issued q \<and>
    (\<forall>i \<in> set (ids_of q). i \<in> set (ids_of p) \<or> pl_issued p < i)"
proof -
  have "plan_parse parse (Some (plan_render render p)) = p"
    by (rule plan_round_trip [of p parse render]) (rule assms(1), rule assms(3))
  then show ?thesis using plan_apply_wf [OF assms(1,2), of parse arguments] assms(4) by simp
qed

definition used_plan :: plan where
  "used_plan = \<lparr>pl_steps = [\<lparr>st_id = 1, st_text = ''a'', st_state = Doing\<rparr>], pl_issued = 2\<rparr>"

definition add_call :: json where
  "add_call = JObj [(''op'', JStr ''add''), (''text'', JStr ''b'')]"

definition plan_demo_parse :: parser where
  "plan_demo_parse s = (if s = ''p'' then Inr (plan_json used_plan) else Inr add_call)"

theorem plan_ids_never_reused_witness:
  "ids_of (snd (plan_apply plan_demo_parse ''c''
      (plan_parse plan_demo_parse (Some (plan_render (\<lambda>_. ''p'') used_plan))))) = [1, 3] \<and>
   ids_of used_plan = [1] \<and> pl_issued used_plan < 3"
proof -
  have wf: "plan_wf used_plan" "pl_issued used_plan + 1 < 2 ^ 32"
    by (simp_all add: plan_wf_def ids_of_def used_plan_def)
  have reads: "plan_demo_parse ((\<lambda>_. ''p'') (plan_json used_plan)) = Inr (plan_json used_plan)"
    by (simp add: plan_demo_parse_def)
  have again: "plan_parse plan_demo_parse (Some (plan_render (\<lambda>_. ''p'') used_plan)) = used_plan"
    by (rule plan_round_trip [of used_plan plan_demo_parse "\<lambda>_. ''p''"]) (rule wf(1), rule reads)
  have "trim ''b'' = ''b''" by code_simp
  then have "ids_of (snd (plan_apply plan_demo_parse ''c'' used_plan)) = [1, 3]"
    by (simp add: plan_apply_def plan_demo_parse_def add_call_def json_simps plan_op_def ids_of_def
        used_plan_def)
  then have "ids_of (snd (plan_apply plan_demo_parse ''c''
      (plan_parse plan_demo_parse (Some (plan_render (\<lambda>_. ''p'') used_plan))))) = [1, 3]"
    by (simp only: again)
  moreover have "ids_of used_plan = [1]" by (simp add: ids_of_def used_plan_def)
  ultimately show ?thesis
    using plan_ids_never_reused [of used_plan plan_demo_parse "\<lambda>_. ''p''" _ "''c''", OF wf reads refl] by simp
qed

end
