(* ===== verification/Guardrails.thy ===== *)
theory Guardrails
  imports Conductor_Facts
begin

text \<open>
  The content rules of \<open>extensions/interceptor-guardrails\<close> (\<open>rules.rs\<close> and the handler of
  \<open>lib.rs\<close>), composed with the dispatcher and the tool calls of the conductor. The \<open>regex\<close> crate is
  the record of the three operations the code uses, over a type \<open>'r\<close> of compiled patterns; the
  section of \<open>config.yaml\<close> is a JSON value. The log lines are not modelled.
\<close>

record 'r regex_engine =
  re_new :: "string \<Rightarrow> 'r option"
  re_is_match :: "'r \<Rightarrow> string \<Rightarrow> bool"
  re_replace_all :: "'r \<Rightarrow> string \<Rightarrow> string \<Rightarrow> string"

section \<open>Rules\<close>

datatype deny_act = ActBlock | ActAsk

datatype rule_error =
    BadPattern string
  | MissingPattern
  | BadDecision string
  | BadTextDecision string

definition act_parse :: "string option \<Rightarrow> rule_error + deny_act" where
  "act_parse raw =
     (case raw of
        None \<Rightarrow> Inr ActBlock
      | Some s \<Rightarrow> if s = ''block'' then Inr ActBlock else if s = ''ask'' then Inr ActAsk
                 else Inl (BadDecision s))"

fun rule_error_text :: "rule_error \<Rightarrow> string" where
  "rule_error_text (BadPattern p) = bquote p @ '' is not a valid pattern''"
| "rule_error_text MissingPattern = ''a rule has no '' @ bquote ''pattern''"
| "rule_error_text (BadDecision raw) =
     bquote raw @ '' is not a decision; use '' @ bquote ''block'' @ '' or '' @ bquote ''ask''"
| "rule_error_text (BadTextDecision raw) =
     bquote raw @ '' is not a decision for a '' @ bquote ''redact'' @ '' rule; use '' @
     bquote ''replace'' @ '' or '' @ bquote ''block''"

record 'r deny_rule =
  dr_pattern :: 'r
  dr_tool :: "string option"
  dr_reason :: string
  dr_act :: deny_act

record deny_verdict =
  dv_reason :: string
  dv_act :: deny_act

datatype text_act = TextReplace | TextBlock

definition text_act_parse :: "string option \<Rightarrow> rule_error + text_act" where
  "text_act_parse raw =
     (case raw of
        None \<Rightarrow> Inr TextReplace
      | Some s \<Rightarrow> if s = ''replace'' then Inr TextReplace else if s = ''block'' then Inr TextBlock
                 else Inl (BadTextDecision s))"

definition DEFAULT_REPLACEMENT :: string where
  "DEFAULT_REPLACEMENT = ''[redacted]''"

record 'r text_rule =
  tr_pattern :: 'r
  tr_with :: string
  tr_reason :: string
  tr_act :: text_act

datatype text_verdict = Redacted string | TextBlocked string

record 'r rules =
  deny_tool_arguments :: "'r deny_rule list"
  redact :: "'r text_rule list"

definition no_rules :: "'r rules" where
  "no_rules = \<lparr>deny_tool_arguments = [], redact = []\<rparr>"

definition compile :: "'r regex_engine \<Rightarrow> json \<Rightarrow> rule_error + string \<times> 'r" where
  "compile E rule =
     (case get_str ''pattern'' rule of
        None \<Rightarrow> Inl MissingPattern
      | Some p \<Rightarrow> (case re_new E p of None \<Rightarrow> Inl (BadPattern p) | Some r \<Rightarrow> Inr (p, r)))"

definition reason_of :: "json \<Rightarrow> string \<Rightarrow> string" where
  "reason_of rule p =
     (case get_str ''reason'' rule of
        None \<Rightarrow> ''matches the guardrail '' @ bquote p
      | Some r \<Rightarrow> r)"

definition tool_rule :: "'r regex_engine \<Rightarrow> json \<Rightarrow> rule_error + 'r deny_rule" where
  "tool_rule E rule =
     try_then (compile E rule) (\<lambda>(p, r).
       map_ok (\<lambda>a. \<lparr>dr_pattern = r, dr_tool = get_str ''tool'' rule, dr_reason = reason_of rule p,
                     dr_act = a\<rparr>)
         (act_parse (get_str ''decision'' rule)))"

definition tool_rules :: "'r regex_engine \<Rightarrow> json \<Rightarrow> rule_error + 'r deny_rule list" where
  "tool_rules E cfg =
     (case get_array ''deny-tool-arguments'' cfg of
        None \<Rightarrow> Inr []
      | Some raw \<Rightarrow> collect_ok (map (tool_rule E) raw))"

definition text_rule_of :: "'r regex_engine \<Rightarrow> json \<Rightarrow> rule_error + 'r text_rule" where
  "text_rule_of E rule =
     try_then (compile E rule) (\<lambda>(p, r).
       map_ok (\<lambda>a. \<lparr>tr_pattern = r,
                     tr_with = (case get_str ''with'' rule of None \<Rightarrow> DEFAULT_REPLACEMENT | Some s \<Rightarrow> s),
                     tr_reason = reason_of rule p, tr_act = a\<rparr>)
         (text_act_parse (get_str ''decision'' rule)))"

definition text_rules :: "'r regex_engine \<Rightarrow> json \<Rightarrow> rule_error + 'r text_rule list" where
  "text_rules E cfg =
     (case get_array ''redact'' cfg of
        None \<Rightarrow> Inr []
      | Some raw \<Rightarrow> collect_ok (map (text_rule_of E) raw))"

definition rules_from_config :: "'r regex_engine \<Rightarrow> json \<Rightarrow> rule_error + 'r rules" where
  "rules_from_config E cfg =
     try_then (tool_rules E cfg) (\<lambda>ds.
       map_ok (\<lambda>ts. \<lparr>deny_tool_arguments = ds, redact = ts\<rparr>) (text_rules E cfg))"

section \<open>Reviews\<close>

definition rule_fires :: "'r regex_engine \<Rightarrow> string \<Rightarrow> string \<Rightarrow> 'r deny_rule \<Rightarrow> bool" where
  "rule_fires E tool arguments r \<longleftrightarrow>
     (case dr_tool r of None \<Rightarrow> True | Some named \<Rightarrow> named = tool) \<and>
     re_is_match E (dr_pattern r) arguments"

definition review_tool_call ::
  "'r regex_engine \<Rightarrow> 'r rules \<Rightarrow> string \<Rightarrow> string \<Rightarrow> deny_verdict option" where
  "review_tool_call E rs tool arguments =
     map_option (\<lambda>r. \<lparr>dv_reason = dr_reason r, dv_act = dr_act r\<rparr>)
       (find (rule_fires E tool arguments) (deny_tool_arguments rs))"

definition blocks_text :: "'r regex_engine \<Rightarrow> string \<Rightarrow> 'r text_rule \<Rightarrow> bool" where
  "blocks_text E s r \<longleftrightarrow> tr_act r = TextBlock \<and> re_is_match E (tr_pattern r) s"

text \<open>
  The loop over the replacing rules. \<open>None\<close> is the borrowed \<open>Cow\<close> (no rule has matched yet), and
  \<open>Some s\<close> the owned text rewritten so far.
\<close>

fun redact_loop ::
  "'r regex_engine \<Rightarrow> string \<Rightarrow> 'r text_rule list \<Rightarrow> string option \<Rightarrow> string option" where
  "redact_loop E s [] cow = cow"
| "redact_loop E s (r # rs) cow =
     (let cur = (case cow of None \<Rightarrow> s | Some t \<Rightarrow> t)
      in redact_loop E s rs
           (if re_is_match E (tr_pattern r) cur
            then Some (re_replace_all E (tr_pattern r) cur (tr_with r)) else cow))"

definition review_text :: "'r regex_engine \<Rightarrow> 'r rules \<Rightarrow> string \<Rightarrow> text_verdict option" where
  "review_text E rs s =
     (case find (blocks_text E s) (redact rs) of
        Some refusal \<Rightarrow> Some (TextBlocked (tr_reason refusal))
      | None \<Rightarrow> map_option Redacted
          (redact_loop E s (filter (\<lambda>r. tr_act r = TextReplace) (redact rs)) None))"

section \<open>The interceptor\<close>

definition load_rules :: "'r regex_engine \<Rightarrow> parser \<Rightarrow> (string + string) \<Rightarrow> rule_error + 'r rules" where
  "load_rules E parse cfg =
     (let raw = (case cfg of Inl e \<Rightarrow> ''{}'' | Inr s \<Rightarrow> s);
          top = (case parse raw of Inl e \<Rightarrow> JNull | Inr v \<Rightarrow> v)
      in rules_from_config E top)"

definition guard_prompt :: "string \<Rightarrow> string \<Rightarrow> user_prompt" where
  "guard_prompt tool reason =
     \<lparr>up_question = ''Allow '' @ bquote tool @ ''? (a guardrail matched: '' @ reason @ '')'',
      up_options = [''yes'', ''no''], up_default_answer = ''no''\<rparr>"

definition says_yes :: "string \<Rightarrow> bool" where
  "says_yes answer \<longleftrightarrow> to_lower (trim answer) = ''yes''"

definition with_rules :: "(rule_error + 'r rules) \<Rightarrow> ('r rules \<Rightarrow> 'a) \<Rightarrow> interceptor_error + 'a" where
  "with_rules rs f = map_ok f (map_err (\<lambda>_. Internal) rs)"

definition guard_tool_call ::
  "'r regex_engine \<Rightarrow> (rule_error + 'r rules) \<Rightarrow> tool_call \<Rightarrow> string option
     \<Rightarrow> interceptor_error + decision" where
  "guard_tool_call E rs call answer =
     map_ok (\<lambda>review.
       (case review of
          None \<Rightarrow> Proceed
        | Some v \<Rightarrow>
            (case dv_act v of
               ActBlock \<Rightarrow> Block (bquote (tc_name call) @ '' was refused by a guardrail: '' @ dv_reason v)
             | ActAsk \<Rightarrow>
                 (case answer of
                    None \<Rightarrow> Ask (guard_prompt (tc_name call) (dv_reason v))
                  | Some a \<Rightarrow>
                      if says_yes a then Proceed
                      else Block (bquote (tc_name call) @ '' was refused: '' @ dv_reason v)))))
       (with_rules rs (\<lambda>rules. review_tool_call E rules (tc_name call) (tc_arguments call)))"

definition guard_after_response ::
  "'r regex_engine \<Rightarrow> (rule_error + 'r rules) \<Rightarrow> raw_response \<Rightarrow> interceptor_error + decision" where
  "guard_after_response E rs response =
     map_ok (\<lambda>review.
       (case review of
          None \<Rightarrow> Proceed
        | Some (Redacted s) \<Rightarrow> Replace (SAfterResponse (response\<lparr>rr_text := s\<rparr>))
        | Some (TextBlocked reason) \<Rightarrow> Block (''the response was refused by a guardrail: '' @ reason)))
       (with_rules rs (\<lambda>rules. review_text E rules (rr_text response)))"

definition guard_finalize ::
  "'r regex_engine \<Rightarrow> (rule_error + 'r rules) \<Rightarrow> string \<Rightarrow> interceptor_error + decision" where
  "guard_finalize E rs answer =
     map_ok (\<lambda>review.
       (case review of
          None \<Rightarrow> Proceed
        | Some (Redacted s) \<Rightarrow> Replace (SFinalize s)
        | Some (TextBlocked reason) \<Rightarrow> Block (''the answer was refused by a guardrail: '' @ reason)))
       (with_rules rs (\<lambda>rules. review_text E rules answer))"

fun first_block :: "text_verdict option list \<Rightarrow> string option" where
  "first_block [] = None"
| "first_block (Some (TextBlocked reason) # vs) = Some reason"
| "first_block (v # vs) = first_block vs"

fun apply_review :: "message \<times> text_verdict option \<Rightarrow> message" where
  "apply_review (m, Some (Redacted s)) = m\<lparr>msg_content := s\<rparr>"
| "apply_review (m, v) = m"

definition guard_select_context ::
  "'r regex_engine \<Rightarrow> (rule_error + 'r rules) \<Rightarrow> pending_request \<Rightarrow> interceptor_error + decision" where
  "guard_select_context E rs req =
     map_ok (\<lambda>reviewed.
       (case first_block reviewed of
          Some reason \<Rightarrow> Block (''the request was refused by a guardrail: '' @ reason)
        | None \<Rightarrow>
            if list_all (\<lambda>v. v = None) reviewed then Proceed
            else Replace (SSelectContext
              (req\<lparr>pr_messages := map apply_review (zip (pr_messages req) reviewed)\<rparr>))))
       (with_rules rs (\<lambda>rules. map (\<lambda>m. review_text E rules (msg_content m)) (pr_messages req)))"

definition guard_intercept ::
  "'r regex_engine \<Rightarrow> (rule_error + 'r rules) \<Rightarrow> intercept_input \<Rightarrow> 'w
     \<Rightarrow> (interceptor_error + decision) \<times> 'w" where
  "guard_intercept E rs inp w =
     ((case in_state inp of
         SToolCall call \<Rightarrow> guard_tool_call E rs call (in_answer inp)
       | SAfterResponse response \<Rightarrow> guard_after_response E rs response
       | SFinalize answer \<Rightarrow> guard_finalize E rs answer
       | SSelectContext req \<Rightarrow> guard_select_context E rs req
       | _ \<Rightarrow> Inl InvalidState), w)"

definition guardrails :: "'r regex_engine \<Rightarrow> (rule_error + 'r rules) \<Rightarrow> 'w interceptor" where
  "guardrails E rs =
     \<lparr>icp_id = ''interceptor-guardrails'',
      icp_phases = [PSelectContext, PAfterResponse, PToolCall, PFinalize],
      icp_intercept = guard_intercept E rs\<rparr>"

section \<open>The guard settles\<close>

interpretation guard: settling "guard_intercept E rs" for E :: "'r regex_engine" and rs
proof
  fix inp :: intercept_input and w :: 'w and q
  assume "in_answer inp \<noteq> None"
  then show "fst (guard_intercept E rs inp w) \<noteq> Inr (Ask q)"
    by (cases rs)
      (auto simp: guard_intercept_def guard_tool_call_def guard_after_response_def guard_finalize_def
        guard_select_context_def with_rules_def
        split: hook_state.splits option.splits deny_act.splits text_verdict.splits)
qed

lemma guardrails_settles: "settles (guardrails E rs)"
  by (rule guard.settles_record [of _ E rs]) (simp add: guardrails_def)

section \<open>Tool calls\<close>

text \<open>A call is cleared when no rule fires on it, or the rule that fires asks and the user said yes.\<close>

definition cleared :: "'r regex_engine \<Rightarrow> (rule_error + 'r rules) \<Rightarrow> obs list \<Rightarrow> tool_call \<Rightarrow> bool" where
  "cleared E rs t c \<longleftrightarrow>
     (case rs of
        Inl e \<Rightarrow> False
      | Inr rules \<Rightarrow>
          (case review_tool_call E rules (tc_name c) (tc_arguments c) of
             None \<Rightarrow> True
           | Some v \<Rightarrow> dv_act v = ActAsk \<and>
               (\<exists>a. says_yes a \<and> OAsk (guard_prompt (tc_name c) (dv_reason v)) a \<in> set t)))"

lemma cleared_append: "cleared E rs t c \<Longrightarrow> cleared E rs (t @ u) c"
  by (auto simp: cleared_def split: sum.splits option.splits)

lemma guardrails_simps [simp]:
  "icp_phases (guardrails E rs) = [PSelectContext, PAfterResponse, PToolCall, PFinalize]"
  "icp_intercept (guardrails E rs) = guard_intercept E rs"
  by (simp_all add: guardrails_def)

lemma guard_answered:
  assumes "ask_loop d (obs_interceptor (guardrails E rs)) PToolCall (SToolCall c) (Some a) wt
    = Some (Inr st', wt')"
    and "rs = Inr rules" "review_tool_call E rules (tc_name c) (tc_arguments c) = Some v"
  shows "st' = SToolCall c \<and> dv_act v = ActAsk \<and> says_yes a \<and> (\<exists>t. snd wt' = snd wt @ t)"
  using assms(1)
  by (subst (asm) ask_loop.simps)
    (auto simp: assms(2,3) guard_intercept_def guard_tool_call_def with_rules_def
      split: deny_act.splits if_splits)

lemma guard_lets_through:
  assumes "ask_loop (obs_driver d) (obs_interceptor (guardrails E rs)) PToolCall (SToolCall c) None wt
    = Some (Inr st', wt')"
  shows "st' = SToolCall c \<and> cleared E rs (snd wt') c"
proof -
  note eq = assms [unfolded ask_loop.simps [of "obs_driver d"
    "obs_interceptor (guardrails E rs)" PToolCall "SToolCall c" None wt]]
  show ?thesis
  proof (cases "\<exists>rules v. rs = Inr rules \<and>
      review_tool_call E rules (tc_name c) (tc_arguments c) = Some v \<and> dv_act v = ActAsk")
    case False
    with eq show ?thesis
      by (cases rs; cases "\<exists>rules. rs = Inr rules \<and> review_tool_call E rules (tc_name c) (tc_arguments c) = None")
        (auto simp: guard_intercept_def guard_tool_call_def with_rules_def cleared_def
          split: option.splits deny_act.splits)
  next
    case True
    then obtain rules v where v: "rs = Inr rules"
      "review_tool_call E rules (tc_name c) (tc_arguments c) = Some v" "dv_act v = ActAsk" by blast
    let ?q = "guard_prompt (tc_name c) (dv_reason v)"
    obtain a u where step: "ask_loop (obs_driver d) (obs_interceptor (guardrails E rs)) PToolCall
        (SToolCall c) (Some a) u = Some (Inr st', wt')" "OAsk ?q a \<in> set (snd u)"
      using eq v
      by (auto simp: guard_intercept_def guard_tool_call_def with_rules_def)
    show ?thesis
      using guard_answered [OF step(1) v(1,2)] step(2) v by (auto simp: cleared_def)
  qed
qed

text \<open>
  The guard reads the state it is handed, whatever its case. Nothing in the host makes an interceptor answer with a state of
  the phase's own case (\<open>intercept.rs\<close> only documents it): one that hands on another state at \<open>tool-call\<close> makes the
  conductor fall back on the call the guard never saw. \<open>strayed\<close> is that event, read off the recorded consultations.
\<close>

fun is_tool_call :: "hook_state \<Rightarrow> bool" where
  "is_tool_call (SToolCall c) = True"
| "is_tool_call _ = False"

lemma is_tool_call_iff [simp]: "is_tool_call st \<longleftrightarrow> (\<exists>c. st = SToolCall c)"
  by (cases st) simp_all

definition strayed :: "obs list \<Rightarrow> bool" where
  "strayed t \<longleftrightarrow> (\<exists>name inp st. OIntercept name inp (Inr (Replace st)) \<in> set t \<and>
     in_phase inp = PToolCall \<and> \<not> is_tool_call st)"

lemma strayed_append: "strayed (t @ u) \<longleftrightarrow> strayed t \<or> strayed u"
  unfolding strayed_def set_append by blast

lemma let_through_keeps:
  "let_through i st ans t st' \<Longrightarrow> is_tool_call st \<Longrightarrow> is_tool_call st' \<or> strayed t"
  by (induction rule: let_through.induct) (fastforce simp: strayed_def)+

lemma round_keeps:
  "round_cleared is st t st' \<Longrightarrow> is_tool_call st \<Longrightarrow> is_tool_call st' \<or> strayed t"
proof (induction "is" arbitrary: st t)
  case (Cons i "is")
  then obtain t1 t2 st1 where "t = t1 @ t2" "let_through i st None t1 st1" "round_cleared is st1 t2 st'" by auto
  with Cons.IH [of st1 t2] let_through_keeps [of i st None t1 st1] Cons.prems(2)
  show ?case by (auto simp: strayed_append)
qed auto

text \<open>The guard is the last to be consulted at a phase when no interceptor loaded after it subscribes to the phase.\<close>

definition last_at :: "'w env \<Rightarrow> 'w interceptor list \<Rightarrow> 'w interceptor \<Rightarrow> phase \<Rightarrow> bool" where
  "last_at e xs g ph \<longleftrightarrow> ph \<in> set (icp_phases g) \<and>
     (\<exists>ys. env_interceptors e = xs @ g # ys \<and> (\<forall>i \<in> set ys. ph \<notin> set (icp_phases i)))"

lemma last_at_dispatch:
  assumes "last_at e xs g ph" "dispatch_env e ph st w = Some (Proceeded, st', w')"
  obtains st1 w1 where "dispatch (env_driver e) xs ph st w = Some (Proceeded, st1, w1)"
    "ask_loop (env_driver e) g ph st1 None w1 = Some (Inr st', w')"
proof -
  from assms(1) obtain ys where e: "env_interceptors e = xs @ g # ys"
    "ph \<in> set (icp_phases g)" "\<forall>i \<in> set ys. ph \<notin> set (icp_phases i)"
    by (auto simp: last_at_def)
  with assms(2) show thesis
    unfolding dispatch_env_def e(1) by (elim dispatch_last) (auto intro: that)
qed

lemma last_at_observe:
  "last_at e xs g ph \<Longrightarrow> last_at (observe e) (map obs_interceptor xs) (obs_interceptor g) ph"
  unfolding last_at_def by (elim conjE exE) (rule conjI, simp, rule_tac x = "map obs_interceptor ys" in exI, simp)

text \<open>Every invocation on the list is cleared, but for a list with a stray in it.\<close>

definition guarded :: "'r regex_engine \<Rightarrow> (rule_error + 'r rules) \<Rightarrow> obs list \<Rightarrow> bool" where
  "guarded E rs t \<longleftrightarrow> strayed t \<or> (\<forall>c \<in> set (invoked t). cleared E rs t c)"

lemma guarded_quiet: "guarded E rs t \<Longrightarrow> invoked u = [] \<Longrightarrow> guarded E rs (t @ u)"
  using cleared_append [of E rs t] by (auto simp: guarded_def strayed_append)

lemma guarded_dispatch:
  assumes "last_at e xs (guardrails E rs) PToolCall"
    "dispatch_env (observe e) PToolCall (SToolCall call) wt = Some (Proceeded, st, wt')"
  shows "(\<exists>c. st = SToolCall c \<and> cleared E rs (snd wt') c) \<or> strayed (snd wt')"
proof -
  have g: "last_at (observe e) (map obs_interceptor xs) (obs_interceptor (guardrails E rs)) PToolCall"
    using assms(1) by (rule last_at_observe)
  obtain st1 w1 where
    d: "dispatch (env_driver (observe e)) (map obs_interceptor xs) PToolCall (SToolCall call) wt = Some (Proceeded, st1, w1)"
      and a: "ask_loop (env_driver (observe e)) (obs_interceptor (guardrails E rs)) PToolCall st1 None w1 = Some (Inr st, wt')"
    using g assms(2) by (rule last_at_dispatch)
  from d have "dispatch (obs_driver (env_driver e)) (map obs_interceptor xs) PToolCall (SToolCall call) wt
      = Some (Proceeded, st1, w1)" by simp
  then obtain t where t: "snd w1 = snd wt @ t" "round_cleared (gatekeepers xs) (SToolCall call) t st1"
    using dispatch_consults by blast
  from a have a': "ask_loop (obs_driver (env_driver e)) (obs_interceptor (guardrails E rs)) PToolCall st1 None w1
      = Some (Inr st, wt')" by simp
  from ask_loop_consults [OF a'] obtain u where u: "snd wt' = snd w1 @ u" by auto
  show ?thesis
  proof (cases "is_tool_call st1")
    case True
    with a' guard_lets_through show ?thesis by (metis is_tool_call_iff)
  next
    case False
    with round_keeps [OF t(2)] t(1) u show ?thesis by (simp add: strayed_append)
  qed
qed

lemma guarded_gate_and_invoke:
  assumes "last_at e xs (guardrails E rs) PToolCall" "guarded E rs (snd wt)"
    "gate_and_invoke (observe e) call stop wt = Some (iv, stop', wt')"
  shows "guarded E rs (snd wt')"
proof -
  obtain out st wt1 where d: "dispatch_env (observe e) PToolCall (SToolCall call) wt = Some (out, st, wt1)"
    using assms(3) by (auto simp: gate_and_invoke_def split: option.splits)
  obtain t where t: "snd wt1 = snd wt @ t" "consults PToolCall t"
    using dispatch_env_consults [OF d] by metis
  then have g1: "guarded E rs (snd wt1)" using assms(2) by (simp add: guarded_quiet)
  show ?thesis
  proof (cases out)
    case (Blocked reason)
    then show ?thesis using assms(3) d guarded_quiet [OF g1] by (auto simp: gate_and_invoke_def emit_def)
  next
    case Proceeded
    obtain u c where u: "snd wt' = snd wt1 @ u" "invoked u = [c]" "\<And>c'. st = SToolCall c' \<Longrightarrow> c = c'"
      using assms(3) d Proceeded
      by (auto simp: gate_and_invoke_def Let_def split: prod.splits)
    have "(\<exists>c. st = SToolCall c \<and> cleared E rs (snd wt1) c) \<or> strayed (snd wt1)"
      using guarded_dispatch [OF assms(1)] d Proceeded by blast
    with u g1 cleared_append [of E rs "snd wt1"] show ?thesis
      by (auto simp: guarded_def strayed_append)
  qed
qed

text \<open>C3 (guarded_calls): With the guardrails loaded last of those subscribed to \<open>tool-call\<close>, every call a pass over the
  model's tool calls invokes is cleared, as it is invoked: the rules are well formed and no rule fires on it, or the first rule
  that fires asks and the user answered yes to that question. The one exception is visible in the trace: an interceptor
  answered \<open>tool-call\<close> with a state that is not a tool call, which the host accepts.\<close>

theorem guarded_calls:
  assumes "last_at e xs (guardrails E rs) PToolCall"
    "run_tool_calls (observe e) calls stop req (w, []) = Some (pass, req', (w', t))"
  shows "(\<forall>c \<in> set (invoked t). cleared E rs t c) \<or>
    (\<exists>name inp st. OIntercept name inp (Inr (Replace st)) \<in> set t \<and>
       in_phase inp = PToolCall \<and> (\<forall>c. st \<noteq> SToolCall c))"
proof -
  have "guarded E rs (snd wt')" if "guarded E rs (snd wt)"
    "run_tool_calls (observe e) calls stop req wt = Some (pass, req', wt')" for wt wt'
    using that
  proof (induction calls arbitrary: stop req wt)
    case (Cons call calls)
    from Cons.prems(2) obtain iv stop1 wt1 where
      g: "gate_and_invoke (observe e) call stop wt = Some (iv, stop1, wt1)"
      by (auto split: option.splits)
    let ?st = "SToolResult \<lparr>out_tool_call_id = tc_id call, out_content = inv_content iv,
      out_failed = inv_failed iv\<rparr>"
    from Cons.prems(2) g obtain out st wt2 where
      d: "dispatch_env (observe e) PToolResult ?st wt1 = Some (out, st, wt2)"
      by (auto split: option.splits)
    obtain u where "snd wt2 = snd wt1 @ u" "consults PToolResult u"
      using dispatch_env_consults [OF d] by metis
    with guarded_gate_and_invoke [OF assms(1) Cons.prems(1) g] have g2: "guarded E rs (snd wt2)"
      by (simp add: guarded_quiet)
    from Cons.prems(2) g d obtain stop2 m ev where
      "run_tool_calls (observe e) calls stop2 (push_message req m)
        (snd (env_emit e ev (fst wt2)), snd wt2 @ [OEmit ev]) = Some (pass, req', wt')"
      by (auto simp: Let_def split: prod.splits)
    from Cons.IH [OF _ this] g2 show ?case by (simp add: guarded_quiet)
  qed auto
  from this [of "(w, [])" "(w', t)"] assms(2) show ?thesis
    by (auto simp: guarded_def strayed_def)
qed

section \<open>Text\<close>

lemma unblocked_text:
  assumes "\<forall>reason. review_text E rules s \<noteq> Some (TextBlocked reason)"
  shows "\<not> (\<exists>r \<in> set (redact rules). blocks_text E s r)"
  using assms by (auto simp: review_text_def find_None_iff split: option.splits)

lemma guard_post_phase:
  assumes "env_interceptors e = [guardrails E (Inr rules)]" "ph \<in> {PAfterResponse, PFinalize}"
  shows "post_phase e ph s w = Some (case review_text E rules s of Some (Redacted t) \<Rightarrow> t | _ \<Rightarrow> s, w)"
proof -
  note step = ask_loop.simps [of "env_driver e" "guardrails E (Inr rules)" ph _ None w]
  show ?thesis
    using assms(2)
    by (auto simp: post_phase_def dispatch_env_def assms(1) step guard_intercept_def
        guard_after_response_def guard_finalize_def with_rules_def
        split: option.split text_verdict.split)
qed

text \<open>A blocking \<open>redact\<close> rule does not stop text at \<open>after-response\<close> or
  \<open>finalize\<close>: the conductor drops the outcome of these phases, so the text a rule refuses is passed on
  unchanged, unredacted by the other rules.\<close>

theorem blocked_text_goes_out:
  assumes "env_interceptors e = [guardrails E (Inr rules)]"
    "ph = PAfterResponse \<or> ph = PFinalize" "r \<in> set (redact rules)" "blocks_text E s r"
  shows "post_phase e ph s w = Some (s, w)"
proof -
  have "\<exists>reason. review_text E rules s = Some (TextBlocked reason)"
    using assms(3,4) unblocked_text [of E rules s] by blast
  then show ?thesis using guard_post_phase [OF assms(1), of ph s w] assms(2) by auto
qed

definition reviewed_message :: "'r regex_engine \<Rightarrow> 'r rules \<Rightarrow> message \<Rightarrow> message" where
  "reviewed_message E rules m = apply_review (m, review_text E rules (msg_content m))"

lemma first_block_None: "first_block vs = None \<longleftrightarrow> (\<forall>v \<in> set vs. \<forall>reason. v \<noteq> Some (TextBlocked reason))"
  by (induction vs rule: first_block.induct) auto

lemma apply_review_zip:
  "map apply_review (zip ms (map f ms)) = map (\<lambda>m. apply_review (m, f m)) ms"
  by (induction ms) auto

lemma guard_context:
  assumes "ask_loop d (guardrails E (Inr rules)) PSelectContext (SSelectContext req) None w
    = Some (Inr st', w')"
  shows "st' = SSelectContext (req\<lparr>pr_messages := map (reviewed_message E rules) (pr_messages req)\<rparr>) \<and>
    (\<forall>m \<in> set (pr_messages req). \<forall>r \<in> set (redact rules). \<not> blocks_text E (msg_content m) r)"
proof -
  let ?f = "\<lambda>m. review_text E rules (msg_content m)"
  have none: "first_block (map ?f (pr_messages req)) = None"
    and st': "st' = (if list_all (\<lambda>v. v = None) (map ?f (pr_messages req)) then SSelectContext req
      else SSelectContext (req\<lparr>pr_messages := map apply_review (zip (pr_messages req) (map ?f (pr_messages req)))\<rparr>))"
    using assms
    by (auto simp: ask_loop.simps [of d _ _ _ None] guard_intercept_def guard_select_context_def with_rules_def
        split: option.splits if_splits)
  have "map (reviewed_message E rules) (pr_messages req) = pr_messages req"
    if "list_all (\<lambda>v. v = None) (map ?f (pr_messages req))"
    using that by (intro map_idI) (simp add: reviewed_message_def list_all_iff)
  moreover have "\<forall>r \<in> set (redact rules). \<not> blocks_text E (msg_content m) r" if "m \<in> set (pr_messages req)" for m
    using none that unblocked_text [of E rules "msg_content m"] by (auto simp: first_block_None)
  ultimately show ?thesis
    using st' by (auto simp: apply_review_zip reviewed_message_def [abs_def])
qed

text \<open>What the guard makes of the state it finds at \<open>select-context\<close>, as far as the request goes on.\<close>

lemma ask_loop_keeps_aux:
  assumes "ask_loop d i ph st ans w = Some y"
  shows "(\<forall>ans w s. fst (icp_intercept i \<lparr>in_phase = ph, in_state = st, in_answer = ans\<rparr> w) = Inr (Replace s) \<longrightarrow> K s) \<longrightarrow>
    K st \<longrightarrow> (case fst y of Inl _ \<Rightarrow> True | Inr st' \<Rightarrow> K st')"
proof (rule ask_loop.raw_induct [OF _ assms], intro impI, goal_cases)
  case (1 f d i ph st ans w y)
  obtain r w1 where r: "icp_intercept i \<lparr>in_phase = ph, in_state = st, in_answer = ans\<rparr> w = (r, w1)"
    by fastforce
  have keeps: "K st'" if "r = Inr (Replace st')" for st'
    using 1(3) r that by (metis fst_conv)
  show ?case
  proof (cases "\<exists>p. r = Inr (Ask p)")
    case False
    with 1(2,4) r keeps show ?thesis by (auto split: sum.splits decision.splits if_splits)
  next
    case True
    then obtain p where p: "r = Inr (Ask p)" ..
    obtain a w2 where "drv_ask d p w1 = (a, w2)" by fastforce
    with 1(2) r p have "f d i ph st (Some a) w2 = Some y" by simp
    from 1(1) [OF this] 1(3,4) show ?thesis by simp
  qed
qed

lemma guard_replaces:
  assumes "fst (guard_intercept E rs \<lparr>in_phase = ph, in_state = st, in_answer = ans\<rparr> w) = Inr (Replace s)"
  shows "(\<exists>r1 rules. (st, rs) = (SSelectContext r1, Inr rules)) \<or> shaped_request s = shaped_request st"
proof (cases rs)
  case (Inl err)
  with assms show ?thesis
    by (cases st) (simp_all add: guard_intercept_def guard_tool_call_def guard_after_response_def
      guard_finalize_def guard_select_context_def with_rules_def)
next
  case (Inr rules)
  with assms show ?thesis
    by (cases st) (auto simp: guard_intercept_def guard_tool_call_def guard_after_response_def
      guard_finalize_def with_rules_def split: option.splits deny_act.splits text_verdict.splits if_splits)
qed

lemma guard_outside:
  assumes "ask_loop d (guardrails E rs) PSelectContext st ans w = Some (Inr st', w')"
    "\<not> (\<exists>r1 rules. (st, rs) = (SSelectContext r1, Inr rules))"
  shows "shaped_request st' = shaped_request st"
  using ask_loop_keeps_aux [OF assms(1), of "\<lambda>s. shaped_request s = shaped_request st"]
    guard_replaces [of E rs PSelectContext st] assms(2)
  by (simp only: guardrails_simps fst_conv sum.case simp_thms) blast

lemma guard_shapes:
  assumes "ask_loop d (guardrails E rs) PSelectContext st None w = Some (Inr st', w')" "shaped_request st' = Some req'"
  shows "case (st, rs) of
      (SSelectContext r1, Inr rules) \<Rightarrow>
        req' = r1\<lparr>pr_messages := map (reviewed_message E rules) (pr_messages r1)\<rparr> \<and>
        (\<forall>m \<in> set (pr_messages r1). \<forall>r \<in> set (redact rules). \<not> blocks_text E (msg_content m) r)
    | _ \<Rightarrow> shaped_request st = Some req'"
proof (cases "\<exists>r1 rules. (st, rs) = (SSelectContext r1, Inr rules)")
  case True
  then obtain r1 rules where st: "st = SSelectContext r1" "rs = Inr rules" by blast
  show ?thesis using guard_context [OF assms(1) [unfolded st]] assms(2) by (simp add: st)
next
  case False
  with guard_outside [OF assms(1)] assms(2) have "shaped_request st = Some req'" by simp
  with False show ?thesis by (cases st; cases rs) simp_all
qed

text \<open>C26 (context_reviewed): With the guardrails loaded last of those subscribed to \<open>select-context\<close>, a request that
  phase lets on is the one the interceptors before left, with every message's text rewritten by the rules, and no message of
  it matched a blocking rule before the rewriting. When the rule set is broken, or the interceptors before left the state of another
  phase, the request goes on as they left it, unreviewed: the phase fails open.\<close>

theorem context_reviewed:
  assumes "last_at e xs (guardrails E rs) PSelectContext"
    "shape e PSelectContext req w = Some (Inr req', w')"
  shows "\<exists>st w1. dispatch (env_driver e) xs PSelectContext (SSelectContext req) w = Some (Proceeded, st, w1) \<and>
    (case (st, rs) of
       (SSelectContext r1, Inr rules) \<Rightarrow>
         req' = r1\<lparr>pr_messages := map (reviewed_message E rules) (pr_messages r1)\<rparr> \<and>
         (\<forall>m \<in> set (pr_messages r1). \<forall>r \<in> set (redact rules). \<not> blocks_text E (msg_content m) r)
     | _ \<Rightarrow> shaped_request st = Some req')"
proof -
  obtain st' where d: "dispatch_env e PSelectContext (SSelectContext req) w = Some (Proceeded, st', w')"
    and req': "shaped_request st' = Some req'"
    using assms(2) by (auto simp: shape_def split: option.splits outcome.splits)
  obtain st w1 where b: "dispatch (env_driver e) xs PSelectContext (SSelectContext req) w = Some (Proceeded, st, w1)"
      and g: "ask_loop (env_driver e) (guardrails E rs) PSelectContext st None w1 = Some (Inr st', w')"
    using assms(1) d by (rule last_at_dispatch)
  show ?thesis by (intro exI conjI) (rule b, rule guard_shapes [OF g req'])
qed

section \<open>Concrete rules\<close>

text \<open>A pattern engine that finds the pattern's text literally, and rules over it.\<close>

definition literal_engine :: "string regex_engine" where
  "literal_engine = \<lparr>re_new = Some, re_is_match = contains_text,
     re_replace_all = (\<lambda>p s r. if contains_text p s then r else s)\<rparr>"

definition demo_rules :: "string rules" where
  "demo_rules =
     \<lparr>deny_tool_arguments =
        [\<lparr>dr_pattern = ''rm'', dr_tool = None, dr_reason = ''delete'', dr_act = ActBlock\<rparr>],
      redact =
        [\<lparr>tr_pattern = ''key'', tr_with = ''[redacted]'', tr_reason = ''a key'', tr_act = TextReplace\<rparr>,
         \<lparr>tr_pattern = ''secret'', tr_with = [], tr_reason = ''a secret'', tr_act = TextBlock\<rparr>]\<rparr>"

definition guarded_env :: "nat env" where
  "guarded_env =
     \<lparr>env_interceptors = [guardrails literal_engine (Inr demo_rules)], env_providers = [],
      env_tools = NoTools, env_driver = \<lparr>drv_ask = (\<lambda>p w. (''no'', w)), drv_follow_up = (\<lambda>w. (None, w))\<rparr>,
      env_emit = NoSink, env_on_effective = (\<lambda>_ w. w)\<rparr>"

definition plain_request :: "string \<Rightarrow> pending_request" where
  "plain_request s =
     \<lparr>pr_model = None, pr_messages = [plain_message User s], pr_tools = [], pr_grammar = None,
      pr_max_tokens = None, pr_temperature = None\<rparr>"

definition call_of :: "string \<Rightarrow> tool_call" where
  "call_of arguments = \<lparr>tc_id = ''1'', tc_name = ''shell'', tc_arguments = arguments\<rparr>"

lemma literal_reviews:
  "review_tool_call literal_engine demo_rules ''shell'' ''ls'' = None"
  "review_tool_call literal_engine demo_rules ''shell'' ''rm'' = Some \<lparr>dv_reason = ''delete'', dv_act = ActBlock\<rparr>"
  "review_text literal_engine demo_rules ''my key'' = Some (Redacted ''[redacted]'')"
  by code_simp+

lemma demo_guarded:
  "last_at guarded_env [] (guardrails literal_engine (Inr demo_rules)) PToolCall"
  "last_at guarded_env [] (guardrails literal_engine (Inr demo_rules)) PSelectContext"
  by (simp_all add: last_at_def guarded_env_def)

theorem guarded_calls_witness:
  "\<exists>pass req' w' t. run_tool_calls (observe guarded_env) [call_of ''rm'', call_of ''ls''] TContinue
       (plain_request []) (0, []) = Some (pass, req', (w', t)) \<and> \<not> strayed t \<and>
     invoked t = [call_of ''ls''] \<and> cleared literal_engine (Inr demo_rules) t (call_of ''ls'')"
proof -
  have "\<exists>pass req' w' t. run_tool_calls (observe guarded_env) [call_of ''rm'', call_of ''ls''] TContinue
       (plain_request []) (0, []) = Some (pass, req', (w', t)) \<and> \<not> strayed t \<and> invoked t = [call_of ''ls'']"
    by (simp add: gate_and_invoke_def dispatch_env_def guarded_env_def ask_loop.simps [of _ _ _ _ None]
        guard_intercept_def guard_tool_call_def with_rules_def call_of_def literal_reviews NoTools_def NoSink_def
        emit_def Let_def strayed_def)
  then obtain pass req' w' t where run: "run_tool_calls (observe guarded_env)
      [call_of ''rm'', call_of ''ls''] TContinue (plain_request []) (0, []) = Some (pass, req', (w', t))"
    and t: "\<not> strayed t" "invoked t = [call_of ''ls'']" by (elim exE conjE)
  have "cleared literal_engine (Inr demo_rules) t (call_of ''ls'')"
    using guarded_calls [OF demo_guarded(1) run] t by (simp add: strayed_def) blast
  with run t show ?thesis by (intro exI conjI)
qed

theorem blocked_text_goes_out_witness:
  "post_phase guarded_env PFinalize ''secret key'' 0 = Some (''secret key'', 0)"
proof -
  have "blocks_text literal_engine ''secret key''
      \<lparr>tr_pattern = ''secret'', tr_with = [], tr_reason = ''a secret'', tr_act = TextBlock\<rparr>"
    by code_simp
  with blocked_text_goes_out [of guarded_env literal_engine demo_rules PFinalize
      "\<lparr>tr_pattern = ''secret'', tr_with = [], tr_reason = ''a secret'', tr_act = TextBlock\<rparr>" "''secret key''" 0]
  show ?thesis by (simp add: guarded_env_def demo_rules_def)
qed

theorem context_reviewed_witness:
  "\<exists>req' w'. shape guarded_env PSelectContext (plain_request ''my key'') 0 = Some (Inr req', w') \<and>
     req' = (plain_request ''my key'')\<lparr>pr_messages :=
        map (reviewed_message literal_engine demo_rules) (pr_messages (plain_request ''my key''))\<rparr> \<and>
     map msg_content (pr_messages req') = [''[redacted]'']"
proof -
  have "\<exists>req' w'. shape guarded_env PSelectContext (plain_request ''my key'') 0 = Some (Inr req', w') \<and>
     map msg_content (pr_messages req') = [''[redacted]'']"
    by (simp add: shape_def dispatch_env_def guarded_env_def ask_loop.simps [of _ _ _ _ None]
        guard_intercept_def guard_select_context_def with_rules_def plain_request_def plain_message_def
        literal_reviews)
  then obtain req' w' where run: "shape guarded_env PSelectContext (plain_request ''my key'') 0
      = Some (Inr req', w')" and c: "map msg_content (pr_messages req') = [''[redacted]'']" by (elim exE conjE)
  from context_reviewed [OF demo_guarded(2) run] have
    "req' = (plain_request ''my key'')\<lparr>pr_messages :=
       map (reviewed_message literal_engine demo_rules) (pr_messages (plain_request ''my key''))\<rparr>"
    by simp
  with run c show ?thesis by (intro exI conjI)
qed

end
