(* ===== verification/Turn_Invariant.thy ===== *)
theory Turn_Invariant
  imports Conductor
begin

text \<open>
  What holds across a whole turn because each outside call keeps it: a predicate on the world that
  every interceptor, provider, tool, driver and sink call of an environment keeps is kept by every
  stage of the conductor, and by \<open>run_turn\<close>. The parties' contract is the locale \<open>turn_invariant\<close>;
  the theories that use it interpret it on their own environments.
\<close>

locale turn_invariant =
  fixes e :: "'w env" and P :: "'w \<Rightarrow> bool"
  assumes intercept: "i \<in> set (env_interceptors e) \<Longrightarrow> P w \<Longrightarrow> P (snd (icp_intercept i inp w))"
    and complete: "p \<in> set (env_providers e) \<Longrightarrow> P w \<Longrightarrow> P (snd (prov_complete p req w))"
    and bind: "P w \<Longrightarrow> P (tools_bind_session (env_tools e) s w)"
    and invoke: "P w \<Longrightarrow> P (snd (tools_invoke_asking (env_tools e) c (env_driver e) w))"
    and ask: "P w \<Longrightarrow> P (snd (drv_ask (env_driver e) q w))"
    and follow: "P w \<Longrightarrow> P (snd (drv_follow_up (env_driver e) w))"
    and emits: "P w \<Longrightarrow> P (snd (env_emit e ev w))"
    and effective: "P w \<Longrightarrow> P (env_on_effective e m w)"
begin

lemma keeps_ask_loop:
  assumes "ask_loop d i ph st ans w = Some y"
  shows "d = env_driver e \<longrightarrow> i \<in> set (env_interceptors e) \<longrightarrow> P w \<longrightarrow> P (snd y)"
proof (rule ask_loop.raw_induct [OF _ assms], intro impI, goal_cases)
  case (1 f d i ph st ans w y)
  obtain r w1 where r: "icp_intercept i \<lparr>in_phase = ph, in_state = st, in_answer = ans\<rparr> w = (r, w1)"
    by fastforce
  with intercept [OF 1(4,5), of "\<lparr>in_phase = ph, in_state = st, in_answer = ans\<rparr>"] have w1: "P w1"
    by simp
  show ?case
  proof (cases "\<exists>p. r = Inr (Ask p)")
    case False
    with 1(2) r w1 show ?thesis by (auto split: sum.splits decision.splits)
  next
    case True
    then obtain p where p: "r = Inr (Ask p)" ..
    obtain a w2 where a: "drv_ask d p w1 = (a, w2)" by fastforce
    with ask [OF w1, of p] 1(3) have "P w2" by simp
    moreover from 1(2) r p a have "f d i ph st (Some a) w2 = Some y" by simp
    ultimately show ?thesis using 1 by blast
  qed
qed

lemma keeps_dispatch:
  "set is \<subseteq> set (env_interceptors e) \<Longrightarrow> P w \<Longrightarrow>
     dispatch (env_driver e) is ph st w = Some (out, st', w') \<Longrightarrow> P w'"
proof (induction "is" arbitrary: st w)
  case (Cons i "is")
  show ?case
  proof (cases "ph \<in> set (icp_phases i)")
    case True
    with Cons.prems(3) obtain r w1 where l: "ask_loop (env_driver e) i ph st None w = Some (r, w1)"
      by (auto split: option.splits)
    with keeps_ask_loop [OF l] Cons.prems have "P w1" by simp
    with Cons True l show ?thesis by (auto split: sum.splits)
  qed (use Cons in auto)
qed auto

lemma dispatch_env_keeps: "dispatch_env e ph st w = Some (out, st', w') \<Longrightarrow> P w \<Longrightarrow> P w'"
  unfolding dispatch_env_def by (rule keeps_dispatch [OF subset_refl])

lemma emit_keeps: "P w \<Longrightarrow> P (emit e ev w)"
  by (simp add: emit_def emits)

lemma env_emit_keeps: "env_emit e ev w = (f, w') \<Longrightarrow> P w \<Longrightarrow> P w'"
  using emits [of w ev] by simp

lemma try_providers_keeps:
  "set ps \<subseteq> set (env_providers e) \<Longrightarrow> P w \<Longrightarrow> P (snd (try_providers e ps req fs w))"
proof (induction ps arbitrary: fs w)
  case (Cons p ps)
  have "P (snd (prov_complete p req w))" using complete [of p w req] Cons.prems by simp
  with Cons show ?case by (auto simp: Let_def emit_keeps split: prod.splits sum.splits)
qed simp

lemma fallback_keeps: "P w \<Longrightarrow> P (snd (complete_with_fallback e req w))"
  by (simp add: complete_with_fallback_def try_providers_keeps)

lemma attempts_keeps: "P w \<Longrightarrow> P (snd (attempts pj e k req w))"
proof (induction k arbitrary: req w)
  case 0
  then show ?case using fallback_keeps [OF 0, of req]
    by (subst attempts.simps) (auto simp: Let_def emit_keeps split: prod.splits sum.splits)
next
  case (Suc k)
  then show ?case using fallback_keeps [OF Suc.prems, of req]
    by (subst attempts.simps) (auto simp: Let_def emit_keeps split: prod.splits sum.splits)
qed

lemma complete_validated_keeps: "complete_validated pj e req w = (r, w') \<Longrightarrow> P w \<Longrightarrow> P w'"
  using attempts_keeps [of w pj MAX_RETRIES req] by (simp add: complete_validated_def)

lemma shape_keeps: "shape e ph req w = Some (r, w') \<Longrightarrow> P w \<Longrightarrow> P w'"
  by (cases ph) (auto simp: shape_def split: option.splits outcome.splits dest!: dispatch_env_keeps)

lemma shape_all_keeps: "shape_all e phs req w = Some (r, w') \<Longrightarrow> P w \<Longrightarrow> P w'"
  by (induction phs arbitrary: req w) (auto split: option.splits sum.splits dest!: shape_keeps)

lemma post_phase_keeps: "post_phase e ph s w = Some (r, w') \<Longrightarrow> P w \<Longrightarrow> P w'"
  by (cases ph) (auto simp: post_phase_def split: option.splits dest!: dispatch_env_keeps)

lemma initial_keeps:
  "build_initial_request e session msg history who w = Some (a, req, w') \<Longrightarrow> P w \<Longrightarrow> P w'"
  by (auto simp: build_initial_request_def Let_def split: option.splits
      dest!: dispatch_env_keeps intro: effective)

lemma note_keeps: "note_incomplete e s note w = (t, w') \<Longrightarrow> P w \<Longrightarrow> P w'"
  by (auto simp: note_incomplete_def Let_def emit_keeps)

lemma cut_short_keeps: "cut_short e s cap w = (t, w') \<Longrightarrow> P w \<Longrightarrow> P w'"
  unfolding cut_short_def by (rule note_keeps)

lemma after_tool_calls_keeps: "after_tool_calls e pass s w = (st, w') \<Longrightarrow> P w \<Longrightarrow> P w'"
  by (auto simp: after_tool_calls_def split: tool_pass.splits prod.splits dest: note_keeps)

lemma no_tool_calls_keeps:
  assumes "handle_no_tool_calls e req n lim s w = Some (st, req', n', w')" "P w"
  shows "P w'"
proof -
  obtain f w1 where f: "drv_follow_up (env_driver e) w = (f, w1)" by (rule prod.exhaust)
  with follow [OF assms(2)] have "P w1" by simp
  with assms(1) f show ?thesis
    by (auto simp: handle_no_tool_calls_def Let_def split: option.splits if_splits prod.splits
        dest!: dispatch_env_keeps cut_short_keeps)
qed

lemma gate_and_invoke_keeps:
  assumes "gate_and_invoke e call stop w = Some (iv, stop', w')" "P w"
  shows "P w'"
proof -
  from assms(1) obtain out st w1 where
    d: "dispatch_env e PToolCall (SToolCall call) w = Some (out, st, w1)"
    by (auto simp: gate_and_invoke_def split: option.splits)
  note w1 = dispatch_env_keeps [OF d assms(2)]
  show ?thesis
  proof (cases out)
    case (Blocked reason)
    with assms(1) d show ?thesis by (auto simp: gate_and_invoke_def emit_keeps [OF w1])
  next
    case Proceeded
    let ?c = "case st of SToolCall c \<Rightarrow> c | _ \<Rightarrow> call"
    obtain f w2 where f: "env_emit e (ToolInvoked ?c) w1 = (f, w2)" by (rule prod.exhaust)
    have "P (snd (tools_invoke_asking (env_tools e) ?c (env_driver e) w2))" by (rule invoke [OF env_emit_keeps [OF f w1]])
    with assms(1) d Proceeded f show ?thesis
      by (auto simp: gate_and_invoke_def Let_def split: prod.splits)
  qed
qed

lemma run_tool_calls_keeps:
  "run_tool_calls e calls stop req w = Some (pass, req', w') \<Longrightarrow> P w \<Longrightarrow> P w'"
proof (induction calls arbitrary: stop req w)
  case (Cons call calls)
  from Cons.prems(1) obtain iv stop1 w1 where g: "gate_and_invoke e call stop w = Some (iv, stop1, w1)"
    by (auto split: option.splits)
  let ?st = "SToolResult \<lparr>out_tool_call_id = tc_id call, out_content = inv_content iv,
    out_failed = inv_failed iv\<rparr>"
  from Cons.prems(1) g obtain out st w2 where d: "dispatch_env e PToolResult ?st w1 = Some (out, st, w2)"
    by (auto split: option.splits)
  have "P w2" by (rule dispatch_env_keeps [OF d gate_and_invoke_keeps [OF g Cons.prems(2)]])
  with Cons.prems(1) g d show ?case
    by (auto simp: Let_def split: prod.splits dest!: env_emit_keeps intro: Cons.IH)
qed simp

lemma run_cycle_keeps:
  assumes "run_cycle pj e lim req n w = Some (res, w')" "P w"
  shows "P w'"
proof -
  obtain r w1 where c: "complete_validated pj e req w = (r, w1)" by (rule prod.exhaust)
  note w1 = complete_validated_keeps [OF c assms(2)]
  show ?thesis
  proof (cases r)
    case (Inl reason)
    with assms(1) c w1 show ?thesis by (auto simp: run_cycle_def emit_keeps)
  next
    case (Inr cmp)
    with assms(1) c obtain s w2 where p: "post_phase e PAfterResponse (cmp_text cmp) w1 = Some (s, w2)"
      by (auto simp: run_cycle_def split: option.splits)
    obtain f w3 where f: "(if s = [] then (Continue, w2) else env_emit e (TextDelta s) w2) = (f, w3)"
      by (rule prod.exhaust)
    have "P w3" using post_phase_keeps [OF p w1] f emits [of w2 "TextDelta s"] by (auto split: if_splits)
    with assms(1) c Inr p f show ?thesis
      by (auto simp: run_cycle_def Let_def split: if_splits option.splits prod.splits
          dest!: note_keeps cut_short_keeps no_tool_calls_keeps run_tool_calls_keeps after_tool_calls_keeps)
  qed
qed

lemma react_loop_keeps: "react_loop pj e lim req n w = Some (r, w') \<Longrightarrow> P w \<Longrightarrow> P w'"
proof (induction "max_iterations lim - n" arbitrary: req n w rule: less_induct)
  case less
  from less.prems(1) obtain res w1 where c: "run_cycle pj e lim req n w = Some (res, w1)"
    by (subst (asm) react_loop.simps) (auto split: option.splits)
  note w1 = run_cycle_keeps [OF c less.prems(2)]
  show ?case
  proof (cases "\<exists>req1 n1. res = CStep LContinue req1 n1")
    case False
    with less.prems(1) c w1 show ?thesis
      by (subst (asm) react_loop.simps) (auto split: cycle_result.splits loop_step.splits)
  next
    case True
    then obtain req1 n1 where res: "res = CStep LContinue req1 n1" by blast
    with less.prems(1) c have "react_loop pj e lim req1 n1 w1 = Some (r, w')"
      by (subst (asm) react_loop.simps) simp
    moreover have "max_iterations lim - n1 < max_iterations lim - n"
      using run_cycle_continue [OF c [unfolded res]] by arith
    ultimately show ?thesis using less.hyps w1 by blast
  qed
qed

text \<open>An answered turn ends with the emission of its answer.\<close>

lemma run_turn_ends:
  assumes "run_turn pj e session msg history lim who w = Some (r, w')" "P w"
  shows "\<exists>w4. P w4 \<and> w' = (case r of Answered s a \<Rightarrow> emit e (Done s a) w4 | Failed _ \<Rightarrow> w4)"
proof -
  from assms(1) obtain agentic req w1 where
    i: "build_initial_request e session msg history who (tools_bind_session (env_tools e) session w)
      = Some (agentic, req, w1)"
    by (auto simp: run_turn_def split: option.splits)
  note w1 = initial_keeps [OF i bind [OF assms(2)]]
  from assms(1) i obtain sh w2 where
    s: "(if agentic then shape_all e [PSelectModel, PSelectContext, PSelectTools] req w1
      else Some (Inr req, w1)) = Some (sh, w2)"
    by (auto simp: run_turn_def simp del: shape_all.simps split: option.splits)
  have w2: "P w2" using s shape_all_keeps [of _ req w1 sh w2] w1
    by (auto simp del: shape_all.simps split: if_splits)
  show ?thesis
  proof (cases sh)
    case (Inl reason)
    with assms(1) i s w2 show ?thesis by (auto simp: run_turn_def simp del: shape_all.simps)
  next
    case (Inr req1)
    with assms(1) i s obtain res w3 where l: "react_loop pj e lim req1 0 w2 = Some (res, w3)"
      by (auto simp: run_turn_def simp del: shape_all.simps split: option.splits)
    note w3 = react_loop_keeps [OF l w2]
    show ?thesis
    proof (cases res)
      case (Inl reason)
      with assms(1) i s Inr l w3 show ?thesis by (auto simp: run_turn_def simp del: shape_all.simps)
    next
      case (Inr final_text)
      with assms(1) i s \<open>sh = Inr req1\<close> l obtain x w4 where
        p: "post_phase e PFinalize final_text w3 = Some (x, w4)"
        by (auto simp: run_turn_def simp del: shape_all.simps split: option.splits)
      from assms(1) i s \<open>sh = Inr req1\<close> l Inr p post_phase_keeps [OF p w3] show ?thesis
        by (auto simp: run_turn_def simp del: shape_all.simps)
    qed
  qed
qed

lemma run_turn_keeps:
  "run_turn pj e session msg history lim who w = Some (r, w') \<Longrightarrow> P w \<Longrightarrow> P w'"
  using run_turn_ends [of pj session msg history lim who w r w']
  by (cases r) (auto intro: emit_keeps)

end

section \<open>The list of calls only grows\<close>

interpretation observed: turn_invariant "observe e" "\<lambda>wt. \<exists>t. snd wt = t0 @ t" for e :: "'w env" and t0
  by unfold_locales auto

end
