(* ===== verification/Agent.thy ===== *)
theory Agent
  imports Turn_Invariant Projection PermissionGate "HOL-Library.Countable"
begin

text \<open>
  The agent of \<open>host/agent/src/lib.rs\<close>: one turn run on the session's replayed history with every
  event, question, answer and the effective user message logged in the store that the interceptors
  and tools share, and the session operations of \<open>session.rs\<close>. The world is the event log's
  \<open>'w logging\<close>: the store, the stderr lines and an outside world \<open>'w\<close>. A poisoned lock is not
  modelled. The component runtime that instantiates interceptors, providers and tools belongs to the
  wasm host: they are arbitrary here.
\<close>

text \<open>The parts a turn uses that are not under the repository's control, and the clock.\<close>

record 'w platform =
  pf_sha :: "string \<Rightarrow> string"
  pf_parse :: parser
  pf_render :: printer
  pf_clock :: "'w \<Rightarrow> nat"

section \<open>One turn, persisted\<close>

definition REPLAYED_TURNS :: nat where "REPLAYED_TURNS = 20"

definition replay :: "parser \<Rightarrow> string \<Rightarrow> store \<Rightarrow> message list" where
  "replay parse session s =
     transcript parse
       (case recent_turns session REPLAYED_TURNS s of Inl e \<Rightarrow> [] | Inr evs \<Rightarrow> evs)"

definition log_effective ::
  "'w platform \<Rightarrow> string \<Rightarrow> string \<Rightarrow> 'w logging \<Rightarrow> 'w logging" where
  "log_effective pf session m w =
     (case log_user_message (pf_sha pf) (pf_render pf) (pf_clock pf (lg_world w)) session m (lg_store w) of
        (lines, s) \<Rightarrow> w\<lparr>lg_stderr := lg_stderr w @ lines, lg_store := s\<rparr>)"

definition persisted_env ::
  "'w platform \<Rightarrow> 'w logging interceptor list \<Rightarrow> 'w logging completer list \<Rightarrow> 'w logging tool_invoker
     \<Rightarrow> 'w driver \<Rightarrow> 'w sink \<Rightarrow> string \<Rightarrow> 'w logging env" where
  "persisted_env pf is ps tv d snk session =
     \<lparr>env_interceptors = is, env_providers = ps, env_tools = tv,
      env_driver = persisting_driver (pf_sha pf) (pf_render pf) (pf_clock pf) session d,
      env_emit = persisting_sink (pf_sha pf) (pf_render pf) (pf_clock pf) session snk,
      env_on_effective = log_effective pf session\<rparr>"

definition run_and_persist ::
  "'w platform \<Rightarrow> 'w logging interceptor list \<Rightarrow> 'w logging completer list \<Rightarrow> limits
     \<Rightarrow> 'w logging tool_invoker \<Rightarrow> 'w driver \<Rightarrow> 'w sink \<Rightarrow> string \<Rightarrow> string \<Rightarrow> string option
     \<Rightarrow> 'w logging \<Rightarrow> (run_result \<times> 'w logging) option" where
  "run_and_persist pf is ps lim tv d snk session msg who w =
     run_turn (pf_parse pf) (persisted_env pf is ps tv d snk session) session msg
       (replay (pf_parse pf) session (lg_store w)) lim who
       (w\<lparr>lg_warned_sink := False, lg_warned_driver := False\<rparr>)"

definition HeadlessDriver :: "'w driver" where
  "HeadlessDriver = \<lparr>drv_ask = (\<lambda>p w. (up_default_answer p, w)), drv_follow_up = (\<lambda>w. (None, w))\<rparr>"

section \<open>The agent session\<close>

record 'w agent =
  ag_interceptors :: "'w logging interceptor list"
  ag_providers :: "'w logging completer list"
  ag_limits :: limits
  ag_tools :: "'w logging tool_invoker"

type_synonym 'w turn_run = "'w logging \<Rightarrow> (run_result \<times> 'w logging) option"

definition agent_turn ::
  "'w platform \<Rightarrow> 'w agent \<Rightarrow> 'w logging tool_invoker \<Rightarrow> 'w driver \<Rightarrow> 'w sink \<Rightarrow> string \<Rightarrow> string
     \<Rightarrow> string option \<Rightarrow> 'w turn_run" where
  "agent_turn pf ag tv d snk session msg who =
     run_and_persist pf (ag_interceptors ag) (ag_providers ag) (ag_limits ag) tv d snk session msg who"

definition agent_run :: "'w platform \<Rightarrow> 'w agent \<Rightarrow> string \<Rightarrow> string \<Rightarrow> 'w turn_run" where
  "agent_run pf ag session msg =
     agent_turn pf ag (ag_tools ag) HeadlessDriver NoSink session msg None"

definition run_with ::
  "'w platform \<Rightarrow> 'w agent \<Rightarrow> 'w driver \<Rightarrow> 'w logging tool_invoker \<Rightarrow> string \<Rightarrow> string \<Rightarrow> 'w turn_run" where
  "run_with pf ag d tv session msg = agent_turn pf ag tv d NoSink session msg None"

definition run_driven ::
  "'w platform \<Rightarrow> 'w agent \<Rightarrow> 'w driver \<Rightarrow> string \<Rightarrow> string \<Rightarrow> 'w turn_run" where
  "run_driven pf ag d session msg = agent_turn pf ag (ag_tools ag) d NoSink session msg None"

definition run_streaming ::
  "'w platform \<Rightarrow> 'w agent \<Rightarrow> 'w driver \<Rightarrow> 'w logging tool_invoker \<Rightarrow> 'w sink \<Rightarrow> string \<Rightarrow> string
     \<Rightarrow> 'w turn_run" where
  "run_streaming pf ag d tv snk session msg = agent_turn pf ag tv d snk session msg None"

definition run_with_driver ::
  "'w platform \<Rightarrow> 'w agent \<Rightarrow> 'w driver \<Rightarrow> string \<Rightarrow> string \<Rightarrow> 'w turn_run" where
  "run_with_driver pf ag d session msg = agent_turn pf ag (ag_tools ag) d NoSink session msg None"

definition run_with_driver_principal ::
  "'w platform \<Rightarrow> 'w agent \<Rightarrow> 'w driver \<Rightarrow> string \<Rightarrow> string \<Rightarrow> string option \<Rightarrow> 'w turn_run" where
  "run_with_driver_principal pf ag d session msg who =
     agent_turn pf ag (ag_tools ag) d NoSink session msg who"

definition run_streaming_with_driver ::
  "'w platform \<Rightarrow> 'w agent \<Rightarrow> 'w driver \<Rightarrow> 'w sink \<Rightarrow> string \<Rightarrow> string \<Rightarrow> 'w turn_run" where
  "run_streaming_with_driver pf ag d snk session msg =
     agent_turn pf ag (ag_tools ag) d snk session msg None"

definition run_streaming_with_driver_principal ::
  "'w platform \<Rightarrow> 'w agent \<Rightarrow> 'w driver \<Rightarrow> 'w sink \<Rightarrow> string \<Rightarrow> string \<Rightarrow> string option \<Rightarrow> 'w turn_run" where
  "run_streaming_with_driver_principal pf ag d snk session msg who =
     agent_turn pf ag (ag_tools ag) d snk session msg who"

definition run_streaming_headless ::
  "'w platform \<Rightarrow> 'w agent \<Rightarrow> 'w sink \<Rightarrow> string \<Rightarrow> string \<Rightarrow> 'w turn_run" where
  "run_streaming_headless pf ag snk session msg =
     agent_turn pf ag (ag_tools ag) HeadlessDriver snk session msg None"

text \<open>\<open>Runtime::limits\<close>: a positive \<open>u32\<close> under \<open>limits.max-iterations\<close>, or the default.\<close>

definition limits_of :: "json \<Rightarrow> limits" where
  "limits_of cfg =
     \<lparr>max_iterations =
        (case Option.bind (Option.bind (Option.bind (jget ''limits'' cfg) (jget ''max-iterations'')) as_u64)
                to_u32 of
           Some n \<Rightarrow> if 0 < n then n else DEFAULT_MAX_ITERATIONS
         | None \<Rightarrow> DEFAULT_MAX_ITERATIONS)\<rparr>"

text \<open>\<open>Runtime::open_store\<close>: opening belongs to the store (\<open>open_at\<close>), the path is joined by \<open>join_base\<close>.\<close>

definition converted_line :: "nat \<Rightarrow> string" where
  "converted_line n = ''INFO [core] converted '' @ show_nat n @
     '' session(s) from the pre-event-log transcript into the event log''"
definition conversion_failed_line :: "store_error \<Rightarrow> string" where
  "conversion_failed_line err = ''WARN [core] converting old transcripts failed ('' @ error_text err @
     ''); those sessions will not be listed until it succeeds''"

definition open_store ::
  "'w platform \<Rightarrow> (string \<Rightarrow> string) \<Rightarrow> (string option \<Rightarrow> store_error + store) \<Rightarrow> json
     \<Rightarrow> string + (store \<times> string list)" where
  "open_store pf join_base open_at cfg =
     (case open_at (map_option join_base (Option.bind (Option.bind (jget ''storage'' cfg) (jget ''path'')) as_str)) of
        Inl err \<Rightarrow> Inl (error_text err)
      | Inr s \<Rightarrow>
          (case migrate_transcripts (pf_sha pf) (pf_parse pf) (pf_render pf) s of
             (Inr n, s1) \<Rightarrow> Inr (s1, if n = 0 then [] else [converted_line n])
           | (Inl err, s1) \<Rightarrow> Inr (s1, [conversion_failed_line err])))"

section \<open>Session operations\<close>

definition record_load ::
  "'w platform \<Rightarrow> string \<Rightarrow> string \<Rightarrow> string + string \<Rightarrow> 'w logging \<Rightarrow> 'w logging" where
  "record_load pf session stem outcome w =
     (let (loaded, detail) = (case outcome of Inr i \<Rightarrow> (True, i) | Inl reason \<Rightarrow> (False, reason));
          payload = envelope (pf_render pf)
            (JObj [(''stem'', JStr stem), (''loaded'', JBool loaded), (''detail'', JStr detail)])
      in w\<lparr>lg_store := snd (append_event (pf_sha pf) session KIND_EXTENSION_LOADED payload
             (pf_clock pf (lg_world w)) (lg_store w))\<rparr>)"

definition events_or_none :: "string \<Rightarrow> store \<Rightarrow> logged_event list" where
  "events_or_none session s = (case session_events session s of Inl e \<Rightarrow> [] | Inr evs \<Rightarrow> evs)"

definition agent_transcript :: "parser \<Rightarrow> string \<Rightarrow> store \<Rightarrow> message list" where
  "agent_transcript parse session s = transcript parse (events_or_none session s)"

definition agent_placed_transcript :: "parser \<Rightarrow> string \<Rightarrow> store \<Rightarrow> (nat \<times> message) list" where
  "agent_placed_transcript parse session s = placed_transcript parse (events_or_none session s)"

definition fork_session :: "string \<Rightarrow> nat \<Rightarrow> string \<Rightarrow> store \<Rightarrow> (store_error + nat) \<times> store" where
  "fork_session source at_seq dest s = fork_events source at_seq dest s"

definition list_sessions :: "store \<Rightarrow> string list" where
  "list_sessions s =
     filter (\<lambda>x. CHR ''/'' \<notin> set x) (case event_sessions s of Inl e \<Rightarrow> [] | Inr xs \<Rightarrow> xs)"

definition DEFAULT_ANSWER_TIMEOUT :: nat where "DEFAULT_ANSWER_TIMEOUT = 180"

definition answer_timeout :: "string option \<Rightarrow> nat" where
  "answer_timeout env_var =
     (case Option.bind env_var parse_u64 of None \<Rightarrow> DEFAULT_ANSWER_TIMEOUT | Some n \<Rightarrow> n)"

definition preview :: "parser \<Rightarrow> store \<Rightarrow> string \<Rightarrow> string" where
  "preview parse s x =
     (case List.find (\<lambda>m. msg_role m = User) (agent_transcript parse x s) of
        None \<Rightarrow> [] | Some m \<Rightarrow> concat (take 80 (utf8_chars (msg_content m))))"

definition sessions_payload :: "parser \<Rightarrow> store \<Rightarrow> json" where
  "sessions_payload parse s =
     JObj [(''sessions'', JArr (map (\<lambda>x. JObj [(''id'', JStr x), (''preview'', JStr (preview parse s x))])
        (list_sessions s)))]"

fun role_text :: "role \<Rightarrow> string" where
  "role_text System = ''system''"
| "role_text User = ''user''"
| "role_text Assistant = ''assistant''"
| "role_text Tool = ''tool''"

definition message_json :: "nat \<times> message \<Rightarrow> json" where
  "message_json qm =
     JObj ([(''seq'', JInt (int (fst qm))), (''role'', JStr (role_text (msg_role (snd qm)))),
            (''content'', JStr (msg_content (snd qm)))] @
           (case msg_tool_call_id (snd qm) of None \<Rightarrow> [] | Some i \<Rightarrow> [(''tool-call-id'', JStr i)]))"

definition session_payload :: "parser \<Rightarrow> store \<Rightarrow> string \<Rightarrow> json" where
  "session_payload parse s x =
     JObj [(''id'', JStr x), (''messages'', JArr (map message_json (agent_placed_transcript parse x s)))]"

datatype forked = Created json | EmptyFork string | FailedFork string

text \<open>The child id is minted by \<open>new_session_id\<close> and handed in.\<close>

definition fork_into :: "string \<Rightarrow> nat \<Rightarrow> string \<Rightarrow> store \<Rightarrow> forked \<times> store" where
  "fork_into x at_seq child s =
     (case fork_session x at_seq child s of
        (Inr n, s1) \<Rightarrow>
          (if n = 0
           then (EmptyFork (''session '' @ bquote x @ '' has no events at or before seq '' @ show_nat at_seq), s1)
           else (Created (JObj [(''id'', JStr child), (''copied'', JInt (int n))]), s1))
      | (Inl err, s1) \<Rightarrow> (FailedFork (''fork failed: '' @ error_text err), s1))"

text \<open>\<open>{:08x}\<close> of a \<open>u64\<close>: at least eight lower-case hexadecimal digits.\<close>

fun show_hex :: "nat \<Rightarrow> string" where
  "show_hex n = (if n < 16 then [hex_digit n] else show_hex (n div 16) @ [hex_digit (n mod 16)])"

declare show_hex.simps [simp del]

definition hex_08 :: "64 word \<Rightarrow> string" where
  "hex_08 x = (let s = show_hex (unat x) in replicate (8 - length s) (CHR ''0'') @ s)"

text \<open>\<open>new_session_id\<close>: the nanoseconds of the clock and the process-wide counter before its increment.\<close>

definition new_session_id :: "64 word \<Rightarrow> 64 word \<Rightarrow> string \<times> 64 word" where
  "new_session_id nanos counter =
     (hex_08 (xor nanos (push_bit 17 counter)) @ hex_08 (counter * 0x9e3779b9), counter + 1)"

section \<open>Delegation to another agent (delegate.rs)\<close>

text \<open>The transport is a trait object: the endpoint, the task and the context, over the world.\<close>

type_synonym 'w transport = "string \<Rightarrow> string \<Rightarrow> string option \<Rightarrow> 'w \<Rightarrow> (string + string) \<times> 'w"

definition DELEGATE_TOOL :: string where "DELEGATE_TOOL = ''delegate''"

definition schema_field :: "string \<Rightarrow> string \<times> json" where
  "schema_field d = (''description'', JStr d)"

definition delegate_definition :: "printer \<Rightarrow> tool_definition" where
  "delegate_definition render =
     \<lparr>td_name = DELEGATE_TOOL,
      td_description = ''Delegate a self-contained subtask to another AI agent and return its result.'',
      td_parameters_schema = render (JObj
        [(''type'', JStr ''object''),
         (''properties'', JObj
           [(''agent'', JObj [(''type'', JStr ''string''), schema_field ''id of the agent to delegate to'']),
            (''task'', JObj [(''type'', JStr ''string''), schema_field ''the subtask, in natural language'']),
            (''context'', JObj [(''type'', JStr ''string''), schema_field ''optional JSON context''])]),
         (''required'', JArr [JStr ''agent'', JStr ''task''])])\<rparr>"

definition delegate_invoke ::
  "parser \<Rightarrow> 'w transport \<Rightarrow> (string \<rightharpoonup> string) \<Rightarrow> tool_call \<Rightarrow> 'w \<Rightarrow> tool_invocation option \<times> 'w" where
  "delegate_invoke parse tr agents call w =
     (if tc_name call \<noteq> DELEGATE_TOOL then (None, w)
      else case ok_of (parse (tc_arguments call)) of
             None \<Rightarrow> (None, w)
           | Some args \<Rightarrow>
               (case (get_str ''agent'' args, get_str ''task'' args) of
                  (Some agent, Some task) \<Rightarrow>
                    (case agents agent of
                       None \<Rightarrow> (Some \<lparr>inv_content = ''unknown agent '' @ bquote agent, inv_failed = True\<rparr>, w)
                     | Some endpoint \<Rightarrow>
                         (case tr endpoint task (get_str ''context'' args) w of
                            (Inr answer, w1) \<Rightarrow> (Some \<lparr>inv_content = answer, inv_failed = False\<rparr>, w1)
                          | (Inl err, w1) \<Rightarrow>
                              (Some \<lparr>inv_content = ''delegation to '' @ bquote agent @ '' failed: '' @ err,
                                     inv_failed = True\<rparr>, w1)))
                | _ \<Rightarrow> (None, w)))"

section \<open>A turn only adds to the log\<close>

text \<open>
  The interceptors, providers and tools may write entries, through their storage; the events are the host's. A tool adds to
  them only by the questions it puts to the driver: what asking keeps, and depends on the events alone, a call of the tool keeps.
\<close>

definition keeps_log :: "('w logging \<Rightarrow> 'w logging) \<Rightarrow> bool" where
  "keeps_log f \<longleftrightarrow> (\<forall>w. st_events (lg_store (f w)) = st_events (lg_store w) \<and>
     st_fault (lg_store (f w)) = st_fault (lg_store w))"

definition asks_only :: "'w logging tool_invoker \<Rightarrow> bool" where
  "asks_only tv \<longleftrightarrow> (\<forall>c d P.
     (\<forall>w w'. st_events (lg_store w') = st_events (lg_store w) \<longrightarrow> st_fault (lg_store w') = st_fault (lg_store w) \<longrightarrow>
        P w \<longrightarrow> P w') \<longrightarrow>
     (\<forall>q w. P w \<longrightarrow> P (snd (drv_ask d q w))) \<longrightarrow>
     (\<forall>w. P w \<longrightarrow> P (snd (tools_invoke_asking tv c d w))))"

lemma asks_only_keeps:
  assumes "asks_only tv" "P w" "\<And>q w. P w \<Longrightarrow> P (snd (drv_ask d q w))"
    and "\<And>w w'. st_events (lg_store w') = st_events (lg_store w) \<Longrightarrow>
      st_fault (lg_store w') = st_fault (lg_store w) \<Longrightarrow> P w \<Longrightarrow> P w'"
  shows "P (snd (tools_invoke_asking tv c d w))"
proof -
  note h = assms(1) [unfolded asks_only_def, THEN spec, THEN spec, THEN spec, THEN mp, THEN mp, THEN spec, THEN mp]
  show ?thesis by (rule h; (intro allI impI)?) (erule (2) assms(4), erule assms(3), rule assms(2))
qed

definition log_keeping ::
  "'w logging interceptor list \<Rightarrow> 'w logging completer list \<Rightarrow> 'w logging tool_invoker \<Rightarrow> bool" where
  "log_keeping is ps tv \<longleftrightarrow>
     (\<forall>i \<in> set is. \<forall>inp. keeps_log (\<lambda>w. snd (icp_intercept i inp w))) \<and>
     (\<forall>p \<in> set ps. \<forall>req. keeps_log (\<lambda>w. snd (prov_complete p req w))) \<and>
     (\<forall>s. keeps_log (tools_bind_session tv s)) \<and>
     asks_only tv"

text \<open>\<open>grown sha session y base s\<close>: \<open>s\<close> holds \<open>base\<close>, extended for \<open>session\<close> alone, with its chains intact.\<close>

definition grown :: "(string \<Rightarrow> string) \<Rightarrow> string \<Rightarrow> string \<Rightarrow> event_row list \<Rightarrow> store \<Rightarrow> bool" where
  "grown sha session y base s \<longleftrightarrow> log_ok sha s \<and> st_fault s = None \<and>
     (\<exists>new. of_session y (st_events s) = base @ new \<and> (y \<noteq> session \<longrightarrow> new = []))"

lemma append_row_events:
  assumes "log_ok sha s" "st_fault s = None"
  shows "\<exists>r. ev_session r = session \<and> ev_kind r = fst row \<and> ev_payload r = snd row \<and>
    st_events (append_row sha now session row s) = st_events s @ [r]"
  using append_events [of s sha session "fst row" "snd row" now] assms
  by (auto simp: append_row_def log_ok_def Let_def)

lemma append_row_ok:
  assumes "log_ok sha s" "st_fault s = None"
  shows "log_ok sha (append_row sha now session row s)" "st_fault (append_row sha now session row s) = None"
  using log_ok_append [OF assms] assms(2) by (simp_all add: append_row_def)

lemma grown_append:
  assumes "grown sha session y base s"
  shows "grown sha session y base (append_row sha now session row s)"
proof -
  from assms have ok: "log_ok sha s" "st_fault s = None" by (simp_all add: grown_def)
  obtain r where r: "ev_session r = session" "st_events (append_row sha now session row s) = st_events s @ [r]"
    using append_row_events [OF ok] by blast
  obtain new where "of_session y (st_events s) = base @ new" "y \<noteq> session \<longrightarrow> new = []"
    using assms by (auto simp: grown_def)
  with r have "of_session y (st_events (append_row sha now session row s)) =
      base @ new @ (if y = session then [r] else [])"
    by (simp add: of_session_filter_self)
  moreover have "y \<noteq> session \<longrightarrow> new @ (if y = session then [r] else []) = []"
    using \<open>y \<noteq> session \<longrightarrow> new = []\<close> by simp
  ultimately show ?thesis using append_row_ok [OF ok] unfolding grown_def by blast
qed

lemma grown_entries:
  "st_events s' = st_events s \<Longrightarrow> st_fault s' = st_fault s \<Longrightarrow>
     grown sha session y base s' = grown sha session y base s"
  using log_ok_entries [of s' s sha] by (simp add: grown_def)

lemma append_encoded_grown:
  assumes "grown sha session y base s"
  shows "append_encoded sha now session (fst row) (snd row) warned s =
    (warned, [], append_row sha now session row s)"
proof -
  have ok: "wf_log s" "st_fault s = None" using assms by (simp_all add: grown_def log_ok_def)
  obtain x where "append_event_at sha session (fst row) (snd row) now s =
      (Inr x, append_row sha now session row s)"
    using append_events [OF ok, of sha session "fst row" "snd row" now]
    by (simp add: append_row_def Let_def)
  then show ?thesis by (simp add: append_encoded_def append_event_def)
qed

lemma sink_grown:
  assumes "grown sha session y base (lg_store w)"
  shows "lg_store (snd (persisting_sink sha render clock session inner ev w)) =
    append_row sha (clock (lg_world w)) session (encode render ev) (lg_store w)"
  using append_encoded_grown [OF assms]
  by (simp add: persisting_sink_def append_sink_def Let_def split: prod.split)

lemma driver_step_grown:
  assumes "grown sha session y base (lg_store w)"
  shows "grown sha session y base (lg_store (append_driver sha clock session row w))"
  using append_encoded_grown [OF assms] grown_append [OF assms] by (simp add: append_driver_def)

lemma driver_grown:
  assumes "grown sha session y base (lg_store w)"
  shows "grown sha session y base (lg_store (snd (drv_ask (persisting_driver sha render clock session d) q w)))"
    "grown sha session y base (lg_store (snd (drv_follow_up (persisting_driver sha render clock session d) w)))"
proof -
  let ?w1 = "append_driver sha clock session (ask_row render q) w"
  obtain a v where a: "drv_ask d q (lg_world ?w1) = (a, v)" by fastforce
  have "grown sha session y base (lg_store (?w1\<lparr>lg_world := v\<rparr>))"
    using driver_step_grown [OF assms] by simp
  from driver_step_grown [OF this] a
  show "grown sha session y base (lg_store (snd (drv_ask (persisting_driver sha render clock session d) q w)))"
    by (simp add: persisting_driver_def Let_def)
  obtain f u where f: "drv_follow_up d (lg_world w) = (f, u)" by fastforce
  have "grown sha session y base (lg_store (w\<lparr>lg_world := u\<rparr>))" using assms by simp
  from driver_step_grown [OF this] this f
  show "grown sha session y base (lg_store (snd (drv_follow_up (persisting_driver sha render clock session d) w)))"
    by (cases f) (simp_all add: persisting_driver_def)
qed

lemma persisted_turn_invariant:
  assumes "log_keeping is ps tv"
  shows "turn_invariant (persisted_env pf is ps tv d snk session)
    (\<lambda>w. grown (pf_sha pf) session y base (lg_store w))"
proof -
  let ?e = "persisted_env pf is ps tv d snk session"
  let ?P = "\<lambda>w. grown (pf_sha pf) session y base (lg_store w)"
  have keep: "?P w \<Longrightarrow> ?P (f w)" if "keeps_log f" for f and w :: "'a logging"
    using that grown_entries [of "lg_store (f w)" "lg_store w"] by (simp add: keeps_log_def)
  show ?thesis
  proof
    fix i inp and w :: "'a logging"
    assume "i \<in> set (env_interceptors ?e)"
    then have "keeps_log (\<lambda>w. snd (icp_intercept i inp w))"
      using assms by (simp add: persisted_env_def log_keeping_def)
    then show "?P w \<Longrightarrow> ?P (snd (icp_intercept i inp w))" by (rule keep)
  next
    fix p req and w :: "'a logging"
    assume "p \<in> set (env_providers ?e)"
    then have "keeps_log (\<lambda>w. snd (prov_complete p req w))"
      using assms by (simp add: persisted_env_def log_keeping_def)
    then show "?P w \<Longrightarrow> ?P (snd (prov_complete p req w))" by (rule keep)
  next
    fix s and w :: "'a logging"
    have "keeps_log (tools_bind_session (env_tools ?e) s)"
      using assms by (simp add: persisted_env_def log_keeping_def)
    then show "?P w \<Longrightarrow> ?P (tools_bind_session (env_tools ?e) s w)" by (rule keep)
  next
    fix c and w :: "'a logging"
    assume w: "?P w"
    have "asks_only (env_tools ?e)"
      using assms by (simp add: persisted_env_def log_keeping_def)
    then show "?P (snd (tools_invoke_asking (env_tools ?e) c (env_driver ?e) w))"
    proof (rule asks_only_keeps [where P = ?P and w = w, OF _ w])
      fix q and v :: "'a logging"
      assume "?P v"
      then show "?P (snd (drv_ask (env_driver ?e) q v))" by (simp add: persisted_env_def driver_grown)
    next
      fix v u :: "'a logging"
      assume "st_events (lg_store u) = st_events (lg_store v)" "st_fault (lg_store u) = st_fault (lg_store v)" "?P v"
      then show "?P u" using grown_entries by blast
    qed
  next
    fix q and w :: "'a logging"
    assume "?P w"
    then show "?P (snd (drv_ask (env_driver ?e) q w))" "?P (snd (drv_follow_up (env_driver ?e) w))"
      by (simp_all add: persisted_env_def driver_grown)
  next
    fix ev and w :: "'a logging"
    assume g: "?P w"
    show "?P (snd (env_emit ?e ev w))"
      using grown_append [OF g] by (simp add: persisted_env_def sink_grown [OF g])
  next
    fix m and w :: "'a logging"
    assume g: "?P w"
    show "?P (env_on_effective ?e m w)"
      using grown_append [OF g] append_encoded_grown [OF g]
      by (simp add: persisted_env_def log_effective_def log_user_message_def)
  qed
qed

lemma grown_session_events:
  assumes "log_run sha s" "grown sha session y (of_session y (st_events s)) s'"
    "of_session y (st_events s') = of_session y (st_events s) @ new"
  shows "session_events y s' = map_ok (\<lambda>evs. evs @ map logged new) (session_events y s)"
    "rows_of y s' \<noteq> [] \<longrightarrow> verify_chain sha y s' = Inr \<lparr>cv_session = y, cv_status = Intact\<rparr>"
proof -
  have ok: "wf_log s" "st_fault s = None" "log_ok sha s'" "wf_log s'" "st_fault s' = None"
    using log_run_ok [OF assms(1)] assms(2) by (simp_all add: grown_def log_ok_def)
  show "session_events y s' = map_ok (\<lambda>evs. evs @ map logged new) (session_events y s)"
    using assms(3) by (simp add: session_events_now ok events_now_def)
  show "rows_of y s' \<noteq> [] \<longrightarrow> verify_chain sha y s' = Inr \<lparr>cv_session = y, cv_status = Intact\<rparr>"
    using verify_chain_intact ok by blast
qed

lemma done_logged:
  assumes "grown sha session y base (lg_store w)" "of_session y (st_events (lg_store w)) = base @ new"
    "w' = snd (persisting_sink sha render clock session inner ev w)"
  obtains r where "grown sha session y base (lg_store w')"
    "of_session y (st_events (lg_store w')) = base @ new @ (if y = session then [r] else [])"
    "ev_session r = session" "ev_kind r = fst (encode render ev)" "ev_payload r = snd (encode render ev)"
proof -
  have ok: "log_ok sha (lg_store w)" "st_fault (lg_store w) = None" using assms(1) by (simp_all add: grown_def)
  have s: "lg_store w' = append_row sha (clock (lg_world w)) session (encode render ev) (lg_store w)"
    using sink_grown [OF assms(1)] assms(3) by simp
  then obtain r where r: "ev_session r = session" "ev_kind r = fst (encode render ev)"
    "ev_payload r = snd (encode render ev)" "st_events (lg_store w') = st_events (lg_store w) @ [r]"
    using append_row_events [OF ok] by metis
  have "grown sha session y base (lg_store w')" using grown_append [OF assms(1)] s by simp
  moreover have "of_session y (st_events (lg_store w')) = base @ new @ (if y = session then [r] else [])"
    using r assms(2) by (simp add: of_session_filter_self)
  ultimately show ?thesis using that r by blast
qed

text \<open>C8 (agent_turn_logged): On a store reached by appends, purges and key-value writes, a turn only adds rows, to its own
  session alone, keeps every session's digest chain intact, and when it is answered the last row is that answer. It is assumed
  that interceptors and providers leave the event rows alone, and that tools add to them only by the questions they put to the
  driver they are handed: those are logged too.\<close>

theorem agent_turn_logged:
  assumes run: "log_run (pf_sha pf) (lg_store w)"
    and parties: "log_keeping (ag_interceptors ag) (ag_providers ag) tv"
    and turn: "agent_turn pf ag tv d snk session msg who w = Some (r, w')"
  shows "\<exists>new. session_events y (lg_store w') = map_ok (\<lambda>evs. evs @ new) (session_events y (lg_store w)) \<and>
      (y \<noteq> session \<longrightarrow> new = []) \<and>
      (case r of
         Answered s a \<Rightarrow> y = session \<longrightarrow>
           (\<exists>q t. last new = \<lparr>le_session = session, le_seq = q, le_ts = t,
              le_kind = fst (encode (pf_render pf) (Done s a)),
              le_payload = snd (encode (pf_render pf) (Done s a))\<rparr>)
       | Failed _ \<Rightarrow> True) \<and>
      (rows_of y (lg_store w') \<noteq> [] \<longrightarrow>
        verify_chain (pf_sha pf) y (lg_store w') = Inr \<lparr>cv_session = y, cv_status = Intact\<rparr>)"
proof -
  let ?e = "persisted_env pf (ag_interceptors ag) (ag_providers ag) tv d snk session"
  let ?base = "of_session y (st_events (lg_store w))"
  let ?P = "\<lambda>w. grown (pf_sha pf) session y ?base (lg_store w)"
  have start: "?P (w\<lparr>lg_warned_sink := False, lg_warned_driver := False\<rparr>)"
    using log_run_ok [OF run] by (simp add: grown_def)
  obtain w4 where w4: "?P w4"
    "w' = (case r of Answered s a \<Rightarrow> emit ?e (Done s a) w4 | Failed _ \<Rightarrow> w4)"
    using turn_invariant.run_turn_ends [OF persisted_turn_invariant [OF parties] _ start] turn
    unfolding agent_turn_def run_and_persist_def by blast
  obtain new where new: "of_session y (st_events (lg_store w4)) = ?base @ new" "y \<noteq> session \<longrightarrow> new = []"
    using w4(1) by (auto simp: grown_def)
  show ?thesis
  proof (cases r)
    case (Failed reason)
    with w4 new(2) grown_session_events [OF run w4(1) new(1)] show ?thesis
      by (intro exI [of _ "map logged new"]) simp
  next
    case (Answered s a)
    with w4(2) have w': "w' = snd (persisting_sink (pf_sha pf) (pf_render pf) (pf_clock pf) session snk (Done s a) w4)"
      by (simp add: emit_def persisted_env_def)
    obtain row where row: "?P w'"
      "of_session y (st_events (lg_store w')) = ?base @ new @ (if y = session then [row] else [])"
      "ev_session row = session" "ev_kind row = fst (encode (pf_render pf) (Done s a))"
      "ev_payload row = snd (encode (pf_render pf) (Done s a))"
      by (rule done_logged [OF w4(1) new(1) w'])
    with Answered new(2) grown_session_events [OF run row(1,2)] show ?thesis
      by (intro exI [of _ "map logged (new @ (if y = session then [row] else []))"]) (auto simp: logged_def)
  qed
qed

section \<open>A turn is replayed\<close>

text \<open>
  The conversation of a turn, read off what the turn did: the effective message and the follow-ups the user wrote, what the
  tools answered, and the answer. Deltas, warnings, announcements, the interceptors' questions and the answers to them are not
  part of it.
\<close>

fun said :: "obs \<Rightarrow> message list" where
  "said (OEffective m) = [\<lparr>msg_role = User, msg_content = m, msg_tool_call_id = None\<rparr>]"
| "said (OFollowUp (Some m)) = [\<lparr>msg_role = User, msg_content = m, msg_tool_call_id = None\<rparr>]"
| "said (OEmit (ToolResult res)) =
     [\<lparr>msg_role = Tool, msg_content = out_content res, msg_tool_call_id = Some (out_tool_call_id res)\<rparr>]"
| "said (OEmit (Done s a)) = [\<lparr>msg_role = Assistant, msg_content = s, msg_tool_call_id = None\<rparr>]"
| "said x = []"

text \<open>The parser reads back what the printer made of the rows a turn writes.\<close>

definition reads_back :: "'w platform \<Rightarrow> json \<Rightarrow> bool" where
  "reads_back pf d \<longleftrightarrow> pf_parse pf (envelope (pf_render pf) d) = Inr (envelope_json d)"

definition reads_rows :: "'w platform \<Rightarrow> bool" where
  "reads_rows pf \<longleftrightarrow> (\<forall>ev. reads_back pf (snd (encoded ev))) \<and> (\<forall>m. reads_back pf (message_data m)) \<and>
     (\<forall>q. reads_back pf (ask_data q)) \<and> (\<forall>a. reads_back pf (answer_data a))"

lemma read_rows:
  assumes "reads_rows pf"
  shows "read_row (pf_parse pf) (encode (pf_render pf) ev) = said (OEmit ev)"
    "read_row (pf_parse pf) (user_message_row (pf_render pf) m) = said (OEffective m)"
    "read_row (pf_parse pf) (follow_up_row (pf_render pf) m) = said (OFollowUp (Some m))"
    "read_row (pf_parse pf) (ask_row (pf_render pf) q) = []"
    "read_row (pf_parse pf) (answer_row (pf_render pf) a) = []"
proof -
  note reads = assms [unfolded reads_rows_def reads_back_def]
  have "read_row (pf_parse pf) (encode (pf_render pf) ev) = (case event_message ev of None \<Rightarrow> [] | Some m \<Rightarrow> [m])"
    using reads by (simp add: read_row_def encode_parts decode_record_of record_of_encoded del: encoded.simps)
  then show "read_row (pf_parse pf) (encode (pf_render pf) ev) = said (OEmit ev)" by (cases ev) simp_all
qed (use assms [unfolded reads_rows_def reads_back_def] in \<open>simp_all add: read_row_def user_message_row_def
  follow_up_row_def ask_row_def answer_row_def decode_record_of record_of_message record_of_ask record_of_answer\<close>)

text \<open>\<open>replays pf session base t s\<close>: the log \<open>s\<close> is healthy and reads as \<open>base\<close> followed by what was said in \<open>t\<close>.\<close>

definition replays :: "'w platform \<Rightarrow> string \<Rightarrow> message list \<Rightarrow> obs list \<Rightarrow> store \<Rightarrow> bool" where
  "replays pf session base t s \<longleftrightarrow> log_ok (pf_sha pf) s \<and> st_fault s = None \<and>
     transcript (pf_parse pf) (events_now session s) = base @ concat (map said t)"

lemma replays_entries:
  "st_events s' = st_events s \<Longrightarrow> st_fault s' = st_fault s \<Longrightarrow> replays pf session base t s \<Longrightarrow>
     replays pf session base t s'"
  by (simp add: replays_def events_now_def) (metis log_ok_entries)

lemma replays_quiet: "replays pf session base t s \<Longrightarrow> said x = [] \<Longrightarrow> replays pf session base (t @ [x]) s"
  by (simp add: replays_def)

lemma replays_row:
  assumes "replays pf session base t s" "read_row (pf_parse pf) row = concat (map said u)"
  shows "replays pf session base (t @ u) (append_row (pf_sha pf) now session row s)"
    and "append_encoded (pf_sha pf) now session (fst row) (snd row) warned s =
      (warned, [], append_row (pf_sha pf) now session row s)"
proof -
  have ok: "log_ok (pf_sha pf) s" "st_fault s = None" using assms(1) by (simp_all add: replays_def)
  then show "replays pf session base (t @ u) (append_row (pf_sha pf) now session row s)"
    using assms append_row_ok [OF ok] transcript_append_row [OF ok] by (simp add: replays_def)
  show "append_encoded (pf_sha pf) now session (fst row) (snd row) warned s =
      (warned, [], append_row (pf_sha pf) now session row s)"
    by (rule append_encoded_grown [where y = session and base = "[]"]) (simp add: grown_def ok)
qed

lemma replays_driver_row:
  "replays pf session base t (lg_store w) \<Longrightarrow> read_row (pf_parse pf) row = concat (map said u) \<Longrightarrow>
     replays pf session base (t @ u) (lg_store (append_driver (pf_sha pf) clock session row w))"
  using replays_row [of pf session base t "lg_store w" row u] by (simp add: append_driver_def)

lemma replays_asked:
  assumes "reads_rows pf" "replays pf session base t (lg_store w)"
  shows "replays pf session base t
    (lg_store (snd (drv_ask (persisting_driver (pf_sha pf) (pf_render pf) clock session d) q w)))"
proof -
  let ?w1 = "append_driver (pf_sha pf) clock session (ask_row (pf_render pf) q) w"
  obtain a v where a: "drv_ask d q (lg_world ?w1) = (a, v)" by fastforce
  have "replays pf session base t (lg_store (?w1\<lparr>lg_world := v\<rparr>))"
    using replays_driver_row [OF assms(2), of "ask_row (pf_render pf) q" "[]"] read_rows(4) [OF assms(1)] by simp
  from replays_driver_row [OF this, of "answer_row (pf_render pf) a" "[]"] read_rows(5) [OF assms(1)] a
  show ?thesis by (simp add: persisting_driver_def Let_def)
qed

lemma replays_followed:
  assumes "reads_rows pf" "replays pf session base t (lg_store w)"
    and "drv_follow_up (persisting_driver (pf_sha pf) (pf_render pf) clock session d) w = (f, w')"
  shows "replays pf session base (t @ [OFollowUp f]) (lg_store w')"
proof -
  obtain g v where g: "drv_follow_up d (lg_world w) = (g, v)" by fastforce
  have w: "replays pf session base t (lg_store (w\<lparr>lg_world := v\<rparr>))" using assms(2) by simp
  show ?thesis
  proof (cases g)
    case None
    with g assms(2,3) show ?thesis by (auto simp: persisting_driver_def intro!: replays_quiet)
  next
    case (Some m)
    with replays_driver_row [OF w, of "follow_up_row (pf_render pf) m" "[OFollowUp (Some m)]"]
      read_rows(3) [OF assms(1)] g assms(3)
    show ?thesis by (auto simp: persisting_driver_def simp del: said.simps)
  qed
qed

lemma replayed_turn_invariant:
  assumes "log_keeping is ps tv" "reads_rows pf"
  shows "turn_invariant (observe (persisted_env pf is ps tv d snk session))
    (\<lambda>wt. replays pf session base (snd wt) (lg_store (fst wt)))"
proof -
  let ?e = "persisted_env pf is ps tv d snk session"
  let ?P = "\<lambda>wt. replays pf session base (snd wt) (lg_store (fst wt))"
  have keep: "replays pf session base (t @ [x]) (lg_store (f w))"
    if "keeps_log f" "replays pf session base t (lg_store w)" "said x = []" for f x t and w :: "'a logging"
    using that(1) by (intro replays_quiet [OF replays_entries [OF _ _ that(2)] that(3)]) (simp_all add: keeps_log_def)
  show ?thesis
  proof
    fix i inp and wt :: "'a logging \<times> obs list"
    assume "i \<in> set (env_interceptors (observe ?e))" and w: "?P wt"
    then obtain j where j: "i = obs_interceptor j" "j \<in> set is" by (auto simp: persisted_env_def)
    then have "keeps_log (\<lambda>w. snd (icp_intercept j inp w))" using assms(1) by (simp add: log_keeping_def)
    from keep [OF this w] show "?P (snd (icp_intercept i inp wt))" by (simp add: j(1))
  next
    fix p req and wt :: "'a logging \<times> obs list"
    assume "p \<in> set (env_providers (observe ?e))" and w: "?P wt"
    then obtain q where q: "p = obs_completer q" "q \<in> set ps" by (auto simp: persisted_env_def)
    then have "keeps_log (\<lambda>w. snd (prov_complete q req w))" using assms(1) by (simp add: log_keeping_def)
    from keep [OF this w] show "?P (snd (prov_complete p req wt))" by (simp add: q(1))
  next
    fix s and wt :: "'a logging \<times> obs list"
    assume w: "?P wt"
    have "keeps_log (tools_bind_session tv s)" using assms(1) by (simp add: log_keeping_def)
    from keep [OF this w] show "?P (tools_bind_session (env_tools (observe ?e)) s wt)"
      by (simp add: persisted_env_def)
  next
    fix c and wt :: "'a logging \<times> obs list"
    assume w: "?P wt"
    let ?d = "persisting_driver (pf_sha pf) (pf_render pf) (pf_clock pf) session d"
    have "asks_only tv" using assms(1) by (simp add: log_keeping_def)
    then have "replays pf session base (snd wt) (lg_store (snd (tools_invoke_asking tv c ?d (fst wt))))"
      by (rule asks_only_keeps [where P = "\<lambda>w. replays pf session base (snd wt) (lg_store w)"])
        (rule w, erule replays_asked [OF assms(2)], erule (2) replays_entries)
    then show "?P (snd (tools_invoke_asking (env_tools (observe ?e)) c (env_driver (observe ?e)) wt))"
      by (simp add: persisted_env_def replays_quiet)
  next
    fix q and wt :: "'a logging \<times> obs list"
    assume w: "?P wt"
    from replays_asked [OF assms(2) w] show "?P (snd (drv_ask (env_driver (observe ?e)) q wt))"
      by (simp add: persisted_env_def replays_quiet)
    from replays_followed [OF assms(2) w] show "?P (snd (drv_follow_up (env_driver (observe ?e)) wt))"
      by (simp add: persisted_env_def)
  next
    fix ev and wt :: "'a logging \<times> obs list"
    assume w: "?P wt"
    have g: "grown (pf_sha pf) session session [] (lg_store (fst wt))"
      using w by (simp add: grown_def replays_def)
    from replays_row(1) [OF w, of "encode (pf_render pf) ev" "[OEmit ev]"] read_rows(1) [OF assms(2)]
    show "?P (snd (env_emit (observe ?e) ev wt))"
      by (simp add: persisted_env_def sink_grown [OF g] del: said.simps)
  next
    fix m and wt :: "'a logging \<times> obs list"
    assume w: "?P wt"
    from replays_row [OF w, of "user_message_row (pf_render pf) m" "[OEffective m]"] read_rows(2) [OF assms(2)]
    show "?P (env_on_effective (observe ?e) m wt)"
      by (simp add: persisted_env_def log_effective_def log_user_message_def)
  qed
qed

lemma agent_transcript_now:
  "log_ok sha s \<Longrightarrow> st_fault s = None \<Longrightarrow> agent_transcript parse session s = transcript parse (events_now session s)"
  by (simp add: agent_transcript_def events_or_none_def session_events_now log_ok_def)

text \<open>C7 (persisted_turn_replays): On a store reached by appends, purges and key-value writes, after a turn with its log the
  projection of the session reads as it did before, followed by the turn's conversation in order: the effective user message,
  each follow-up, one tool message for every tool result and, when the turn is answered, the answer as the last message;
  nothing else the turn did is replayed. It is assumed that interceptors and providers leave the event rows alone, that tools
  add to them only by asking, and that the JSON parser reads back what the printer made of the rows.\<close>

theorem persisted_turn_replays:
  assumes "log_run (pf_sha pf) (lg_store w)" "log_keeping is ps tv" "reads_rows pf"
    and "run_turn (pf_parse pf) (observe (persisted_env pf is ps tv d snk session)) session msg
      (replay (pf_parse pf) session (lg_store w)) lim who (w, []) = Some (r, (w', t))"
  shows "agent_transcript (pf_parse pf) session (lg_store w') =
      agent_transcript (pf_parse pf) session (lg_store w) @ concat (map said t) \<and>
    (case r of
       Answered s a \<Rightarrow> last (agent_transcript (pf_parse pf) session (lg_store w')) =
         \<lparr>msg_role = Assistant, msg_content = s, msg_tool_call_id = None\<rparr>
     | Failed _ \<Rightarrow> True)"
proof -
  let ?base = "transcript (pf_parse pf) (events_now session (lg_store w))"
  let ?e = "observe (persisted_env pf is ps tv d snk session)"
  have ok: "log_ok (pf_sha pf) (lg_store w)" "st_fault (lg_store w) = None" using log_run_ok [OF assms(1)] by simp_all
  then have "replays pf session ?base (snd (w, [])) (lg_store (fst (w, [])))" by (simp add: replays_def)
  note ends = turn_invariant.run_turn_ends [OF replayed_turn_invariant [OF assms(2,3)] assms(4) this]
    and keeps = turn_invariant.run_turn_keeps [OF replayed_turn_invariant [OF assms(2,3)] assms(4) this]
  have now: "agent_transcript (pf_parse pf) session (lg_store w') = ?base @ concat (map said t)"
    using keeps agent_transcript_now [of "pf_sha pf" "lg_store w'"] by (simp add: replays_def)
  moreover have "\<exists>u. t = u @ [OEmit (Done s a)]" if "r = Answered s a" for s a
    using ends that by (auto simp: emit_def)
  ultimately show ?thesis
    using agent_transcript_now [OF ok] by (cases r) auto
qed

section \<open>The permission gate beside the log\<close>

text \<open>The gate's host storage as the turn's world holds it: durable rows of the shared store.\<close>

definition logging_host :: "nat \<Rightarrow> guest_storage \<Rightarrow> 'w logging host_storage" where
  "logging_host now g =
     \<lparr>hs_get = (\<lambda>ns k w. guest_get (session_entries now) ns k (g, lg_store w)),
      hs_set = (\<lambda>ns k v w. case guest_set (session_entries now) ns k v (g, lg_store w) of
        (res, (_, s)) \<Rightarrow> (res, w\<lparr>lg_store := s\<rparr>))\<rparr>"

lemma hs_set_keeps_log:
  "st_events (lg_store (snd (hs_set (logging_host now g) ns k v w))) = st_events (lg_store w) \<and>
   st_fault (lg_store (snd (hs_set (logging_host now g) ns k v w))) = st_fault (lg_store w)"
  by (simp add: logging_host_def guest_set_def session_entries_def case_prod_beta Let_def
      split: sum.split backing.split)

lemma keeps_log_id [simp]: "keeps_log (\<lambda>w. w)"
  by (simp add: keeps_log_def)

lemma gate_keeps_log [simp]:
  "keeps_log (\<lambda>w. snd (permission_intercept parse p (logging_host now g) inp w))"
  unfolding keeps_log_def
  by (simp add: permission_intercept_def Let_def case_prod_beta remember_standing_def remember_def
      refuse_def count_refusal_def hs_set_keeps_log split: hook_state.split option.split)

text \<open>A printer and a parser that agree on every value: the value's number in an enumeration of them all.\<close>

instance json :: countable
  by countable_datatype

definition demo_platform :: "nat platform" where
  "demo_platform = \<lparr>pf_sha = (\<lambda>s. s), pf_parse = (\<lambda>s. Inr (from_nat (digits_value s))),
     pf_render = (\<lambda>j. show_nat (to_nat j)), pf_clock = (\<lambda>w. w)\<rparr>"

lemma demo_reads: "reads_rows demo_platform"
  by (simp add: reads_rows_def reads_back_def demo_platform_def envelope_def)

definition saying_provider :: "string \<Rightarrow> 'w completer" where
  "saying_provider s = \<lparr>prov_id = ''p'', prov_complete = (\<lambda>req w.
     (Inr \<lparr>cmp_text = s, cmp_tool_calls = [], cmp_finish_reason = ''stop''\<rparr>, w))\<rparr>"

definition demo_agent :: "nat agent" where
  "demo_agent =
     \<lparr>ag_interceptors = [permission_gate call_parse default_policy
        (logging_host 5 (shared_storage (Durable ''gate'')))],
      ag_providers = [saying_provider ''hi''], ag_limits = \<lparr>max_iterations = 2\<rparr>, ag_tools = NoTools\<rparr>"

definition opened_world :: "nat logging" where
  "opened_world = \<lparr>lg_world = 0, lg_store = empty_store, lg_warned_sink = False, lg_warned_driver = False,
     lg_stderr = []\<rparr>"

lemma no_tools_ask [simp]: "asks_only NoTools"
  by (simp add: asks_only_def NoTools_def)

lemma no_tools_bind: "tools_bind_session NoTools s = (\<lambda>w. w)"
  by (simp add: NoTools_def)

lemma demo_keeping: "log_keeping (ag_interceptors demo_agent) (ag_providers demo_agent) NoTools"
  by (simp add: log_keeping_def demo_agent_def permission_gate_def saying_provider_def no_tools_bind)

lemma demo_turn: "\<exists>w'. agent_turn demo_platform demo_agent NoTools HeadlessDriver NoSink ''s'' ''yo'' None
    opened_world = Some (Answered ''hi'' True, w')"
  by (simp add: agent_turn_def run_and_persist_def run_turn_def build_initial_request_def Let_def
      dispatch_env_def persisted_env_def demo_agent_def permission_gate_def shape_def react_loop.simps
      run_cycle_def complete_validated_def attempts.simps complete_with_fallback_def saying_provider_def
      validate_def was_truncated_def TRUNCATED_def MAX_RETRIES_def post_phase_def case_prod_beta
      handle_no_tool_calls_def persisting_driver_def HeadlessDriver_def persisting_sink_def NoSink_def)

theorem agent_turn_logged_witness:
  "\<exists>w' q t. agent_turn demo_platform demo_agent NoTools HeadlessDriver NoSink ''s'' ''yo'' None
      opened_world = Some (Answered ''hi'' True, w') \<and>
     (\<exists>evs. session_events ''s'' (lg_store w') = Inr evs \<and>
        last evs = \<lparr>le_session = ''s'', le_seq = q, le_ts = t, le_kind = ''done'',
          le_payload = snd (encode (pf_render demo_platform) (Done ''hi'' True))\<rparr>)"
proof -
  obtain w' where turn: "agent_turn demo_platform demo_agent NoTools HeadlessDriver NoSink ''s'' ''yo'' None
      opened_world = Some (Answered ''hi'' True, w')" using demo_turn by blast
  have run: "log_run (pf_sha demo_platform) (lg_store opened_world)"
    by (simp add: opened_world_def log_run.opened)
  have none: "session_events ''s'' (lg_store opened_world) = Inr []"
    by (simp add: session_events_def query_def rows_of_def empty_store_def opened_world_def)
  have kind: "fst (encode (pf_render demo_platform) (Done ''hi'' True)) = ''done''" by (simp add: encode_parts)
  from agent_turn_logged [OF run demo_keeping turn, of "''s''"] turn none kind show ?thesis
    by (simp del: encoded.simps) blast
qed

abbreviation demo_observed :: "(nat logging \<times> obs list) env" where
  "demo_observed \<equiv> observe (persisted_env demo_platform (ag_interceptors demo_agent) (ag_providers demo_agent) NoTools
     HeadlessDriver NoSink ''s'')"

lemma demo_observed_turn:
  "\<exists>w' t. run_turn (pf_parse demo_platform) demo_observed ''s'' ''yo''
      (replay (pf_parse demo_platform) ''s'' (lg_store opened_world)) \<lparr>max_iterations = 2\<rparr> None (opened_world, []) =
      Some (Answered ''hi'' True, (w', t)) \<and>
    concat (map said t) = [\<lparr>msg_role = User, msg_content = ''yo'', msg_tool_call_id = None\<rparr>,
      \<lparr>msg_role = Assistant, msg_content = ''hi'', msg_tool_call_id = None\<rparr>]"
  by (simp add: run_turn_def build_initial_request_def Let_def
      dispatch_env_def persisted_env_def demo_agent_def permission_gate_def shape_def react_loop.simps
      run_cycle_def complete_validated_def attempts.simps complete_with_fallback_def saying_provider_def
      validate_def was_truncated_def TRUNCATED_def MAX_RETRIES_def post_phase_def case_prod_beta emit_def
      handle_no_tool_calls_def persisting_driver_def HeadlessDriver_def persisting_sink_def NoSink_def)

theorem persisted_turn_replays_witness:
  "\<exists>w' t. run_turn (pf_parse demo_platform) demo_observed ''s'' ''yo''
      (replay (pf_parse demo_platform) ''s'' (lg_store opened_world)) \<lparr>max_iterations = 2\<rparr> None (opened_world, []) =
      Some (Answered ''hi'' True, (w', t)) \<and>
    agent_transcript (pf_parse demo_platform) ''s'' (lg_store w') =
      [\<lparr>msg_role = User, msg_content = ''yo'', msg_tool_call_id = None\<rparr>,
       \<lparr>msg_role = Assistant, msg_content = ''hi'', msg_tool_call_id = None\<rparr>]"
proof -
  obtain w' t where turn: "run_turn (pf_parse demo_platform) demo_observed ''s'' ''yo''
      (replay (pf_parse demo_platform) ''s'' (lg_store opened_world)) \<lparr>max_iterations = 2\<rparr> None (opened_world, []) =
      Some (Answered ''hi'' True, (w', t))"
    and t: "concat (map said t) = [\<lparr>msg_role = User, msg_content = ''yo'', msg_tool_call_id = None\<rparr>,
      \<lparr>msg_role = Assistant, msg_content = ''hi'', msg_tool_call_id = None\<rparr>]"
    using demo_observed_turn by blast
  have run: "log_run (pf_sha demo_platform) (lg_store opened_world)"
    by (simp add: opened_world_def log_run.opened)
  have none: "agent_transcript (pf_parse demo_platform) ''s'' (lg_store opened_world) = []"
    by (simp add: agent_transcript_def events_or_none_def session_events_def query_def rows_of_def empty_store_def
        opened_world_def)
  from persisted_turn_replays [OF run demo_keeping demo_reads turn] turn t none show ?thesis by auto
qed

section \<open>Session ids\<close>

text \<open>
  The comment on \<open>new_session_id\<close> says sixteen hexadecimal characters. The multiplier has 32 bits and the
  product is not reduced, so the third id of a process is already longer.
\<close>

lemma length_hex_08: "8 \<le> length (hex_08 x)"
  by (simp add: hex_08_def Let_def)

lemma third_session_id_longer: "16 < length (fst (new_session_id nanos 2))"
proof -
  have "length (show_hex 5308871538) = 9"
    by (simp add: show_hex.simps)
  then have "length (hex_08 (2 * 0x9e3779b9)) = 9"
    by (simp add: hex_08_def Let_def)
  then show ?thesis using length_hex_08 [of "xor nanos (push_bit 17 2)"]
    by (simp add: new_session_id_def)
qed

end
