(* ===== verification/Threads.thy ===== *)
theory Threads
  imports Prelude
begin

text \<open>
  The two places where the host's threads meet: the registry of parked questions
  (\<open>host/host/src/pending.rs\<close>) and the job queue of the thread that owns a session
  (\<open>host/host/src/session_thread.rs\<close>). Each operation that takes the lock or touches a channel is one
  atomic step; any interleaving of the steps of any number of threads is a run of the step relation.
  A poisoned lock is recovered by the code and is not modelled.
\<close>

section \<open>Parked questions\<close>

text \<open>
  A channel is a number: \<open>pd_sent\<close> is what its receiver has not taken yet, \<open>pd_alive\<close> the receivers not
  dropped. A \<open>Parked\<close> is the session and channel of a registered wait.
\<close>

record pending =
  pd_waiting :: "string \<rightharpoonup> nat"
  pd_sent :: "nat \<rightharpoonup> string"
  pd_alive :: "nat set"
  pd_next :: nat

record parked =
  pk_session :: string
  pk_channel :: nat

definition no_pending :: pending where
  "no_pending = \<lparr>pd_waiting = Map.empty, pd_sent = Map.empty, pd_alive = {}, pd_next = 0\<rparr>"

definition park :: "string \<Rightarrow> pending \<Rightarrow> parked option \<times> pending" where
  "park session st =
     (let ch = pd_next st
      in if pd_waiting st session \<noteq> None then (None, st\<lparr>pd_next := ch + 1\<rparr>)
         else (Some \<lparr>pk_session = session, pk_channel = ch\<rparr>,
               st\<lparr>pd_waiting := (pd_waiting st)(session \<mapsto> ch), pd_alive := insert ch (pd_alive st),
                  pd_next := ch + 1\<rparr>))"

definition answer_parked :: "string \<Rightarrow> string \<Rightarrow> pending \<Rightarrow> bool \<times> pending" where
  "answer_parked session a st =
     (case pd_waiting st session of
        None \<Rightarrow> (False, st)
      | Some ch \<Rightarrow>
          (let st1 = st\<lparr>pd_waiting := (pd_waiting st)(session := None)\<rparr>
           in if ch \<in> pd_alive st then (True, st1\<lparr>pd_sent := (pd_sent st1)(ch \<mapsto> a)\<rparr>)
              else (False, st1)))"

definition is_parked :: "string \<Rightarrow> pending \<Rightarrow> bool" where
  "is_parked session st \<longleftrightarrow> pd_waiting st session \<noteq> None"

text \<open>\<open>recv_timeout\<close>: what is in the channel when the slice ends.\<close>

definition wait_parked :: "parked \<Rightarrow> pending \<Rightarrow> string option \<times> pending" where
  "wait_parked k st =
     (pd_sent st (pk_channel k), st\<lparr>pd_sent := (pd_sent st)(pk_channel k := None)\<rparr>)"

definition drop_parked :: "parked \<Rightarrow> pending \<Rightarrow> pending" where
  "drop_parked k st =
     st\<lparr>pd_waiting := (pd_waiting st)(pk_session k := None), pd_alive := pd_alive st - {pk_channel k},
        pd_sent := (pd_sent st)(pk_channel k := None)\<rparr>"

datatype pending_act = Park string | Answer string string | Wait parked | Drop parked

inductive pending_step :: "pending \<Rightarrow> pending_act \<Rightarrow> pending \<Rightarrow> bool" where
  parks: "park s st = (k, st') \<Longrightarrow> pending_step st (Park s) st'"
| answers: "answer_parked s a st = (b, st') \<Longrightarrow> pending_step st (Answer s a) st'"
| waits: "wait_parked k st = (v, st') \<Longrightarrow> pending_step st (Wait k) st'"
| drops: "pending_step st (Drop k) (drop_parked k st)"

inductive_cases pending_stepE: "pending_step st act st'"

inductive pending_run :: "pending \<Rightarrow> pending_act list \<Rightarrow> pending \<Rightarrow> bool" where
  stays: "pending_run st [] st"
| steps: "pending_step st act st1 \<Longrightarrow> pending_run st1 acts st2 \<Longrightarrow> pending_run st (act # acts) st2"

text \<open>A registered channel has a live receiver and nothing in it, and belongs to one session.\<close>

definition pending_ok :: "pending \<Rightarrow> bool" where
  "pending_ok st \<longleftrightarrow>
     (\<forall>s ch. pd_waiting st s = Some ch \<longrightarrow> pd_sent st ch = None \<and> ch < pd_next st) \<and>
     (\<forall>s s' ch. pd_waiting st s = Some ch \<longrightarrow> pd_waiting st s' = Some ch \<longrightarrow> s = s') \<and>
     (\<forall>ch \<in> dom (pd_sent st). ch < pd_next st)"

lemma no_pending_ok: "pending_ok no_pending"
  by (simp add: pending_ok_def no_pending_def)

lemma pending_step_ok: "pending_step st act st' \<Longrightarrow> pending_ok st \<Longrightarrow> pending_ok st'"
proof (induction rule: pending_step.induct)
  case (parks s st k st')
  then show ?case
    by (auto simp: park_def Let_def pending_ok_def less_Suc_eq split: if_splits) (blast | fastforce)+
next
  case (answers s a st b st')
  then show ?case
    by (auto simp: answer_parked_def Let_def pending_ok_def split: option.splits if_splits)
next
  case (waits k st v st')
  then show ?case by (auto simp: wait_parked_def pending_ok_def split: if_splits)
next
  case (drops st k)
  then show ?case by (auto simp: drop_parked_def pending_ok_def split: if_splits)
qed

lemma pending_run_ok: "pending_run st acts st' \<Longrightarrow> pending_ok st \<Longrightarrow> pending_ok st'"
  by (induction rule: pending_run.induct) (auto dest: pending_step_ok)

text \<open>What was sent stays in the channel until its own receiver takes it or goes.\<close>

lemma sent_stays:
  assumes "pending_step st act st'" "pd_sent st ch = Some a" "pending_ok st"
    "\<forall>k. pk_channel k = ch \<longrightarrow> act \<noteq> Wait k \<and> act \<noteq> Drop k"
  shows "pd_sent st' ch = Some a"
  using assms
proof (induction rule: pending_step.induct)
  case (answers s b st r st')
  then have "pd_waiting st s \<noteq> Some ch" by (auto simp: pending_ok_def)
  with answers show ?case by (auto simp: answer_parked_def Let_def split: option.splits if_splits)
qed (auto simp: park_def wait_parked_def drop_parked_def Let_def split: if_splits)

lemma sent_stays_run:
  "pending_run st acts st' \<Longrightarrow> pd_sent st ch = Some a \<Longrightarrow> pending_ok st \<Longrightarrow>
     \<forall>act \<in> set acts. \<forall>k. pk_channel k = ch \<longrightarrow> act \<noteq> Wait k \<and> act \<noteq> Drop k \<Longrightarrow>
     pd_sent st' ch = Some a"
  by (induction rule: pending_run.induct) (auto dest: sent_stays pending_step_ok)

text \<open>C16 (answer_reaches_parked): Whatever the threads do, an answer that \<open>answer\<close> accepts is what the parked
  turn's next wait returns, however many steps of other threads come between; and a second answer to
  the same question is refused.\<close>

theorem answer_reaches_parked:
  assumes "pending_run no_pending acts0 st" "park s st = (Some k, st1)"
    "pending_run st1 acts1 st2" "pd_waiting st2 s = Some (pk_channel k)"
    "answer_parked s a st2 = (True, st3)" "pending_run st3 acts st4"
    "\<forall>act \<in> set acts. \<forall>k'. pk_channel k' = pk_channel k \<longrightarrow> act \<noteq> Wait k' \<and> act \<noteq> Drop k'"
  shows "fst (wait_parked k st4) = Some a \<and> answer_parked s b st3 = (False, st3)"
proof -
  have ok: "pending_ok st" by (rule pending_run_ok [OF assms(1) no_pending_ok])
  have "pending_step st (Park s) st1" by (rule pending_step.parks [OF assms(2)])
  from pending_run_ok [OF assms(3) pending_step_ok [OF this ok]] have ok2: "pending_ok st2" .
  have ok3: "pending_ok st3" by (rule pending_step_ok [OF pending_step.answers [OF assms(5)] ok2])
  have sent: "pd_sent st3 (pk_channel k) = Some a" "pd_waiting st3 s = None"
    using assms(4,5) by (auto simp: answer_parked_def Let_def split: if_splits)
  from sent_stays_run [OF assms(6) sent(1) ok3 assms(7)] sent(2) show ?thesis
    by (simp add: wait_parked_def answer_parked_def)
qed

theorem answer_reaches_parked_witness:
  "fst (wait_parked \<lparr>pk_session = ''s'', pk_channel = 0\<rparr>
     (snd (park ''other'' (snd (answer_parked ''s'' ''yes'' (snd (park ''s'' no_pending))))))) = Some ''yes''"
proof -
  let ?st1 = "snd (park ''s'' no_pending)"
  let ?st3 = "snd (answer_parked ''s'' ''yes'' ?st1)"
  have p: "park ''s'' no_pending = (Some \<lparr>pk_session = ''s'', pk_channel = 0\<rparr>, ?st1)"
    by (simp add: park_def no_pending_def)
  have w: "pd_waiting ?st1 ''s'' = Some (pk_channel \<lparr>pk_session = ''s'', pk_channel = 0\<rparr>)"
    by (simp add: park_def no_pending_def)
  have a: "answer_parked ''s'' ''yes'' ?st1 = (True, ?st3)"
    by (simp add: answer_parked_def park_def no_pending_def)
  have r: "pending_run ?st3 [Park ''other''] (snd (park ''other'' ?st3))"
    by (rule pending_run.steps [OF pending_step.parks [OF surjective_pairing] pending_run.stays])
  from answer_reaches_parked [OF pending_run.stays p pending_run.stays w a r] show ?thesis by simp
qed

text \<open>
  Dropping a wait unregisters whatever wait its session has by then. A turn that parked again before
  its earlier wait was dropped would lose its registration; the driver of \<open>serve.rs\<close>, the one caller,
  drops each wait before the next question.
\<close>

lemma overlapping_parks:
  "\<exists>k1 k2 st. pending_run no_pending [Park s, Answer s ''yes'', Park s, Drop k1] st \<and>
     pk_channel k1 \<noteq> pk_channel k2 \<and> pk_channel k2 \<in> pd_alive st \<and> \<not> is_parked s st"
proof -
  let ?k1 = "\<lparr>pk_session = s, pk_channel = 0\<rparr>"
  let ?s1 = "snd (park s no_pending)" let ?s2 = "snd (answer_parked s ''yes'' ?s1)"
  let ?s3 = "snd (park s ?s2)" let ?s4 = "drop_parked ?k1 ?s3"
  have "pending_run no_pending [Park s, Answer s ''yes'', Park s, Drop ?k1] ?s4"
    by (rule pending_run.steps [OF pending_step.parks [OF surjective_pairing]
          pending_run.steps [OF pending_step.answers [OF surjective_pairing]
          pending_run.steps [OF pending_step.parks [OF surjective_pairing]
          pending_run.steps [OF pending_step.drops pending_run.stays]]]])
  moreover have "1 \<in> pd_alive ?s4 \<and> \<not> is_parked s ?s4"
    by (simp add: drop_parked_def park_def answer_parked_def no_pending_def is_parked_def Let_def)
  moreover have "pk_channel ?k1 \<noteq> pk_channel \<lparr>pk_session = s, pk_channel = 1\<rparr>" by simp
  ultimately show ?thesis
    by (metis parked.select_convs(2))
qed

section \<open>The thread that owns a session\<close>

text \<open>
  A job runs on the owned value and gives a result, or panics (\<open>None\<close>) leaving the value as it is by
  then; the loop catches the panic. \<open>jb_waits\<close> tells \<open>run\<close> from \<open>send\<close>. \<open>jb_id\<close> stands for the answer
  channel of a caller. The queue's receiver outlives the loop until its owner drops it (\<open>Gone\<close>): the
  jobs still queued are dropped with it, and their callers' \<open>recv\<close> fails.
\<close>

datatype no_answer = Stopped | Panicked

fun no_answer_text :: "no_answer \<Rightarrow> string" where
  "no_answer_text Stopped = ''the session'' @ [CHR 0x27] @ ''s thread is no longer running''"
| "no_answer_text Panicked = ''the request panicked''"

record ('a, 'r) job =
  jb_id :: nat
  jb_waits :: bool
  jb_run :: "'a \<Rightarrow> 'r option \<times> 'a"

datatype ('a, 'r) task = Work "('a, 'r) job" | StopTask

datatype loop_state = Running | Returned | Gone

record ('a, 'r) jobs =
  jq_queue :: "('a, 'r) task list"
  jq_loop :: loop_state
  jq_owned :: 'a
  jq_answers :: "nat \<rightharpoonup> no_answer + 'r"
  jq_next :: nat

definition jobs_queue :: "'a \<Rightarrow> ('a, 'r) jobs" where
  "jobs_queue owned =
     \<lparr>jq_queue = [], jq_loop = Running, jq_owned = owned, jq_answers = Map.empty, jq_next = 0\<rparr>"

definition reply :: "('a, 'r) job \<Rightarrow> no_answer + 'r \<Rightarrow> ('a, 'r) jobs \<Rightarrow> ('a, 'r) jobs" where
  "reply j a st = (if jb_waits j then st\<lparr>jq_answers := (jq_answers st)(jb_id j \<mapsto> a)\<rparr> else st)"

text \<open>\<open>run\<close> and \<open>send\<close>: queue the job, unless the receiver is gone.\<close>

definition submit :: "bool \<Rightarrow> ('a \<Rightarrow> 'r option \<times> 'a) \<Rightarrow> ('a, 'r) jobs \<Rightarrow> ('a, 'r) jobs" where
  "submit waits f st =
     (let j = \<lparr>jb_id = jq_next st, jb_waits = waits, jb_run = f\<rparr>; st1 = st\<lparr>jq_next := jq_next st + 1\<rparr>
      in if jq_loop st = Gone then reply j (Inl Stopped) st1
         else st1\<lparr>jq_queue := jq_queue st1 @ [Work j]\<rparr>)"

definition stop_jobs :: "('a, 'r) jobs \<Rightarrow> ('a, 'r) jobs" where
  "stop_jobs st = (if jq_loop st = Gone then st else st\<lparr>jq_queue := jq_queue st @ [StopTask]\<rparr>)"

text \<open>One pass of \<open>serve_each\<close>'s loop; an empty queue blocks.\<close>

definition outcome_of :: "('a, 'r) job \<Rightarrow> 'a \<Rightarrow> no_answer + 'r" where
  "outcome_of j a = (case fst (jb_run j a) of None \<Rightarrow> Inl Panicked | Some r \<Rightarrow> Inr r)"

definition serve_step :: "('a \<Rightarrow> 'a) \<Rightarrow> ('a, 'r) jobs \<Rightarrow> ('a, 'r) jobs option" where
  "serve_step after st =
     (if jq_loop st \<noteq> Running then None
      else case jq_queue st of
             [] \<Rightarrow> None
           | StopTask # q \<Rightarrow> Some (st\<lparr>jq_queue := q, jq_loop := Returned\<rparr>)
           | Work j # q \<Rightarrow>
               Some (reply j (outcome_of j (jq_owned st))
                 (st\<lparr>jq_queue := q, jq_owned := after (snd (jb_run j (jq_owned st)))\<rparr>)))"

fun drop_tasks :: "('a, 'r) task list \<Rightarrow> ('a, 'r) jobs \<Rightarrow> ('a, 'r) jobs" where
  "drop_tasks [] st = st"
| "drop_tasks (Work j # q) st = drop_tasks q (reply j (Inl Stopped) st)"
| "drop_tasks (StopTask # q) st = drop_tasks q st"

definition drop_queue :: "('a, 'r) jobs \<Rightarrow> ('a, 'r) jobs" where
  "drop_queue st = drop_tasks (jq_queue st) (st\<lparr>jq_queue := [], jq_loop := Gone\<rparr>)"

datatype act = Submit | StopAct | Serve | DropQueue

inductive jobs_step :: "('a \<Rightarrow> 'a) \<Rightarrow> ('a, 'r) jobs \<Rightarrow> act \<Rightarrow> ('a, 'r) jobs \<Rightarrow> bool" for after where
  submits: "jobs_step after st Submit (submit waits f st)"
| stops: "jobs_step after st StopAct (stop_jobs st)"
| serves: "serve_step after st = Some st' \<Longrightarrow> jobs_step after st Serve st'"
| gone: "jq_loop st = Returned \<Longrightarrow> jobs_step after st DropQueue (drop_queue st)"

inductive jobs_run :: "('a \<Rightarrow> 'a) \<Rightarrow> ('a, 'r) jobs \<Rightarrow> act list \<Rightarrow> ('a, 'r) jobs \<Rightarrow> bool" for after where
  idle: "jobs_run after st [] st"
| moves: "jobs_step after st a st1 \<Longrightarrow> jobs_run after st1 as st2 \<Longrightarrow> jobs_run after st (a # as) st2"

definition queued_ids :: "('a, 'r) jobs \<Rightarrow> nat list" where
  "queued_ids st = List.map_filter (\<lambda>t. case t of Work j \<Rightarrow> Some (jb_id j) | StopTask \<Rightarrow> None) (jq_queue st)"

lemma queued_ids_simps [simp]:
  "List.map_filter (\<lambda>t. case t of Work j \<Rightarrow> Some (jb_id j) | StopTask \<Rightarrow> None) [] = []"
  "List.map_filter (\<lambda>t. case t of Work j \<Rightarrow> Some (jb_id j) | StopTask \<Rightarrow> None) (Work j # q) =
     jb_id j # List.map_filter (\<lambda>t. case t of Work j \<Rightarrow> Some (jb_id j) | StopTask \<Rightarrow> None) q"
  "List.map_filter (\<lambda>t. case t of Work j \<Rightarrow> Some (jb_id j) | StopTask \<Rightarrow> None) (StopTask # q) =
     List.map_filter (\<lambda>t. case t of Work j \<Rightarrow> Some (jb_id j) | StopTask \<Rightarrow> None) q"
  "List.map_filter (\<lambda>t. case t of Work j \<Rightarrow> Some (jb_id j) | StopTask \<Rightarrow> None) (p @ q) =
     List.map_filter (\<lambda>t. case t of Work j \<Rightarrow> Some (jb_id j) | StopTask \<Rightarrow> None) p @
     List.map_filter (\<lambda>t. case t of Work j \<Rightarrow> Some (jb_id j) | StopTask \<Rightarrow> None) q"
  by (simp_all add: List.map_filter_def)

text \<open>Every channel is fresh, and a queued caller has no answer yet.\<close>

definition jobs_ok :: "('a, 'r) jobs \<Rightarrow> bool" where
  "jobs_ok st \<longleftrightarrow> distinct (queued_ids st) \<and>
     (\<forall>i \<in> set (queued_ids st). i < jq_next st \<and> jq_answers st i = None) \<and>
     (\<forall>i \<in> dom (jq_answers st). i < jq_next st)"

lemma drop_tasks_facts:
  "jq_queue (drop_tasks q st) = jq_queue st" "jq_next (drop_tasks q st) = jq_next st"
  "dom (jq_answers (drop_tasks q st)) \<subseteq> dom (jq_answers st) \<union>
     set (List.map_filter (\<lambda>t. case t of Work j \<Rightarrow> Some (jb_id j) | StopTask \<Rightarrow> None) q)"
  by (induction q st rule: drop_tasks.induct) (auto simp: reply_def split: if_splits)

lemma jobs_step_ok: "jobs_step after st a st' \<Longrightarrow> jobs_ok st \<Longrightarrow> jobs_ok st'"
proof (induction rule: jobs_step.induct)
  case (submits st waits f)
  then show ?case
    by (auto simp: submit_def Let_def jobs_ok_def queued_ids_def reply_def less_Suc_eq)
next
  case (stops st)
  then show ?case by (auto simp: stop_jobs_def jobs_ok_def queued_ids_def)
next
  case (serves st st')
  then show ?case
    by (auto simp: serve_step_def jobs_ok_def queued_ids_def reply_def split: if_splits list.splits task.splits)
next
  case (gone st)
  have "queued_ids (drop_queue st) = []" by (simp add: drop_queue_def queued_ids_def drop_tasks_facts)
  moreover have "\<forall>i \<in> dom (jq_answers (drop_queue st)). i < jq_next st"
    using gone.prems drop_tasks_facts(3) [of "jq_queue st" "st\<lparr>jq_queue := [], jq_loop := Gone\<rparr>"]
    by (fastforce simp: drop_queue_def jobs_ok_def queued_ids_def)
  ultimately show ?case by (simp add: jobs_ok_def drop_queue_def drop_tasks_facts)
qed

lemma jobs_run_ok: "jobs_run after st as st' \<Longrightarrow> jobs_ok st \<Longrightarrow> jobs_ok st'"
  by (induction rule: jobs_run.induct) (auto dest: jobs_step_ok)

text \<open>How many tasks are ahead of a caller's job, when no stop is.\<close>

fun ahead :: "nat \<Rightarrow> ('a, 'r) task list \<Rightarrow> (nat \<times> ('a, 'r) job) option" where
  "ahead i [] = None"
| "ahead i (StopTask # q) = None"
| "ahead i (Work j # q) =
     (if jb_id j = i then Some (0, j) else map_option (\<lambda>(p, k). (Suc p, k)) (ahead i q))"

lemma ahead_append: "ahead i q = Some r \<Longrightarrow> ahead i (q @ q') = Some r"
  by (induction i q arbitrary: r rule: ahead.induct) (auto split: if_splits)

lemma ahead_id: "ahead i q = Some (p, j) \<Longrightarrow> jb_id j = i"
  by (induction i q arbitrary: p rule: ahead.induct) (auto split: if_splits)

text \<open>An answer, once delivered, stays: no other task has the caller's channel.\<close>

lemma answer_stays:
  "jobs_step after st a st' \<Longrightarrow> jobs_ok st \<Longrightarrow> jq_answers st i = Some r \<Longrightarrow> jq_answers st' i = Some r"
proof (induction rule: jobs_step.induct)
  case (gone st)
  have keep: "i \<notin> set (List.map_filter (\<lambda>t. case t of Work j \<Rightarrow> Some (jb_id j) | StopTask \<Rightarrow> None) q) \<Longrightarrow>
      jq_answers s i = Some r \<Longrightarrow> jq_answers (drop_tasks q s) i = Some r" for q and s :: "('a, 'b) jobs"
    by (induction q s rule: drop_tasks.induct) (auto simp: reply_def)
  have "i \<notin> set (queued_ids st)" using gone.prems by (auto simp: jobs_ok_def)
  with gone.prems show ?case unfolding drop_queue_def by (intro keep) (simp_all add: queued_ids_def)
next
  case (submits st waits f)
  then have "i < jq_next st" by (auto simp: jobs_ok_def)
  with submits show ?case by (auto simp: submit_def Let_def reply_def)
next
  case (stops st)
  then show ?case by (simp add: stop_jobs_def)
next
  case (serves st st')
  then have "i \<notin> set (queued_ids st)" by (auto simp: jobs_ok_def)
  with serves show ?case
    by (auto simp: serve_step_def queued_ids_def reply_def split: if_splits list.splits task.splits)
qed

lemma answer_stays_run:
  "jobs_run after st as st' \<Longrightarrow> jobs_ok st \<Longrightarrow> jq_answers st i = Some r \<Longrightarrow> jq_answers st' i = Some r"
  by (induction rule: jobs_run.induct) (auto dest: answer_stays jobs_step_ok)

lemma serve_ahead:
  assumes "serve_step after st = Some st'" "ahead i (jq_queue st) = Some (p, j)" "jb_waits j"
  shows "case p of
      0 \<Rightarrow> jq_answers st' i = Some (outcome_of j (jq_owned st))
    | Suc p' \<Rightarrow> jq_loop st' = Running \<and> ahead i (jq_queue st') = Some (p', j)"
  using assms ahead_id [OF assms(2)]
  by (auto simp: serve_step_def reply_def split: if_splits list.splits task.splits nat.splits)

lemma other_ahead:
  "jobs_step after st a st' \<Longrightarrow> a \<noteq> Serve \<Longrightarrow> jq_loop st = Running \<Longrightarrow> ahead i (jq_queue st) = Some r \<Longrightarrow>
     jq_loop st' = Running \<and> ahead i (jq_queue st') = Some r"
  by (induction rule: jobs_step.induct) (auto simp: submit_def stop_jobs_def Let_def ahead_append)

definition serves_in :: "act list \<Rightarrow> nat" where
  "serves_in as = length (filter (\<lambda>a. a = Serve) as)"

lemma served_run:
  "jobs_run after st as st' \<Longrightarrow> jobs_ok st \<Longrightarrow> jq_loop st = Running \<Longrightarrow>
     ahead i (jq_queue st) = Some (p, j) \<Longrightarrow> jb_waits j \<Longrightarrow> p < serves_in as \<Longrightarrow>
     \<exists>owned. jq_answers st' i = Some (outcome_of j owned)"
proof (induction arbitrary: p rule: jobs_run.induct)
  case (idle st)
  then show ?case by (simp add: serves_in_def)
next
  case (moves st a st1 "as" st2)
  note ok1 = jobs_step_ok [OF moves.hyps(1) moves.prems(1)]
  show ?case
  proof (cases "a = Serve")
    case False
    with other_ahead [OF moves.hyps(1) False moves.prems(2,3)] moves ok1 show ?thesis
      by (simp add: serves_in_def)
  next
    case True
    with moves.hyps(1) have s: "serve_step after st = Some st1" by (auto elim: jobs_step.cases)
    show ?thesis
    proof (cases p)
      case 0
      with serve_ahead [OF s moves.prems(3,4)] answer_stays_run [OF moves.hyps(2) ok1] show ?thesis by auto
    next
      case (Suc p')
      with serve_ahead [OF s moves.prems(3,4)] moves ok1 True show ?thesis by (simp add: serves_in_def)
    qed
  qed
qed

lemma loop_makes_progress:
  assumes "jq_loop st = Running" "jq_queue st \<noteq> []"
  shows "\<exists>st'. jobs_step after st Serve st'"
proof -
  obtain t q where "jq_queue st = t # q" using assms(2) by (cases "jq_queue st") auto
  with assms(1) have "\<exists>st'. serve_step after st = Some st'" by (cases t) (simp_all add: serve_step_def)
  then show ?thesis by (auto intro: jobs_step.serves)
qed

text \<open>C17 (queued_job_answered): A caller whose job waits in the queue with no stop before it is answered after as
  many steps of the loop as there are tasks up to its own, whatever other threads queue meanwhile, with
  the result of its own job on the owned value, or with \<open>Panicked\<close>; and while any task is queued the
  running loop can step.\<close>

theorem queued_job_answered:
  assumes "jobs_run after (jobs_queue owned) as0 st" "jq_loop st = Running"
    "ahead i (jq_queue st) = Some (p, j)" "jb_waits j"
    "jobs_run after st as st'" "p < serves_in as"
  shows "(\<exists>a. jq_answers st' i = Some (outcome_of j a)) \<and> (\<exists>st1. jobs_step after st Serve st1)"
proof -
  have "jobs_ok (jobs_queue owned)" by (simp add: jobs_ok_def jobs_queue_def queued_ids_def)
  from served_run [OF assms(5) jobs_run_ok [OF assms(1) this] assms(2-4,6)]
  have "\<exists>a. jq_answers st' i = Some (outcome_of j a)" .
  moreover have "jq_queue st \<noteq> []" using assms(3) by auto
  ultimately show ?thesis using loop_makes_progress [OF assms(2)] by blast
qed

definition owed :: "nat \<Rightarrow> ('a, 'r) jobs \<Rightarrow> bool" where
  "owed i st \<longleftrightarrow> jq_answers st i \<noteq> None \<or>
     (\<exists>j. Work j \<in> set (jq_queue st) \<and> jb_id j = i \<and> jb_waits j)"

lemma drop_tasks_answers:
  "jq_answers st i \<noteq> None \<or> (\<exists>j. Work j \<in> set q \<and> jb_id j = i \<and> jb_waits j) \<Longrightarrow>
     jq_answers (drop_tasks q st) i \<noteq> None"
proof (induction q st rule: drop_tasks.induct)
  case (2 j q st)
  have "jq_answers (reply j (Inl Stopped) st) i \<noteq> None \<or> (\<exists>j. Work j \<in> set q \<and> jb_id j = i \<and> jb_waits j)"
    using 2(2) by (auto simp: reply_def)
  from 2(1) [OF this] show ?case by simp
qed auto

lemma owed_step: "jobs_step after st a st' \<Longrightarrow> owed i st \<Longrightarrow> owed i st'"
proof (induction rule: jobs_step.induct)
  case (gone st)
  then show ?case
    using drop_tasks_answers [of "st\<lparr>jq_queue := [], jq_loop := Gone\<rparr>" i "jq_queue st"]
    by (auto simp: owed_def drop_queue_def)
qed (auto simp: owed_def submit_def stop_jobs_def serve_step_def reply_def Let_def
    split: if_splits list.splits task.splits)

lemma owed_run: "jobs_run after st as st' \<Longrightarrow> owed i st \<Longrightarrow> owed i st'"
  by (induction rule: jobs_run.induct) (auto dest: owed_step)

lemma gone_empty: "jobs_run after st as st' \<Longrightarrow> (jq_loop st = Gone \<longrightarrow> jq_queue st = []) \<Longrightarrow>
    (jq_loop st' = Gone \<longrightarrow> jq_queue st' = [])"
proof (induction rule: jobs_run.induct)
  case (moves st a st1 "as" st2)
  have "jq_loop st1 = Gone \<longrightarrow> jq_queue st1 = []"
    using moves.hyps(1) moves.prems
    by (induction rule: jobs_step.induct)
      (auto simp: submit_def stop_jobs_def serve_step_def reply_def drop_queue_def drop_tasks_facts Let_def
        split: if_splits list.splits task.splits)
  with moves.IH show ?case by simp
qed simp

text \<open>A caller of \<open>run\<close> is never left waiting: once the queue is gone it has an answer,
  its job's or \<open>Stopped\<close>, whenever it queued the job, before or after the stop.\<close>

theorem no_caller_hangs:
  assumes "jobs_run after (jobs_queue owned) as0 st" "jobs_run after (submit True f st) as st'"
    "jq_loop st' = Gone"
  shows "jq_answers st' (jq_next st) \<noteq> None"
proof -
  have "owed (jq_next st) (submit True f st)"
    by (auto simp: owed_def submit_def reply_def Let_def intro!: exI [of _ "\<lparr>jb_id = jq_next st, jb_waits = True, jb_run = f\<rparr>"])
  from owed_run [OF assms(2) this] have "owed (jq_next st) st'" .
  moreover have "jobs_run after (submit True f st) as st' \<Longrightarrow> jq_queue st' = []"
    using gone_empty [OF assms(2)] gone_empty [OF assms(1)] assms(3)
    by (auto simp: jobs_queue_def submit_def reply_def Let_def split: if_splits)
  ultimately show ?thesis using assms(2) by (auto simp: owed_def)
qed

section \<open>Concrete runs\<close>

definition count_job :: "nat \<Rightarrow> nat option \<times> nat" where
  "count_job n = (Some n, n + 1)"

definition one_job :: "(nat, nat) jobs" where
  "one_job = submit True count_job (jobs_queue 7)"

lemma one_job_run: "jobs_run id (jobs_queue 7) [Submit] one_job"
  unfolding one_job_def by (rule jobs_run.moves [OF jobs_step.submits jobs_run.idle])

theorem queued_job_answered_witness:
  "\<exists>st'. jobs_run id one_job [Serve] st' \<and> (\<exists>a. jq_answers st' 0 = Some (outcome_of
     \<lparr>jb_id = 0, jb_waits = True, jb_run = count_job\<rparr> a))"
proof -
  let ?j = "\<lparr>jb_id = 0, jb_waits = True, jb_run = count_job\<rparr> :: (nat, nat) job"
  have q: "jq_loop one_job = Running" "ahead 0 (jq_queue one_job) = Some (0, ?j)" "jb_waits ?j"
    by (simp_all add: one_job_def submit_def jobs_queue_def)
  obtain st' where "jobs_step id one_job Serve st'"
    using loop_makes_progress [OF q(1), of id] q(2) by force
  then have run: "jobs_run id one_job [Serve] st'" by (rule jobs_run.moves [OF _ jobs_run.idle])
  from queued_job_answered [OF one_job_run q run] run show ?thesis by (auto simp: serves_in_def)
qed

theorem no_caller_hangs_witness:
  "\<exists>st'. jobs_run id (submit True count_job (stop_jobs (jobs_queue 7))) [Serve, DropQueue] st' \<and>
     jq_answers st' 0 \<noteq> None"
proof -
  let ?s1 = "submit True count_job (stop_jobs (jobs_queue 7))"
  let ?s2 = "?s1\<lparr>jq_queue := drop 1 (jq_queue ?s1), jq_loop := Returned\<rparr>"
  have init: "jobs_run id (jobs_queue 7) [StopAct] (stop_jobs (jobs_queue 7))"
    by (rule jobs_run.moves [OF jobs_step.stops jobs_run.idle])
  have s: "serve_step id ?s1 = Some ?s2"
    by (simp add: serve_step_def submit_def stop_jobs_def jobs_queue_def Let_def)
  have run: "jobs_run id ?s1 [Serve, DropQueue] (drop_queue ?s2)"
    by (rule jobs_run.moves [OF jobs_step.serves [OF s] jobs_run.moves [OF jobs_step.gone jobs_run.idle]]) simp
  have "jq_loop (drop_tasks q st) = jq_loop st" for q and st :: "(nat, nat) jobs"
    by (induction q st rule: drop_tasks.induct) (simp_all add: reply_def)
  then have "jq_loop (drop_queue ?s2) = Gone" by (simp add: drop_queue_def)
  from no_caller_hangs [OF init run this] run show ?thesis
    by (auto simp: stop_jobs_def jobs_queue_def)
qed

end
