(* ===== verification/Composer.thy ===== *)
theory Composer
  imports Prelude
begin

text \<open>
  The message buffer of the terminal client (\<open>clients/tui/src/composer.rs\<close>). A Rust \<open>String\<close> is valid
  UTF-8: the text is the list of its scalars, each its bytes, and the caret a byte offset into their
  concatenation. Slicing at an offset inside a scalar panics, so every operation that slices has an
  \<open>option\<close> result. Grapheme segmentation (\<open>unicode-segmentation\<close>) and display width belong to other
  crates: \<open>seg\<close> and \<open>wid\<close>.
\<close>

type_synonym scalars = "string list"

definition blen :: "scalars \<Rightarrow> nat" where
  "blen cs = length (concat cs)"

fun cut_at :: "scalars \<Rightarrow> nat \<Rightarrow> (scalars \<times> scalars) option" where
  "cut_at cs 0 = Some ([], cs)"
| "cut_at [] (Suc n) = None"
| "cut_at (c # cs) (Suc n) =
     (if length c \<le> Suc n then map_option (\<lambda>(a, b). (c # a, b)) (cut_at cs (Suc n - length c)) else None)"

definition head_at :: "scalars \<Rightarrow> nat \<Rightarrow> scalars option" where
  "head_at cs n = map_option fst (cut_at cs n)"

definition tail_at :: "scalars \<Rightarrow> nat \<Rightarrow> scalars option" where
  "tail_at cs n = map_option snd (cut_at cs n)"

text \<open>\<open>String::replace_range(a..b, new)\<close>.\<close>

definition replace_range :: "scalars \<Rightarrow> nat \<Rightarrow> nat \<Rightarrow> scalars \<Rightarrow> scalars option" where
  "replace_range cs a b new =
     (if b < a then None
      else Option.bind (head_at cs a) (\<lambda>h. map_option (\<lambda>t. h @ new @ t) (tail_at cs b)))"

record composer =
  cp_text :: scalars
  cp_caret :: nat

definition empty_composer :: composer where
  "empty_composer = \<lparr>cp_text = [], cp_caret = 0\<rparr>"

definition trim_scalars :: "scalars \<Rightarrow> scalars" where
  "trim_scalars cs = rev (dropWhile is_whitespace (rev (dropWhile is_whitespace cs)))"

definition composer_is_empty :: "composer \<Rightarrow> bool" where
  "composer_is_empty c \<longleftrightarrow> trim_scalars (cp_text c) = []"

definition composer_take :: "composer \<Rightarrow> scalars option \<times> composer" where
  "composer_take c =
     (if composer_is_empty c then (None, empty_composer)
      else (Some (trim_scalars (cp_text c)), empty_composer))"

definition composer_set :: "scalars \<Rightarrow> composer" where
  "composer_set s = \<lparr>cp_text = s, cp_caret = blen s\<rparr>"

definition replace_before :: "nat \<Rightarrow> scalars \<Rightarrow> composer \<Rightarrow> composer option" where
  "replace_before count s c =
     (let start = cp_caret c - count
      in map_option (\<lambda>t. \<lparr>cp_text = t, cp_caret = start + blen s\<rparr>)
           (replace_range (cp_text c) start (cp_caret c) s))"

definition composer_insert :: "scalars \<Rightarrow> composer \<Rightarrow> composer option" where
  "composer_insert s c =
     map_option (\<lambda>t. \<lparr>cp_text = t, cp_caret = cp_caret c + blen s\<rparr>)
       (replace_range (cp_text c) (cp_caret c) (cp_caret c) s)"

definition composer_push :: "string \<Rightarrow> composer \<Rightarrow> composer option" where
  "composer_push ch c = composer_insert [ch] c"

section \<open>Moving by graphemes\<close>

type_synonym segmenter = "scalars \<Rightarrow> scalars list"

definition prev_boundary :: "segmenter \<Rightarrow> composer \<Rightarrow> nat option option" where
  "prev_boundary seg c =
     map_option (\<lambda>h. if seg h = [] then None else Some (blen (concat (butlast (seg h)))))
       (head_at (cp_text c) (cp_caret c))"

definition next_boundary :: "segmenter \<Rightarrow> composer \<Rightarrow> nat option option" where
  "next_boundary seg c =
     map_option (\<lambda>t. case seg t of [] \<Rightarrow> None | g # _ \<Rightarrow> Some (cp_caret c + blen g))
       (tail_at (cp_text c) (cp_caret c))"

definition backspace :: "segmenter \<Rightarrow> composer \<Rightarrow> composer option" where
  "backspace seg c =
     Option.bind (prev_boundary seg c) (\<lambda>b. case b of
       None \<Rightarrow> Some c
     | Some start \<Rightarrow> map_option (\<lambda>t. \<lparr>cp_text = t, cp_caret = start\<rparr>)
         (replace_range (cp_text c) start (cp_caret c) []))"

definition move_left :: "segmenter \<Rightarrow> composer \<Rightarrow> composer option" where
  "move_left seg c =
     map_option (\<lambda>b. case b of None \<Rightarrow> c | Some i \<Rightarrow> c\<lparr>cp_caret := i\<rparr>) (prev_boundary seg c)"

definition move_right :: "segmenter \<Rightarrow> composer \<Rightarrow> composer option" where
  "move_right seg c =
     map_option (\<lambda>b. case b of None \<Rightarrow> c | Some i \<Rightarrow> c\<lparr>cp_caret := i\<rparr>) (next_boundary seg c)"

section \<open>Lines and words\<close>

text \<open>
  \<open>rfind(p).map_or(0, |i| i + 1)\<close>: the byte offset of the last scalar with \<open>p\<close>, plus one, whatever the
  length of that scalar.
\<close>

definition after_last :: "(string \<Rightarrow> bool) \<Rightarrow> scalars \<Rightarrow> nat" where
  "after_last p cs =
     (case dropWhile (\<lambda>x. \<not> p x) (rev cs) of [] \<Rightarrow> 0 | x # before \<Rightarrow> blen (rev before) + 1)"

definition is_newline :: "string \<Rightarrow> bool" where
  "is_newline ch \<longleftrightarrow> ch = [newline]"

definition line_start :: "composer \<Rightarrow> nat option" where
  "line_start c = map_option (after_last is_newline) (head_at (cp_text c) (cp_caret c))"

definition line_end :: "composer \<Rightarrow> nat option" where
  "line_end c =
     map_option (\<lambda>t. cp_caret c + blen (takeWhile (\<lambda>x. \<not> is_newline x) t))
       (tail_at (cp_text c) (cp_caret c))"

definition home :: "composer \<Rightarrow> composer option" where
  "home c = map_option (\<lambda>i. c\<lparr>cp_caret := i\<rparr>) (line_start c)"

definition line_end_key :: "composer \<Rightarrow> composer option" where
  "line_end_key c = map_option (\<lambda>i. c\<lparr>cp_caret := i\<rparr>) (line_end c)"

definition word_start :: "composer \<Rightarrow> nat option" where
  "word_start c =
     map_option (\<lambda>h. after_last is_whitespace (rev (dropWhile is_whitespace (rev h))))
       (head_at (cp_text c) (cp_caret c))"

definition word_end :: "composer \<Rightarrow> nat option" where
  "word_end c =
     map_option (\<lambda>t.
         let skipped = blen (takeWhile is_whitespace t);
             rest = dropWhile is_whitespace t;
             len = blen (takeWhile (\<lambda>x. \<not> is_whitespace x) rest)
         in cp_caret c + skipped + len)
       (tail_at (cp_text c) (cp_caret c))"

definition word_left :: "composer \<Rightarrow> composer option" where
  "word_left c = map_option (\<lambda>i. c\<lparr>cp_caret := i\<rparr>) (word_start c)"

definition word_right :: "composer \<Rightarrow> composer option" where
  "word_right c = map_option (\<lambda>i. c\<lparr>cp_caret := i\<rparr>) (word_end c)"

definition delete_word_back :: "composer \<Rightarrow> composer option" where
  "delete_word_back c =
     Option.bind (word_start c) (\<lambda>start.
       map_option (\<lambda>t. \<lparr>cp_text = t, cp_caret = start\<rparr>)
         (replace_range (cp_text c) start (cp_caret c) []))"

definition kill_to_end :: "composer \<Rightarrow> composer option" where
  "kill_to_end c =
     Option.bind (line_end c) (\<lambda>e.
       map_option (\<lambda>t. c\<lparr>cp_text := t\<rparr>) (replace_range (cp_text c) (cp_caret c) e []))"

definition kill_line :: "composer \<Rightarrow> composer option" where
  "kill_line c =
     Option.bind (line_start c) (\<lambda>start. Option.bind (line_end c) (\<lambda>e.
       map_option (\<lambda>t. \<lparr>cp_text = t, cp_caret = start\<rparr>) (replace_range (cp_text c) start e [])))"

section \<open>Visual rows\<close>

definition MAX_ROWS :: nat where "MAX_ROWS = 8"

record vrow =
  vr_start :: nat
  vr_text :: scalars
  vr_hard_end :: bool

record layout_state =
  ls_rows :: "vrow list"
  ls_row :: scalars
  ls_row_start :: nat
  ls_used :: nat
  ls_caret :: "nat \<times> nat"

text \<open>The inner loop over the clusters of one logical line; \<open>off\<close> is the cluster's offset in it.\<close>

fun lay_clusters ::
  "(scalars \<Rightarrow> nat) \<Rightarrow> nat \<Rightarrow> nat \<Rightarrow> nat \<Rightarrow> nat \<Rightarrow> scalars list \<Rightarrow> layout_state \<Rightarrow> layout_state" where
  "lay_clusters wid width caret base off [] s = s"
| "lay_clusters wid width caret base off (g # gs) s =
     (let w = wid g;
          s1 = (if width < ls_used s + w \<and> ls_row s \<noteq> []
                then s\<lparr>ls_rows := ls_rows s @ [\<lparr>vr_start = ls_row_start s, vr_text = ls_row s, vr_hard_end = False\<rparr>],
                       ls_row := [], ls_row_start := base + off, ls_used := 0\<rparr>
                else s);
          s2 = (if base + off = caret then s1\<lparr>ls_caret := (length (ls_rows s1), ls_used s1)\<rparr> else s1)
      in lay_clusters wid width caret base (off + blen g) gs
           (s2\<lparr>ls_row := ls_row s2 @ g, ls_used := ls_used s2 + w\<rparr>))"

definition lay_line ::
  "segmenter \<Rightarrow> (scalars \<Rightarrow> nat) \<Rightarrow> nat \<Rightarrow> nat \<Rightarrow> nat \<Rightarrow> scalars \<Rightarrow> vrow list \<times> (nat \<times> nat)
     \<Rightarrow> vrow list \<times> (nat \<times> nat)" where
  "lay_line seg wid width caret base logical rc =
     (let s = lay_clusters wid width caret base 0 (seg logical)
            \<lparr>ls_rows = fst rc, ls_row = [], ls_row_start = base, ls_used = 0, ls_caret = snd rc\<rparr>
      in (ls_rows s @ [\<lparr>vr_start = ls_row_start s, vr_text = ls_row s, vr_hard_end = True\<rparr>],
          if base + blen logical = caret then (length (ls_rows s), ls_used s) else ls_caret s))"

fun split_newlines :: "scalars \<Rightarrow> scalars list" where
  "split_newlines [] = [[]]"
| "split_newlines (c # cs) =
     (if is_newline c then [] # split_newlines cs
      else (case split_newlines cs of [] \<Rightarrow> [[c]] | l # ls \<Rightarrow> (c # l) # ls))"

fun lay_lines ::
  "segmenter \<Rightarrow> (scalars \<Rightarrow> nat) \<Rightarrow> nat \<Rightarrow> nat \<Rightarrow> nat \<Rightarrow> scalars list \<Rightarrow> vrow list \<times> (nat \<times> nat)
     \<Rightarrow> vrow list \<times> (nat \<times> nat)" where
  "lay_lines seg wid width caret base [] rc = rc"
| "lay_lines seg wid width caret base (l # ls) rc =
     lay_lines seg wid width caret (base + blen l + 1) ls (lay_line seg wid width caret base l rc)"

definition layout ::
  "segmenter \<Rightarrow> (scalars \<Rightarrow> nat) \<Rightarrow> composer \<Rightarrow> nat \<Rightarrow> vrow list \<times> (nat \<times> nat)" where
  "layout seg wid c width =
     lay_lines seg wid (max width 1) (cp_caret c) 0 (split_newlines (cp_text c)) ([], (0, 0))"

definition composer_rows ::
  "segmenter \<Rightarrow> (scalars \<Rightarrow> nat) \<Rightarrow> composer \<Rightarrow> nat \<Rightarrow> scalars list \<times> (nat \<times> nat)" where
  "composer_rows seg wid c width = (case layout seg wid c width of (rows, pos) \<Rightarrow> (map vr_text rows, pos))"

text \<open>The loop of \<open>offset_in_row\<close>: \<open>Inl\<close> is the early return, \<open>Inr\<close> the last offset seen.\<close>

fun offset_loop ::
  "(scalars \<Rightarrow> nat) \<Rightarrow> nat \<Rightarrow> nat \<Rightarrow> nat \<Rightarrow> scalars list \<Rightarrow> nat \<Rightarrow> nat \<Rightarrow> nat + nat" where
  "offset_loop wid start column off [] used last_off = Inr last_off"
| "offset_loop wid start column off (g # gs) used last_off =
     (if column \<le> used then Inl (start + off)
      else offset_loop wid start column (off + blen g) gs (used + wid g) (start + off))"

definition offset_in_row :: "segmenter \<Rightarrow> (scalars \<Rightarrow> nat) \<Rightarrow> vrow \<Rightarrow> nat \<Rightarrow> nat" where
  "offset_in_row seg wid r column =
     (case offset_loop wid (vr_start r) column 0 (seg (vr_text r)) 0 (vr_start r) of
        Inl i \<Rightarrow> i
      | Inr last_off \<Rightarrow>
          if vr_hard_end r \<or> vr_text r = [] then vr_start r + blen (vr_text r) else last_off)"

definition on_first_row :: "segmenter \<Rightarrow> (scalars \<Rightarrow> nat) \<Rightarrow> composer \<Rightarrow> nat \<Rightarrow> bool" where
  "on_first_row seg wid c width \<longleftrightarrow> fst (snd (layout seg wid c width)) = 0"

definition on_last_row :: "segmenter \<Rightarrow> (scalars \<Rightarrow> nat) \<Rightarrow> composer \<Rightarrow> nat \<Rightarrow> bool" where
  "on_last_row seg wid c width \<longleftrightarrow>
     (case layout seg wid c width of (rows, pos) \<Rightarrow> length rows \<le> fst pos + 1)"

definition move_up :: "segmenter \<Rightarrow> (scalars \<Rightarrow> nat) \<Rightarrow> nat \<Rightarrow> composer \<Rightarrow> composer option" where
  "move_up seg wid width c =
     (case layout seg wid c width of (rows, (row, col)) \<Rightarrow>
        if row = 0 then Some c
        else if row - 1 < length rows
        then Some (c\<lparr>cp_caret := offset_in_row seg wid (rows ! (row - 1)) col\<rparr>) else None)"

definition move_down :: "segmenter \<Rightarrow> (scalars \<Rightarrow> nat) \<Rightarrow> nat \<Rightarrow> composer \<Rightarrow> composer option" where
  "move_down seg wid width c =
     (case layout seg wid c width of (rows, (row, col)) \<Rightarrow>
        if length rows \<le> row + 1 then Some c
        else Some (c\<lparr>cp_caret := offset_in_row seg wid (rows ! (row + 1)) col\<rparr>))"

definition visible ::
  "segmenter \<Rightarrow> (scalars \<Rightarrow> nat) \<Rightarrow> composer \<Rightarrow> nat \<Rightarrow> (scalars list \<times> (nat \<times> nat)) option" where
  "visible seg wid c width =
     (case composer_rows seg wid c width of (rows, (row, col)) \<Rightarrow>
        if length rows \<le> MAX_ROWS then Some (rows, (row, col))
        else (let bottom = max row (MAX_ROWS - 1); start = bottom + 1 - MAX_ROWS
              in if bottom < length rows
                 then Some (take (bottom + 1 - start) (drop start rows), (row - start, col)) else None))"

definition line_count :: "composer \<Rightarrow> nat" where
  "line_count c = length (split_newlines (cp_text c))"

section \<open>The caret stays on a scalar boundary\<close>

lemma blen_simps [simp]:
  "blen [] = 0" "blen (c # cs) = length c + blen cs" "blen (a @ b) = blen a + blen b"
  by (simp_all add: blen_def)

lemma cut_at_Cons:
  "0 < n \<Longrightarrow> cut_at (c # cs) n =
     (if length c \<le> n then map_option (\<lambda>(a, b). (c # a, b)) (cut_at cs (n - length c)) else None)"
  by (cases n) auto

lemma cut_at_prefix: "[] \<notin> set a \<Longrightarrow> cut_at (a @ b) (blen a) = Some (a, b)"
  by (induction a) (auto simp: cut_at_Cons)

lemma cut_at_SomeD: "cut_at cs n = Some (a, b) \<Longrightarrow> cs = a @ b \<and> n = blen a"
  by (induction cs n arbitrary: a b rule: cut_at.induct) (auto split: if_splits)

lemma head_at_prefix: "[] \<notin> set a \<Longrightarrow> head_at (a @ b) (blen a) = Some a"
  and tail_at_prefix: "[] \<notin> set a \<Longrightarrow> tail_at (a @ b) (blen a) = Some b"
  by (simp_all add: head_at_def tail_at_def cut_at_prefix)

lemma replace_range_span:
  assumes "[] \<notin> set (a @ b)"
  shows "replace_range (a @ b @ d) (blen a) (blen a + blen b) new = Some (a @ new @ d)"
proof -
  have "tail_at (a @ b @ d) (blen a + blen b) = Some d"
    using tail_at_prefix [OF assms, of d] by simp
  then show ?thesis using assms by (simp add: replace_range_def head_at_prefix)
qed

definition graphemes_ok :: "segmenter \<Rightarrow> bool" where
  "graphemes_ok seg \<longleftrightarrow> (\<forall>cs. concat (seg cs) = cs \<and> [] \<notin> set (seg cs))"

text \<open>A text whose scalars are not empty and whose whitespace is one byte long (ASCII whitespace).\<close>

definition plain_text :: "scalars \<Rightarrow> bool" where
  "plain_text cs \<longleftrightarrow> (\<forall>ch\<in>set cs. ch \<noteq> [] \<and> (is_whitespace ch \<longrightarrow> length ch = 1))"

definition composer_ok :: "composer \<Rightarrow> bool" where
  "composer_ok c \<longleftrightarrow> plain_text (cp_text c) \<and> cut_at (cp_text c) (cp_caret c) \<noteq> None"

lemma plain_text_simps [simp]:
  "plain_text []" "plain_text (a @ b) \<longleftrightarrow> plain_text a \<and> plain_text b"
  by (auto simp: plain_text_def)

lemma plain_text_nonempty: "plain_text a \<Longrightarrow> [] \<notin> set a"
  by (auto simp: plain_text_def)

lemma composer_okI: "plain_text a \<Longrightarrow> plain_text b \<Longrightarrow> composer_ok \<lparr>cp_text = a @ b, cp_caret = blen a\<rparr>"
  by (simp add: composer_ok_def cut_at_prefix plain_text_nonempty)

lemma composer_okI':
  "plain_text a \<Longrightarrow> plain_text b \<Longrightarrow> t = a @ b \<Longrightarrow> i = blen a \<Longrightarrow> composer_ok \<lparr>cp_text = t, cp_caret = i\<rparr>"
  using composer_okI by simp

lemma composer_okE:
  assumes "composer_ok c"
  obtains a b where "c = \<lparr>cp_text = a @ b, cp_caret = blen a\<rparr>" "plain_text a" "plain_text b"
proof -
  obtain a b where ab: "cut_at (cp_text c) (cp_caret c) = Some (a, b)"
    using assms by (auto simp: composer_ok_def)
  from cut_at_SomeD [OF ab] assms that [of a b] show thesis
    by (cases c) (auto simp: composer_ok_def)
qed

lemma after_last_boundary:
  assumes "\<forall>x\<in>set cs. p x \<longrightarrow> length x = 1"
  shows "\<exists>u v. cs = u @ v \<and> after_last p cs = blen u"
proof (cases "dropWhile (\<lambda>x. \<not> p x) (rev cs)")
  case Nil
  then have "after_last p cs = 0" by (simp only: after_last_def list.case)
  then have "cs = [] @ cs \<and> after_last p cs = blen []" by simp
  then show ?thesis by blast
next
  case (Cons x before)
  have split: "rev cs = takeWhile (\<lambda>x. \<not> p x) (rev cs) @ x # before"
    using Cons takeWhile_dropWhile_id [of "\<lambda>x. \<not> p x" "rev cs"] by simp
  then have cs: "cs = rev before @ [x] @ rev (takeWhile (\<lambda>x. \<not> p x) (rev cs))"
    by (metis rev_rev_ident rev_append rev.simps(2) append_assoc)
  have "p x" using Cons by (metis hd_dropWhile list.sel(1) list.distinct(1))
  moreover have "x \<in> set cs" using cs by (metis in_set_conv_decomp append_Cons append_Nil)
  ultimately have "length x = 1" using assms by blast
  then show ?thesis
    using cs Cons
    by (intro exI [of _ "rev before @ [x]"] exI [of _ "rev (takeWhile (\<lambda>x. \<not> p x) (rev cs))"])
      (simp add: after_last_def)
qed

lemma newline_is_whitespace: "is_newline ch \<Longrightarrow> is_whitespace ch"
  by (simp add: is_newline_def is_whitespace_def newline_def)

lemma after_last_plain:
  assumes "plain_text (cs @ d)" "\<And>x. p x \<Longrightarrow> is_whitespace x"
  obtains u v where "cs = u @ v" "after_last p cs = blen u" "plain_text u" "plain_text v"
proof -
  have "\<forall>x\<in>set cs. p x \<longrightarrow> length x = 1" using assms by (auto simp: plain_text_def)
  from after_last_boundary [OF this] that assms(1) show thesis by auto
qed

lemma line_start_plain:
  assumes "plain_text a"
  obtains u v where "a = u @ v" "line_start \<lparr>cp_text = a @ b, cp_caret = blen a\<rparr> = Some (blen u)"
proof -
  from assms have "plain_text (a @ [])" by simp
  from after_last_plain [OF this newline_is_whitespace]
  obtain u v where "a = u @ v" "after_last is_newline a = blen u" by metis
  moreover have "head_at (a @ b) (blen a) = Some a"
    using assms by (rule head_at_prefix [OF plain_text_nonempty])
  ultimately have "line_start \<lparr>cp_text = a @ b, cp_caret = blen a\<rparr> = Some (blen u)"
    by (simp add: line_start_def)
  with that \<open>a = u @ v\<close> show thesis by metis
qed

lemma line_end_plain:
  assumes "plain_text a"
  shows "line_end \<lparr>cp_text = a @ b, cp_caret = blen a\<rparr> =
           Some (blen a + blen (takeWhile (\<lambda>x. \<not> is_newline x) b))"
  using assms by (simp add: line_end_def tail_at_prefix plain_text_nonempty)

lemma word_start_plain:
  assumes "plain_text a"
  obtains u v where "a = u @ v" "word_start \<lparr>cp_text = a @ b, cp_caret = blen a\<rparr> = Some (blen u)"
proof -
  let ?k = "rev (dropWhile is_whitespace (rev a))"
  have a: "a = ?k @ rev (takeWhile is_whitespace (rev a))"
    by (metis rev_append rev_rev_ident takeWhile_dropWhile_id)
  have "plain_text (?k @ rev (takeWhile is_whitespace (rev a)))" using assms a by simp
  from after_last_plain [OF this, of is_whitespace]
  obtain u v where uv: "?k = u @ v" "after_last is_whitespace ?k = blen u" by metis
  with assms have "word_start \<lparr>cp_text = a @ b, cp_caret = blen a\<rparr> = Some (blen u)"
    by (simp add: word_start_def head_at_prefix plain_text_nonempty)
  moreover have "a = u @ (v @ rev (takeWhile is_whitespace (rev a)))"
    using a uv(1) by simp
  ultimately show thesis using that by metis
qed

section \<open>Laying the text out\<close>

text \<open>A row is a stretch of the text, at its offset; \<open>rows_of\<close> collects the facts about a laid-out row.\<close>

definition row_in :: "scalars \<Rightarrow> vrow \<Rightarrow> bool" where
  "row_in t r \<longleftrightarrow> (\<exists>u v. t = u @ vr_text r @ v \<and> vr_start r = blen u)"

definition row_fits :: "(scalars \<Rightarrow> nat) \<Rightarrow> nat \<Rightarrow> vrow \<Rightarrow> bool" where
  "row_fits wid width r \<longleftrightarrow>
     (\<exists>gs. vr_text r = concat gs \<and> (sum_list (map wid gs) \<le> width \<or> length gs \<le> 1))"

definition rows_text :: "vrow list \<Rightarrow> scalars" where
  "rows_text rows = concat (map (\<lambda>r. vr_text r @ (if vr_hard_end r then [[newline]] else [])) rows)"

lemma rows_text_simps [simp]:
  "rows_text [] = []" "rows_text (a @ b) = rows_text a @ rows_text b"
  "rows_text (r # b) = vr_text r @ (if vr_hard_end r then [[newline]] else []) @ rows_text b"
  by (simp_all add: rows_text_def)

text \<open>The state of the loop between two clusters: what is laid out and the row in progress.\<close>

definition laying :: "(scalars \<Rightarrow> nat) \<Rightarrow> nat \<Rightarrow> scalars \<Rightarrow> scalars \<Rightarrow> layout_state \<Rightarrow> bool" where
  "laying wid width t done s \<longleftrightarrow>
     (\<forall>r\<in>set (ls_rows s). row_in t r \<and> row_fits wid width r) \<and>
     (\<exists>u. done = u @ ls_row s \<and> ls_row_start s = blen u) \<and>
     (\<exists>gs. ls_row s = concat gs \<and> [] \<notin> set gs \<and> ls_used s = sum_list (map wid gs) \<and>
           (ls_used s \<le> width \<or> length gs \<le> 1)) \<and>
     fst (ls_caret s) \<le> length (ls_rows s) \<and> rows_text (ls_rows s) @ ls_row s = done"

definition breaks_row :: "(scalars \<Rightarrow> nat) \<Rightarrow> nat \<Rightarrow> scalars \<Rightarrow> layout_state \<Rightarrow> bool" where
  "breaks_row wid width g s \<longleftrightarrow> width < ls_used s + wid g \<and> ls_row s \<noteq> []"

definition broken_row :: "nat \<Rightarrow> layout_state \<Rightarrow> layout_state" where
  "broken_row start s =
     s\<lparr>ls_rows := ls_rows s @ [\<lparr>vr_start = ls_row_start s, vr_text = ls_row s, vr_hard_end = False\<rparr>],
       ls_row := [], ls_row_start := start, ls_used := 0\<rparr>"

lemma laying_row_fits:
  "laying wid width t done s \<Longrightarrow>
     row_fits wid width \<lparr>vr_start = ls_row_start s, vr_text = ls_row s, vr_hard_end = h\<rparr>"
  by (auto simp: laying_def row_fits_def)

lemma laying_row_in:
  "laying wid width (done @ rest) done s \<Longrightarrow>
     row_in (done @ rest) \<lparr>vr_start = ls_row_start s, vr_text = ls_row s, vr_hard_end = h\<rparr>"
  by (clarsimp simp: laying_def row_in_def) blast

lemma laying_broken:
  assumes "laying wid width (done @ rest) done s"
  shows "laying wid width (done @ rest) done (broken_row (blen done) s)"
  using laying_row_in [OF assms] laying_row_fits [OF assms] assms
  by (auto simp: laying_def broken_row_def intro: exI [of _ "[]"])

lemma laying_caret:
  "laying wid width t done s \<Longrightarrow> laying wid width t done (s\<lparr>ls_caret := (length (ls_rows s), u)\<rparr>)"
  by (auto simp: laying_def)

lemma laying_add:
  assumes "laying wid width t done s" "g \<noteq> []" "\<not> breaks_row wid width g s"
  shows "laying wid width t (done @ g) (s\<lparr>ls_row := ls_row s @ g, ls_used := ls_used s + wid g\<rparr>)"
proof -
  obtain gs where gs: "ls_row s = concat gs" "[] \<notin> set gs" "ls_used s = sum_list (map wid gs)"
    using assms(1) by (auto simp: laying_def)
  have "gs = [] \<or> ls_used s + wid g \<le> width"
    using assms(3) gs(1,2) by (cases gs) (auto simp: breaks_row_def)
  then have "\<exists>gs. ls_row s @ g = concat gs \<and> [] \<notin> set gs \<and> ls_used s + wid g = sum_list (map wid gs) \<and>
      (ls_used s + wid g \<le> width \<or> length gs \<le> 1)"
    using gs assms(2) by (intro exI [of _ "gs @ [g]"]) auto
  with assms(1) show ?thesis by (auto simp: laying_def)
qed

lemma lay_clusters_Cons:
  "lay_clusters wid width caret base off (g # gs) s =
     (let s1 = (if breaks_row wid width g s then broken_row (base + off) s else s);
          s2 = (if base + off = caret then s1\<lparr>ls_caret := (length (ls_rows s1), ls_used s1)\<rparr> else s1)
      in lay_clusters wid width caret base (off + blen g) gs
           (s2\<lparr>ls_row := ls_row s2 @ g, ls_used := ls_used s2 + wid g\<rparr>))"
  by (simp add: breaks_row_def broken_row_def Let_def)

lemma not_breaks_broken: "\<not> breaks_row wid width g (broken_row i s)"
  by (simp add: breaks_row_def broken_row_def)

lemma breaks_row_caret [simp]: "breaks_row wid width g (s\<lparr>ls_caret := p\<rparr>) = breaks_row wid width g s"
  by (simp add: breaks_row_def)

lemma lay_clusters_laying:
  assumes "laying wid width (done @ concat gs @ rest) done s" "[] \<notin> set gs" "base + off = blen done"
  shows "laying wid width (done @ concat gs @ rest) (done @ concat gs)
           (lay_clusters wid width caret base off gs s)"
  using assms
proof (induction gs arbitrary: "done" off s)
  case Nil
  then show ?case by simp
next
  case (Cons g gs)
  let ?t = "done @ concat (g # gs) @ rest"
  define s1 where "s1 = (if breaks_row wid width g s then broken_row (base + off) s else s)"
  define s2 where "s2 = (if base + off = caret then s1\<lparr>ls_caret := (length (ls_rows s1), ls_used s1)\<rparr> else s1)"
  have s1: "laying wid width ?t done s1"
    using Cons.prems(1,3) laying_broken [of wid width "done" "concat (g # gs) @ rest" s]
    by (simp add: s1_def)
  moreover have "\<not> breaks_row wid width g s1" by (simp add: s1_def not_breaks_broken)
  ultimately have "laying wid width ?t done s2" "\<not> breaks_row wid width g s2"
    by (simp_all add: s2_def laying_caret)
  then have "laying wid width ?t (done @ g) (s2\<lparr>ls_row := ls_row s2 @ g, ls_used := ls_used s2 + wid g\<rparr>)"
    using Cons.prems(2) by (intro laying_add) auto
  with Cons.IH [of "done @ g" _ "off + blen g"] Cons.prems(2,3)
  have "laying wid width ?t (done @ concat (g # gs)) (lay_clusters wid width caret base (off + blen g) gs
          (s2\<lparr>ls_row := ls_row s2 @ g, ls_used := ls_used s2 + wid g\<rparr>))"
    by simp
  then show ?case
    by (simp only: lay_clusters_Cons Let_def flip: s1_def) (simp only: flip: s2_def)
qed

text \<open>The rows laid out so far, between two lines of the text.\<close>

definition laid :: "(scalars \<Rightarrow> nat) \<Rightarrow> nat \<Rightarrow> scalars \<Rightarrow> vrow list \<Rightarrow> bool" where
  "laid wid width t rows \<longleftrightarrow> (\<forall>r\<in>set rows. row_in t r \<and> row_fits wid width r)"

lemma lay_line_laid:
  assumes "graphemes_ok seg" "laid wid width (done @ l @ rest) (fst rc)" "rows_text (fst rc) = done"
    and "fst (snd rc) \<le> length (fst rc)"
    and rc'_def: "rc' = lay_line seg wid width caret (blen done) l rc"
  shows "laid wid width (done @ l @ rest) (fst rc') \<and> rows_text (fst rc') = done @ l @ [[newline]] \<and>
         fst (snd rc') < length (fst rc')"
proof -
  let ?i = "\<lparr>ls_rows = fst rc, ls_row = [], ls_row_start = blen done, ls_used = 0, ls_caret = snd rc\<rparr>"
  define s where "s = lay_clusters wid width caret (blen done) 0 (seg l) ?i"
  have seg: "concat (seg l) = l" "[] \<notin> set (seg l)" using assms(1) by (auto simp: graphemes_ok_def)
  have "laying wid width (done @ concat (seg l) @ rest) done ?i"
    using assms(2-4) seg by (auto simp: laying_def laid_def intro: exI [of _ "[]"])
  from lay_clusters_laying [OF this seg(2), of "blen done" 0 caret]
  have s: "laying wid width ((done @ l) @ rest) (done @ l) s" using seg(1) by (simp add: s_def)
  have rc': "rc' = (ls_rows s @ [\<lparr>vr_start = ls_row_start s, vr_text = ls_row s, vr_hard_end = True\<rparr>],
      if blen done + blen l = caret then (length (ls_rows s), ls_used s) else ls_caret s)"
    by (simp add: rc'_def lay_line_def s_def Let_def)
  have "laid wid width ((done @ l) @ rest) (fst rc')"
    using s laying_row_in [OF s, of True] laying_row_fits [OF s, of True]
    by (auto simp: rc' laid_def laying_def)
  with s show ?thesis by (simp add: rc' laying_def)
qed

fun join_newlines :: "scalars list \<Rightarrow> scalars" where
  "join_newlines [] = []"
| "join_newlines (l # ls) = l @ [newline] # join_newlines ls"

lemma split_newlines_nonempty [simp]: "split_newlines cs \<noteq> []"
  by (induction cs) (auto split: list.splits)

lemma join_split_newlines: "join_newlines (split_newlines cs) = cs @ [[newline]]"
  by (induction cs) (auto simp: is_newline_def split: list.splits)

lemma lay_lines_laid:
  assumes "graphemes_ok seg" "t @ [[newline]] = done @ join_newlines ls" "laid wid width t (fst rc)"
    and "rows_text (fst rc) = done" "if ls = [] then fst (snd rc) < length (fst rc) else fst (snd rc) \<le> length (fst rc)"
    and rc'_def: "rc' = lay_lines seg wid width caret (blen done) ls rc"
  shows "laid wid width t (fst rc') \<and> rows_text (fst rc') = t @ [[newline]] \<and>
         fst (snd rc') < length (fst rc')"
  using assms(2-5) unfolding rc'_def
proof (induction ls arbitrary: "done" rc)
  case Nil
  then show ?case by simp
next
  case (Cons l ls)
  let ?rc = "lay_line seg wid width caret (blen done) l rc"
  obtain rest where t: "t = done @ l @ rest"
    using arg_cong [OF Cons.prems(1), of butlast] by (auto simp: butlast_append)
  have line: "laid wid width t (fst ?rc) \<and> rows_text (fst ?rc) = done @ l @ [[newline]] \<and>
      fst (snd ?rc) < length (fst ?rc)"
    using lay_line_laid [OF assms(1), of wid width "done" l rest rc _ caret] Cons.prems t by simp
  have "blen done + blen l + 1 = blen (done @ l @ [[newline]])" by simp
  with Cons.IH [of "done @ l @ [[newline]]" ?rc] line Cons.prems(1) show ?case by (simp add: add.assoc)
qed

lemma layout_laid:
  assumes "graphemes_ok seg"
  shows "laid wid (max width 1) (cp_text c) (fst (layout seg wid c width)) \<and>
         rows_text (fst (layout seg wid c width)) = cp_text c @ [[newline]] \<and>
         fst (snd (layout seg wid c width)) < length (fst (layout seg wid c width))"
  using lay_lines_laid [OF assms, of "cp_text c" "[]" "split_newlines (cp_text c)" wid "max width 1" "([], 0, 0)"
      "layout seg wid c width" "cp_caret c"]
  by (simp add: layout_def join_split_newlines laid_def)

definition reaches :: "nat \<Rightarrow> scalars list \<Rightarrow> nat \<Rightarrow> bool" where
  "reaches k gs i \<longleftrightarrow> (\<exists>u v. gs = u @ v \<and> i = k + blen (concat u))"

lemma reaches_here: "reaches i gs i"
proof -
  have "gs = [] @ gs \<and> i = i + blen (concat [])" by simp
  then show ?thesis unfolding reaches_def by blast
qed

lemma reaches_Cons: "reaches (k + blen g) gs i \<Longrightarrow> reaches k (g # gs) i"
  unfolding reaches_def by (metis append_Cons concat.simps(2) blen_simps(3) add.assoc)

lemma offset_loop_boundary:
  "case offset_loop wid start column off gs used last_off of
     Inl i \<Rightarrow> reaches (start + off) gs i | Inr i \<Rightarrow> i = last_off \<or> reaches (start + off) gs i"
proof (induction gs arbitrary: off used last_off)
  case Nil
  then show ?case by simp
next
  case (Cons g gs)
  have "reaches (start + off) (g # gs) i" if "reaches (start + (off + blen g)) gs i" for i
    using that by (simp add: reaches_Cons add.assoc)
  with Cons [of "off + blen g" "start + off" "used + wid g"] show ?case
    by (auto simp: reaches_here split: sum.splits)
qed

lemma offset_in_row_boundary:
  assumes "graphemes_ok seg" "row_in t r"
  shows "\<exists>u v. t = u @ v \<and> offset_in_row seg wid r column = blen u"
proof -
  obtain a d where t: "t = a @ vr_text r @ d" "vr_start r = blen a"
    using assms(2) by (auto simp: row_in_def)
  have inside: "\<exists>u v. t = u @ v \<and> i = blen u"
    if "reaches (vr_start r) (seg (vr_text r)) i" for i
  proof -
    obtain u v where uv: "seg (vr_text r) = u @ v" "i = blen a + blen (concat u)"
      using \<open>reaches (vr_start r) (seg (vr_text r)) i\<close> t(2) unfolding reaches_def by metis
    have "vr_text r = concat u @ concat v"
      using assms(1) uv(1) by (metis graphemes_ok_def concat_append)
    then have "t = (a @ concat u) @ (concat v @ d) \<and> i = blen (a @ concat u)" using t uv(2) by simp
    then show ?thesis by blast
  qed
  have start: "\<exists>u v. t = u @ v \<and> vr_start r = blen u" using t by blast
  have all: "\<exists>u v. t = u @ v \<and> vr_start r + blen (vr_text r) = blen u"
    using t by (metis append_assoc blen_simps(3))
  show ?thesis
    using offset_loop_boundary [of "vr_start r" 0 "seg (vr_text r)" "vr_start r" wid column 0] inside start all
    unfolding offset_in_row_def by (auto split: sum.splits)
qed

section \<open>Editing\<close>

text \<open>The editing calls the key handler makes, each with its arguments; a movement by rows has the width.\<close>

datatype composer_op =
    Insert scalars | Push string | Backspace | MoveLeft | MoveRight | LineStart | LineEnd | WordLeft | WordRight
  | DeleteWordBack | KillToEnd | KillLine | RowUp nat | RowDown nat | TakeText | SetText scalars

fun composer_step ::
  "segmenter \<Rightarrow> (scalars \<Rightarrow> nat) \<Rightarrow> composer_op \<Rightarrow> composer \<Rightarrow> composer option" where
  "composer_step seg wid (Insert s) c = composer_insert s c"
| "composer_step seg wid (Push ch) c = composer_push ch c"
| "composer_step seg wid Backspace c = backspace seg c"
| "composer_step seg wid MoveLeft c = move_left seg c"
| "composer_step seg wid MoveRight c = move_right seg c"
| "composer_step seg wid LineStart c = home c"
| "composer_step seg wid LineEnd c = line_end_key c"
| "composer_step seg wid WordLeft c = word_left c"
| "composer_step seg wid WordRight c = word_right c"
| "composer_step seg wid DeleteWordBack c = delete_word_back c"
| "composer_step seg wid KillToEnd c = kill_to_end c"
| "composer_step seg wid KillLine c = kill_line c"
| "composer_step seg wid (RowUp width) c = move_up seg wid width c"
| "composer_step seg wid (RowDown width) c = move_down seg wid width c"
| "composer_step seg wid TakeText c = Some (snd (composer_take c))"
| "composer_step seg wid (SetText s) c = Some (composer_set s)"

fun op_text :: "composer_op \<Rightarrow> scalars" where
  "op_text (Insert s) = s"
| "op_text (Push ch) = [ch]"
| "op_text (SetText s) = s"
| "op_text _ = []"

primrec composer_run ::
  "segmenter \<Rightarrow> (scalars \<Rightarrow> nat) \<Rightarrow> composer_op list \<Rightarrow> composer \<Rightarrow> composer option" where
  "composer_run seg wid [] c = Some c"
| "composer_run seg wid (op # ops) c = Option.bind (composer_step seg wid op c) (composer_run seg wid ops)"

lemma caret_to_boundary:
  assumes "composer_ok c" "cp_text c = u @ v"
  shows "composer_ok (c\<lparr>cp_caret := blen u\<rparr>)"
  using assms by (auto simp: composer_ok_def cut_at_prefix plain_text_nonempty)

lemma layout_row:
  assumes "graphemes_ok seg" "i < length (fst (layout seg wid c width))"
  shows "row_in (cp_text c) (fst (layout seg wid c width) ! i)"
  using layout_laid [OF assms(1), of wid width c] assms(2) by (auto simp: laid_def)

lemma move_rows_ok:
  assumes "graphemes_ok seg" "composer_ok c"
  shows "\<exists>d. move_up seg wid width c = Some d \<and> composer_ok d"
    and "\<exists>d. move_down seg wid width c = Some d \<and> composer_ok d"
proof -
  obtain rows row col where l: "layout seg wid c width = (rows, row, col)" by (metis prod.exhaust)
  have ok: "composer_ok (c\<lparr>cp_caret := offset_in_row seg wid (rows ! i) col\<rparr>)" if "i < length rows" for i
    using offset_in_row_boundary [OF assms(1), of "cp_text c" "rows ! i" wid col]
      layout_row [OF assms(1), of i wid c width] caret_to_boundary [OF assms(2)] that l by fastforce
  have "row < length rows" using layout_laid [OF assms(1), of wid width c] l by simp
  with ok [of "row - 1"] ok [of "row + 1"] assms(2)
  show "\<exists>d. move_up seg wid width c = Some d \<and> composer_ok d"
    and "\<exists>d. move_down seg wid width c = Some d \<and> composer_ok d"
    by (auto simp: move_up_def move_down_def l)
qed

lemma insert_ok:
  assumes "composer_ok c" "plain_text s"
  shows "\<exists>d. composer_insert s c = Some d \<and> composer_ok d"
proof -
  obtain a b where c: "c = \<lparr>cp_text = a @ b, cp_caret = blen a\<rparr>" "plain_text a" "plain_text b"
    using assms(1) by (rule composer_okE)
  have "replace_range (a @ b) (blen a) (blen a) s = Some (a @ s @ b)"
    using replace_range_span [of a "[]" b s] plain_text_nonempty [OF c(2)] by simp
  then show ?thesis
    using c composer_okI [of "a @ s" b] assms(2) by (simp add: composer_insert_def)
qed

lemma backspace_ok:
  assumes "graphemes_ok seg" "composer_ok c"
  shows "\<exists>d. backspace seg c = Some d \<and> composer_ok d"
proof -
  obtain a b where c: "c = \<lparr>cp_text = a @ b, cp_caret = blen a\<rparr>" "plain_text a" "plain_text b"
    using assms(2) by (rule composer_okE)
  show ?thesis
  proof (cases "seg a" rule: rev_cases)
    case Nil
    then show ?thesis using c assms(2) by (simp add: backspace_def prev_boundary_def head_at_prefix plain_text_nonempty)
  next
    case (snoc gs g)
    then have a: "a = concat gs @ g" using assms(1) by (metis graphemes_ok_def concat_append concat.simps append_Nil2)
    have ne: "[] \<notin> set (concat gs @ g)" using plain_text_nonempty [OF c(2)] unfolding a .
    have "head_at (a @ b) (blen a) = Some a" using c(2) by (intro head_at_prefix plain_text_nonempty)
    then have "prev_boundary seg c = Some (Some (blen (concat gs)))"
      using c(1) snoc by (simp add: prev_boundary_def)
    with replace_range_span [OF ne, of b "[]"] have
      "backspace seg c = Some \<lparr>cp_text = concat gs @ b, cp_caret = blen (concat gs)\<rparr>"
      using c(1) a by (simp add: backspace_def)
    then show ?thesis using c a by (auto intro!: composer_okI)
  qed
qed

lemma move_graphemes_ok:
  assumes "graphemes_ok seg" "composer_ok c"
  shows "\<exists>d. move_left seg c = Some d \<and> composer_ok d" and "\<exists>d. move_right seg c = Some d \<and> composer_ok d"
proof -
  obtain a b where c: "c = \<lparr>cp_text = a @ b, cp_caret = blen a\<rparr>" "plain_text a" "plain_text b"
    using assms(2) by (rule composer_okE)
  have left: "composer_ok (c\<lparr>cp_caret := blen (concat (butlast (seg a)))\<rparr>)"
  proof (cases "seg a" rule: rev_cases)
    case Nil
    then show ?thesis using caret_to_boundary [OF assms(2), of "[]" "a @ b"] c(1) by simp
  next
    case (snoc gs g)
    then have "a = concat gs @ g" using assms(1) by (metis graphemes_ok_def concat_append concat.simps append_Nil2)
    then show ?thesis using caret_to_boundary [OF assms(2), of "concat gs" "g @ b"] c(1) snoc by simp
  qed
  then show "\<exists>d. move_left seg c = Some d \<and> composer_ok d"
    using assms(2) c by (simp add: move_left_def prev_boundary_def head_at_prefix plain_text_nonempty)
  have "composer_ok (c\<lparr>cp_caret := blen a + blen g\<rparr>)" if "seg b = g # gs" for g gs
  proof -
    have "b = g @ concat gs" using assms(1) that by (metis graphemes_ok_def concat.simps(2))
    then show ?thesis using caret_to_boundary [OF assms(2), of "a @ g" "concat gs"] c(1) by simp
  qed
  then show "\<exists>d. move_right seg c = Some d \<and> composer_ok d"
    using assms(2) c by (auto simp: move_right_def next_boundary_def tail_at_prefix plain_text_nonempty split: list.split)
qed

lemma span_split: "b = takeWhile p b @ dropWhile p b"
  by simp

lemma line_moves_ok:
  assumes "composer_ok c"
  shows "\<exists>d. home c = Some d \<and> composer_ok d" and "\<exists>d. line_end_key c = Some d \<and> composer_ok d"
    and "\<exists>d. kill_to_end c = Some d \<and> composer_ok d" and "\<exists>d. kill_line c = Some d \<and> composer_ok d"
proof -
  obtain a b where c: "c = \<lparr>cp_text = a @ b, cp_caret = blen a\<rparr>" "plain_text a" "plain_text b"
    using assms by (rule composer_okE)
  obtain u v where u: "a = u @ v" "line_start c = Some (blen u)"
    using line_start_plain [OF c(2), of b] c(1) by metis
  define l where "l = takeWhile (\<lambda>x. \<not> is_newline x) b"
  define r where "r = dropWhile (\<lambda>x. \<not> is_newline x) b"
  have b: "b = l @ r" by (simp add: l_def r_def)
  have e: "line_end c = Some (blen a + blen l)" using line_end_plain [OF c(2)] c(1) by (simp add: l_def)
  have plain: "plain_text u" "plain_text v" "plain_text l" "plain_text r" using c u(1) b by auto
  show "\<exists>d. home c = Some d \<and> composer_ok d"
    using u caret_to_boundary [OF assms, of u "v @ b"] c(1) by (simp add: home_def)
  show "\<exists>d. line_end_key c = Some d \<and> composer_ok d"
    using e b caret_to_boundary [OF assms, of "a @ l" r] c(1) by (simp add: line_end_key_def)
  have "replace_range (a @ l @ r) (blen a) (blen a + blen l) [] = Some (a @ [] @ r)"
    using plain u(1) by (intro replace_range_span) (auto dest: plain_text_nonempty)
  then show "\<exists>d. kill_to_end c = Some d \<and> composer_ok d"
    using e b c composer_okI [OF c(2) plain(4)] by (simp add: kill_to_end_def)
  have "replace_range (u @ (v @ l) @ r) (blen u) (blen u + blen (v @ l)) [] = Some (u @ [] @ r)"
    using plain by (intro replace_range_span) (auto dest: plain_text_nonempty)
  then show "\<exists>d. kill_line c = Some d \<and> composer_ok d"
    using e u b c composer_okI [OF plain(1,4)] by (simp add: kill_line_def add.assoc)
qed

lemma word_moves_ok:
  assumes "composer_ok c"
  shows "\<exists>d. word_left c = Some d \<and> composer_ok d" and "\<exists>d. word_right c = Some d \<and> composer_ok d"
    and "\<exists>d. delete_word_back c = Some d \<and> composer_ok d"
proof -
  obtain a b where c: "c = \<lparr>cp_text = a @ b, cp_caret = blen a\<rparr>" "plain_text a" "plain_text b"
    using assms by (rule composer_okE)
  obtain u v where u: "a = u @ v" "word_start c = Some (blen u)"
    using word_start_plain [OF c(2), of b] c(1) by metis
  have plain: "plain_text u" "plain_text v" using c u(1) by auto
  show "\<exists>d. word_left c = Some d \<and> composer_ok d"
    using u caret_to_boundary [OF assms, of u "v @ b"] c(1) by (simp add: word_left_def)
  define s where "s = takeWhile is_whitespace b"
  define r where "r = dropWhile is_whitespace b"
  define w where "w = takeWhile (\<lambda>x. \<not> is_whitespace x) r"
  define q where "q = dropWhile (\<lambda>x. \<not> is_whitespace x) r"
  have "b = s @ w @ q" by (simp add: s_def w_def q_def) (simp add: r_def)
  moreover have "word_end c = Some (blen (a @ s @ w))"
    using c by (simp add: word_end_def tail_at_prefix plain_text_nonempty Let_def s_def w_def r_def)
  ultimately show "\<exists>d. word_right c = Some d \<and> composer_ok d"
    using caret_to_boundary [OF assms, of "a @ s @ w" q] c(1) by (simp add: word_right_def)
  have "replace_range (u @ v @ b) (blen u) (blen u + blen v) [] = Some (u @ [] @ b)"
    using plain by (intro replace_range_span) (auto dest: plain_text_nonempty)
  then show "\<exists>d. delete_word_back c = Some d \<and> composer_ok d"
    using u c composer_okI [OF plain(1) c(3)] by (simp add: delete_word_back_def)
qed

lemma take_set_ok:
  "composer_ok (snd (composer_take c))" "plain_text s \<Longrightarrow> composer_ok (composer_set s)"
  using composer_okI [of "[]" "[]"] composer_okI [of s "[]"]
  by (simp_all add: composer_take_def empty_composer_def composer_set_def)

lemma composer_step_ok:
  assumes "graphemes_ok seg" "plain_text (op_text op)" "composer_ok c"
  shows "\<exists>d. composer_step seg wid op c = Some d \<and> composer_ok d"
  using assms
  by (cases op) (auto simp only: composer_step.simps op_text.simps composer_push_def option.inject
      intro: take_set_ok insert_ok backspace_ok move_graphemes_ok line_moves_ok word_moves_ok move_rows_ok)

lemma visible_returns:
  assumes "graphemes_ok seg"
  shows "\<exists>shown row col. visible seg wid c width = Some (shown, row, col) \<and> length shown \<le> MAX_ROWS \<and>
           row < length shown"
proof -
  obtain rows row col where l: "layout seg wid c width = (rows, row, col)" by (metis prod.exhaust)
  have r: "row < length rows" using layout_laid [OF assms, of wid width c] l by simp
  have v: "visible seg wid c width =
      (if length rows \<le> 8 then Some (map vr_text rows, row, col)
       else Some (take 8 (drop (max row 7 + 1 - 8) (map vr_text rows)), row - (max row 7 + 1 - 8), col))"
    using r by (simp add: visible_def composer_rows_def l Let_def MAX_ROWS_def max_def)
  show ?thesis
  proof (cases "length rows \<le> 8")
    case True
    with v r show ?thesis by (simp add: MAX_ROWS_def)
  next
    case False
    then have "row - (max row 7 + 1 - 8) < min (length rows - (max row 7 + 1 - 8)) 8"
      using r by (cases "row \<le> 7") (auto simp: max_def)
    with False v show ?thesis by (simp add: MAX_ROWS_def)
  qed
qed

text \<open>Whatever keys are pressed, in whatever order, no editing call slices inside a scalar:
  every call returns, the caret stays on a scalar boundary, and what is drawn is at most eight rows with the caret's
  row among them. It needs a segmentation into non-empty pieces and whitespace of one byte each.\<close>

theorem composer_never_panics:
  assumes "graphemes_ok seg" "\<And>op. op \<in> set ops \<Longrightarrow> plain_text (op_text op)"
  shows "\<exists>c shown row col. composer_run seg wid ops empty_composer = Some c \<and>
           cut_at (cp_text c) (cp_caret c) \<noteq> None \<and>
           visible seg wid c width = Some (shown, row, col) \<and> length shown \<le> MAX_ROWS \<and> row < length shown"
proof -
  have "\<exists>d. composer_run seg wid ops c = Some d \<and> composer_ok d" if "composer_ok c" for c
    using that assms(2)
  proof (induction ops arbitrary: c)
    case Nil
    then show ?case by simp
  next
    case (Cons op ops)
    then show ?case using composer_step_ok [OF assms(1), of op c wid] by fastforce
  qed
  moreover have "composer_ok empty_composer" using composer_okI [of "[]" "[]"] by (simp add: empty_composer_def)
  ultimately obtain c where "composer_run seg wid ops empty_composer = Some c" "composer_ok c" by blast
  with visible_returns [OF assms(1), of wid c width] show ?thesis by (auto simp: composer_ok_def)
qed

definition scalar_segments :: segmenter where
  "scalar_segments cs = map (\<lambda>ch. [ch]) cs"

lemma scalar_segments_ok: "graphemes_ok scalar_segments"
proof -
  have "concat (map (\<lambda>ch. [ch]) cs) = cs" for cs :: scalars by (induction cs) auto
  then show ?thesis by (auto simp: graphemes_ok_def scalar_segments_def)
qed

theorem composer_never_panics_witness:
  "\<exists>c shown row col.
     composer_run scalar_segments length
       [Insert [''a'', '' '', ''b''], WordLeft, Push [newline], RowUp 4, KillToEnd, MoveRight, Backspace]
       empty_composer = Some c \<and>
     cut_at (cp_text c) (cp_caret c) \<noteq> None \<and>
     visible scalar_segments length c 4 = Some (shown, row, col) \<and> length shown \<le> MAX_ROWS \<and> row < length shown"
  by (rule composer_never_panics [OF scalar_segments_ok])
    (auto simp: plain_text_def is_whitespace_def newline_def)

text \<open>Laying the message out loses nothing and overflows nothing: the rows, with a
  newline after each that ends a line, spell the text and one newline more; every row is the stretch of text at its
  offset; it is no wider than the pane, unless it is a single grapheme; and the caret's row is one of them.\<close>

theorem composer_layout_keeps_text:
  assumes "graphemes_ok seg"
  shows "case layout seg wid c width of (rows, row, col) \<Rightarrow>
           rows_text rows = cp_text c @ [[newline]] \<and> row < length rows \<and>
           list_all (\<lambda>r. row_in (cp_text c) r \<and> row_fits wid (max width 1) r) rows"
  using layout_laid [OF assms, of wid width c] by (auto simp: laid_def list_all_iff split: prod.split)

theorem composer_layout_keeps_text_witness:
  "\<forall>c. case layout scalar_segments length c 3 of (rows, row, col) \<Rightarrow>
     rows_text rows = cp_text c @ [[newline]] \<and> row < length rows \<and>
     list_all (\<lambda>r. row_in (cp_text c) r \<and> row_fits length (max 3 1) r) rows"
  using composer_layout_keeps_text [OF scalar_segments_ok, where wid = length and width = 3] by blast

text \<open>Moving a word to the left across a no-break space leaves the caret inside that
  space, and the next key typed panics.\<close>

theorem word_left_splits_wide_space:
  "Option.bind (composer_run seg wid [Insert [''a'', [CHR 0xC2, CHR 0xA0], ''b''], WordLeft] empty_composer)
     (\<lambda>c. Some (cp_caret c, composer_push ''x'' c)) = Some (2, None)"
  by code_simp

end
