(* ===== verification/App.thy ===== *)
theory App
  imports Composer
begin

text \<open>
  The state model of the terminal client: \<open>clients/tui/src/app.rs\<close>, with the command table
  (\<open>commands.rs\<close>), the completion fragment (\<open>paths.rs\<close>) and the cleaning of contributed text
  (\<open>untrusted.rs\<close>). Text in the composer is a list of scalars, every other string its bytes; \<open>usize\<close> is
  \<open>nat\<close>. An operation that slices or indexes has an \<open>option\<close> result, \<open>None\<close> for the panic. The walk of
  the file system behind a completion (\<open>ignore::WalkBuilder\<close>) is a parameter.
\<close>

section \<open>Text from extensions\<close>

definition is_hostile :: "string \<Rightarrow> bool" where
  "is_hostile ch \<longleftrightarrow> is_control ch \<or>
     ch \<in> {[CHR 0xE2, CHR 0x80, CHR 0xAA], [CHR 0xE2, CHR 0x80, CHR 0xAB], [CHR 0xE2, CHR 0x80, CHR 0xAC],
           [CHR 0xE2, CHR 0x80, CHR 0xAD], [CHR 0xE2, CHR 0x80, CHR 0xAE], [CHR 0xE2, CHR 0x81, CHR 0xA6],
           [CHR 0xE2, CHR 0x81, CHR 0xA7], [CHR 0xE2, CHR 0x81, CHR 0xA8], [CHR 0xE2, CHR 0x81, CHR 0xA9]}"

definition inert_scalars :: "scalars \<Rightarrow> scalars" where
  "inert_scalars cs = filter (\<lambda>ch. \<not> is_hostile ch) cs"

definition inert :: "string \<Rightarrow> string" where
  "inert s = concat (inert_scalars (utf8_chars s))"

fun take_within :: "(scalars \<Rightarrow> nat) \<Rightarrow> nat \<Rightarrow> nat \<Rightarrow> scalars list \<Rightarrow> scalars" where
  "take_within wid budget used [] = []"
| "take_within wid budget used (g # gs) =
     (if budget < used + wid g then [] else g @ take_within wid budget (used + wid g) gs)"

definition inert_within ::
  "segmenter \<Rightarrow> (scalars \<Rightarrow> nat) \<Rightarrow> scalars \<Rightarrow> nat \<Rightarrow> scalars \<Rightarrow> scalars" where
  "inert_within seg wid t cells marker =
     (let clean = inert_scalars t
      in if wid clean \<le> cells then clean
         else if cells = 0 then []
         else if cells < wid marker then take cells marker
         else take_within wid (cells - wid marker) 0 (seg clean) @ marker)"

section \<open>The command menu\<close>

datatype availability = Ready | NotYet string

record slash_command =
  sc_name :: string
  sc_summary :: string
  sc_availability :: availability

definition COMMANDS :: "slash_command list" where
  "COMMANDS =
     [\<lparr>sc_name = ''/newline'', sc_summary = ''insert a line break'', sc_availability = Ready\<rparr>,
      \<lparr>sc_name = ''/cancel'', sc_summary = ''stop the running turn'', sc_availability = Ready\<rparr>,
      \<lparr>sc_name = ''/new'', sc_summary = ''start a new session'', sc_availability = Ready\<rparr>,
      \<lparr>sc_name = ''/sessions'', sc_summary = ''switch session'', sc_availability = Ready\<rparr>,
      \<lparr>sc_name = ''/help'', sc_summary = ''show the key bindings'', sc_availability = Ready\<rparr>,
      \<lparr>sc_name = ''/quit'', sc_summary = ''leave jan-klod'', sc_availability = Ready\<rparr>]"

record contributed =
  cb_extension :: string
  cb_name :: string
  cb_summary :: string

datatype menu_source = BuiltIn | FromExtension string

record menu_entry =
  me_name :: string
  me_summary :: string
  me_availability :: availability
  me_source :: menu_source

definition slashed_starts_with :: "string \<Rightarrow> string \<Rightarrow> bool" where
  "slashed_starts_with name typed \<longleftrightarrow>
     (case strip_prefix ''/'' typed of None \<Rightarrow> False | Some rest \<Rightarrow> starts_with rest name)"

definition slashed_equals :: "string \<Rightarrow> string \<Rightarrow> bool" where
  "slashed_equals name typed \<longleftrightarrow> strip_prefix ''/'' typed = Some name"

definition matching_with :: "string \<Rightarrow> contributed list \<Rightarrow> menu_entry list" where
  "matching_with typed contributed =
     (let built_in = map (\<lambda>c. \<lparr>me_name = sc_name c, me_summary = sc_summary c,
            me_availability = sc_availability c, me_source = BuiltIn\<rparr>)
            (filter (\<lambda>c. starts_with typed (sc_name c)) COMMANDS);
          extra = map (\<lambda>c. \<lparr>me_name = cb_name c, me_summary = cb_summary c,
            me_availability = Ready, me_source = FromExtension (cb_extension c)\<rparr>)
            (filter (\<lambda>c. slashed_starts_with (cb_name c) typed) contributed)
      in sort_key (\<lambda>c. of_bool (me_name c \<noteq> typed) :: nat) built_in @
         sort_key (\<lambda>c. of_bool (\<not> slashed_equals (me_name c) typed) :: nat) extra)"

section \<open>Path completion\<close>

record path_completion =
  cm_entries :: "string list"
  cm_truncated :: bool

definition no_completion :: path_completion where
  "no_completion = \<lparr>cm_entries = [], cm_truncated = False\<rparr>"

text \<open>
  \<open>paths::fragment\<close>: \<open>text.get(..caret)\<close> is \<open>None\<close> off a boundary; the run after the last \<open>@\<close> before the
  caret, unless it holds whitespace.
\<close>

definition fragment :: "scalars \<Rightarrow> nat \<Rightarrow> scalars option" where
  "fragment t caret =
     Option.bind (head_at t caret) (\<lambda>h.
       if ''@'' \<in> set h
       then (let candidate = rev (takeWhile (\<lambda>ch. ch \<noteq> ''@'') (rev h))
             in if \<exists>ch\<in>set candidate. is_whitespace ch then None else Some candidate)
       else None)"

definition MAX_ENTRIES :: nat where "MAX_ENTRIES = 50"

text \<open>\<open>paths::complete\<close> over the paths the walk shows below the root, in its order.\<close>

fun complete_loop :: "string \<Rightarrow> string list \<Rightarrow> string list \<Rightarrow> string list \<times> bool" where
  "complete_loop frag entries [] = (entries, False)"
| "complete_loop frag entries (shown # rest) =
     (if \<not> contains_text frag shown then complete_loop frag entries rest
      else if length entries = MAX_ENTRIES then (entries, True)
      else complete_loop frag (entries @ [shown]) rest)"

definition complete_paths :: "string list \<Rightarrow> string \<Rightarrow> path_completion" where
  "complete_paths shown frag =
     (case complete_loop frag [] shown of
        (entries, truncated) \<Rightarrow> \<lparr>cm_entries = sort entries, cm_truncated = truncated\<rparr>)"

section \<open>The state\<close>

datatype who = You | Klod | ErrorNote | StatusNote

datatype tool_status = Running | Done_Tool string bool | Interrupted

record tool_block =
  tb_id :: string
  tb_name :: string
  tb_arguments :: "string option"
  tb_status :: tool_status
  tb_expanded :: bool

datatype transcript_entry = Message who string | Tool tool_block

datatype turn_view = Turn_Idle | Turn_Streaming | Turn_Cancelling | Turn_Blocked

datatype turn_phase = Phase_Idle | Phase_Streaming | Phase_Cancelling

datatype toast_kind = WarningToast | ErrorToast

record toast =
  to_text :: string
  to_kind :: toast_kind
  to_expires_at :: nat

definition TOAST_TICKS :: nat where "TOAST_TICKS = 60"

record contributed_status =
  cs_extension :: string
  cs_text :: string
  cs_detail :: string

record session_entry =
  se_id :: string
  se_preview :: string

record session_message =
  sm_role :: string
  sm_content :: string
  sm_tool_call_id :: "string option"

record sessions =
  ss_entries :: "session_entry list"
  ss_query :: scalars
  ss_selected :: nat

record quit_confirm =
  qc_quit_selected :: bool
  qc_mid_turn :: bool
  qc_turn_lost :: bool
  qc_escalate :: bool

record prompt =
  pm_session :: string
  pm_question :: string
  pm_options :: "string list"
  pm_default :: string

record waiting =
  wa_prompt :: prompt
  wa_selected :: "nat option"

record app =
  ap_composer :: composer
  ap_transcript :: "transcript_entry list"
  ap_should_quit :: bool
  ap_history :: "scalars list"
  ap_recall :: "(nat \<times> scalars) option"
  ap_menu :: "nat option"
  ap_completion :: "(scalars \<times> nat \<times> path_completion) option"
  ap_cursor :: "nat option"
  ap_phase :: turn_phase
  ap_cancel_requested :: bool
  ap_prompts :: "waiting list"
  ap_dialog_open :: bool
  ap_disconnected :: bool
  ap_toast :: "toast option"
  ap_session :: string
  ap_stdio :: bool
  ap_sessions :: "sessions option"
  ap_sessions_requested :: bool
  ap_contributed :: "contributed list"
  ap_contributed_status :: "contributed_status list"
  ap_invoke_requested :: "(string \<times> string) option"
  ap_new_session_requested :: bool
  ap_help :: "nat option"
  ap_sidebar_dialog :: bool
  ap_quit :: "quit_confirm option"

definition new_app :: app where
  "new_app =
     \<lparr>ap_composer = empty_composer, ap_transcript = [], ap_should_quit = False, ap_history = [],
      ap_recall = None, ap_menu = None, ap_completion = None, ap_cursor = None, ap_phase = Phase_Idle,
      ap_cancel_requested = False, ap_prompts = [], ap_dialog_open = False, ap_disconnected = False,
      ap_toast = None, ap_session = [], ap_stdio = False, ap_sessions = None,
      ap_sessions_requested = False, ap_contributed = [], ap_contributed_status = [],
      ap_invoke_requested = None, ap_new_session_requested = False, ap_help = None,
      ap_sidebar_dialog = False, ap_quit = None\<rparr>"

definition record_entry :: "who \<Rightarrow> string \<Rightarrow> app \<Rightarrow> app" where
  "record_entry w t a = a\<lparr>ap_transcript := ap_transcript a @ [Message w t]\<rparr>"

section \<open>The cursor over tool blocks\<close>

fun is_tool :: "transcript_entry \<Rightarrow> bool" where
  "is_tool (Tool _) = True"
| "is_tool (Message _ _) = False"

definition stops :: "app \<Rightarrow> nat list" where
  "stops a = filter (\<lambda>i. is_tool (ap_transcript a ! i)) [0..<length (ap_transcript a)]"

definition find_first :: "('a \<Rightarrow> bool) \<Rightarrow> 'a list \<Rightarrow> 'a option" where
  "find_first p xs = (case dropWhile (\<lambda>x. \<not> p x) xs of [] \<Rightarrow> None | x # _ \<Rightarrow> Some x)"

definition cursor_up :: "app \<Rightarrow> bool \<times> app" where
  "cursor_up a =
     (let moved = (case ap_cursor a of
            None \<Rightarrow> (if stops a = [] then None else Some (last (stops a)))
          | Some i \<Rightarrow> find_first (\<lambda>k. k < i) (rev (stops a)))
      in if moved \<noteq> None then (True, a\<lparr>ap_cursor := moved\<rparr>) else (False, a))"

definition cursor_down :: "app \<Rightarrow> bool \<times> app" where
  "cursor_down a =
     (case ap_cursor a of
        None \<Rightarrow> (False, a)
      | Some i \<Rightarrow> (True, a\<lparr>ap_cursor := find_first (\<lambda>k. i < k) (stops a)\<rparr>))"

definition toggle_expanded :: "app \<Rightarrow> bool \<times> app" where
  "toggle_expanded a =
     (case ap_cursor a of
        None \<Rightarrow> (False, a)
      | Some i \<Rightarrow>
          (if i < length (ap_transcript a)
           then (case ap_transcript a ! i of
                   Tool b \<Rightarrow> (True, a\<lparr>ap_transcript :=
                     (ap_transcript a)[i := Tool (b\<lparr>tb_expanded := \<not> tb_expanded b\<rparr>)]\<rparr>)
                 | Message _ _ \<Rightarrow> (False, a))
           else (False, a)))"

section \<open>The composer, the menu and the history\<close>

definition input_text :: "app \<Rightarrow> string" where
  "input_text a = concat (cp_text (ap_composer a))"

definition set_composer :: "composer option \<Rightarrow> app \<Rightarrow> app option" where
  "set_composer c a = map_option (\<lambda>c. a\<lparr>ap_composer := c\<rparr>) c"

definition menu_query :: "app \<Rightarrow> string option" where
  "menu_query a =
     (if ap_menu a = None then None
      else if starts_with ''/'' (input_text a) \<and> \<not> (\<exists>ch\<in>set (cp_text (ap_composer a)). is_whitespace ch)
      then Some (input_text a) else None)"

definition menu_entries :: "app \<Rightarrow> menu_entry list" where
  "menu_entries a =
     (case menu_query a of None \<Rightarrow> [] | Some typed \<Rightarrow> matching_with typed (ap_contributed a))"

definition maybe_open_menu :: "app \<Rightarrow> app" where
  "maybe_open_menu a =
     (if input_text a = ''/'' then a\<lparr>ap_menu := Some 0\<rparr>
      else if menu_query a = None then a\<lparr>ap_menu := None\<rparr> else a)"

definition push_char :: "string \<Rightarrow> app \<Rightarrow> app option" where
  "push_char ch a =
     map_option (\<lambda>a1.
         let a2 = maybe_open_menu a1
         in if ch = ''@'' then a2\<lparr>ap_completion := Some ([], 0, no_completion)\<rparr> else a2)
       (set_composer (composer_push ch (ap_composer a)) a)"

definition app_backspace :: "segmenter \<Rightarrow> app \<Rightarrow> app option" where
  "app_backspace seg a = map_option maybe_open_menu (set_composer (backspace seg (ap_composer a)) a)"

definition take_submission :: "app \<Rightarrow> scalars option \<times> app" where
  "take_submission a =
     (case composer_take (ap_composer a) of
        (None, c) \<Rightarrow> (None, a\<lparr>ap_composer := c\<rparr>)
      | (Some m, c) \<Rightarrow>
          (Some m, record_entry You (concat m)
             (a\<lparr>ap_composer := c, ap_history := ap_history a @ [m], ap_recall := None\<rparr>)))"

definition wrap_move :: "nat \<Rightarrow> nat \<Rightarrow> int \<Rightarrow> nat" where
  "wrap_move len current delta = nat ((int current + delta) mod int len)"

definition menu_selected :: "app \<Rightarrow> nat" where
  "menu_selected a =
     min (case ap_menu a of None \<Rightarrow> 0 | Some i \<Rightarrow> i) (length (menu_entries a) - 1)"

definition menu_dismiss :: "app \<Rightarrow> app" where
  "menu_dismiss a = a\<lparr>ap_menu := None\<rparr>"

definition menu_move :: "int \<Rightarrow> app \<Rightarrow> app" where
  "menu_move delta a =
     (if menu_entries a = [] then a
      else a\<lparr>ap_menu := Some (wrap_move (length (menu_entries a)) (menu_selected a) delta)\<rparr>)"

section \<open>Turns and prompts\<close>

definition turn_of :: "app \<Rightarrow> turn_view" where
  "turn_of a =
     (if ap_prompts a \<noteq> [] then Turn_Blocked
      else case ap_phase a of
             Phase_Idle \<Rightarrow> Turn_Idle | Phase_Streaming \<Rightarrow> Turn_Streaming | Phase_Cancelling \<Rightarrow> Turn_Cancelling)"

definition begin_turn :: "app \<Rightarrow> app" where
  "begin_turn a = a\<lparr>ap_phase := Phase_Streaming\<rparr>"

fun interrupt_entry :: "transcript_entry \<Rightarrow> transcript_entry" where
  "interrupt_entry (Tool b) = Tool (if tb_status b = Running then b\<lparr>tb_status := Interrupted\<rparr> else b)"
| "interrupt_entry (Message w t) = Message w t"

definition interrupt_open_tools :: "app \<Rightarrow> app" where
  "interrupt_open_tools a = a\<lparr>ap_transcript := map interrupt_entry (ap_transcript a)\<rparr>"

definition cancel :: "app \<Rightarrow> bool \<times> app" where
  "cancel a =
     (if ap_phase a \<noteq> Phase_Streaming then (False, a)
      else (True, interrupt_open_tools
             (a\<lparr>ap_phase := Phase_Cancelling, ap_cancel_requested := True, ap_prompts := [],
                ap_dialog_open := False\<rparr>)))"

definition take_cancel_request :: "app \<Rightarrow> bool \<times> app" where
  "take_cancel_request a = (ap_cancel_requested a, a\<lparr>ap_cancel_requested := False\<rparr>)"

definition end_turn :: "app \<Rightarrow> app" where
  "end_turn a =
     interrupt_open_tools (a\<lparr>ap_phase := Phase_Idle, ap_prompts := [], ap_dialog_open := False\<rparr>)"

definition record_answer :: "string \<Rightarrow> app \<Rightarrow> app" where
  "record_answer t a = record_entry Klod t a"

text \<open>The last entry, when it is an answer: its text and the entries before it.\<close>

definition last_answer :: "app \<Rightarrow> (transcript_entry list \<times> string) option" where
  "last_answer a =
     (case rev (ap_transcript a) of
        Message Klod t # before \<Rightarrow> Some (rev before, t)
      | _ \<Rightarrow> None)"

definition apply_delta :: "string \<Rightarrow> app \<Rightarrow> app" where
  "apply_delta t a =
     (case last_answer a of
        Some (before, existing) \<Rightarrow> a\<lparr>ap_transcript := before @ [Message Klod (existing @ t)]\<rparr>
      | None \<Rightarrow> record_entry Klod t a)"

definition finish_turn :: "string \<Rightarrow> app \<Rightarrow> app" where
  "finish_turn answer a =
     (let a1 = a\<lparr>ap_phase := Phase_Idle\<rparr>
      in case last_answer a1 of
           Some (before, _) \<Rightarrow> a1\<lparr>ap_transcript := before @ [Message Klod answer]\<rparr>
         | None \<Rightarrow> record_answer answer a1)"

fun position :: "('a \<Rightarrow> bool) \<Rightarrow> 'a list \<Rightarrow> nat option" where
  "position p [] = None"
| "position p (x # xs) = (if p x then Some 0 else map_option Suc (position p xs))"

definition ask :: "prompt \<Rightarrow> app \<Rightarrow> app" where
  "ask p a =
     (let selected = position (\<lambda>o'. o' = pm_default p) (pm_options p);
          opening = ap_prompts a = [];
          a1 = a\<lparr>ap_prompts := ap_prompts a @ [\<lparr>wa_prompt = p, wa_selected = selected\<rparr>]\<rparr>
      in if opening then a1\<lparr>ap_dialog_open := True\<rparr> else a1)"

definition open_dialog :: "app \<Rightarrow> app" where
  "open_dialog a = (if ap_prompts a \<noteq> [] then a\<lparr>ap_dialog_open := True\<rparr> else a)"

definition close_dialog :: "app \<Rightarrow> app" where
  "close_dialog a = a\<lparr>ap_dialog_open := False\<rparr>"

definition pending_prompt :: "app \<Rightarrow> prompt option" where
  "pending_prompt a = (case ap_prompts a of [] \<Rightarrow> None | p # _ \<Rightarrow> Some (wa_prompt p))"

definition prompt_selected :: "app \<Rightarrow> nat option" where
  "prompt_selected a = (case ap_prompts a of [] \<Rightarrow> None | p # _ \<Rightarrow> wa_selected p)"

definition prompt_move :: "int \<Rightarrow> app \<Rightarrow> app" where
  "prompt_move delta a =
     (case ap_prompts a of
        [] \<Rightarrow> a
      | front # rest \<Rightarrow>
          (let len = length (pm_options (wa_prompt front))
           in if len = 0 then a
              else a\<lparr>ap_prompts := front\<lparr>wa_selected := Some (wrap_move len
                  (case wa_selected front of None \<Rightarrow> 0 | Some i \<Rightarrow> i) delta)\<rparr> # rest\<rparr>))"

definition prompt_jump :: "nat \<Rightarrow> app \<Rightarrow> app" where
  "prompt_jump one_based a =
     (case ap_prompts a of
        [] \<Rightarrow> a
      | front # rest \<Rightarrow>
          (if 1 \<le> one_based \<and> one_based \<le> length (pm_options (wa_prompt front))
           then a\<lparr>ap_prompts := front\<lparr>wa_selected := Some (one_based - 1)\<rparr> # rest\<rparr> else a))"

definition arrow :: string where
  "arrow = [CHR 0xE2, CHR 0x86, CHR 0x92]"

text \<open>\<open>None\<close> is the panic of \<open>options[i]\<close>; \<open>Some (None, _)\<close> is no answer yet.\<close>

definition take_answer :: "app \<Rightarrow> ((string \<times> string) option \<times> app) option" where
  "take_answer a =
     (case ap_prompts a of
        [] \<Rightarrow> Some (None, a)
      | front # rest \<Rightarrow>
          (let p = wa_prompt front;
               answered = (\<lambda>answer. (Some (pm_session p, answer),
                 record_entry StatusNote (pm_question p @ '' '' @ arrow @ '' '' @ answer)
                   (a\<lparr>ap_prompts := rest, ap_composer := snd (composer_take (ap_composer a)),
                      ap_dialog_open := rest \<noteq> []\<rparr>)))
           in if pm_options p = []
              then Some (answered (if input_text a = [] then pm_default p else input_text a))
              else (case wa_selected front of
                      None \<Rightarrow> Some (None, a)
                    | Some i \<Rightarrow>
                        if i < length (pm_options p) then Some (answered (pm_options p ! i)) else None)))"

section \<open>Tool blocks\<close>

definition record_tool_invoked :: "string \<Rightarrow> string \<Rightarrow> string option \<Rightarrow> app \<Rightarrow> app" where
  "record_tool_invoked i name args a =
     a\<lparr>ap_transcript := ap_transcript a @ [Tool \<lparr>tb_id = i, tb_name = name, tb_arguments = args,
         tb_status = Running, tb_expanded = False\<rparr>]\<rparr>"

definition record_status :: "string \<Rightarrow> app \<Rightarrow> app" where
  "record_status t a = record_entry StatusNote t a"

definition record_error :: "string \<Rightarrow> app \<Rightarrow> app" where
  "record_error t a = record_entry ErrorNote t a"

fun open_call :: "string \<Rightarrow> transcript_entry \<Rightarrow> bool" where
  "open_call i (Tool b) = (tb_id b = i \<and> tb_status b = Running)"
| "open_call i (Message _ _) = False"

fun close_call :: "string \<Rightarrow> bool \<Rightarrow> transcript_entry \<Rightarrow> transcript_entry" where
  "close_call content failed (Tool b) = Tool (b\<lparr>tb_expanded := failed, tb_status := Done_Tool content failed\<rparr>)"
| "close_call content failed (Message w t) = Message w t"

definition record_tool_result :: "string \<Rightarrow> string \<Rightarrow> bool \<Rightarrow> app \<Rightarrow> app" where
  "record_tool_result i content failed a =
     (case position (open_call i) (rev (ap_transcript a)) of
        Some k \<Rightarrow>
          (let n = length (ap_transcript a) - 1 - k
           in a\<lparr>ap_transcript := (ap_transcript a)[n := close_call content failed (ap_transcript a ! n)]\<rparr>)
      | None \<Rightarrow> record_status (''tool result for an unknown call '' @ bquote i) a)"

section \<open>Dialogs\<close>

definition request_sessions :: "app \<Rightarrow> app" where
  "request_sessions a = (if ap_dialog_open a then a else a\<lparr>ap_sessions_requested := True\<rparr>)"

definition take_sessions_request :: "app \<Rightarrow> bool \<times> app" where
  "take_sessions_request a = (ap_sessions_requested a, a\<lparr>ap_sessions_requested := False\<rparr>)"

definition take_invoke_request :: "app \<Rightarrow> (string \<times> string) option \<times> app" where
  "take_invoke_request a = (ap_invoke_requested a, a\<lparr>ap_invoke_requested := None\<rparr>)"

definition request_new_session :: "app \<Rightarrow> app" where
  "request_new_session a = (if ap_dialog_open a then a else a\<lparr>ap_new_session_requested := True\<rparr>)"

definition take_new_session_request :: "app \<Rightarrow> bool \<times> app" where
  "take_new_session_request a = (ap_new_session_requested a, a\<lparr>ap_new_session_requested := False\<rparr>)"

definition toggle_help :: "app \<Rightarrow> app" where
  "toggle_help a =
     (if ap_dialog_open a then a else a\<lparr>ap_help := (if ap_help a = None then Some 0 else None)\<rparr>)"

definition close_help :: "app \<Rightarrow> app" where
  "close_help a = a\<lparr>ap_help := None\<rparr>"

definition help_scroll_by :: "int \<Rightarrow> app \<Rightarrow> app" where
  "help_scroll_by delta a = a\<lparr>ap_help := map_option (\<lambda>s. nat (int s + delta)) (ap_help a)\<rparr>"

definition toggle_sidebar_dialog :: "app \<Rightarrow> app" where
  "toggle_sidebar_dialog a =
     (if ap_dialog_open a then a else a\<lparr>ap_sidebar_dialog := \<not> ap_sidebar_dialog a\<rparr>)"

definition close_sidebar_dialog :: "app \<Rightarrow> app" where
  "close_sidebar_dialog a = a\<lparr>ap_sidebar_dialog := False\<rparr>"

definition quit :: "app \<Rightarrow> app" where
  "quit a = a\<lparr>ap_should_quit := True\<rparr>"

definition request_quit :: "app \<Rightarrow> app" where
  "request_quit a =
     (if ap_history a = [] then a\<lparr>ap_should_quit := True\<rparr>
      else if ap_dialog_open a then a
      else (let mid_turn = turn_of a \<noteq> Turn_Idle
            in a\<lparr>ap_quit := Some \<lparr>qc_quit_selected = False, qc_mid_turn = mid_turn,
                   qc_turn_lost = (mid_turn \<and> ap_stdio a), qc_escalate = False\<rparr>\<rparr>))"

definition quit_confirm_close :: "app \<Rightarrow> app" where
  "quit_confirm_close a = a\<lparr>ap_quit := None\<rparr>"

definition quit_confirm_move :: "app \<Rightarrow> app" where
  "quit_confirm_move a =
     a\<lparr>ap_quit := map_option (\<lambda>q. q\<lparr>qc_quit_selected := \<not> qc_quit_selected q\<rparr>) (ap_quit a)\<rparr>"

definition quit_confirm_accept :: "app \<Rightarrow> app" where
  "quit_confirm_accept a =
     (case ap_quit a of
        None \<Rightarrow> a
      | Some q \<Rightarrow>
          (if \<not> qc_quit_selected q then a\<lparr>ap_quit := None\<rparr>
           else if qc_mid_turn q \<and> \<not> qc_escalate q then a\<lparr>ap_quit := Some (q\<lparr>qc_escalate := True\<rparr>)\<rparr>
           else a\<lparr>ap_should_quit := True, ap_quit := None\<rparr>))"

definition em_dash :: string where
  "em_dash = [CHR 0xE2, CHR 0x80, CHR 0x94]"

text \<open>The match of \<open>menu_accept\<close> on the name of a built-in command.\<close>

definition run_builtin :: "string \<Rightarrow> app \<Rightarrow> app option" where
  "run_builtin name a =
     (if name = ''/newline'' then set_composer (composer_push [newline] (ap_composer a)) a
      else if name = ''/quit'' then Some (request_quit a)
      else if name = ''/cancel'' then
        Some (case cancel a of (done, a1) \<Rightarrow> if done then a1 else record_entry StatusNote ''no turn is running'' a1)
      else if name = ''/new'' then Some (request_new_session a)
      else if name = ''/sessions'' then Some (request_sessions a)
      else if name = ''/help'' then Some (toggle_help a)
      else Some (record_entry StatusNote (name @ '' is not wired up'') a))"

definition menu_accept :: "app \<Rightarrow> (bool \<times> app) option" where
  "menu_accept a =
     (if menu_selected a < length (menu_entries a)
      then (let e = menu_entries a ! menu_selected a;
                a1 = a\<lparr>ap_menu := None, ap_composer := composer_set []\<rparr>
            in map_option (Pair True)
                 (case me_source e of
                    FromExtension ext \<Rightarrow> Some (a1\<lparr>ap_invoke_requested := Some (ext, me_name e)\<rparr>)
                  | BuiltIn \<Rightarrow>
                      (case me_availability e of
                         Ready \<Rightarrow> run_builtin (me_name e) a1
                       | NotYet reason \<Rightarrow>
                           Some (record_entry StatusNote (me_name e @ '' '' @ em_dash @ '' '' @ reason) a1))))
      else Some (False, a))"

section \<open>The completion list\<close>

definition completion_entries :: "app \<Rightarrow> string list" where
  "completion_entries a = (case ap_completion a of None \<Rightarrow> [] | Some (_, _, found) \<Rightarrow> cm_entries found)"

definition completion_truncated :: "app \<Rightarrow> bool" where
  "completion_truncated a \<longleftrightarrow> (case ap_completion a of None \<Rightarrow> False | Some (_, _, found) \<Rightarrow> cm_truncated found)"

definition completion_selected :: "app \<Rightarrow> nat" where
  "completion_selected a =
     min (case ap_completion a of None \<Rightarrow> 0 | Some (_, i, _) \<Rightarrow> i) (length (completion_entries a) - 1)"

definition refresh_completion :: "string list \<Rightarrow> app \<Rightarrow> app" where
  "refresh_completion shown a =
     (case ap_completion a of
        None \<Rightarrow> a
      | Some (cached, i, found) \<Rightarrow>
          (case fragment (cp_text (ap_composer a)) (cp_caret (ap_composer a)) of
             None \<Rightarrow> a\<lparr>ap_completion := None\<rparr>
           | Some f \<Rightarrow>
               if cached = f then a
               else a\<lparr>ap_completion := Some (f, 0, complete_paths shown (concat f))\<rparr>))"

definition completion_dismiss :: "app \<Rightarrow> app" where
  "completion_dismiss a = a\<lparr>ap_completion := None\<rparr>"

definition completion_move :: "int \<Rightarrow> app \<Rightarrow> app" where
  "completion_move delta a =
     (let len = length (completion_entries a)
      in if len = 0 then a
         else a\<lparr>ap_completion := map_option (\<lambda>(f, _, found). (f, wrap_move len (completion_selected a) delta, found))
                  (ap_completion a)\<rparr>)"

definition completion_accept :: "app \<Rightarrow> (bool \<times> app) option" where
  "completion_accept a =
     (if completion_selected a < length (completion_entries a)
      then (let path = completion_entries a ! completion_selected a;
                typed = (case ap_completion a of None \<Rightarrow> 0 | Some (f, _, _) \<Rightarrow> blen f + 1)
            in map_option (\<lambda>a1. (True, a1\<lparr>ap_completion := None\<rparr>))
                 (set_composer (replace_before typed (utf8_chars path) (ap_composer a)) a))
      else Some (False, a))"

section \<open>History\<close>

definition composer_unmodified :: "app \<Rightarrow> bool" where
  "composer_unmodified a \<longleftrightarrow> composer_is_empty (ap_composer a) \<or>
     (case ap_recall a of None \<Rightarrow> False | Some (_, t) \<Rightarrow> t = cp_text (ap_composer a))"

definition history_up :: "segmenter \<Rightarrow> (scalars \<Rightarrow> nat) \<Rightarrow> nat \<Rightarrow> app \<Rightarrow> app option" where
  "history_up seg wid width a =
     (if \<not> (on_first_row seg wid (ap_composer a) width \<and> composer_unmodified a)
      then set_composer (move_up seg wid width (ap_composer a)) a
      else (let a1 = (if composer_is_empty (ap_composer a) then a\<lparr>ap_recall := None\<rparr> else a);
                recall = (\<lambda>next.
                  if next < length (ap_history a1)
                  then (let t = ap_history a1 ! next
                        in Some (a1\<lparr>ap_composer := composer_set t, ap_recall := Some (next, t)\<rparr>))
                  else None)
            in case ap_recall a1 of
                 Some (i, _) \<Rightarrow> if i = 0 then Some a1 else recall (i - 1)
               | None \<Rightarrow> if ap_history a1 = [] then Some a1 else recall (length (ap_history a1) - 1)))"

definition history_down :: "segmenter \<Rightarrow> (scalars \<Rightarrow> nat) \<Rightarrow> nat \<Rightarrow> app \<Rightarrow> app option" where
  "history_down seg wid width a =
     (if \<not> (on_last_row seg wid (ap_composer a) width \<and> composer_unmodified a)
      then set_composer (move_down seg wid width (ap_composer a)) a
      else (case ap_recall a of
              None \<Rightarrow> Some a
            | Some (i, _) \<Rightarrow>
                (if i + 1 < length (ap_history a)
                 then (let t = ap_history a ! (i + 1)
                       in Some (a\<lparr>ap_composer := composer_set t, ap_recall := Some (i + 1, t)\<rparr>))
                 else Some (a\<lparr>ap_composer := composer_set [], ap_recall := None\<rparr>))))"

section \<open>Connection, toasts and contributions\<close>

definition disconnect :: "string \<Rightarrow> app \<Rightarrow> app" where
  "disconnect reason a =
     (let a1 = (if ap_disconnected a then a else record_error reason (a\<lparr>ap_disconnected := True\<rparr>))
      in end_turn a1)"

definition connection_state :: "app \<Rightarrow> string" where
  "connection_state a =
     (if ap_disconnected a then ''disconnected''
      else case turn_of a of
             Turn_Idle \<Rightarrow> ''ready'' | Turn_Streaming \<Rightarrow> ''streaming''
           | Turn_Blocked \<Rightarrow> ''blocked'' | Turn_Cancelling \<Rightarrow> ''cancelling'')"

definition warning_sign :: string where
  "warning_sign = [CHR 0xE2, CHR 0x9A, CHR 0xA0]"

definition toast_warning :: "string \<Rightarrow> nat \<Rightarrow> app \<Rightarrow> app" where
  "toast_warning t now a =
     (record_status (warning_sign @ '' '' @ t) a)
       \<lparr>ap_toast := Some \<lparr>to_text = t, to_kind = WarningToast, to_expires_at = now + TOAST_TICKS\<rparr>\<rparr>"

definition toast_error :: "string \<Rightarrow> nat \<Rightarrow> app \<Rightarrow> app" where
  "toast_error t now a =
     (record_error t a)
       \<lparr>ap_toast := Some \<lparr>to_text = t, to_kind = ErrorToast, to_expires_at = now + TOAST_TICKS\<rparr>\<rparr>"

definition app_tick :: "nat \<Rightarrow> app \<Rightarrow> app" where
  "app_tick now a =
     (case ap_toast a of
        None \<Rightarrow> a
      | Some t \<Rightarrow> if to_expires_at t \<le> now then a\<lparr>ap_toast := None\<rparr> else a)"

definition set_session :: "string \<Rightarrow> app \<Rightarrow> app" where
  "set_session i a = a\<lparr>ap_session := i\<rparr>"

definition set_stdio :: "bool \<Rightarrow> app \<Rightarrow> app" where
  "set_stdio b a = a\<lparr>ap_stdio := b\<rparr>"

text \<open>What an extension contributes (\<open>protocol/src/contributions.rs\<close>).\<close>

record argument =
  ar_name :: string
  ar_description :: string
  ar_required :: bool

record command_spec =
  cd_name :: string
  cd_title :: string
  cd_description :: string
  cd_arguments :: "argument list"

record status_item =
  si_name :: string
  si_text :: string
  si_detail :: string

record form_field =
  ff_name :: string
  ff_label :: string
  ff_options :: "string list"
  ff_default_value :: string

record form =
  fo_name :: string
  fo_title :: string
  fo_fields :: "form_field list"

record contributions =
  ct_extension :: string
  ct_commands :: "command_spec list"
  ct_status_items :: "status_item list"
  ct_forms :: "form list"

definition contributions_is_empty :: "contributions \<Rightarrow> bool" where
  "contributions_is_empty c \<longleftrightarrow> ct_commands c = [] \<and> ct_status_items c = [] \<and> ct_forms c = []"

definition set_contributions :: "contributions list \<Rightarrow> app \<Rightarrow> app" where
  "set_contributions sets a =
     a\<lparr>ap_contributed := filter (\<lambda>c. cb_name c \<noteq> [])
           (concat (map (\<lambda>set. map (\<lambda>c. \<lparr>cb_extension = inert (ct_extension set),
              cb_name = inert (cd_name c), cb_summary = inert (cd_description c)\<rparr>) (ct_commands set)) sets)),
       ap_contributed_status := filter (\<lambda>i. cs_text i \<noteq> [])
           (concat (map (\<lambda>set. map (\<lambda>i. \<lparr>cs_extension = inert (ct_extension set),
              cs_text = inert (si_text i), cs_detail = inert (si_detail i)\<rparr>) (ct_status_items set)) sets))\<rparr>"

section \<open>The session switcher\<close>

definition open_sessions :: "session_entry list \<Rightarrow> app \<Rightarrow> app" where
  "open_sessions es a = a\<lparr>ap_sessions := Some \<lparr>ss_entries = es, ss_query = [], ss_selected = 0\<rparr>\<rparr>"

definition sessions_close :: "app \<Rightarrow> app" where
  "sessions_close a = a\<lparr>ap_sessions := None\<rparr>"

definition sessions_push_char :: "string \<Rightarrow> app \<Rightarrow> app" where
  "sessions_push_char ch a =
     a\<lparr>ap_sessions := map_option (\<lambda>s. s\<lparr>ss_query := ss_query s @ [ch], ss_selected := 0\<rparr>) (ap_sessions a)\<rparr>"

definition sessions_backspace :: "app \<Rightarrow> app" where
  "sessions_backspace a =
     a\<lparr>ap_sessions := map_option (\<lambda>s. s\<lparr>ss_query := butlast (ss_query s), ss_selected := 0\<rparr>) (ap_sessions a)\<rparr>"

definition sessions_filtered :: "app \<Rightarrow> session_entry list" where
  "sessions_filtered a =
     (case ap_sessions a of
        None \<Rightarrow> []
      | Some s \<Rightarrow>
          (if ss_query s = [] then ss_entries s
           else (let needle = to_lower (concat (ss_query s))
                 in filter (\<lambda>e. contains_text needle (to_lower (se_id e)) \<or>
                      contains_text needle (to_lower (se_preview e))) (ss_entries s))))"

definition sessions_selected :: "app \<Rightarrow> nat" where
  "sessions_selected a =
     min (case ap_sessions a of None \<Rightarrow> 0 | Some s \<Rightarrow> ss_selected s) (length (sessions_filtered a) - 1)"

definition sessions_move :: "int \<Rightarrow> app \<Rightarrow> app" where
  "sessions_move delta a =
     (let len = length (sessions_filtered a)
      in if len = 0 then a
         else a\<lparr>ap_sessions := map_option (\<lambda>s. s\<lparr>ss_selected := wrap_move len (sessions_selected a) delta\<rparr>)
                  (ap_sessions a)\<rparr>)"

definition cannot_switch_text :: string where
  "cannot_switch_text = ''cannot switch sessions while a turn is running '' @ em_dash @
     '' cancel it first (Ctrl+C), or wait for it to finish''"

definition sessions_confirm :: "app \<Rightarrow> string option \<times> app" where
  "sessions_confirm a =
     (if sessions_selected a < length (sessions_filtered a)
      then (if turn_of a = Turn_Idle then (Some (se_id (sessions_filtered a ! sessions_selected a)), a)
            else (None, record_status cannot_switch_text a))
      else (None, a))"

definition session_message_entry :: "session_message \<Rightarrow> transcript_entry option" where
  "session_message_entry m =
     (if sm_role m = ''user'' then Some (Message You (sm_content m))
      else if sm_role m = ''assistant'' then Some (Message Klod (sm_content m))
      else if sm_role m = ''tool'' then
        (let i = (case sm_tool_call_id m of None \<Rightarrow> [] | Some i \<Rightarrow> i)
         in Some (Tool \<lparr>tb_id = i, tb_name = i, tb_arguments = None,
              tb_status = Done_Tool (sm_content m) False, tb_expanded = False\<rparr>))
      else None)"

definition load_session :: "string \<Rightarrow> session_message list \<Rightarrow> app \<Rightarrow> app" where
  "load_session i ms a =
     a\<lparr>ap_session := i, ap_transcript := List.map_filter session_message_entry ms, ap_cursor := None,
       ap_sessions := None\<rparr>"

end
