(* ===== verification/View.thy ===== *)
theory View
  imports Prelude
begin

text \<open>
  What the terminal client shows where: the scrolling window over the transcript
  (\<open>clients/tui/src/viewport.rs\<close>), the regions of the frame (\<open>layout.rs\<close>) and the key hints
  (\<open>keymap.rs\<close>). \<open>usize\<close> and \<open>u16\<close> are \<open>nat\<close>: the subtractions saturate and no sum leaves its type.
\<close>

section \<open>The scrolling window\<close>

record viewport =
  vp_offset :: nat
  vp_attached :: bool

definition new_viewport :: viewport where
  "new_viewport = \<lparr>vp_offset = 0, vp_attached = True\<rparr>"

definition max_offset :: "nat \<Rightarrow> nat \<Rightarrow> nat" where
  "max_offset tot height = tot - height"

definition below_window :: "viewport \<Rightarrow> nat \<Rightarrow> nat \<Rightarrow> nat" where
  "below_window v tot height = max_offset tot height - vp_offset v"

definition reflow :: "nat \<Rightarrow> nat \<Rightarrow> viewport \<Rightarrow> viewport" where
  "reflow tot height v =
     (let m = max_offset tot height
      in if vp_attached v then v\<lparr>vp_offset := m\<rparr>
         else if m < vp_offset v then \<lparr>vp_offset = m, vp_attached = True\<rparr>
         else v)"

definition reveal :: "nat \<Rightarrow> nat \<Rightarrow> nat \<Rightarrow> nat \<Rightarrow> viewport \<Rightarrow> viewport" where
  "reveal start rows tot height v =
     (let m = max_offset tot height;
          e = start + rows;
          off = (if start < vp_offset v then start
                 else if vp_offset v + height < e then (let wanted = e - height in if m < wanted then m else wanted)
                 else vp_offset v)
      in \<lparr>vp_offset = off, vp_attached = (m \<le> off)\<rparr>)"

definition scroll_up :: "nat \<Rightarrow> viewport \<Rightarrow> viewport" where
  "scroll_up rows v =
     (let moved = vp_offset v - rows
      in if moved \<noteq> vp_offset v then \<lparr>vp_offset = moved, vp_attached = False\<rparr> else v)"

definition scroll_down :: "nat \<Rightarrow> nat \<Rightarrow> nat \<Rightarrow> viewport \<Rightarrow> viewport" where
  "scroll_down rows tot height v =
     (let m = max_offset tot height;
          moved = vp_offset v + rows;
          off = (if m < moved then m else moved)
      in \<lparr>vp_offset = off, vp_attached = (off = m \<or> vp_attached v)\<rparr>)"

definition to_bottom :: "nat \<Rightarrow> nat \<Rightarrow> viewport \<Rightarrow> viewport" where
  "to_bottom tot height v = \<lparr>vp_offset = max_offset tot height, vp_attached = True\<rparr>"

definition page_up :: "nat \<Rightarrow> viewport \<Rightarrow> viewport" where
  "page_up height v = scroll_up height v"

definition page_down :: "nat \<Rightarrow> nat \<Rightarrow> viewport \<Rightarrow> viewport" where
  "page_down tot height v = scroll_down height tot height v"

definition half_up :: "nat \<Rightarrow> viewport \<Rightarrow> viewport" where
  "half_up height v = scroll_up (height div 2) v"

definition half_down :: "nat \<Rightarrow> nat \<Rightarrow> viewport \<Rightarrow> viewport" where
  "half_down tot height v = scroll_down (height div 2) tot height v"

text \<open>
  The window never runs past the end, once it is laid out: every operation keeps a window inside the
  transcript inside it, and a window that follows the end shows the last lines after a resize.
\<close>

lemma window_inside:
  assumes "vp_offset v \<le> max_offset tot height"
  shows "vp_offset (scroll_up rows v) \<le> max_offset tot height"
    and "vp_offset (scroll_down rows tot height v) \<le> max_offset tot height"
    and "start + rows \<le> tot \<Longrightarrow> vp_offset (reveal start rows tot height v) \<le> max_offset tot height"
    and "vp_offset (to_bottom tot height v) \<le> max_offset tot height"
  using assms by (auto simp: scroll_up_def scroll_down_def reveal_def to_bottom_def Let_def)

lemma reflow_inside: "vp_offset (reflow tot height v) \<le> max_offset tot height"
  and reflow_attached: "vp_attached v \<Longrightarrow> vp_offset (reflow tot height v) = max_offset tot height"
  by (auto simp: reflow_def Let_def)

lemma reveal_shows:
  assumes "start + rows \<le> tot" "rows \<le> height" "vp_offset v \<le> max_offset tot height"
  shows "vp_offset (reveal start rows tot height v) \<le> start"
    and "start + rows \<le> vp_offset (reveal start rows tot height v) + height"
  using assms by (auto simp: reveal_def max_offset_def Let_def)

section \<open>The regions of the frame\<close>

definition SIDEBAR_WIDTH :: nat where "SIDEBAR_WIDTH = 28"
definition MIN_TRANSCRIPT_HEIGHT :: nat where "MIN_TRANSCRIPT_HEIGHT = 5"
definition MIN_COMPOSER_HEIGHT :: nat where "MIN_COMPOSER_HEIGHT = 3"

record rect =
  rc_x :: nat
  rc_y :: nat
  rc_width :: nat
  rc_height :: nat

record frame =
  fr_header :: "rect option"
  fr_sidebar :: "rect option"
  fr_content :: rect
  fr_status :: rect
  fr_too_small :: bool
  fr_collapsed_header :: bool
  fr_single_column :: bool

definition regions :: "nat \<Rightarrow> nat \<Rightarrow> frame" where
  "regions width height =
     (let header_visible = 20 \<le> height;
          sidebar_visible = (header_visible \<and> 100 \<le> width);
          y = (if header_visible then 1 else 0);
          status_y = max (height - 1) y;
          content_height = status_y - y;
          content_width = (if sidebar_visible then width - SIDEBAR_WIDTH else width)
      in \<lparr>fr_header = (if header_visible then Some \<lparr>rc_x = 0, rc_y = 0, rc_width = width, rc_height = 1\<rparr> else None),
          fr_sidebar = (if sidebar_visible
             then Some \<lparr>rc_x = content_width, rc_y = y, rc_width = SIDEBAR_WIDTH, rc_height = content_height\<rparr>
             else None),
          fr_content = \<lparr>rc_x = 0, rc_y = y, rc_width = content_width, rc_height = content_height\<rparr>,
          fr_status = \<lparr>rc_x = 0, rc_y = status_y, rc_width = width, rc_height = min (height - status_y) 1\<rparr>,
          fr_too_small = (content_height < MIN_TRANSCRIPT_HEIGHT + MIN_COMPOSER_HEIGHT),
          fr_collapsed_header = (header_visible \<and> width < 80),
          fr_single_column = (width < 60)\<rparr>)"

definition in_rect :: "nat \<Rightarrow> nat \<Rightarrow> rect \<Rightarrow> bool" where
  "in_rect x y r \<longleftrightarrow> rc_x r \<le> x \<and> x < rc_x r + rc_width r \<and> rc_y r \<le> y \<and> y < rc_y r + rc_height r"

definition in_opt :: "nat \<Rightarrow> nat \<Rightarrow> rect option \<Rightarrow> bool" where
  "in_opt x y r \<longleftrightarrow> (case r of None \<Rightarrow> False | Some r \<Rightarrow> in_rect x y r)"

text \<open>Every cell of the frame belongs to exactly one region, and no region leaves the frame.\<close>

lemma regions_tile:
  "length (filter id [in_opt x y (fr_header (regions width height)), in_opt x y (fr_sidebar (regions width height)),
     in_rect x y (fr_content (regions width height)), in_rect x y (fr_status (regions width height))])
   = (if x < width \<and> y < height then 1 else 0)"
  by (simp add: regions_def in_opt_def in_rect_def Let_def SIDEBAR_WIDTH_def) linarith

section \<open>Key hints\<close>

datatype key_context = In_Idle | In_Streaming | In_Cancelling | In_DialogOpen | In_DialogClosed

record binding =
  bi_keys :: string
  bi_action :: string
  bi_context :: key_context

definition BINDINGS :: "binding list" where
  "BINDINGS =
     [\<lparr>bi_keys = ''Enter'', bi_action = ''send'', bi_context = In_Idle\<rparr>,
      \<lparr>bi_keys = ''Esc'', bi_action = ''quit'', bi_context = In_Idle\<rparr>,
      \<lparr>bi_keys = ''Ctrl+S'', bi_action = ''switch session'', bi_context = In_Idle\<rparr>,
      \<lparr>bi_keys = ''?'', bi_action = ''help'', bi_context = In_Idle\<rparr>,
      \<lparr>bi_keys = ''Ctrl+D'', bi_action = ''quit'', bi_context = In_Idle\<rparr>,
      \<lparr>bi_keys = ''Ctrl+B'', bi_action = ''sidebar (narrow widths)'', bi_context = In_Idle\<rparr>,
      \<lparr>bi_keys = ''Enter'', bi_action = ''steer'', bi_context = In_Streaming\<rparr>,
      \<lparr>bi_keys = ''Ctrl+C'', bi_action = ''cancel'', bi_context = In_Streaming\<rparr>,
      \<lparr>bi_keys = [], bi_action = ''stopping '' @ [CHR 0xE2, CHR 0x80, CHR 0x94] @ '' Ctrl+C already sent'',
        bi_context = In_Cancelling\<rparr>,
      \<lparr>bi_keys = [CHR 0xE2, CHR 0x86, CHR 0x91] @ ''/'' @ [CHR 0xE2, CHR 0x86, CHR 0x93] @ '' or 1-9'',
        bi_action = ''choose'', bi_context = In_DialogOpen\<rparr>,
      \<lparr>bi_keys = ''Enter'', bi_action = ''confirm'', bi_context = In_DialogOpen\<rparr>,
      \<lparr>bi_keys = ''Esc'', bi_action = ''close'', bi_context = In_DialogOpen\<rparr>,
      \<lparr>bi_keys = ''Enter'', bi_action = ''reopen the prompt'', bi_context = In_DialogClosed\<rparr>,
      \<lparr>bi_keys = ''Esc'', bi_action = ''quit'', bi_context = In_DialogClosed\<rparr>]"

definition hint_one :: "binding \<Rightarrow> string" where
  "hint_one b = (if bi_keys b = [] then bi_action b else bi_keys b @ '' to '' @ bi_action b)"

definition hint :: "binding list \<Rightarrow> key_context \<Rightarrow> string" where
  "hint table ctx =
     join_with ('' '' @ [CHR 0xC2, CHR 0xB7] @ '' '') (map hint_one (filter (\<lambda>b. bi_context b = ctx) table))"

definition hint_narrow :: "binding list \<Rightarrow> key_context \<Rightarrow> string" where
  "hint_narrow table ctx =
     (case filter (\<lambda>b. bi_context b = ctx) table of [] \<Rightarrow> [] | b # _ \<Rightarrow> hint_one b)"

definition status_hint :: "key_context \<Rightarrow> string" where
  "status_hint ctx = hint BINDINGS ctx"

definition status_hint_narrow :: "key_context \<Rightarrow> string" where
  "status_hint_narrow ctx = hint_narrow BINDINGS ctx"

end
