(* ===== verification/Client.thy ===== *)
theory Client
  imports App View
begin

text \<open>
  The event loop of the terminal client (\<open>clients/tui/src/tui.rs\<close>) over the state of \<open>App\<close>: how a key is
  read, how the events of a turn are applied, and what one pass of the loop does. The transport is a
  record of functions on the outside world; the turn's thread is the queue \<open>cl_rx\<close> it fills. Drawing is
  modelled as far as it changes the state: the pane and the window. The splitting of the content area
  (\<open>ratatui\<close>), the rows a transcript renders to (\<open>blocks.rs\<close>) and the terminal are parameters.
\<close>

section \<open>The outside\<close>

datatype stream_event =
    StreamDelta string
  | StreamTool string string "string option"
  | StreamToolResult string string bool
  | StreamWarning string
  | StreamDone string
  | StreamPrompt prompt
  | StreamError string
  | StreamContributions "contributions list"

record 'w client_transport =
  tr_create_session :: "'w \<Rightarrow> (string + string) \<times> 'w"
  tr_session_list :: "'w \<Rightarrow> (string + session_entry list) \<times> 'w"
  tr_session_get :: "string \<Rightarrow> 'w \<Rightarrow> (string + (string \<times> session_message list)) \<times> 'w"
  tr_cancel :: "string \<Rightarrow> 'w \<Rightarrow> (string + unit) \<times> 'w"
  tr_stream_turn :: "string \<Rightarrow> string \<Rightarrow> 'w \<Rightarrow> 'w"
  tr_answer :: "string \<Rightarrow> string \<Rightarrow> 'w \<Rightarrow> 'w"
  tr_follow_up :: "string \<Rightarrow> string \<Rightarrow> 'w \<Rightarrow> (string + unit) \<times> 'w"
  tr_contributions :: "'w \<Rightarrow> contributions list \<times> 'w"
  tr_invoke_contribution :: "string \<Rightarrow> string \<Rightarrow> 'w \<Rightarrow> (string + string) \<times> 'w"
  tr_describe :: string
  tr_alive :: "'w \<Rightarrow> bool \<times> 'w"
  tr_is_stdio :: bool

text \<open>What the libraries and the renderer compute: graphemes, widths, rows and areas.\<close>

record screen =
  sc_seg :: segmenter
  sc_wid :: "scalars \<Rightarrow> nat"
  sc_caret_cells :: "turn_view \<Rightarrow> nat"
  sc_transcript_area :: "rect \<Rightarrow> nat \<Rightarrow> rect"
  sc_lines :: "transcript_entry list \<Rightarrow> nat option \<Rightarrow> nat \<Rightarrow> nat"
  sc_span :: "transcript_entry list \<Rightarrow> nat \<Rightarrow> nat \<Rightarrow> nat \<times> nat"

record pane =
  pn_total :: nat
  pn_height :: nat
  pn_composer_width :: nat
  pn_transcript_width :: nat
  pn_sidebar_hidden :: bool

definition new_pane :: pane where
  "new_pane = \<lparr>pn_total = 0, pn_height = 0, pn_composer_width = 0, pn_transcript_width = 0,
     pn_sidebar_hidden = False\<rparr>"

datatype key_code =
    KEsc | KEnter | KTab | KUp | KDown | KLeft | KRight | KHome | KEnd | KPageUp | KPageDown | KBackspace
  | KChar string | KOther

record key =
  ke_code :: key_code
  ke_ctrl :: bool
  ke_alt :: bool
  ke_shift :: bool

record 'w client =
  cl_app :: app
  cl_view :: viewport
  cl_pane :: pane
  cl_rx :: "((string + stream_event) list \<times> bool) option"
  cl_tick :: nat
  cl_world :: 'w

section \<open>Keys of the dialogs\<close>

definition dialog_keys :: "key \<Rightarrow> app \<Rightarrow> bool \<times> app" where
  "dialog_keys k a =
     (if \<not> ap_dialog_open a then (False, a)
      else case pending_prompt a of
             None \<Rightarrow> (False, a)
           | Some p \<Rightarrow>
               (let list_mode = pm_options p \<noteq> []
                in case ke_code k of
                     KEsc \<Rightarrow> (True, close_dialog a)
                   | KUp \<Rightarrow> if list_mode then (True, prompt_move (-1) a) else (False, a)
                   | KDown \<Rightarrow> if list_mode then (True, prompt_move 1 a) else (False, a)
                   | KChar ch \<Rightarrow>
                       (case ch of
                          [c] \<Rightarrow>
                            if list_mode \<and> 49 \<le> (of_char c :: nat) \<and> (of_char c :: nat) \<le> 57
                            then (True, prompt_jump (of_char c - 48) a) else (list_mode, a)
                        | _ \<Rightarrow> (list_mode, a))
                   | KEnter \<Rightarrow> (False, a)
                   | _ \<Rightarrow> (list_mode, a)))"

definition quit_confirm_keys :: "key \<Rightarrow> app \<Rightarrow> bool \<times> app" where
  "quit_confirm_keys k a =
     (if ap_quit a = None then (False, a)
      else (True, case ke_code k of
              KEsc \<Rightarrow> quit_confirm_close a
            | KUp \<Rightarrow> quit_confirm_move a | KDown \<Rightarrow> quit_confirm_move a | KLeft \<Rightarrow> quit_confirm_move a
            | KRight \<Rightarrow> quit_confirm_move a | KTab \<Rightarrow> quit_confirm_move a
            | KEnter \<Rightarrow> quit_confirm_accept a
            | _ \<Rightarrow> a))"

definition sessions_keys :: "key \<Rightarrow> app \<Rightarrow> bool \<times> app" where
  "sessions_keys k a =
     (if ap_sessions a = None then (False, a)
      else case ke_code k of
             KEsc \<Rightarrow> (True, sessions_close a)
           | KUp \<Rightarrow> (True, sessions_move (-1) a)
           | KDown \<Rightarrow> (True, sessions_move 1 a)
           | KBackspace \<Rightarrow> (True, sessions_backspace a)
           | KChar ch \<Rightarrow> (True, if ke_ctrl k then a else sessions_push_char ch a)
           | KEnter \<Rightarrow> (False, a)
           | _ \<Rightarrow> (True, a))"

definition help_keys :: "key \<Rightarrow> app \<Rightarrow> bool \<times> app" where
  "help_keys k a =
     (if ap_help a = None then (False, a)
      else (True, case ke_code k of
              KEsc \<Rightarrow> close_help a
            | KChar ch \<Rightarrow> if ch = ''?'' then close_help a else a
            | KUp \<Rightarrow> help_scroll_by (-1) a | KDown \<Rightarrow> help_scroll_by 1 a
            | KPageUp \<Rightarrow> help_scroll_by (-10) a | KPageDown \<Rightarrow> help_scroll_by 10 a
            | _ \<Rightarrow> a))"

definition sidebar_dialog_keys :: "key \<Rightarrow> app \<Rightarrow> bool \<times> app" where
  "sidebar_dialog_keys k a =
     (if \<not> ap_sidebar_dialog a then (False, a)
      else (True, case ke_code k of
              KEsc \<Rightarrow> close_sidebar_dialog a
            | KChar ch \<Rightarrow> if ch = ''b'' \<and> ke_ctrl k then close_sidebar_dialog a else a
            | _ \<Rightarrow> a))"

text \<open>The first handler that takes the key.\<close>

fun first_handler :: "(app \<Rightarrow> bool \<times> app) list \<Rightarrow> app \<Rightarrow> bool \<times> app" where
  "first_handler [] a = (False, a)"
| "first_handler (h # hs) a = (case h a of (taken, a1) \<Rightarrow> if taken then (True, a1) else first_handler hs a1)"

definition global_keys :: "pane \<Rightarrow> key \<Rightarrow> app \<Rightarrow> bool \<times> app" where
  "global_keys pn k a =
     (if ke_code k = KChar ''?'' \<and> \<not> ke_ctrl k \<and> \<not> ke_alt k \<and> composer_is_empty (ap_composer a)
      then (True, toggle_help a)
      else if ke_code k = KChar ''b'' \<and> ke_ctrl k \<and> pn_sidebar_hidden pn then (True, toggle_sidebar_dialog a)
      else (False, a))"

definition dialog_priority_keys :: "pane \<Rightarrow> key \<Rightarrow> app \<Rightarrow> bool \<times> app" where
  "dialog_priority_keys pn k a =
     first_handler [dialog_keys k, quit_confirm_keys k, sessions_keys k, help_keys k, sidebar_dialog_keys k,
       global_keys pn k] a"

section \<open>Keys of the composer\<close>

definition completion_keys :: "key \<Rightarrow> app \<Rightarrow> (bool \<times> app) option" where
  "completion_keys k a =
     (if ap_completion a = None then Some (False, a)
      else case ke_code k of
             KEsc \<Rightarrow> Some (True, completion_dismiss a)
           | KUp \<Rightarrow> Some (True, completion_move (-1) a)
           | KDown \<Rightarrow> Some (True, completion_move 1 a)
           | KEnter \<Rightarrow> completion_accept a
           | KTab \<Rightarrow> completion_accept a
           | _ \<Rightarrow> Some (False, a))"

definition menu_keys :: "key \<Rightarrow> app \<Rightarrow> (bool \<times> app) option" where
  "menu_keys k a =
     (if menu_query a = None then Some (False, a)
      else case ke_code k of
             KEsc \<Rightarrow> Some (True, menu_dismiss a)
           | KUp \<Rightarrow> Some (True, menu_move (-1) a)
           | KDown \<Rightarrow> Some (True, menu_move 1 a)
           | KEnter \<Rightarrow> menu_accept a
           | KTab \<Rightarrow> menu_accept a
           | _ \<Rightarrow> Some (False, a))"

definition reveal_cursor :: "screen \<Rightarrow> pane \<Rightarrow> app \<Rightarrow> viewport \<Rightarrow> viewport" where
  "reveal_cursor sc pn a v =
     (case ap_cursor a of
        None \<Rightarrow> v
      | Some i \<Rightarrow>
          (case sc_span sc (ap_transcript a) i (pn_transcript_width pn) of
             (start, rows) \<Rightarrow> reveal start rows (pn_total pn) (pn_height pn) v))"

definition block_keys :: "screen \<Rightarrow> pane \<Rightarrow> key \<Rightarrow> app \<Rightarrow> viewport \<Rightarrow> bool \<times> app \<times> viewport" where
  "block_keys sc pn k a v =
     (if ke_code k = KChar ''o'' \<and> ke_ctrl k
      then (let a1 = snd (toggle_expanded a) in (True, a1, reveal_cursor sc pn a1 v))
      else if ke_code k = KUp \<and> ke_alt k
      then (let a1 = snd (cursor_up a) in (True, a1, reveal_cursor sc pn a1 v))
      else if ke_code k = KDown \<and> ke_alt k
      then (let a1 = snd (cursor_down a) in (True, a1, reveal_cursor sc pn a1 v))
      else (False, a, v))"

text \<open>An editing call of the composer, as the arm of the match that makes it.\<close>

definition edited :: "composer option \<Rightarrow> app \<Rightarrow> viewport \<Rightarrow> (bool \<times> app \<times> viewport) option" where
  "edited c a v = map_option (\<lambda>a1. (True, a1, v)) (set_composer c a)"

definition char_keys ::
  "screen \<Rightarrow> pane \<Rightarrow> key \<Rightarrow> string \<Rightarrow> app \<Rightarrow> viewport \<Rightarrow> (bool \<times> app \<times> viewport) option" where
  "char_keys sc pn k ch a v =
     (let c = ap_composer a in
      if ke_ctrl k then
        (if ch = ''u'' \<and> composer_is_empty c then Some (True, a, half_up (pn_height pn) v)
         else if ch = ''d'' \<and> composer_is_empty c then Some (True, a, half_down (pn_total pn) (pn_height pn) v)
         else if ch = ''a'' then edited (home c) a v
         else if ch = ''e'' then edited (line_end_key c) a v
         else if ch = ''w'' then edited (delete_word_back c) a v
         else if ch = ''k'' then edited (kill_to_end c) a v
         else if ch = ''u'' then edited (kill_line c) a v
         else Some (False, a, v))
      else map_option (\<lambda>a1. (True, a1, v)) (push_char ch a))"

definition text_keys ::
  "screen \<Rightarrow> pane \<Rightarrow> key \<Rightarrow> app \<Rightarrow> viewport \<Rightarrow> (bool \<times> app \<times> viewport) option" where
  "text_keys sc pn k a v =
     (let c = ap_composer a in
      case ke_code k of
        KPageUp \<Rightarrow> Some (True, a, page_up (pn_height pn) v)
      | KPageDown \<Rightarrow> Some (True, a, page_down (pn_total pn) (pn_height pn) v)
      | KLeft \<Rightarrow> edited (if ke_alt k then word_left c else move_left (sc_seg sc) c) a v
      | KRight \<Rightarrow> edited (if ke_alt k then word_right c else move_right (sc_seg sc) c) a v
      | KHome \<Rightarrow> edited (home c) a v
      | KEnd \<Rightarrow> edited (line_end_key c) a v
      | KEnter \<Rightarrow> if ke_shift k \<or> ke_alt k then edited (composer_push [newline] c) a v else Some (False, a, v)
      | KUp \<Rightarrow> map_option (\<lambda>a1. (True, a1, v)) (history_up (sc_seg sc) (sc_wid sc) (pn_composer_width pn) a)
      | KDown \<Rightarrow> map_option (\<lambda>a1. (True, a1, v)) (history_down (sc_seg sc) (sc_wid sc) (pn_composer_width pn) a)
      | KBackspace \<Rightarrow> map_option (\<lambda>a1. (True, a1, v)) (app_backspace (sc_seg sc) a)
      | KChar ch \<Rightarrow> char_keys sc pn k ch a v
      | _ \<Rightarrow> Some (False, a, v))"

definition edit_or_scroll ::
  "screen \<Rightarrow> pane \<Rightarrow> key \<Rightarrow> app \<Rightarrow> viewport \<Rightarrow> (bool \<times> app \<times> viewport) option" where
  "edit_or_scroll sc pn k a v =
     (case dialog_priority_keys pn k a of
        (True, a1) \<Rightarrow> Some (True, a1, v)
      | (False, a1) \<Rightarrow>
          Option.bind (completion_keys k a1) (\<lambda>(taken, a2).
            if taken then Some (True, a2, v)
            else Option.bind (menu_keys k a2) (\<lambda>(taken, a3).
              if taken then Some (True, a3, v)
              else (case block_keys sc pn k a3 v of
                      (True, a4, v4) \<Rightarrow> Some (True, a4, v4)
                    | (False, a4, v4) \<Rightarrow> text_keys sc pn k a4 v4))))"

section \<open>Events of the turn\<close>

datatype event_step = Applied | Ended

definition apply_event :: "nat \<Rightarrow> string + stream_event \<Rightarrow> app \<Rightarrow> event_step \<times> app" where
  "apply_event now ev a =
     (case ev of
        Inr (StreamDelta t) \<Rightarrow> (Applied, apply_delta t a)
      | Inr (StreamDone answer) \<Rightarrow> (Ended, finish_turn answer (interrupt_open_tools a))
      | Inr (StreamTool i name args) \<Rightarrow> (Applied, record_tool_invoked i name args a)
      | Inr (StreamToolResult i content failed) \<Rightarrow> (Applied, record_tool_result i content failed a)
      | Inr (StreamWarning m) \<Rightarrow> (Applied, toast_warning m now a)
      | Inr (StreamPrompt p) \<Rightarrow> (Applied, ask p a)
      | Inr (StreamError err) \<Rightarrow> (Ended, record_error err (interrupt_open_tools a))
      | Inr (StreamContributions sets) \<Rightarrow> (Applied, set_contributions sets a)
      | Inl err \<Rightarrow> (Ended, disconnect err a))"

text \<open>
  The inner loop: until the queue is empty (\<open>Drained\<close>), or the turn has ended, or the sender is gone and
  nothing is left to read. The flag is true when the receiver is dropped.
\<close>

fun drain_events :: "nat \<Rightarrow> (string + stream_event) list \<Rightarrow> bool \<Rightarrow> app \<Rightarrow> bool \<times> app" where
  "drain_events now [] closed a = (if closed then (True, end_turn a) else (False, a))"
| "drain_events now (ev # evs) closed a =
     (case apply_event now ev a of
        (Applied, a1) \<Rightarrow> drain_events now evs closed a1
      | (Ended, a1) \<Rightarrow> (True, end_turn a1))"

definition read_stream :: "'w client \<Rightarrow> 'w client" where
  "read_stream c =
     (case cl_rx c of
        None \<Rightarrow> c
      | Some (evs, closed) \<Rightarrow>
          (case drain_events (cl_tick c) evs closed (cl_app c) of
             (ended, a) \<Rightarrow> c\<lparr>cl_app := a, cl_rx := (if ended then None else Some ([], closed))\<rparr>))"

section \<open>Requests to the transport\<close>

definition session_list_prefix :: string where "session_list_prefix = ''session/list: ''"

definition drain_cancel :: "'w client_transport \<Rightarrow> app \<times> 'w \<Rightarrow> app \<times> 'w" where
  "drain_cancel tr aw =
     (case aw of (a, w) \<Rightarrow>
        (case take_cancel_request a of
           (False, a1) \<Rightarrow> (a1, w)
         | (True, a1) \<Rightarrow>
             (case tr_cancel tr (ap_session a1) w of
                (Inr _, w1) \<Rightarrow> (record_status (''cancelling '' @ em_dash @ '' the answer so far is kept'') a1, w1)
              | (Inl err, w1) \<Rightarrow> (record_status (''cancel could not be sent: '' @ err) a1, w1))))"

definition drain_sessions :: "'w client_transport \<Rightarrow> app \<times> 'w \<Rightarrow> app \<times> 'w" where
  "drain_sessions tr aw =
     (case aw of (a, w) \<Rightarrow>
        (case take_sessions_request a of
           (False, a1) \<Rightarrow> (a1, w)
         | (True, a1) \<Rightarrow>
             (case tr_session_list tr w of
                (Inr es, w1) \<Rightarrow> (open_sessions es a1, w1)
              | (Inl err, w1) \<Rightarrow> (record_error (session_list_prefix @ err) a1, w1))))"

definition drain_invoke :: "'w client_transport \<Rightarrow> app \<times> 'w \<Rightarrow> app \<times> 'w" where
  "drain_invoke tr aw =
     (case aw of (a, w) \<Rightarrow>
        (case take_invoke_request a of
           (None, a1) \<Rightarrow> (a1, w)
         | (Some (ext, name), a1) \<Rightarrow>
             (case tr_invoke_contribution tr ext name w of
                (res, w1) \<Rightarrow>
                  (let a2 = (case res of
                          Inr t \<Rightarrow> record_status (if t = [] then name @ '' ran'' else t) a1
                        | Inl err \<Rightarrow> record_error (name @ '': '' @ err) a1)
                   in case tr_contributions tr w1 of (sets, w2) \<Rightarrow> (set_contributions sets a2, w2)))))"

definition drain_new_session :: "'w client_transport \<Rightarrow> app \<times> 'w \<Rightarrow> app \<times> 'w" where
  "drain_new_session tr aw =
     (case aw of (a, w) \<Rightarrow>
        (case take_new_session_request a of
           (False, a1) \<Rightarrow> (a1, w)
         | (True, a1) \<Rightarrow>
             (case tr_create_session tr w of
                (Inr i, w1) \<Rightarrow> (load_session i [] a1, w1)
              | (Inl err, w1) \<Rightarrow> (record_error (''session/create: '' @ err) a1, w1))))"

definition drain_transport_requests :: "'w client_transport \<Rightarrow> app \<times> 'w \<Rightarrow> app \<times> 'w" where
  "drain_transport_requests tr aw =
     drain_new_session tr (drain_invoke tr (drain_sessions tr (drain_cancel tr aw)))"

definition switch_session :: "'w client_transport \<Rightarrow> app \<times> 'w \<Rightarrow> app \<times> 'w" where
  "switch_session tr aw =
     (case aw of (a, w) \<Rightarrow>
        (case sessions_confirm a of
           (None, a1) \<Rightarrow> (a1, w)
         | (Some i, a1) \<Rightarrow>
             (case tr_session_get tr i w of
                (Inr (j, ms), w1) \<Rightarrow> (load_session j ms a1, w1)
              | (Inl err, w1) \<Rightarrow> (record_error (''session/get: '' @ err) a1, w1))))"

section \<open>What Enter means\<close>

datatype enter = Enter_Answer | Enter_ReopenPrompt | Enter_Steer | Enter_Send | Enter_Nothing

definition enter_means :: "app \<Rightarrow> enter" where
  "enter_means a =
     (case turn_of a of
        Turn_Blocked \<Rightarrow> if ap_dialog_open a then Enter_Answer else Enter_ReopenPrompt
      | Turn_Streaming \<Rightarrow> Enter_Steer
      | Turn_Idle \<Rightarrow> Enter_Send
      | Turn_Cancelling \<Rightarrow> Enter_Nothing)"

definition steer :: "'w client_transport \<Rightarrow> string \<Rightarrow> app \<times> 'w \<Rightarrow> app \<times> 'w" where
  "steer tr session aw =
     (case aw of (a, w) \<Rightarrow>
        (case take_submission a of
           (None, a1) \<Rightarrow> (a1, w)
         | (Some m, a1) \<Rightarrow>
             (case tr_follow_up tr session (concat m) w of
                (Inr _, w1) \<Rightarrow> (a1, w1)
              | (Inl refusal, w1) \<Rightarrow> (record_status refusal a1, w1))))"

definition press_enter :: "'w client_transport \<Rightarrow> 'w client \<Rightarrow> 'w client option" where
  "press_enter tr c =
     (let a = cl_app c; w = cl_world c in
      if ap_sessions a \<noteq> None
      then (case switch_session tr (a, w) of (a1, w1) \<Rightarrow> Some (c\<lparr>cl_app := a1, cl_world := w1\<rparr>))
      else case enter_means a of
        Enter_Answer \<Rightarrow>
          map_option (\<lambda>(res, a1). c\<lparr>cl_app := a1, cl_world := (case res of
              None \<Rightarrow> w | Some (session, answer) \<Rightarrow> tr_answer tr session answer w)\<rparr>) (take_answer a)
      | Enter_ReopenPrompt \<Rightarrow> Some (c\<lparr>cl_app := open_dialog a\<rparr>)
      | Enter_Steer \<Rightarrow>
          (case steer tr (ap_session a) (a, w) of (a1, w1) \<Rightarrow> Some (c\<lparr>cl_app := a1, cl_world := w1\<rparr>))
      | Enter_Send \<Rightarrow>
          (if cl_rx c \<noteq> None then Some c
           else case take_submission a of
                  (None, a1) \<Rightarrow> Some (c\<lparr>cl_app := a1\<rparr>)
                | (Some m, a1) \<Rightarrow>
                    Some (c\<lparr>cl_app := begin_turn a1, cl_rx := Some ([], False),
                      cl_world := tr_stream_turn tr (ap_session a1) (concat m) w\<rparr>))
      | Enter_Nothing \<Rightarrow> Some c)"

section \<open>The loop\<close>

definition take_connect_facts :: "'w client_transport \<Rightarrow> app \<times> 'w \<Rightarrow> app \<times> 'w" where
  "take_connect_facts tr aw =
     (case aw of (a, w) \<Rightarrow>
        (case tr_contributions tr w of (sets, w1) \<Rightarrow> (set_contributions sets (set_stdio (tr_is_stdio tr) a), w1)))"

definition start_client :: "'w client_transport \<Rightarrow> string \<Rightarrow> 'w \<Rightarrow> 'w client" where
  "start_client tr session w =
     (case take_connect_facts tr (set_session session new_app, w) of
        (a, w1) \<Rightarrow>
          \<lparr>cl_app = record_status (''connected to '' @ tr_describe tr @ '' (session '' @ bquote session @
              ''); Esc to quit'') a,
           cl_view = new_viewport, cl_pane = new_pane, cl_rx = None, cl_tick = 0, cl_world = w1\<rparr>)"

text \<open>\<open>render\<close>, as far as it changes the state; \<open>None\<close> is the panic of \<open>visible\<close>.\<close>

definition render :: "screen \<Rightarrow> nat \<times> nat \<Rightarrow> 'w client \<Rightarrow> 'w client option" where
  "render sc dims c =
     (let fr = regions (fst dims) (snd dims); a = cl_app c in
      if fr_too_small fr then Some c
      else (let composer_width = rc_width (fr_content fr) - (2 + sc_caret_cells sc (turn_of a))
            in map_option (\<lambda>(rows, _).
                 let area = sc_transcript_area sc (fr_content fr) (max (length rows) 1 + 2);
                     reserved = (if fr_single_column fr then 0 else 2);
                     inner_width = rc_width area - reserved;
                     inner_height = rc_height area - reserved;
                     tot = sc_lines sc (ap_transcript a) (ap_cursor a) inner_width
                 in c\<lparr>cl_view := reflow tot inner_height (cl_view c),
                      cl_pane := \<lparr>pn_total = tot, pn_height = inner_height, pn_composer_width = composer_width,
                        pn_transcript_width = inner_width, pn_sidebar_hidden = (fr_sidebar fr = None)\<rparr>\<rparr>)
               (visible (sc_seg sc) (sc_wid sc) (ap_composer a) composer_width)))"

datatype input = No_Input | Key key | Other_Input

definition idle_tick :: "'w client_transport \<Rightarrow> 'w client \<Rightarrow> 'w client" where
  "idle_tick tr c =
     (let now = cl_tick c + 1; a = app_tick now (cl_app c) in
      if ap_disconnected a then c\<lparr>cl_tick := now, cl_app := a\<rparr>
      else case tr_alive tr (cl_world c) of
             (alive, w1) \<Rightarrow>
               c\<lparr>cl_tick := now, cl_world := w1,
                 cl_app := (if alive then a else disconnect (tr_describe tr @ '' exited'') a)\<rparr>)"

definition loop_keys :: "'w client_transport \<Rightarrow> key \<Rightarrow> 'w client \<Rightarrow> 'w client option" where
  "loop_keys tr k c =
     (let a = cl_app c in
      case ke_code k of
        KEsc \<Rightarrow> Some (c\<lparr>cl_app := quit a\<rparr>)
      | KChar ch \<Rightarrow>
          Some (if \<not> ke_ctrl k then c
                else if ch = ''d'' then c\<lparr>cl_app := request_quit a\<rparr>
                else if ch = ''c'' then
                  c\<lparr>cl_app := (if turn_of a = Turn_Idle \<and> input_text a = [] then request_quit a else snd (cancel a))\<rparr>
                else if ch = ''s'' then c\<lparr>cl_app := request_sessions a\<rparr>
                else c)
      | KEnter \<Rightarrow> press_enter tr c
      | _ \<Rightarrow> Some c)"

text \<open>\<open>shown\<close>: the paths the walk of the working directory shows when the key is read.\<close>

definition handle_key ::
  "screen \<Rightarrow> 'w client_transport \<Rightarrow> string list \<Rightarrow> key \<Rightarrow> 'w client \<Rightarrow> 'w client option" where
  "handle_key sc tr shown k c =
     Option.bind (edit_or_scroll sc (cl_pane c) k (cl_app c) (cl_view c)) (\<lambda>(taken, a, v).
       let c1 = c\<lparr>cl_app := a, cl_view := v\<rparr>
       in if taken then Some (c1\<lparr>cl_app := refresh_completion shown a\<rparr>) else loop_keys tr k c1)"

text \<open>One pass of the loop: the events, the requests, a frame and one input.\<close>

definition loop_pass ::
  "screen \<Rightarrow> 'w client_transport \<Rightarrow> nat \<times> nat \<Rightarrow> string list \<Rightarrow> input \<Rightarrow> 'w client \<Rightarrow> 'w client option" where
  "loop_pass sc tr dims shown i c =
     (let c1 = read_stream c in
      case drain_transport_requests tr (cl_app c1, cl_world c1) of
        (a, w) \<Rightarrow>
          Option.bind (render sc dims (c1\<lparr>cl_app := a, cl_world := w\<rparr>)) (\<lambda>c2.
            case i of
              No_Input \<Rightarrow> Some (idle_tick tr c2)
            | Key k \<Rightarrow> handle_key sc tr shown k c2
            | Other_Input \<Rightarrow> Some c2))"

end
