(* ===== verification/Client_Properties.thy ===== *)
theory Client_Properties
  imports Client
begin

text \<open>
  What the client promises: no key and no event makes it panic, a finished turn always leaves it ready for
  the next message, and an answer goes only to the question on screen. The invariant has two halves:
  \<open>text_ok\<close> is about the composer and the history, \<open>view_ok\<close> about the transcript and the prompts; an
  operation that only changes the latter keeps \<open>same_text\<close>.
\<close>

named_theorems app_defs \<open>the operations of the state that only set fields\<close>
named_theorems app_keeps \<open>what the operations of the state keep\<close>

definition text_ok :: "app \<Rightarrow> bool" where
  "text_ok a \<longleftrightarrow> composer_ok (ap_composer a) \<and> (\<forall>m\<in>set (ap_history a). plain_text m) \<and>
     (\<forall>i t. ap_recall a = Some (i, t) \<longrightarrow> i < length (ap_history a)) \<and>
     (\<forall>path\<in>set (completion_entries a). plain_text (utf8_chars path))"

definition same_text :: "app \<Rightarrow> app \<Rightarrow> bool" where
  "same_text a b \<longleftrightarrow> ap_composer b = ap_composer a \<and> ap_history b = ap_history a \<and>
     ap_recall b = ap_recall a \<and> ap_completion b = ap_completion a"

definition prompt_ok :: "waiting \<Rightarrow> bool" where
  "prompt_ok p \<longleftrightarrow> (\<forall>i. wa_selected p = Some i \<longrightarrow> i < length (pm_options (wa_prompt p)))"

definition cursor_ok :: "nat option \<Rightarrow> transcript_entry list \<Rightarrow> bool" where
  "cursor_ok cur es \<longleftrightarrow> (\<forall>i. cur = Some i \<longrightarrow> i < length es \<and> is_tool (es ! i))"

definition view_ok :: "app \<Rightarrow> bool" where
  "view_ok a \<longleftrightarrow> (\<forall>p\<in>set (ap_prompts a). prompt_ok p) \<and> (ap_dialog_open a \<longrightarrow> ap_prompts a \<noteq> []) \<and>
     cursor_ok (ap_cursor a) (ap_transcript a)"

text \<open>A completion on offer is about the text before the caret.\<close>

definition fresh :: "app \<Rightarrow> bool" where
  "fresh a \<longleftrightarrow> (\<forall>f i found. ap_completion a = Some (f, i, found) \<longrightarrow> cm_entries found \<noteq> [] \<longrightarrow>
     fragment (cp_text (ap_composer a)) (cp_caret (ap_composer a)) = Some f)"

lemma same_text_refl [simp]: "same_text a a"
  by (simp add: same_text_def)

lemma same_text_trans [trans]: "same_text a b \<Longrightarrow> same_text b c \<Longrightarrow> same_text a c"
  by (simp add: same_text_def)

lemma text_ok_same: "same_text a b \<Longrightarrow> text_ok b = text_ok a"
  by (simp add: same_text_def text_ok_def completion_entries_def)

lemma fresh_same: "same_text a b \<Longrightarrow> fresh b = fresh a"
  by (simp add: same_text_def fresh_def)

section \<open>The transcript under the cursor\<close>

lemma cursor_ok_append: "cursor_ok cur es \<Longrightarrow> cursor_ok cur (es @ xs)"
  by (auto simp: cursor_ok_def nth_append)

lemma cursor_ok_map: "cursor_ok cur es \<Longrightarrow> (\<And>e. is_tool (f e) = is_tool e) \<Longrightarrow> cursor_ok cur (map f es)"
  by (auto simp: cursor_ok_def)

lemma cursor_ok_update: "cursor_ok cur es \<Longrightarrow> is_tool e = is_tool (es ! n) \<Longrightarrow> cursor_ok cur (es[n := e])"
  by (cases "n < length es") (auto simp: cursor_ok_def nth_list_update)

lemma cursor_ok_last: "cursor_ok cur (es @ [Message w t]) \<Longrightarrow> cursor_ok cur (es @ xs)"
  by (auto simp: cursor_ok_def nth_append split: if_splits)

lemma cursor_ok_None [simp]: "cursor_ok None es"
  by (simp add: cursor_ok_def)

lemma is_tool_interrupt [simp]: "is_tool (interrupt_entry e) = is_tool e"
  by (cases e) auto

lemma is_tool_close [simp]: "is_tool (close_call c b e) = is_tool e"
  by (cases e) auto

lemma last_answer_Some: "last_answer a = Some (before, t) \<Longrightarrow> ap_transcript a = before @ [Message Klod t]"
  by (auto simp: last_answer_def rev_swap split: list.splits transcript_entry.splits who.splits)

lemmas transcript_defs =
  record_entry_def record_status_def record_error_def record_answer_def interrupt_open_tools_def
  record_tool_invoked_def toast_warning_def toast_error_def

lemma find_first_Some: "find_first p xs = Some x \<Longrightarrow> x \<in> set xs"
  by (auto simp: find_first_def dest: set_dropWhileD split: list.splits) (metis list.set_intros(1) set_dropWhileD)

lemma stops_tools: "i \<in> set (stops a) \<Longrightarrow> i < length (ap_transcript a) \<and> is_tool (ap_transcript a ! i)"
  by (auto simp: stops_def)

lemma position_less: "position p xs = Some i \<Longrightarrow> i < length xs"
  by (induction p xs arbitrary: i rule: position.induct) (auto split: if_splits)

lemma wrap_move_less: "0 < len \<Longrightarrow> wrap_move len i delta < len"
  by (simp add: wrap_move_def nat_less_iff)

section \<open>Operations that leave the text alone\<close>

lemma quiet_ops [app_keeps]:
  "same_text a (begin_turn a)" "same_text a (snd (cancel a))" "same_text a (snd (take_cancel_request a))"
  "same_text a (end_turn a)" "same_text a (record_entry w t a)" "same_text a (record_status t a)"
  "same_text a (record_error t a)" "same_text a (interrupt_open_tools a)" "same_text a (record_tool_invoked i nm g a)"
  "same_text a (open_dialog a)" "same_text a (close_dialog a)" "same_text a (ask p a)"
  "same_text a (request_sessions a)" "same_text a (request_new_session a)" "same_text a (toggle_help a)"
  "same_text a (close_help a)" "same_text a (help_scroll_by d a)" "same_text a (toggle_sidebar_dialog a)"
  "same_text a (close_sidebar_dialog a)" "same_text a (quit a)" "same_text a (request_quit a)"
  "same_text a (quit_confirm_close a)" "same_text a (quit_confirm_move a)" "same_text a (disconnect t a)"
  "same_text a (toast_warning t k a)" "same_text a (app_tick k a)" "same_text a (set_contributions sets a)"
  "same_text a (open_sessions es a)" "same_text a (sessions_close a)" "same_text a (sessions_push_char ch a)"
  "same_text a (sessions_backspace a)" "same_text a (load_session i ms a)" "same_text a (set_session i a)"
  "same_text a (set_stdio b a)"
  by (simp_all add: same_text_def begin_turn_def cancel_def take_cancel_request_def end_turn_def transcript_defs
      open_dialog_def close_dialog_def ask_def request_sessions_def request_new_session_def toggle_help_def
      close_help_def help_scroll_by_def toggle_sidebar_dialog_def close_sidebar_dialog_def quit_def
      request_quit_def quit_confirm_close_def quit_confirm_move_def disconnect_def app_tick_def
      set_contributions_def open_sessions_def sessions_close_def sessions_push_char_def sessions_backspace_def
      load_session_def set_session_def set_stdio_def Let_def split: option.split)

lemma quiet_ops' [app_keeps]:
  "same_text a (apply_delta t a)" "same_text a (finish_turn t a)" "same_text a (prompt_move d a)"
  "same_text a (prompt_jump n a)" "same_text a (record_tool_result i c b a)" "same_text a (quit_confirm_accept a)"
  "same_text a (sessions_move d a)" "same_text a (snd (sessions_confirm a))" "same_text a (snd (cursor_up a))"
  "same_text a (snd (cursor_down a))" "same_text a (snd (toggle_expanded a))" "same_text a (menu_dismiss a)"
  "same_text a (menu_move d a)"
  by (auto simp: same_text_def apply_delta_def finish_turn_def transcript_defs prompt_move_def prompt_jump_def
      record_tool_result_def quit_confirm_accept_def sessions_move_def sessions_confirm_def cursor_up_def
      cursor_down_def toggle_expanded_def menu_dismiss_def menu_move_def Let_def
      split: option.split list.split transcript_entry.split prod.split)

section \<open>What is on screen stays well formed\<close>

lemma view_ok_fields:
  "view_ok (a\<lparr>ap_composer := c\<rparr>) = view_ok a" "view_ok (a\<lparr>ap_history := hs\<rparr>) = view_ok a"
  "view_ok (a\<lparr>ap_recall := r\<rparr>) = view_ok a" "view_ok (a\<lparr>ap_menu := m\<rparr>) = view_ok a"
  "view_ok (a\<lparr>ap_completion := cm\<rparr>) = view_ok a" "view_ok (a\<lparr>ap_phase := ph\<rparr>) = view_ok a"
  "view_ok (a\<lparr>ap_cancel_requested := b\<rparr>) = view_ok a" "view_ok (a\<lparr>ap_disconnected := b\<rparr>) = view_ok a"
  "view_ok (a\<lparr>ap_toast := t\<rparr>) = view_ok a" "view_ok (a\<lparr>ap_session := i\<rparr>) = view_ok a"
  "view_ok (a\<lparr>ap_stdio := b\<rparr>) = view_ok a" "view_ok (a\<lparr>ap_sessions := ss\<rparr>) = view_ok a"
  "view_ok (a\<lparr>ap_sessions_requested := b\<rparr>) = view_ok a" "view_ok (a\<lparr>ap_contributed := cs\<rparr>) = view_ok a"
  "view_ok (a\<lparr>ap_contributed_status := st\<rparr>) = view_ok a" "view_ok (a\<lparr>ap_invoke_requested := iv\<rparr>) = view_ok a"
  "view_ok (a\<lparr>ap_new_session_requested := b\<rparr>) = view_ok a" "view_ok (a\<lparr>ap_help := h\<rparr>) = view_ok a"
  "view_ok (a\<lparr>ap_sidebar_dialog := b\<rparr>) = view_ok a" "view_ok (a\<lparr>ap_quit := q\<rparr>) = view_ok a"
  "view_ok (a\<lparr>ap_should_quit := b\<rparr>) = view_ok a"
  by (simp_all add: view_ok_def)

lemma view_ok_append: "view_ok a \<Longrightarrow> view_ok (a\<lparr>ap_transcript := ap_transcript a @ xs\<rparr>)"
  by (simp add: view_ok_def cursor_ok_append)

lemma view_record [app_keeps]:
  assumes "view_ok a"
  shows "view_ok (record_entry w t a)" "view_ok (record_status t a)" "view_ok (record_error t a)"
    "view_ok (record_tool_invoked i nm g a)" "view_ok (toast_warning t k a)" "view_ok (record_answer t a)"
  using assms by (simp_all add: transcript_defs view_ok_fields view_ok_append)

lemma view_interrupt [app_keeps]: "view_ok a \<Longrightarrow> view_ok (interrupt_open_tools a)"
  by (simp add: interrupt_open_tools_def view_ok_def cursor_ok_map)

lemma view_flags [app_keeps]:
  assumes "view_ok a"
  shows "view_ok (begin_turn a)" "view_ok (snd (take_cancel_request a))" "view_ok (open_dialog a)"
    "view_ok (close_dialog a)" "view_ok (request_sessions a)" "view_ok (request_new_session a)"
    "view_ok (toggle_help a)" "view_ok (close_help a)" "view_ok (help_scroll_by d a)"
    "view_ok (toggle_sidebar_dialog a)" "view_ok (close_sidebar_dialog a)" "view_ok (quit a)"
    "view_ok (request_quit a)" "view_ok (quit_confirm_close a)" "view_ok (quit_confirm_move a)"
    "view_ok (quit_confirm_accept a)" "view_ok (app_tick k a)" "view_ok (set_contributions sets a)"
    "view_ok (open_sessions es a)" "view_ok (sessions_close a)" "view_ok (sessions_push_char ch a)"
    "view_ok (sessions_backspace a)" "view_ok (sessions_move d a)" "view_ok (set_session i a)"
    "view_ok (set_stdio b a)" "view_ok (load_session i ms a)" "view_ok (menu_dismiss a)" "view_ok (menu_move d a)"
    "view_ok (completion_dismiss a)" "view_ok (completion_move d a)" "view_ok (maybe_open_menu a)"
  using assms by (auto simp: view_ok_def begin_turn_def take_cancel_request_def open_dialog_def close_dialog_def
      request_sessions_def request_new_session_def toggle_help_def close_help_def help_scroll_by_def
      toggle_sidebar_dialog_def close_sidebar_dialog_def quit_def request_quit_def quit_confirm_close_def
      quit_confirm_move_def quit_confirm_accept_def app_tick_def set_contributions_def open_sessions_def
      sessions_close_def sessions_push_char_def sessions_backspace_def sessions_move_def set_session_def
      set_stdio_def load_session_def menu_dismiss_def menu_move_def completion_dismiss_def completion_move_def
      maybe_open_menu_def Let_def split: option.split)

lemma view_confirm [app_keeps]: "view_ok a \<Longrightarrow> view_ok (snd (sessions_confirm a))"
  by (auto simp: sessions_confirm_def view_record)

lemma view_clear [app_keeps]: "view_ok a \<Longrightarrow> view_ok (a\<lparr>ap_prompts := [], ap_dialog_open := False\<rparr>)"
  by (simp add: view_ok_def)

lemma view_end_turn [app_keeps]: "view_ok a \<Longrightarrow> view_ok (end_turn a)"
  using view_interrupt [OF view_clear [of a]]
  by (simp add: end_turn_def interrupt_open_tools_def view_ok_def)

lemma view_cancel [app_keeps]: "view_ok a \<Longrightarrow> view_ok (snd (cancel a))"
  using view_interrupt [OF view_clear [of a]]
  by (simp add: cancel_def interrupt_open_tools_def view_ok_def)

lemma view_disconnect [app_keeps]: "view_ok a \<Longrightarrow> view_ok (disconnect t a)"
  by (simp add: disconnect_def Let_def view_end_turn view_record view_ok_fields)

lemma view_answers [app_keeps]:
  assumes "view_ok a"
  shows "view_ok (apply_delta t a)" "view_ok (finish_turn t a)"
  using assms cursor_ok_last [of "ap_cursor a"]
  by (auto simp: apply_delta_def finish_turn_def Let_def view_record view_ok_fields split: option.split
      dest!: last_answer_Some) (auto simp: view_ok_def)

lemma view_prompts [app_keeps]:
  assumes "view_ok a"
  shows "view_ok (ask p a)" "view_ok (prompt_move d a)" "view_ok (prompt_jump k a)"
  using assms wrap_move_less
  by (auto simp: view_ok_def ask_def prompt_move_def prompt_jump_def prompt_ok_def Let_def
      dest: position_less split: list.split)

lemma view_tool_result [app_keeps]:
  assumes "view_ok a" shows "view_ok (record_tool_result i c b a)"
proof (cases "position (open_call i) (rev (ap_transcript a))")
  case None
  then show ?thesis using assms by (simp add: record_tool_result_def view_record)
next
  case (Some k)
  then show ?thesis
    using assms by (simp add: record_tool_result_def Let_def view_ok_def cursor_ok_update)
qed

lemma view_cursor [app_keeps]:
  assumes "view_ok a"
  shows "view_ok (snd (cursor_up a))" "view_ok (snd (cursor_down a))" "view_ok (snd (toggle_expanded a))"
proof -
  have set: "view_ok (a\<lparr>ap_cursor := cur\<rparr>)" if "\<And>i. cur = Some i \<Longrightarrow> i \<in> set (stops a)" for cur
    using assms that stops_tools [of _ a] by (auto simp: view_ok_def cursor_ok_def)
  note last_stop = last_in_set [of "stops a"]
  show "view_ok (snd (cursor_up a))"
    using assms last_stop by (auto simp: cursor_up_def Let_def intro!: set dest: find_first_Some split: option.split)
  show "view_ok (snd (cursor_down a))"
    using assms set by (auto simp: cursor_down_def dest: find_first_Some split: option.split)
  show "view_ok (snd (toggle_expanded a))"
    using assms by (auto simp: toggle_expanded_def view_ok_def cursor_ok_update split: option.split transcript_entry.split)
qed

section \<open>Editing keeps the text well formed\<close>

definition app_ok :: "app \<Rightarrow> bool" where
  "app_ok a \<longleftrightarrow> text_ok a \<and> view_ok a"

lemma app_ok_quiet: "app_ok a \<Longrightarrow> same_text a b \<Longrightarrow> view_ok b \<Longrightarrow> app_ok b"
  by (simp add: app_ok_def text_ok_same)

lemma text_ok_fields:
  "text_ok (a\<lparr>ap_menu := m\<rparr>) = text_ok a" "text_ok (a\<lparr>ap_invoke_requested := iv\<rparr>) = text_ok a"
  "text_ok (a\<lparr>ap_prompts := ps\<rparr>) = text_ok a" "text_ok (a\<lparr>ap_dialog_open := b\<rparr>) = text_ok a"
  "text_ok (a\<lparr>ap_transcript := es\<rparr>) = text_ok a"
  "composer_ok c \<Longrightarrow> text_ok a \<Longrightarrow> text_ok (a\<lparr>ap_composer := c\<rparr>)"
  "text_ok a \<Longrightarrow> text_ok (a\<lparr>ap_completion := None\<rparr>)"
  "text_ok a \<Longrightarrow> text_ok (a\<lparr>ap_completion := Some (f, i, no_completion)\<rparr>)"
  "text_ok a \<Longrightarrow> text_ok (a\<lparr>ap_recall := None\<rparr>)"
  by (simp_all add: text_ok_def completion_entries_def no_completion_def)

lemma app_ok_fields:
  "app_ok (a\<lparr>ap_menu := m\<rparr>) = app_ok a" "app_ok (a\<lparr>ap_invoke_requested := iv\<rparr>) = app_ok a"
  "composer_ok c \<Longrightarrow> app_ok a \<Longrightarrow> app_ok (a\<lparr>ap_composer := c\<rparr>)"
  "app_ok a \<Longrightarrow> app_ok (a\<lparr>ap_completion := None\<rparr>)"
  "app_ok a \<Longrightarrow> app_ok (a\<lparr>ap_completion := Some (f, i, no_completion)\<rparr>)"
  "app_ok a \<Longrightarrow> app_ok (a\<lparr>ap_recall := None\<rparr>)"
  by (simp_all add: app_ok_def text_ok_fields view_ok_fields)

lemma set_composer_ok:
  assumes "app_ok a" "\<exists>d. c = Some d \<and> composer_ok d"
  shows "\<exists>b. set_composer c a = Some b \<and> app_ok b"
  using assms by (auto simp: set_composer_def app_ok_fields)

lemma edited_ok:
  assumes "app_ok a" "\<exists>d. c = Some d \<and> composer_ok d"
  shows "\<exists>b. edited c a v = Some (True, b, v) \<and> app_ok b"
  using set_composer_ok [OF assms] by (auto simp: edited_def)

lemma maybe_open_menu_ok: "app_ok a \<Longrightarrow> app_ok (maybe_open_menu a)"
  by (simp add: maybe_open_menu_def app_ok_fields)

lemma app_ok_composer: "app_ok a \<Longrightarrow> composer_ok (ap_composer a)"
  by (simp add: app_ok_def text_ok_def)

lemma push_char_ok:
  assumes "app_ok a" "plain_text [ch]" shows "\<exists>b. push_char ch a = Some b \<and> app_ok b"
proof -
  have "\<exists>d. composer_push ch (ap_composer a) = Some d \<and> composer_ok d"
    using assms insert_ok [of "ap_composer a" "[ch]"] by (simp add: composer_push_def app_ok_composer)
  from set_composer_ok [OF assms(1) this] obtain b where
    b: "set_composer (composer_push ch (ap_composer a)) a = Some b" "app_ok b" by blast
  show ?thesis
    by (simp add: push_char_def b(1) Let_def) (simp add: maybe_open_menu_ok b(2) app_ok_fields)
qed

lemma app_backspace_ok:
  assumes "graphemes_ok seg" "app_ok a" shows "\<exists>b. app_backspace seg a = Some b \<and> app_ok b"
  using set_composer_ok [OF assms(2) backspace_ok [OF assms(1) app_ok_composer [OF assms(2)]]]
  by (auto simp: app_backspace_def maybe_open_menu_ok)

lemma plain_trim: "plain_text cs \<Longrightarrow> plain_text (trim_scalars cs)"
  by (auto simp: trim_scalars_def plain_text_def dest!: set_dropWhileD)

lemma take_submission_ok: "app_ok a \<Longrightarrow> app_ok (snd (take_submission a))"
  using composer_okI [of "[]" "[]"]
  by (auto simp: take_submission_def composer_take_def app_ok_def text_ok_def view_ok_def transcript_defs
      completion_entries_def empty_composer_def cursor_ok_append composer_ok_def plain_trim)

lemma composer_set_ok: "plain_text t \<Longrightarrow> composer_ok (composer_set t)"
  using take_set_ok by blast

lemma take_answer_ok:
  assumes "app_ok a"
  shows "\<exists>res b. take_answer a = Some (res, b) \<and> app_ok b"
proof (cases "ap_prompts a")
  case Nil
  then show ?thesis using assms by (simp add: take_answer_def)
next
  case (Cons front rest)
  have "\<forall>i. wa_selected front = Some i \<longrightarrow> i < length (pm_options (wa_prompt front))"
    using assms Cons by (auto simp: app_ok_def view_ok_def prompt_ok_def)
  moreover have "app_ok (record_entry StatusNote t (a\<lparr>ap_prompts := rest,
      ap_composer := snd (composer_take (ap_composer a)), ap_dialog_open := rest \<noteq> []\<rparr>))" for t
    using assms Cons take_set_ok(1) [of "ap_composer a"]
    by (auto simp: app_ok_def text_ok_def view_ok_def record_entry_def completion_entries_def cursor_ok_append)
  ultimately show ?thesis
    using assms Cons by (auto simp: take_answer_def Let_def split: option.split)
qed

lemma history_ok:
  assumes "graphemes_ok seg" "app_ok a"
  shows "\<exists>b. history_up seg wid width a = Some b \<and> app_ok b" "\<exists>b. history_down seg wid width a = Some b \<and> app_ok b"
proof -
  note moves = move_rows_ok [OF assms(1) app_ok_composer [OF assms(2)]]
  have recall: "app_ok (a\<lparr>ap_composer := composer_set (ap_history a ! i), ap_recall := Some (i, t)\<rparr>)"
    if "i < length (ap_history a)" for i t
    using assms(2) that composer_set_ok [of "ap_history a ! i"]
    by (simp add: app_ok_def text_ok_def view_ok_fields completion_entries_def)
  have recall_less: "i < length (ap_history a)" if "ap_recall a = Some (i, t)" for i t
    using assms(2) that by (simp add: app_ok_def text_ok_def)
  have "composer_ok (composer_set [])" using composer_set_ok [of "[]"] by simp
  with assms(2) have cleared: "app_ok (a\<lparr>ap_composer := composer_set [], ap_recall := None\<rparr>)"
    by (simp add: app_ok_def text_ok_fields view_ok_fields)
  show "\<exists>b. history_up seg wid width a = Some b \<and> app_ok b"
    using set_composer_ok [OF assms(2) moves(1)] recall recall_less assms(2)
    by (auto simp: history_up_def Let_def app_ok_fields split: option.split dest: less_imp_diff_less)
  show "\<exists>b. history_down seg wid width a = Some b \<and> app_ok b"
    using set_composer_ok [OF assms(2) moves(2)] recall cleared assms(2)
    by (auto simp: history_down_def Let_def split: option.split)
qed

lemma fragment_split:
  assumes "fragment t caret = Some f"
  obtains u v where "t = u @ (''@'' # f) @ v" "caret = blen u + blen (''@'' # f)"
proof -
  obtain h where h: "head_at t caret = Some h" "''@'' \<in> set h"
    "f = rev (takeWhile (\<lambda>ch. ch \<noteq> ''@'') (rev h))"
    using assms by (auto simp: fragment_def Let_def split: Option.bind_splits if_splits)
  obtain r where "cut_at t caret = Some (h, r)" using h(1) by (auto simp: head_at_def)
  then have t: "t = h @ r" "caret = blen h" by (auto dest: cut_at_SomeD)
  have "\<exists>u. h = u @ ''@'' # f"
  proof (cases "dropWhile (\<lambda>ch. ch \<noteq> ''@'') (rev h)")
    case Nil
    then have False using h(2) by (auto simp: dropWhile_eq_Nil_conv)
    then show ?thesis ..
  next
    case (Cons x before)
    have "\<not> hd (dropWhile (\<lambda>ch. ch \<noteq> ''@'') (rev h)) \<noteq> ''@''"
      by (rule hd_dropWhile [where P = "\<lambda>ch. ch \<noteq> ''@''"]) (simp add: Cons)
    with Cons have "x = ''@''" by simp
    moreover have "rev h = takeWhile (\<lambda>ch. ch \<noteq> ''@'') (rev h) @ x # before"
      using Cons takeWhile_dropWhile_id [of "\<lambda>ch. ch \<noteq> ''@''" "rev h"] by simp
    then have "h = rev before @ x # f"
      using h(3) by (metis rev_rev_ident rev_append rev.simps(2) append_assoc append_Cons append_Nil)
    ultimately show ?thesis by blast
  qed
  with t that show thesis by auto
qed

lemma completion_accept_ok:
  assumes "app_ok a" "fresh a"
  shows "\<exists>taken b. completion_accept a = Some (taken, b) \<and> app_ok b \<and>
    (\<not> taken \<longrightarrow> b = a \<and> completion_entries a = [])"
proof (cases "completion_selected a < length (completion_entries a)")
  case False
  have "completion_selected a \<le> length (completion_entries a) - 1" by (simp add: completion_selected_def)
  with False have "completion_entries a = []" by (cases "completion_entries a") auto
  with False assms(1) show ?thesis by (auto simp: completion_accept_def)
next
  case True
  define path where "path = utf8_chars (completion_entries a ! completion_selected a)"
  obtain f i found where cm: "ap_completion a = Some (f, i, found)" "cm_entries found \<noteq> []"
    using True by (cases "completion_entries a = []") (auto simp: completion_entries_def split: option.splits)
  have plain: "plain_text path" using assms(1) True by (simp add: app_ok_def text_ok_def path_def)
  have "fragment (cp_text (ap_composer a)) (cp_caret (ap_composer a)) = Some f"
    using assms(2) cm by (simp add: fresh_def)
  then obtain u v where t: "cp_text (ap_composer a) = u @ (''@'' # f) @ v"
    "cp_caret (ap_composer a) = blen u + blen (''@'' # f)" by (rule fragment_split)
  have plains: "plain_text u" "plain_text (''@'' # f)" "plain_text v"
    using app_ok_composer [OF assms(1)] t(1) by (auto simp: composer_ok_def plain_text_def)
  have ne: "[] \<notin> set (u @ ''@'' # f)" using plains(1,2) by (auto dest: plain_text_nonempty)
  have "replace_before (blen f + 1) path (ap_composer a) =
      Some \<lparr>cp_text = u @ path @ v, cp_caret = blen u + blen path\<rparr>"
    using t replace_range_span [OF ne, of v path] by (simp add: replace_before_def Let_def)
  moreover have "composer_ok \<lparr>cp_text = u @ path @ v, cp_caret = blen u + blen path\<rparr>"
    using composer_okI [of "u @ path" v] plains plain by simp
  ultimately show ?thesis
    using True assms(1) cm(1)
    by (auto simp: completion_accept_def Let_def set_composer_def app_ok_fields path_def [symmetric])
qed

lemma composer_cleared: "app_ok a \<Longrightarrow> app_ok (a\<lparr>ap_menu := None, ap_composer := composer_set []\<rparr>)"
  using composer_set_ok [of "[]"] by (simp add: app_ok_fields)

lemma run_builtin_ok:
  assumes "app_ok a" "ap_composer a = composer_set []"
  shows "\<exists>b. run_builtin name a = Some b \<and> app_ok b"
proof -
  have "plain_text [[newline]]" by (auto simp: plain_text_def is_whitespace_def newline_def)
  then have "\<exists>d. composer_push [newline] (ap_composer a) = Some d \<and> composer_ok d"
    using insert_ok [OF app_ok_composer [OF assms(1)], of "[[newline]]"] by (simp add: composer_push_def)
  note newline = set_composer_ok [OF assms(1) this]
  have quiet: "app_ok b" if "same_text a b" "view_ok a \<Longrightarrow> view_ok b" for b
    using assms(1) that app_ok_quiet by (auto simp: app_ok_def)
  have "app_ok (case cancel a of (done, b) \<Rightarrow> if done then b else record_entry StatusNote t b)" for t
  proof -
    obtain done' b where b: "cancel a = (done', b)" by fastforce
    have "app_ok (snd (cancel a))" using quiet by (simp add: app_keeps)
    with b show ?thesis using app_ok_quiet [of b "record_entry StatusNote t b"]
      by (simp add: app_keeps app_ok_def)
  qed
  then show ?thesis
    using newline quiet by (auto simp: run_builtin_def app_keeps)
qed

lemma menu_accept_ok:
  assumes "app_ok a"
  shows "\<exists>taken b. menu_accept a = Some (taken, b) \<and> app_ok b \<and> (\<not> taken \<longrightarrow> b = a)"
proof -
  let ?a = "a\<lparr>ap_menu := None, ap_composer := composer_set []\<rparr>"
  have a: "app_ok ?a" using assms by (rule composer_cleared)
  have "app_ok (record_entry StatusNote t ?a)" for t
    by (rule app_ok_quiet [OF a]) (use a in \<open>auto simp: app_ok_def app_keeps\<close>)
  moreover obtain b where "run_builtin (me_name (menu_entries a ! menu_selected a)) ?a = Some b" "app_ok b"
    using run_builtin_ok [OF a] by auto
  moreover have "app_ok (?a\<lparr>ap_invoke_requested := iv\<rparr>)" for iv
    using a by (simp only: app_ok_fields)
  ultimately show ?thesis
    using assms by (auto simp: menu_accept_def Let_def split: menu_source.split availability.split)
qed

lemma complete_loop_set: "set (fst (complete_loop frag es shown)) \<subseteq> set es \<union> set shown"
  by (induction frag es shown rule: complete_loop.induct) auto

lemma refresh_ok:
  assumes "app_ok a" "\<And>path. path \<in> set shown \<Longrightarrow> plain_text (utf8_chars path)"
  shows "app_ok (refresh_completion shown a)" "fresh (refresh_completion shown a)"
proof -
  have "plain_text (utf8_chars path)" if "path \<in> set (cm_entries (complete_paths shown frag))" for path frag
    using that assms(2) complete_loop_set [of frag "[]" shown]
    by (auto simp: complete_paths_def split: prod.splits)
  with assms(1) show "app_ok (refresh_completion shown a)"
    by (auto simp: refresh_completion_def app_ok_def text_ok_def view_ok_fields completion_entries_def
        split: option.splits)
  show "fresh (refresh_completion shown a)"
    by (auto simp: refresh_completion_def fresh_def split: option.splits)
qed

section \<open>Keys\<close>

text \<open>What a handler of the dialogs does: the text stays, and a key it does not take changes nothing.\<close>

definition dialog_handler :: "(app \<Rightarrow> bool \<times> app) \<Rightarrow> bool" where
  "dialog_handler h \<longleftrightarrow> (\<forall>a. same_text a (snd (h a)) \<and> (view_ok a \<longrightarrow> view_ok (snd (h a))) \<and>
     (\<not> fst (h a) \<longrightarrow> snd (h a) = a))"

lemma dialog_handlers:
  "dialog_handler (dialog_keys k)" "dialog_handler (quit_confirm_keys k)" "dialog_handler (sessions_keys k)"
  "dialog_handler (help_keys k)" "dialog_handler (sidebar_dialog_keys k)" "dialog_handler (global_keys pn k)"
  by (simp_all add: dialog_handler_def dialog_keys_def quit_confirm_keys_def sessions_keys_def help_keys_def
      sidebar_dialog_keys_def global_keys_def Let_def app_keeps split: option.split key_code.split list.split)

lemma first_handler_ok:
  assumes "\<forall>h\<in>set hs. dialog_handler h"
  shows "dialog_handler (first_handler hs)"
  using assms
proof (induction hs)
  case Nil
  show ?case by (simp add: dialog_handler_def)
next
  case (Cons h hs)
  have "dialog_handler h" "dialog_handler (first_handler hs)" using Cons by simp_all
  then show ?case
    unfolding dialog_handler_def by (auto simp: case_prod_beta dest: same_text_trans)
qed

lemma dialog_priority_ok: "dialog_handler (dialog_priority_keys pn k)"
  unfolding dialog_priority_keys_def [abs_def] by (rule first_handler_ok) (auto intro: dialog_handlers)

definition key_plain :: "key \<Rightarrow> bool" where
  "key_plain k \<longleftrightarrow> (case ke_code k of KChar ch \<Rightarrow> plain_text [ch] | _ \<Rightarrow> True)"

lemma completion_keys_ok:
  assumes "app_ok a" "fresh a"
  shows "\<exists>taken b. completion_keys k a = Some (taken, b) \<and> app_ok b \<and>
    (\<not> taken \<longrightarrow> b = a \<and> (ke_code k = KEnter \<longrightarrow> completion_entries a = []))"
proof -
  have "app_ok (completion_dismiss a)" "app_ok (completion_move d a)" for d
    using assms(1) by (auto simp: completion_dismiss_def completion_move_def Let_def app_ok_def text_ok_def
        view_ok_fields completion_entries_def split: option.splits)
  then show ?thesis
    using completion_accept_ok [OF assms] assms(1)
    by (auto simp: completion_keys_def completion_entries_def split: key_code.split)
qed

lemma menu_keys_ok:
  assumes "app_ok a"
  shows "\<exists>taken b. menu_keys k a = Some (taken, b) \<and> app_ok b \<and> (\<not> taken \<longrightarrow> b = a)"
proof -
  have "app_ok (menu_dismiss a)" "app_ok (menu_move d a)" for d
    using assms app_ok_quiet [OF assms] by (simp_all add: app_keeps app_ok_def)
  then show ?thesis
    using menu_accept_ok [OF assms] assms by (auto simp: menu_keys_def split: key_code.split)
qed

lemma block_keys_ok:
  assumes "app_ok a"
  shows "app_ok (fst (snd (block_keys sc pn k a v)))"
    "\<not> fst (block_keys sc pn k a v) \<Longrightarrow> snd (block_keys sc pn k a v) = (a, v)"
  using assms app_ok_quiet [OF assms] by (auto simp: block_keys_def Let_def app_keeps app_ok_def)

lemma text_keys_ok:
  assumes "graphemes_ok (sc_seg sc)" "app_ok a" "key_plain k"
  shows "\<exists>taken b v'. text_keys sc pn k a v = Some (taken, b, v') \<and> app_ok b \<and> (\<not> taken \<longrightarrow> b = a)"
proof -
  let ?c = "ap_composer a"
  note c = app_ok_composer [OF assms(2)]
  have newline: "\<exists>d. composer_push [newline] ?c = Some d \<and> composer_ok d"
    using insert_ok [OF c, of "[[newline]]"]
    by (auto simp: composer_push_def plain_text_def is_whitespace_def newline_def)
  note moves = move_graphemes_ok [OF assms(1) c] line_moves_ok [OF c] word_moves_ok [OF c] newline
  note edits = moves [THEN edited_ok [OF assms(2), where v = v]]
  note history = history_ok [OF assms(1,2), of "sc_wid sc" "pn_composer_width pn"]
  have chars: "\<exists>taken b v'. char_keys sc pn k ch a v = Some (taken, b, v') \<and> app_ok b \<and> (\<not> taken \<longrightarrow> b = a)"
    if "plain_text [ch]" for ch
    using edits push_char_ok [OF assms(2) that] assms(2) unfolding char_keys_def Let_def by auto
  show ?thesis
    using edits history app_backspace_ok [OF assms(1,2)] assms(2,3) chars
    by (cases "ke_code k") (auto simp: text_keys_def key_plain_def Let_def)
qed

lemma edit_or_scroll_ok:
  assumes "graphemes_ok (sc_seg sc)" "app_ok a" "fresh a" "key_plain k"
  shows "\<exists>taken b v'. edit_or_scroll sc pn k a v = Some (taken, b, v') \<and> app_ok b \<and>
    (\<not> taken \<longrightarrow> b = a \<and> (ke_code k = KEnter \<longrightarrow> completion_entries a = []))"
proof -
  obtain t1 a1 where d: "dialog_priority_keys pn k a = (t1, a1)" by fastforce
  have a1: "app_ok a1" "\<not> t1 \<Longrightarrow> a1 = a"
    using dialog_priority_ok [of pn k, unfolded dialog_handler_def, rule_format, of a] d assms(2) app_ok_quiet
    by (auto simp: app_ok_def)
  show ?thesis
  proof (cases t1)
    case True
    then show ?thesis using a1 by (auto simp: edit_or_scroll_def d)
  next
    case False
    then have "a1 = a" using a1 by simp
    obtain t2 a2 where c: "completion_keys k a = Some (t2, a2)" "app_ok a2"
      "\<not> t2 \<Longrightarrow> a2 = a \<and> (ke_code k = KEnter \<longrightarrow> completion_entries a = [])"
      using completion_keys_ok [OF assms(2,3)] by blast
    obtain t3 a3 where m: "menu_keys k a2 = Some (t3, a3)" "app_ok a3" "\<not> t3 \<Longrightarrow> a3 = a2"
      using menu_keys_ok [OF c(2)] by blast
    obtain t4 a4 v4 where b: "block_keys sc pn k a3 v = (t4, a4, v4)" by (metis prod.exhaust)
    have a4: "app_ok a4" "\<not> t4 \<Longrightarrow> a4 = a3" using block_keys_ok [OF m(2), of sc pn k v] b by auto
    obtain t5 a5 v5 where x: "text_keys sc pn k a4 v4 = Some (t5, a5, v5)" "app_ok a5" "\<not> t5 \<Longrightarrow> a5 = a4"
      using text_keys_ok [OF assms(1) a4(1) assms(4)] by blast
    show ?thesis
      using False \<open>a1 = a\<close> c m b a4 x by (cases t2; cases t3; cases t4) (auto simp: edit_or_scroll_def d)
  qed
qed

section \<open>Events and requests\<close>

lemma apply_event_quiet: "same_text a (snd (apply_event now ev a))"
  by (auto simp: apply_event_def app_keeps split: sum.split stream_event.split
      intro: same_text_trans [OF quiet_ops(8)])

lemma apply_event_view: "view_ok a \<Longrightarrow> view_ok (snd (apply_event now ev a))"
  by (auto simp: apply_event_def app_keeps split: sum.split stream_event.split)

lemma drain_events_quiet:
  "same_text a (snd (drain_events now evs closed a))"
  "view_ok a \<Longrightarrow> view_ok (snd (drain_events now evs closed a))"
proof (induction now evs closed a rule: drain_events.induct)
  case (1 now closed a)
  show "same_text a (snd (drain_events now [] closed a))"
    "view_ok a \<Longrightarrow> view_ok (snd (drain_events now [] closed a))"
    by (simp_all add: app_keeps)
next
  case (2 now ev evs closed a)
  obtain st b where ev: "apply_event now ev a = (st, b)" by fastforce
  have b: "same_text a b" "view_ok a \<Longrightarrow> view_ok b"
    using apply_event_quiet [of a now ev] apply_event_view [of a now ev] ev by auto
  show "same_text a (snd (drain_events now (ev # evs) closed a))"
    using 2(1) ev b(1) by (cases st) (auto simp: app_keeps intro: same_text_trans)
  show "view_ok a \<Longrightarrow> view_ok (snd (drain_events now (ev # evs) closed a))"
    using 2(2) ev b(2) by (cases st) (auto simp: app_keeps)
qed

lemma flags_quiet [app_keeps]:
  "same_text a (a\<lparr>ap_sessions_requested := b\<rparr>)" "same_text a (a\<lparr>ap_new_session_requested := b\<rparr>)"
  "same_text a (a\<lparr>ap_invoke_requested := iv\<rparr>)" "same_text a (a\<lparr>ap_cancel_requested := b\<rparr>)"
  by (simp_all add: same_text_def)

lemmas request_defs =
  drain_cancel_def drain_sessions_def drain_invoke_def drain_new_session_def take_cancel_request_def
  take_sessions_request_def take_invoke_request_def take_new_session_request_def

text \<open>Each of the four requests keeps the text, and what is on screen stays well formed.\<close>

definition request_handler :: "(app \<times> 'w \<Rightarrow> app \<times> 'w) \<Rightarrow> bool" where
  "request_handler h \<longleftrightarrow> (\<forall>a w. same_text a (fst (h (a, w))) \<and> (view_ok a \<longrightarrow> view_ok (fst (h (a, w)))))"

lemma request_handlers:
  "request_handler (drain_cancel tr)" "request_handler (drain_sessions tr)" "request_handler (drain_invoke tr)"
  "request_handler (drain_new_session tr)"
  by (simp_all add: request_handler_def request_defs same_text_def transcript_defs open_sessions_def
      load_session_def set_contributions_def view_ok_def cursor_ok_append Let_def
      split: prod.split sum.split option.split bool.split)

section \<open>Between turns\<close>

fun running :: "transcript_entry \<Rightarrow> bool" where
  "running (Tool b) = (tb_status b = Running)"
| "running (Message _ _) = False"

definition settled :: "app \<Rightarrow> bool" where
  "settled a \<longleftrightarrow> ap_phase a = Phase_Idle \<and> ap_prompts a = [] \<and> (\<forall>e\<in>set (ap_transcript a). \<not> running e)"

lemma not_running_interrupted [simp]: "\<not> running (interrupt_entry e)"
  by (cases e) auto

lemma interrupt_idem [simp]: "interrupt_entry (interrupt_entry e) = interrupt_entry e"
  by (cases e) auto

lemma settled_end_turn: "settled (end_turn a)"
  by (auto simp: settled_def end_turn_def interrupt_open_tools_def)

lemma settled_disconnect: "settled (disconnect t a)"
  by (simp add: disconnect_def Let_def settled_end_turn)

lemma settled_fields:
  "settled (a\<lparr>ap_composer := c\<rparr>) = settled a" "settled (a\<lparr>ap_history := hs\<rparr>) = settled a"
  "settled (a\<lparr>ap_recall := r\<rparr>) = settled a" "settled (a\<lparr>ap_menu := m\<rparr>) = settled a"
  "settled (a\<lparr>ap_completion := cm\<rparr>) = settled a" "settled (a\<lparr>ap_toast := t\<rparr>) = settled a"
  "settled (a\<lparr>ap_cursor := i\<rparr>) = settled a" "settled (a\<lparr>ap_invoke_requested := iv\<rparr>) = settled a"
  by (simp_all add: settled_def)

lemma settled_flags:
  assumes "settled a"
  shows "settled (record_entry w t a)" "settled (record_status t a)" "settled (record_error t a)"
    "settled (quit a)" "settled (request_quit a)" "settled (request_sessions a)" "settled (request_new_session a)"
    "settled (toggle_help a)" "settled (app_tick k a)" "settled (snd (cancel a))" "settled (open_dialog a)"
  using assms
  by (auto simp: settled_def transcript_defs quit_def request_quit_def request_sessions_def
      request_new_session_def toggle_help_def app_tick_def cancel_def open_dialog_def Let_def split: option.split)

lemma session_messages_rest: "e \<in> set (List.map_filter session_message_entry ms) \<Longrightarrow> \<not> running e"
  by (auto simp: List.map_filter_def session_message_entry_def Let_def split: if_splits)

lemma settled_load: "ap_phase a = Phase_Idle \<Longrightarrow> ap_prompts a = [] \<Longrightarrow> settled (load_session i ms a)"
  by (simp add: settled_def load_session_def session_messages_rest)

lemma settled_dialogs:
  assumes "settled a"
  shows "settled (snd (dialog_keys k a))" "settled (snd (quit_confirm_keys k a))"
    "settled (snd (sessions_keys k a))" "settled (snd (help_keys k a))" "settled (snd (sidebar_dialog_keys k a))"
    "settled (snd (global_keys pn k a))"
  using assms
  by (simp_all add: settled_def dialog_keys_def pending_prompt_def quit_confirm_keys_def quit_confirm_close_def
      quit_confirm_move_def quit_confirm_accept_def sessions_keys_def sessions_close_def sessions_move_def
      sessions_backspace_def sessions_push_char_def help_keys_def close_help_def help_scroll_by_def
      sidebar_dialog_keys_def close_sidebar_dialog_def global_keys_def toggle_help_def toggle_sidebar_dialog_def
      Let_def split: key_code.split option.split)

lemma settled_first_handler:
  assumes "\<forall>h\<in>set hs. \<forall>a. settled a \<longrightarrow> settled (snd (h a))"
  shows "settled a \<Longrightarrow> settled (snd (first_handler hs a))"
  using assms by (induction hs arbitrary: a) (auto simp: case_prod_beta)

lemma settled_priority: "settled a \<Longrightarrow> settled (snd (dialog_priority_keys pn k a))"
  unfolding dialog_priority_keys_def by (rule settled_first_handler) (auto simp: settled_dialogs)

lemma settled_completion: "completion_keys k a = Some (t, b) \<Longrightarrow> settled a \<Longrightarrow> settled b"
  by (auto simp: completion_keys_def completion_accept_def completion_dismiss_def completion_move_def
      set_composer_def settled_fields Let_def split: if_splits key_code.splits)

lemma settled_cancel: "settled a \<Longrightarrow> cancel a = (False, a)"
  by (simp add: settled_def cancel_def)

lemma settled_builtin: "run_builtin name a = Some b \<Longrightarrow> settled a \<Longrightarrow> settled b"
  by (auto simp: run_builtin_def set_composer_def settled_fields settled_flags settled_cancel split: if_splits)

lemma settled_menu: "menu_keys k a = Some (t, b) \<Longrightarrow> settled a \<Longrightarrow> settled b"
  by (auto simp: menu_keys_def menu_dismiss_def menu_move_def menu_accept_def Let_def settled_fields settled_flags
      split: if_splits key_code.splits menu_source.splits availability.splits intro: settled_builtin)

lemma settled_blocks: "settled a \<Longrightarrow> settled (fst (snd (block_keys sc pn k a v)))"
proof -
  assume a: "settled a"
  have "settled (snd (toggle_expanded a))"
  proof -
    have "\<not> running (Tool (b\<lparr>tb_expanded := x\<rparr>))" if "Tool b \<in> set (ap_transcript a)" for b x
      using a that by (auto simp: settled_def)
    then show ?thesis using a
      by (auto simp: toggle_expanded_def settled_def dest!: set_update_subset_insert [THEN subsetD]
          split: option.split transcript_entry.split) (metis nth_mem running.simps(1))
  qed
  with a show ?thesis
    by (auto simp: block_keys_def Let_def cursor_up_def cursor_down_def settled_fields split: option.split)
qed

lemma settled_text: "text_keys sc pn k a v = Some (t, b, v') \<Longrightarrow> settled a \<Longrightarrow> settled b"
  by (auto simp: text_keys_def edited_def char_keys_def set_composer_def settled_fields push_char_def
      maybe_open_menu_def app_backspace_def history_up_def history_down_def Let_def
      split: key_code.splits if_splits option.splits)

lemma settled_edit:
  assumes "edit_or_scroll sc pn k a v = Some (t, b, v')" "settled a"
  shows "settled b"
proof -
  obtain t1 a1 where d: "dialog_priority_keys pn k a = (t1, a1)" by fastforce
  have "settled a1" using settled_priority [OF assms(2), of pn k] d by simp
  then show ?thesis
    using assms(1) settled_blocks
    by (auto simp: edit_or_scroll_def d split: bool.splits Option.bind_splits if_splits prod.splits
        dest!: settled_completion settled_menu settled_text) (metis fst_conv snd_conv settled_text)+
qed

section \<open>Whole passes\<close>

definition client_ok :: "'w client \<Rightarrow> bool" where
  "client_ok c \<longleftrightarrow> app_ok (cl_app c) \<and> fresh (cl_app c) \<and> (cl_rx c = None \<longrightarrow> settled (cl_app c))"

lemma client_quiet:
  assumes "client_ok c" "same_text (cl_app c) a" "view_ok (cl_app c) \<Longrightarrow> view_ok a" "rx = None \<Longrightarrow> settled a"
  shows "client_ok (c\<lparr>cl_app := a, cl_rx := rx, cl_world := w\<rparr>)"
  using assms by (simp add: client_ok_def app_ok_def text_ok_same fresh_same)

lemma client_ok_app:
  assumes "client_ok c" "same_text (cl_app c) (cl_app d)" "view_ok (cl_app c) \<Longrightarrow> view_ok (cl_app d)"
    "settled (cl_app c) \<Longrightarrow> settled (cl_app d)" "cl_rx d = cl_rx c"
  shows "client_ok d"
  using assms by (simp add: client_ok_def app_ok_def text_ok_same fresh_same)

lemma drain_events_settled: "fst (drain_events now evs closed a) \<Longrightarrow> settled (snd (drain_events now evs closed a))"
proof (induction now evs closed a rule: drain_events.induct)
  case (1 now closed a)
  then show ?case by (simp add: settled_end_turn split: if_splits)
next
  case (2 now ev evs closed a)
  obtain st b where ev: "apply_event now ev a = (st, b)" by fastforce
  with 2 show ?case by (cases st) (auto simp: settled_end_turn)
qed

lemma read_stream_ok: "client_ok c \<Longrightarrow> client_ok (read_stream c)"
proof -
  assume c: "client_ok c"
  show ?thesis
  proof (cases "cl_rx c")
    case None
    with c show ?thesis by (simp add: read_stream_def)
  next
    case (Some q)
    obtain evs closed where q: "q = (evs, closed)" by fastforce
    obtain ended a where d: "drain_events (cl_tick c) evs closed (cl_app c) = (ended, a)" by fastforce
    have "client_ok (c\<lparr>cl_app := a, cl_rx := (if ended then None else Some ([], closed)), cl_world := cl_world c\<rparr>)"
      using drain_events_quiet [of "cl_app c" "cl_tick c" evs closed] d
        drain_events_settled [of "cl_tick c" evs closed "cl_app c"]
      by (intro client_quiet [OF c]) (auto split: if_splits)
    then show ?thesis by (simp add: read_stream_def Some q d)
  qed
qed

definition settles_requests :: "(app \<times> 'w \<Rightarrow> app \<times> 'w) \<Rightarrow> bool" where
  "settles_requests h \<longleftrightarrow> (\<forall>a w. settled a \<longrightarrow> settled (fst (h (a, w))))"

lemma settled_requests:
  "settles_requests (drain_cancel tr)" "settles_requests (drain_sessions tr)" "settles_requests (drain_invoke tr)"
  "settles_requests (drain_new_session tr)"
  by (auto simp: settles_requests_def request_defs settled_def transcript_defs open_sessions_def
      load_session_def set_contributions_def session_messages_rest Let_def
      split: prod.split sum.split option.split bool.split)

lemma request_comp:
  assumes "request_handler f" "request_handler g" shows "request_handler (\<lambda>x. g (f x))"
  unfolding request_handler_def
proof (intro allI)
  fix a w
  obtain b v where b: "f (a, w) = (b, v)" by fastforce
  have "same_text a b" "view_ok a \<longrightarrow> view_ok b"
    using assms(1) b unfolding request_handler_def by (metis fst_conv)+
  moreover have "same_text b (fst (g (b, v)))" "view_ok b \<longrightarrow> view_ok (fst (g (b, v)))"
    using assms(2) unfolding request_handler_def by blast+
  ultimately show "same_text a (fst (g (f (a, w)))) \<and> (view_ok a \<longrightarrow> view_ok (fst (g (f (a, w)))))"
    using same_text_trans unfolding b by blast
qed

lemma settles_comp:
  assumes "settles_requests f" "settles_requests g" shows "settles_requests (\<lambda>x. g (f x))"
  unfolding settles_requests_def
proof (intro allI impI)
  fix a w assume "settled a"
  moreover obtain b v where b: "f (a, w) = (b, v)" by fastforce
  ultimately have "settled b" using assms(1) unfolding settles_requests_def by (metis fst_conv)
  then show "settled (fst (g (f (a, w))))" using assms(2) b unfolding settles_requests_def by simp
qed

lemma requests_ok:
  "request_handler (drain_transport_requests tr)" "settles_requests (drain_transport_requests tr)"
  unfolding drain_transport_requests_def [abs_def]
  by (rule request_comp [OF request_comp [OF request_comp [OF request_handlers(1,2)] request_handlers(3)]
        request_handlers(4)])
    (rule settles_comp [OF settles_comp [OF settles_comp [OF settled_requests(1,2)] settled_requests(3)]
        settled_requests(4)])

lemma sessions_confirm_cases:
  obtains (switch) i where "sessions_confirm a = (Some i, a)" "turn_of a = Turn_Idle"
  | (stay) "sessions_confirm a = (None, a)"
  | (refuse) "sessions_confirm a = (None, record_status cannot_switch_text a)"
proof (cases "sessions_selected a < length (sessions_filtered a)")
  case True
  then show thesis using switch refuse by (cases "turn_of a = Turn_Idle") (simp_all add: sessions_confirm_def)
next
  case False
  then show thesis using stay by (simp add: sessions_confirm_def)
qed

lemma load_session_quiet: "same_text a (load_session i ms a)" "view_ok a \<Longrightarrow> view_ok (load_session i ms a)"
  by (simp_all add: app_keeps)

lemma switch_session_ok:
  "request_handler (switch_session tr)" "settles_requests (switch_session tr)"
proof -
  have "same_text a (fst (switch_session tr (a, w))) \<and>
      (view_ok a \<longrightarrow> view_ok (fst (switch_session tr (a, w)))) \<and>
      (settled a \<longrightarrow> settled (fst (switch_session tr (a, w))))" for a w
  proof (cases rule: sessions_confirm_cases [of a])
    case (switch i)
    obtain r w1 where "tr_session_get tr i w = (r, w1)" by fastforce
    with switch(1) show ?thesis
      by (cases r) (auto simp: switch_session_def app_keeps settled_flags settled_load settled_def [of a])
  next
    case stay
    then show ?thesis by (simp add: switch_session_def)
  next
    case refuse
    then show ?thesis by (simp add: switch_session_def app_keeps settled_flags)
  qed
  then show "request_handler (switch_session tr)" "settles_requests (switch_session tr)"
    by (simp_all add: request_handler_def settles_requests_def)
qed

lemma visible_some:
  "graphemes_ok seg \<Longrightarrow> \<exists>rows pos. visible seg wid c width = Some (rows, pos)"
  using visible_returns by blast

lemma render_ok:
  assumes "graphemes_ok (sc_seg sc)" "client_ok c"
  shows "\<exists>d. render sc dims c = Some d \<and> client_ok d \<and> cl_app d = cl_app c \<and> cl_rx d = cl_rx c \<and>
    cl_world d = cl_world c \<and> cl_tick d = cl_tick c"
proof -
  obtain rows pos where "visible (sc_seg sc) (sc_wid sc) (ap_composer (cl_app c))
      (rc_width (fr_content (regions (fst dims) (snd dims))) - (2 + sc_caret_cells sc (turn_of (cl_app c)))) =
      Some (rows, pos)"
    using visible_some [OF assms(1)] by blast
  then show ?thesis using assms(2) by (auto simp: render_def Let_def client_ok_def)
qed

lemma idle_tick_ok: "client_ok c \<Longrightarrow> client_ok (idle_tick tr c)"
proof (rule client_ok_app, assumption)
  obtain alive w1 where w: "tr_alive tr (cl_world c) = (alive, w1)" by fastforce
  have d: "same_text (cl_app c) (disconnect t (app_tick k (cl_app c)))" for t k
    using same_text_trans [OF quiet_ops(26) quiet_ops(24)] .
  show "same_text (cl_app c) (cl_app (idle_tick tr c))"
    using d by (simp add: idle_tick_def Let_def w app_keeps)
  show "view_ok (cl_app c) \<Longrightarrow> view_ok (cl_app (idle_tick tr c))"
    by (simp add: idle_tick_def Let_def w app_keeps)
  show "settled (cl_app c) \<Longrightarrow> settled (cl_app (idle_tick tr c))"
    by (simp add: idle_tick_def Let_def w settled_flags settled_disconnect)
  show "cl_rx (idle_tick tr c) = cl_rx c"
    by (simp add: idle_tick_def Let_def w)
qed

lemma fresh_empty: "completion_entries a = [] \<Longrightarrow> fresh a"
  by (auto simp: fresh_def completion_entries_def)

lemma take_keeps_completion:
  "completion_entries (snd (take_submission a)) = completion_entries a"
  "take_answer a = Some (res, b) \<Longrightarrow> completion_entries b = completion_entries a"
  by (auto simp: take_submission_def take_answer_def completion_entries_def record_entry_def Let_def
      split: option.splits list.splits if_splits prod.splits)

lemma settled_submission: "settled a \<Longrightarrow> settled (snd (take_submission a))"
  by (auto simp: take_submission_def settled_def record_entry_def split: option.split prod.split)

lemma press_enter_ok:
  assumes "client_ok c" "completion_entries (cl_app c) = []"
  shows "\<exists>d. press_enter tr c = Some d \<and> client_ok d"
proof (cases "ap_sessions (cl_app c) = None")
  case False
  obtain b w where s: "switch_session tr (cl_app c, cl_world c) = (b, w)" by fastforce
  have "client_ok (c\<lparr>cl_app := b, cl_world := w\<rparr>)"
    by (rule client_ok_app [OF assms(1)])
      (use switch_session_ok [of tr, unfolded request_handler_def settles_requests_def] s in
        \<open>auto, metis fst_conv, metis fst_conv, metis fst_conv\<close>)
  with False show ?thesis by (simp add: press_enter_def s)
next
  case True
  let ?a = "cl_app c"
  have a: "app_ok ?a" "cl_rx c = None \<Longrightarrow> settled ?a" using assms(1) by (auto simp: client_ok_def)
  have sub: "app_ok (snd (take_submission ?a))" "fresh (snd (take_submission ?a))"
    using take_submission_ok [OF a(1)] fresh_empty take_keeps_completion(1) assms(2) by metis+
  obtain m b where m: "take_submission ?a = (m, b)" by fastforce
  obtain res e where e: "take_answer ?a = Some (res, e)" "app_ok e" using take_answer_ok [OF a(1)] by blast
  have "fresh e" using fresh_empty take_keeps_completion(2) [OF e(1)] assms(2) by simp
  have b: "app_ok b" "fresh b" "settled ?a \<Longrightarrow> settled b"
    using sub settled_submission [of ?a] m by simp_all
  have quiet: "app_ok d \<and> fresh d" if "same_text b' d" "view_ok b' \<Longrightarrow> view_ok d" "app_ok b'" "fresh b'" for b' d
    using that app_ok_quiet fresh_same by (auto simp: app_ok_def)
  have begun: "app_ok (begin_turn b) \<and> fresh (begin_turn b)"
    by (rule quiet [OF _ _ b(1,2)]) (simp_all add: app_keeps)
  have refused: "app_ok (record_status t b) \<and> fresh (record_status t b)" for t
    by (rule quiet [OF _ _ b(1,2)]) (simp_all add: app_keeps)
  have opened: "app_ok (open_dialog ?a) \<and> fresh (open_dialog ?a)"
    by (rule quiet [OF _ _ a(1)]) (use assms in \<open>simp_all add: app_keeps client_ok_def\<close>)
  have idle: "enter_means ?a = Enter_Send" if "cl_rx c = None"
    using a(2) [OF that] by (simp add: enter_means_def turn_of_def settled_def)
  show ?thesis
  proof (cases "enter_means ?a")
    case Enter_Send
    then show ?thesis
      using True begun b a assms(1) by (cases m) (auto simp: press_enter_def Let_def m client_ok_def)
  next
    case Enter_Answer
    then obtain q where "cl_rx c = Some q" using idle by (cases "cl_rx c") auto
    then show ?thesis
      using Enter_Answer True e \<open>fresh e\<close> by (auto simp: press_enter_def Let_def client_ok_def)
  next
    case Enter_ReopenPrompt
    then obtain q where "cl_rx c = Some q" using idle by (cases "cl_rx c") auto
    then show ?thesis
      using Enter_ReopenPrompt True opened by (auto simp: press_enter_def Let_def client_ok_def)
  next
    case Enter_Steer
    then obtain q where "cl_rx c = Some q" using idle by (cases "cl_rx c") auto
    then show ?thesis
      using Enter_Steer True refused b(1,2)
      by (auto simp: press_enter_def steer_def m Let_def client_ok_def split: option.split prod.split sum.split)
  next
    case Enter_Nothing
    then show ?thesis using True assms(1) by (simp add: press_enter_def Let_def)
  qed
qed

lemma loop_keys_ok:
  assumes "client_ok c" "ke_code k = KEnter \<Longrightarrow> completion_entries (cl_app c) = []"
  shows "\<exists>d. loop_keys tr k c = Some d \<and> client_ok d"
proof -
  have "client_ok (c\<lparr>cl_app := a\<rparr>)"
    if "same_text (cl_app c) a" "view_ok (cl_app c) \<Longrightarrow> view_ok a" "settled (cl_app c) \<Longrightarrow> settled a" for a
    by (rule client_ok_app [OF assms(1)]) (use that in auto)
  then have "client_ok (c\<lparr>cl_app := quit (cl_app c)\<rparr>)" "client_ok (c\<lparr>cl_app := request_quit (cl_app c)\<rparr>)"
    "client_ok (c\<lparr>cl_app := snd (cancel (cl_app c))\<rparr>)" "client_ok (c\<lparr>cl_app := request_sessions (cl_app c)\<rparr>)"
    by (simp_all add: app_keeps settled_flags)
  then show ?thesis
    using assms(1) press_enter_ok [OF assms(1)] assms(2)
    by (cases "ke_code k") (simp_all add: loop_keys_def Let_def)
qed

lemma handle_key_ok:
  assumes "graphemes_ok (sc_seg sc)" "client_ok c" "key_plain k"
    "\<And>path. path \<in> set shown \<Longrightarrow> plain_text (utf8_chars path)"
  shows "\<exists>d. handle_key sc tr shown k c = Some d \<and> client_ok d"
proof -
  have c: "app_ok (cl_app c)" "fresh (cl_app c)" "cl_rx c = None \<Longrightarrow> settled (cl_app c)"
    using assms(2) by (auto simp: client_ok_def)
  obtain taken b v where e: "edit_or_scroll sc (cl_pane c) k (cl_app c) (cl_view c) = Some (taken, b, v)" "app_ok b"
    "\<not> taken \<Longrightarrow> b = cl_app c \<and> (ke_code k = KEnter \<longrightarrow> completion_entries (cl_app c) = [])"
    using edit_or_scroll_ok [OF assms(1) c(1,2) assms(3)] by blast
  have b: "settled (cl_app c) \<Longrightarrow> settled b" by (rule settled_edit [OF e(1)])
  show ?thesis
  proof (cases taken)
    case True
    have "settled (refresh_completion shown b) = settled b"
      by (auto simp: refresh_completion_def settled_fields split: option.split)
    with True show ?thesis
      using refresh_ok [OF e(2) assms(4)] c(3) b by (auto simp: handle_key_def e(1) Let_def client_ok_def)
  next
    case False
    have "client_ok (c\<lparr>cl_app := b, cl_view := v\<rparr>)" using e(3) [OF False] c by (auto simp: client_ok_def)
    from loop_keys_ok [OF this, of k tr] False e(3) show ?thesis
      by (auto simp: handle_key_def e(1) Let_def)
  qed
qed

definition input_plain :: "input \<Rightarrow> bool" where
  "input_plain i \<longleftrightarrow> (case i of Key k \<Rightarrow> key_plain k | _ \<Rightarrow> True)"

lemma loop_pass_ok:
  assumes "graphemes_ok (sc_seg sc)" "client_ok c" "input_plain i"
    "\<And>path. path \<in> set shown \<Longrightarrow> plain_text (utf8_chars path)"
  shows "\<exists>d. loop_pass sc tr dims shown i c = Some d \<and> client_ok d"
proof -
  let ?c = "read_stream c"
  have c1: "client_ok ?c" by (rule read_stream_ok [OF assms(2)])
  obtain a w where r: "drain_transport_requests tr (cl_app ?c, cl_world ?c) = (a, w)" by fastforce
  have c2: "client_ok (?c\<lparr>cl_app := a, cl_world := w\<rparr>)"
    by (rule client_ok_app [OF c1])
      (use requests_ok [of tr, unfolded request_handler_def settles_requests_def] r in
        \<open>auto, metis fst_conv, metis fst_conv, metis fst_conv\<close>)
  obtain d where d: "render sc dims (?c\<lparr>cl_app := a, cl_world := w\<rparr>) = Some d" "client_ok d"
    using render_ok [OF assms(1) c2] by blast
  show ?thesis
    using handle_key_ok [OF assms(1) d(2) _ assms(4)] idle_tick_ok [OF d(2)] d assms(3)
    by (cases i) (auto simp: loop_pass_def Let_def r input_plain_def)
qed

section \<open>Runs of the client\<close>

text \<open>
  What happens around the loop: the turn's thread sends an event or goes away, or the loop makes a pass with
  a terminal size, the paths under the working directory and an input.
\<close>

datatype happening =
    Sent "string + stream_event"
  | Sender_Gone
  | Pass "nat \<times> nat" "string list" input

fun happen :: "screen \<Rightarrow> 'w client_transport \<Rightarrow> happening \<Rightarrow> 'w client \<Rightarrow> 'w client option" where
  "happen sc tr (Sent ev) c =
     Some (case cl_rx c of Some (evs, False) \<Rightarrow> c\<lparr>cl_rx := Some (evs @ [ev], False)\<rparr> | _ \<Rightarrow> c)"
| "happen sc tr Sender_Gone c =
     Some (case cl_rx c of Some (evs, _) \<Rightarrow> c\<lparr>cl_rx := Some (evs, True)\<rparr> | None \<Rightarrow> c)"
| "happen sc tr (Pass dims shown i) c =
     (if ap_should_quit (cl_app c) then Some c else loop_pass sc tr dims shown i c)"

primrec client_run :: "screen \<Rightarrow> 'w client_transport \<Rightarrow> happening list \<Rightarrow> 'w client \<Rightarrow> 'w client option" where
  "client_run sc tr [] c = Some c"
| "client_run sc tr (h # hs) c = Option.bind (happen sc tr h c) (client_run sc tr hs)"

fun happening_plain :: "happening \<Rightarrow> bool" where
  "happening_plain (Pass dims shown i) \<longleftrightarrow> input_plain i \<and> list_all (\<lambda>p. plain_text (utf8_chars p)) shown"
| "happening_plain _ \<longleftrightarrow> True"

lemma happen_ok:
  assumes "graphemes_ok (sc_seg sc)" "happening_plain h" "client_ok c"
  shows "\<exists>d. happen sc tr h c = Some d \<and> client_ok d"
proof (cases h)
  case (Pass dims shown i)
  then show ?thesis
    using loop_pass_ok [OF assms(1,3), of i shown tr dims] assms(2,3) by (auto simp: list_all_iff)
qed (use assms(3) in \<open>auto simp: client_ok_def split: option.split bool.split\<close>)

lemma start_client_ok: "client_ok (start_client tr session w)"
proof -
  have "composer_ok empty_composer" using composer_okI [of "[]" "[]"] by (simp add: empty_composer_def)
  then show ?thesis
    by (simp add: start_client_def take_connect_facts_def client_ok_def app_ok_def text_ok_def view_ok_def fresh_def
        settled_def transcript_defs set_session_def new_app_def set_stdio_def set_contributions_def
        completion_entries_def split: prod.split)
qed

lemma client_run_ok:
  assumes "graphemes_ok (sc_seg sc)" "list_all happening_plain hs" "client_ok c"
  shows "\<exists>d. client_run sc tr hs c = Some d \<and> client_ok d"
  using assms(2,3)
proof (induction hs arbitrary: c)
  case (Cons h hs)
  then show ?case using happen_ok [OF assms(1), of h c tr] by fastforce
qed simp

text \<open>C14 (client_never_panics): As long as the keys pressed and the file names offered hold no whitespace but of one byte,
  whatever the transport answers and whatever events arrive, in whatever order, no step of the client panics: no slice of the
  message off a scalar boundary, no index out of a list. The segmentation into graphemes is into non-empty pieces. The
  restriction is needed: moving a word back over a no-break space leaves the caret inside it, and the next key panics
  (\<open>word_left_splits_wide_space\<close>).\<close>

theorem client_never_panics:
  assumes "graphemes_ok (sc_seg sc)" "list_all happening_plain hs"
  shows "client_run sc tr hs (start_client tr session w) \<noteq> None"
  using client_run_ok [OF assms start_client_ok, of tr tr session w] by auto

text \<open>C15 (finished_stream_settles): However a turn ends, by its answer, by an error, or by its thread going away without
  a word, the client comes back: once the sender is gone, the next pass drops the stream, no question and no
  running tool is left, and Enter means send again.\<close>

theorem finished_stream_settles:
  assumes "cl_rx c = Some (evs, True)"
  shows "cl_rx (read_stream c) = None \<and> enter_means (cl_app (read_stream c)) = Enter_Send \<and>
    (\<forall>e\<in>set (ap_transcript (cl_app (read_stream c))). \<not> running e) \<and> \<not> ap_dialog_open (cl_app (read_stream c))"
proof -
  have ended: "fst (drain_events now evs True a) \<and> \<not> ap_dialog_open (snd (drain_events now evs True a))" for now a
  proof (induction evs arbitrary: a)
    case Nil
    then show ?case by (simp add: end_turn_def interrupt_open_tools_def)
  next
    case (Cons ev evs)
    obtain st b where "apply_event now ev a = (st, b)" by fastforce
    with Cons show ?case by (cases st) (auto simp: end_turn_def interrupt_open_tools_def)
  qed
  obtain a where d: "drain_events (cl_tick c) evs True (cl_app c) = (True, a)"
    using ended [of "cl_tick c" "cl_app c"] by (metis prod.collapse)
  then have "settled a" using drain_events_settled [of "cl_tick c" evs True "cl_app c"] by simp
  then show ?thesis
    using ended [of "cl_tick c" "cl_app c"] assms d
    by (simp add: read_stream_def settled_def enter_means_def turn_of_def)
qed

text \<open>What the assistant has said on the screen, and what a stream of events adds to it.\<close>

fun entry_says :: "transcript_entry \<Rightarrow> string" where
  "entry_says (Message Klod t) = t"
| "entry_says _ = []"

definition on_screen :: "transcript_entry list \<Rightarrow> string" where
  "on_screen es = concat (map entry_says es)"

fun ongoing :: "string + stream_event \<Rightarrow> bool" where
  "ongoing (Inr (StreamDone t)) = False"
| "ongoing (Inr (StreamError t)) = False"
| "ongoing (Inl t) = False"
| "ongoing _ = True"

fun delta_of :: "string + stream_event \<Rightarrow> string" where
  "delta_of (Inr (StreamDelta t)) = t"
| "delta_of _ = []"

fun is_answer :: "transcript_entry \<Rightarrow> bool" where
  "is_answer (Message Klod t) = True"
| "is_answer _ = False"

fun without_answer :: "transcript_entry list \<Rightarrow> transcript_entry list" where
  "without_answer [] = []"
| "without_answer [x] = (if is_answer x then [] else [x])"
| "without_answer (x # y # ys) = x # without_answer (y # ys)"

lemma without_answer_snoc [simp]: "without_answer (es @ [x]) = (if is_answer x then es else es @ [x])"
proof (induction es)
  case (Cons e es)
  then show ?case by (cases es) auto
qed simp

lemma last_answer_snoc:
  "ap_transcript a = es @ [x] \<Longrightarrow> last_answer a = (if is_answer x then Some (es, entry_says x) else None)"
  by (cases x rule: is_answer.cases) (simp_all add: last_answer_def)

lemma last_answer_empty: "ap_transcript a = [] \<Longrightarrow> last_answer a = None"
  by (simp add: last_answer_def)

lemma answer_entry: "is_answer x \<Longrightarrow> x = Message Klod (entry_says x)"
  by (cases x rule: is_answer.cases) simp_all

lemma on_screen_append [simp]: "on_screen (xs @ ys) = on_screen xs @ on_screen ys"
  by (simp add: on_screen_def)

lemma on_screen_closed [simp]: "on_screen (xs[n := close_call c f (xs ! n)]) = on_screen xs"
proof (cases "n < length xs")
  case True
  have "entry_says (close_call c f e) = entry_says e" for e by (cases e) simp_all
  then have "map entry_says (xs[n := close_call c f (xs ! n)]) = (map entry_says xs)[n := map entry_says xs ! n]"
    using True by (simp add: map_update)
  then show ?thesis by (simp add: on_screen_def)
next
  case False
  then have "xs[n := close_call c f (xs ! n)] = xs" by (simp add: list_update_beyond)
  then show ?thesis by simp
qed

lemma ongoing_says:
  assumes "ongoing ev"
  shows "fst (apply_event now ev a) = Applied \<and>
    on_screen (ap_transcript (snd (apply_event now ev a))) = on_screen (ap_transcript a) @ delta_of ev"
proof (cases ev rule: delta_of.cases)
  case (1 t)
  show ?thesis
  proof (cases "ap_transcript a" rule: rev_cases)
    case Nil
    then show ?thesis
      by (simp add: 1 apply_event_def apply_delta_def last_answer_empty record_entry_def on_screen_def)
  next
    case (snoc es x)
    then show ?thesis using answer_entry [of x]
      by (auto simp: 1 apply_event_def apply_delta_def last_answer_snoc [OF snoc] record_entry_def on_screen_def)
  qed
qed (use assms in \<open>auto simp: apply_event_def record_tool_invoked_def record_tool_result_def record_status_def
  record_entry_def toast_warning_def ask_def set_contributions_def on_screen_def [of "[_]"] Let_def
  split: option.split prod.split\<close>)

lemma done_shows:
  "ap_transcript (end_turn (finish_turn answer (interrupt_open_tools a))) =
     map interrupt_entry (without_answer (ap_transcript a)) @ [Message Klod answer]"
proof (cases "ap_transcript a" rule: rev_cases)
  case Nil
  then show ?thesis
    by (simp add: finish_turn_def interrupt_open_tools_def last_answer_empty record_answer_def record_entry_def
        end_turn_def Let_def)
next
  case (snoc es x)
  have again: "interrupt_entry (interrupt_entry e) = interrupt_entry e" for e by (cases e) simp_all
  have answer: "is_answer (interrupt_entry x) = is_answer x" by (cases x) simp_all
  have last: "last_answer (interrupt_open_tools a\<lparr>ap_phase := Phase_Idle\<rparr>) =
      (if is_answer x then Some (map interrupt_entry es, entry_says (interrupt_entry x)) else None)"
    using last_answer_snoc [of "interrupt_open_tools a\<lparr>ap_phase := Phase_Idle\<rparr>" "map interrupt_entry es"
      "interrupt_entry x"] answer by (simp add: interrupt_open_tools_def snoc)
  show ?thesis
    using last by (simp add: finish_turn_def record_answer_def record_entry_def end_turn_def Let_def snoc
      interrupt_open_tools_def again comp_def)
qed

text \<open>C25 (streamed_answer_shown): Whatever a turn streams before its answer (deltas, tool calls and results, warnings,
  questions), and whatever the screen shows, the events up to the answer add the deltas to what the assistant says on the screen,
  in order and nothing else; the answer then ends the turn: it becomes the last entry, in place of the entry before it if that
  is one of the assistant, and every other entry stays, but that a tool still running is interrupted.\<close>

theorem streamed_answer_shown:
  assumes "list_all ongoing evs"
  shows "let a1 = fold (\<lambda>ev a. snd (apply_event now ev a)) evs a
    in on_screen (ap_transcript a1) = on_screen (ap_transcript a) @ concat (map delta_of evs) \<and>
      (case drain_events now (evs @ Inr (StreamDone answer) # later) closed a of
         (ended, b) \<Rightarrow> ended \<and>
           ap_transcript b = map interrupt_entry (without_answer (ap_transcript a1)) @ [Message Klod answer])"
  using assms
proof (induction evs arbitrary: a)
  case Nil
  then show ?case using done_shows [of answer a] by (simp add: apply_event_def Let_def)
next
  case (Cons ev evs)
  obtain b where b: "apply_event now ev a = (Applied, b)" "on_screen (ap_transcript b) = on_screen (ap_transcript a) @ delta_of ev"
    using ongoing_says [of ev now a] Cons.prems by (cases "apply_event now ev a") auto
  then show ?case using Cons.IH [of b] Cons.prems by (simp add: Let_def)
qed

text \<open>A warning between the last delta and the answer splits it: the conductor warns before it ends a turn it cuts short, and
  the screen then shows the text twice, as it was streamed and as the answer that repeats it.\<close>

theorem warned_answer_shown_twice:
  assumes "last_answer a = None"
  shows "case drain_events now [Inr (StreamDelta t), Inr (StreamWarning m), Inr (StreamDone answer)] closed a of
    (ended, b) \<Rightarrow> ap_transcript b = map interrupt_entry (ap_transcript a) @
      [Message Klod t, Message StatusNote (warning_sign @ '' '' @ m), Message Klod answer]"
  using assms done_shows [of answer "toast_warning m now (apply_delta t a)"]
    without_answer_snoc [of "ap_transcript a @ [Message Klod t]" "Message StatusNote (warning_sign @ '' '' @ m)"]
  by (simp add: apply_event_def apply_delta_def record_entry_def toast_warning_def record_status_def)

section \<open>Answers and sessions\<close>

text \<open>A transport that also keeps a log of the answers it sends.\<close>

definition logging_transport :: "'w client_transport \<Rightarrow> ('w \<times> (string \<times> string) list) client_transport" where
  "logging_transport tr =
     \<lparr>tr_create_session = (\<lambda>(w, l). map_prod id (\<lambda>w. (w, l)) (tr_create_session tr w)),
      tr_session_list = (\<lambda>(w, l). map_prod id (\<lambda>w. (w, l)) (tr_session_list tr w)),
      tr_session_get = (\<lambda>i (w, l). map_prod id (\<lambda>w. (w, l)) (tr_session_get tr i w)),
      tr_cancel = (\<lambda>i (w, l). map_prod id (\<lambda>w. (w, l)) (tr_cancel tr i w)),
      tr_stream_turn = (\<lambda>i m (w, l). (tr_stream_turn tr i m w, l)),
      tr_answer = (\<lambda>i m (w, l). (tr_answer tr i m w, l @ [(i, m)])),
      tr_follow_up = (\<lambda>i m (w, l). map_prod id (\<lambda>w. (w, l)) (tr_follow_up tr i m w)),
      tr_contributions = (\<lambda>(w, l). map_prod id (\<lambda>w. (w, l)) (tr_contributions tr w)),
      tr_invoke_contribution = (\<lambda>e n (w, l). map_prod id (\<lambda>w. (w, l)) (tr_invoke_contribution tr e n w)),
      tr_describe = tr_describe tr,
      tr_alive = (\<lambda>(w, l). map_prod id (\<lambda>w. (w, l)) (tr_alive tr w)),
      tr_is_stdio = tr_is_stdio tr\<rparr>"

lemma switch_session_log: "snd (snd (switch_session (logging_transport tr) (a, w))) = snd w"
  by (cases a rule: sessions_confirm_cases)
    (auto simp: switch_session_def logging_transport_def case_prod_beta split: sum.split)

lemma steer_log: "snd (snd (steer (logging_transport tr) session (a, w))) = snd w"
  by (auto simp: steer_def logging_transport_def case_prod_beta split: option.split sum.split)

lemma press_enter_log:
  assumes "press_enter (logging_transport tr) c = Some d" "snd (cl_world d) \<noteq> snd (cl_world c)"
  shows "\<exists>p answer. pending_prompt (cl_app c) = Some p \<and> ap_dialog_open (cl_app c) \<and>
    snd (cl_world d) = snd (cl_world c) @ [(pm_session p, answer)] \<and>
    (pm_options p \<noteq> [] \<longrightarrow> answer \<in> set (pm_options p))"
proof -
  let ?a = "cl_app c"
  have "ap_sessions ?a = None"
    using assms switch_session_log [of tr ?a "cl_world c"]
    by (auto simp: press_enter_def Let_def case_prod_beta split: if_splits)
  then have "enter_means ?a = Enter_Answer"
    using assms steer_log [of tr "ap_session ?a" ?a "cl_world c"]
    by (auto simp: press_enter_def Let_def logging_transport_def case_prod_beta
        split: if_splits enter.splits option.splits)
  moreover from this have "ap_dialog_open ?a" by (simp add: enter_means_def split: turn_view.splits if_splits)
  ultimately show ?thesis
    using assms \<open>ap_sessions ?a = None\<close>
    by (auto simp: press_enter_def Let_def take_answer_def pending_prompt_def logging_transport_def case_prod_beta
        split: list.splits if_splits option.splits)
qed

text \<open>A key sends an answer only when the dialog of a question is on screen: it goes to
  the session the front question was asked on, and when the question has options it is one of them.\<close>

theorem answers_only_open_question:
  assumes "client_ok c" "graphemes_ok (sc_seg sc)" "key_plain k"
    "handle_key sc (logging_transport tr) shown k c = Some d" "snd (cl_world d) \<noteq> snd (cl_world c)"
  shows "\<exists>p answer. pending_prompt (cl_app c) = Some p \<and> ap_dialog_open (cl_app c) \<and>
    snd (cl_world d) = snd (cl_world c) @ [(pm_session p, answer)] \<and>
    (pm_options p \<noteq> [] \<longrightarrow> answer \<in> set (pm_options p))"
proof -
  obtain taken b v where e: "edit_or_scroll sc (cl_pane c) k (cl_app c) (cl_view c) = Some (taken, b, v)"
    "\<not> taken \<Longrightarrow> b = cl_app c"
    using edit_or_scroll_ok [OF assms(2) _ _ assms(3)] assms(1) unfolding client_ok_def by blast
  from assms(4,5) e(1) have "\<not> taken"
    "loop_keys (logging_transport tr) k (c\<lparr>cl_app := b, cl_view := v\<rparr>) = Some d"
    by (auto simp: handle_key_def Let_def split: if_splits)
  with e(2) assms(5) have "press_enter (logging_transport tr) (c\<lparr>cl_app := cl_app c, cl_view := v\<rparr>) = Some d"
    by (auto simp: loop_keys_def Let_def split: key_code.splits if_splits)
  from press_enter_log [OF this] assms(5) show ?thesis by simp
qed

text \<open>\<open>/new\<close> is accepted while a turn streams: the screen then shows the new,
  empty session, but the old turn's stream stays attached, so its next delta is shown as the new session's
  answer, and a cancel goes to the new session, not to the one whose turn is running.\<close>

theorem new_session_keeps_old_stream:
  assumes "ap_phase a = Phase_Streaming" "\<not> ap_dialog_open a" "\<not> ap_new_session_requested a"
    "tr_create_session tr w = (Inr i, w1)"
  shows "run_builtin ''/new'' a = Some (request_new_session a) \<and>
    (case drain_new_session tr (request_new_session a, w) of
       (b, w2) \<Rightarrow> ap_session b = i \<and> ap_phase b = Phase_Streaming \<and>
         ap_transcript (snd (apply_event now (Inr (StreamDelta t)) b)) = [Message Klod t] \<and>
         snd (drain_cancel tr (snd (cancel b), w2)) = snd (tr_cancel tr i w2))"
proof -
  have "run_builtin ''/new'' a = Some (request_new_session a)" by (simp add: run_builtin_def)
  moreover have "drain_new_session tr (request_new_session a, w) =
      (load_session i [] (a\<lparr>ap_new_session_requested := False\<rparr>), w1)"
    using assms(2,4) by (simp add: drain_new_session_def request_new_session_def take_new_session_request_def)
  ultimately show ?thesis
    using assms(1)
    by (simp add: load_session_def apply_event_def apply_delta_def last_answer_def record_entry_def cancel_def
        drain_cancel_def take_cancel_request_def interrupt_open_tools_def List.map_filter_def
        split: prod.split sum.split)
qed

section \<open>A client to run\<close>

text \<open>A screen that counts scalars and a transport that accepts everything, over a world with nothing in it.\<close>

definition plain_screen :: screen where
  "plain_screen = \<lparr>sc_seg = scalar_segments, sc_wid = length, sc_caret_cells = (\<lambda>_. 2),
     sc_transcript_area = (\<lambda>r _. r), sc_lines = (\<lambda>es _ _. length es), sc_span = (\<lambda>_ i _. (i, 1))\<rparr>"

definition yes_transport :: "unit client_transport" where
  "yes_transport = \<lparr>tr_create_session = Pair (Inr ''new''), tr_session_list = Pair (Inr []),
     tr_session_get = (\<lambda>i. Pair (Inr (i, []))), tr_cancel = (\<lambda>_. Pair (Inr ())), tr_stream_turn = (\<lambda>_ _ w. w),
     tr_answer = (\<lambda>_ _ w. w), tr_follow_up = (\<lambda>_ _. Pair (Inr ())), tr_contributions = Pair [],
     tr_invoke_contribution = (\<lambda>_ _. Pair (Inr [])), tr_describe = ''core'', tr_alive = Pair True,
     tr_is_stdio = True\<rparr>"

definition pressed :: "key_code \<Rightarrow> input" where
  "pressed k = Key \<lparr>ke_code = k, ke_ctrl = False, ke_alt = False, ke_shift = False\<rparr>"

definition demo_question :: prompt where
  "demo_question = \<lparr>pm_session = ''s'', pm_question = ''run?'', pm_options = [''yes'', ''no''], pm_default = ''no''\<rparr>"

definition demo_asked :: "(unit \<times> (string \<times> string) list) client" where
  "demo_asked = (start_client (logging_transport yes_transport) ''s'' ((), []))
     \<lparr>cl_rx := Some ([], False), cl_app := ask demo_question (begin_turn new_app)\<rparr>"

theorem client_never_panics_witness:
  "\<forall>session. client_run plain_screen yes_transport
     [Pass (80, 24) [''a.txt''] (pressed (KChar ''h'')), Pass (80, 24) [] (pressed KEnter),
      Sent (Inr (StreamDelta ''hi'')), Sent (Inr (StreamPrompt demo_question)), Pass (80, 24) [] (pressed KUp),
      Sent (Inr (StreamDone ''hi'')), Sender_Gone, Pass (80, 24) [] No_Input]
     (start_client yes_transport session ()) \<noteq> None"
proof
  fix session
  show "client_run plain_screen yes_transport
     [Pass (80, 24) [''a.txt''] (pressed (KChar ''h'')), Pass (80, 24) [] (pressed KEnter),
      Sent (Inr (StreamDelta ''hi'')), Sent (Inr (StreamPrompt demo_question)), Pass (80, 24) [] (pressed KUp),
      Sent (Inr (StreamDone ''hi'')), Sender_Gone, Pass (80, 24) [] No_Input]
     (start_client yes_transport session ()) \<noteq> None"
    by (rule client_never_panics)
      (simp_all add: plain_screen_def scalar_segments_ok input_plain_def pressed_def key_plain_def plain_text_def
        is_whitespace_def utf8_len_def)
qed

theorem finished_stream_settles_witness:
  "cl_rx (read_stream (demo_asked\<lparr>cl_rx := Some ([Inr (StreamDelta ''hi'')], True)\<rparr>)) = None"
  using finished_stream_settles [of "demo_asked\<lparr>cl_rx := Some ([Inr (StreamDelta ''hi'')], True)\<rparr>"] by simp

theorem streamed_answer_shown_witness:
  "case drain_events 0 [Inr (StreamDelta ''h''), Inr (StreamTool ''1'' ''fs'' None), Inr (StreamDelta ''i''),
     Inr (StreamDone ''hi!'')] False (record_entry You ''hello'' new_app) of
   (ended, b) \<Rightarrow> ended \<and> last (ap_transcript b) = Message Klod ''hi!'' \<and> length (ap_transcript b) = 4"
proof -
  let ?evs = "[Inr (StreamDelta ''h''), Inr (StreamTool ''1'' ''fs'' None), Inr (StreamDelta ''i'')]"
  have "ap_transcript (fold (\<lambda>ev a. snd (apply_event 0 ev a)) ?evs (record_entry You ''hello'' new_app)) =
      [Message You ''hello'', Message Klod ''h'', Tool \<lparr>tb_id = ''1'', tb_name = ''fs'', tb_arguments = None,
        tb_status = Running, tb_expanded = False\<rparr>, Message Klod ''i'']"
    by (simp add: apply_event_def apply_delta_def last_answer_def record_entry_def record_tool_invoked_def new_app_def)
  with streamed_answer_shown [of ?evs, where now = 0 and a = "record_entry You ''hello'' new_app" and answer = "''hi!''"
    and later = "[]" and closed = False]
  show ?thesis by (simp add: Let_def split: prod.splits)
qed

theorem warned_answer_shown_twice_witness:
  "case drain_events 0 [Inr (StreamDelta ''half''), Inr (StreamWarning ''cut''), Inr (StreamDone ''half [cut]'')] False
     new_app of
   (ended, b) \<Rightarrow> map entry_says (ap_transcript b) = [''half'', [], ''half [cut]'']"
  using warned_answer_shown_twice [of new_app, where now = 0 and t = "''half''" and m = "''cut''" and
    answer = "''half [cut]''" and closed = False]
  by (simp add: last_answer_def new_app_def split: prod.splits)

lemma demo_asked_ok: "client_ok demo_asked"
proof -
  have "composer_ok empty_composer" using composer_okI [of "[]" "[]"] by (simp add: empty_composer_def)
  then show ?thesis
    by (simp add: demo_asked_def client_ok_def app_ok_def text_ok_def view_ok_def fresh_def ask_def begin_turn_def
        new_app_def completion_entries_def Let_def prompt_ok_def demo_question_def)
qed

theorem answers_only_open_question_witness:
  "\<exists>d p answer. handle_key plain_screen (logging_transport yes_transport) []
       \<lparr>ke_code = KEnter, ke_ctrl = False, ke_alt = False, ke_shift = False\<rparr> demo_asked = Some d \<and>
     pending_prompt (cl_app demo_asked) = Some p \<and> snd (cl_world d) = [(pm_session p, answer)] \<and>
     answer = ''no''"
proof -
  let ?k = "\<lparr>ke_code = KEnter, ke_ctrl = False, ke_alt = False, ke_shift = False\<rparr>"
  have h: "handle_key plain_screen (logging_transport yes_transport) [] ?k demo_asked =
      map_option (\<lambda>(_, a). demo_asked\<lparr>cl_app := a, cl_world := ((), [(''s'', ''no'')])\<rparr>)
        (take_answer (cl_app demo_asked))"
    by code_simp
  obtain res b where b: "take_answer (cl_app demo_asked) = Some (res, b)"
    using take_answer_ok demo_asked_ok unfolding client_ok_def by blast
  let ?d = "demo_asked\<lparr>cl_app := b, cl_world := ((), [(''s'', ''no'')])\<rparr>"
  have d: "handle_key plain_screen (logging_transport yes_transport) [] ?k demo_asked = Some ?d"
    using h b by simp
  have w: "snd (cl_world demo_asked) = []"
    by (simp add: demo_asked_def start_client_def take_connect_facts_def logging_transport_def yes_transport_def)
  from answers_only_open_question [OF demo_asked_ok _ _ d]
  obtain p answer where "pending_prompt (cl_app demo_asked) = Some p"
    "snd (cl_world ?d) = snd (cl_world demo_asked) @ [(pm_session p, answer)]"
    using w by (auto simp: plain_screen_def scalar_segments_ok key_plain_def)
  with d w show ?thesis by auto
qed

theorem new_session_keeps_old_stream_witness:
  "case drain_new_session yes_transport (request_new_session (begin_turn new_app), ()) of
     (b, w2) \<Rightarrow> ap_session b = ''new'' \<and> ap_phase b = Phase_Streaming \<and>
       ap_transcript (snd (apply_event 0 (Inr (StreamDelta ''old'')) b)) = [Message Klod ''old'']"
  using new_session_keeps_old_stream [of "begin_turn new_app" yes_transport "()" "''new''" "()", where now = 0 and t = "''old''"]
  by (simp add: begin_turn_def new_app_def yes_transport_def case_prod_beta)

end
