(* ===== verification/Memory.thy ===== *)
theory Memory
  imports HostApi
begin

text \<open>
  The memory tool (\<open>extensions/tool-memory/src/memory.rs\<close>, \<open>lib.rs\<close>): facts by key in a \<open>BTreeMap\<close>, read
  from their stored text at the start of a call and written back when the operation is not refused. Ids are
  \<open>u64\<close> values whose increments wrap. The clock's text is the parameter \<open>now\<close>; an object is written with its
  members in key order, the order of serde_json's map. Log lines are not modelled.
\<close>

record memory_fact =
  mf_id :: nat
  mf_key :: string
  mf_value :: string
  mf_created_at :: string
  mf_updated_at :: string

datatype memory_error = MBadArguments string | MMissingKey | MNotFound string | MInvalidJson

record memory =
  mm_facts :: "(string, memory_fact) btree"
  mm_next_id :: nat

definition quoted :: "string \<Rightarrow> string" where
  "quoted s = [CHR 0x27] @ s @ [CHR 0x27]"

definition fact_json :: "memory_fact \<Rightarrow> json" where
  "fact_json f = JObj [(''created_at'', JStr (mf_created_at f)), (''id'', JInt (int (mf_id f))),
     (''key'', JStr (mf_key f)), (''updated_at'', JStr (mf_updated_at f)), (''value'', JStr (mf_value f))]"

definition fact_from_json :: "json \<Rightarrow> memory_fact option" where
  "fact_from_json v =
     do {
       i \<leftarrow> get_u64 ''id'' v;
       k \<leftarrow> get_str ''key'' v;
       x \<leftarrow> get_str ''value'' v;
       c \<leftarrow> get_str ''created_at'' v;
       u \<leftarrow> get_str ''updated_at'' v;
       Some \<lparr>mf_id = i, mf_key = k, mf_value = x, mf_created_at = c, mf_updated_at = u\<rparr>
     }"

definition empty_memory :: memory where
  "empty_memory = \<lparr>mm_facts = [], mm_next_id = 0\<rparr>"

definition memory_of_items :: "json list \<Rightarrow> memory" where
  "memory_of_items items =
     (let facts = List.map_filter fact_from_json items
      in \<lparr>mm_facts = bt_from (map (\<lambda>f. (mf_key f, f)) facts),
          mm_next_id = (fold (\<lambda>f m. max m (mf_id f)) facts 0 + 1) mod 2 ^ 64\<rparr>)"

definition memory_parse :: "parser \<Rightarrow> string option \<Rightarrow> memory" where
  "memory_parse parse stored =
     (case stored of
        None \<Rightarrow> empty_memory
      | Some t \<Rightarrow>
          (case parse t of
             Inr (JArr items) \<Rightarrow> memory_of_items items
           | _ \<Rightarrow> empty_memory))"

definition facts_json :: "memory \<Rightarrow> json" where
  "facts_json m = JArr (map (fact_json \<circ> snd) (mm_facts m))"

definition memory_render :: "printer \<Rightarrow> memory \<Rightarrow> string" where
  "memory_render render m = render (facts_json m)"

definition memory_store ::
  "string \<Rightarrow> string \<Rightarrow> string \<Rightarrow> memory \<Rightarrow> (memory_error + memory_fact) \<times> memory" where
  "memory_store now key value m =
     (if key = [] then (Inl (MBadArguments ''key cannot be empty''), m)
      else
        (let (i, created, next_id) =
           (case map_of (mm_facts m) key of
              Some existing \<Rightarrow> (mf_id existing, mf_created_at existing, mm_next_id m)
            | None \<Rightarrow> (mm_next_id m, now, (mm_next_id m + 1) mod 2 ^ 64));
           f = \<lparr>mf_id = i, mf_key = key, mf_value = value, mf_created_at = created, mf_updated_at = now\<rparr>
         in (Inr f, \<lparr>mm_facts = bt_insert key f (mm_facts m), mm_next_id = next_id\<rparr>)))"

text \<open>\<open>sort_by\<close> with the arguments swapped: newest first, equal times in key order.\<close>

definition memory_recall :: "string option \<Rightarrow> memory \<Rightarrow> memory_error + memory_fact list" where
  "memory_recall key m =
     (case key of
        None \<Rightarrow> Inr (take 10 (rev (sort_key mf_updated_at (rev (map snd (mm_facts m))))))
      | Some k \<Rightarrow>
          (case map_of (mm_facts m) k of
             None \<Rightarrow> Inl (MNotFound k)
           | Some f \<Rightarrow> Inr [f]))"

definition memory_forget :: "string \<Rightarrow> memory \<Rightarrow> (memory_error + string) \<times> memory" where
  "memory_forget key m =
     (case map_of (mm_facts m) key of
        None \<Rightarrow> (Inl (MNotFound key), m)
      | Some _ \<Rightarrow> (Inr key, m\<lparr>mm_facts := bt_remove key (mm_facts m)\<rparr>))"

definition memory_op ::
  "printer \<Rightarrow> string \<Rightarrow> string \<Rightarrow> json \<Rightarrow> memory \<Rightarrow> (memory_error + string) \<times> memory" where
  "memory_op render now op v m =
     (if op = ''store'' then
        (case get_str ''key'' v of
           None \<Rightarrow> (Inl MMissingKey, m)
         | Some key \<Rightarrow>
             (case get_str ''value'' v of
                None \<Rightarrow> (Inl (MBadArguments (''missing '' @ quoted ''value'')), m)
              | Some value \<Rightarrow> apfst (map_ok (\<lambda>f. render (fact_json f))) (memory_store now key value m)))
      else if op = ''recall'' then
        (map_ok (\<lambda>fs. render (JArr (map fact_json fs))) (memory_recall (get_str ''key'' v) m), m)
      else if op = ''forget'' then
        (case get_str ''key'' v of
           None \<Rightarrow> (Inl MMissingKey, m)
         | Some key \<Rightarrow> apfst (map_ok (\<lambda>k. render (JObj [(''key'', JStr k)]))) (memory_forget key m))
      else (Inl (MBadArguments (''unknown operation: '' @ op)), m))"

definition memory_apply ::
  "parser \<Rightarrow> printer \<Rightarrow> string \<Rightarrow> string \<Rightarrow> memory \<Rightarrow> (memory_error + string) \<times> memory" where
  "memory_apply parse render now arguments m =
     (case parse arguments of
        Inl _ \<Rightarrow> (Inl MInvalidJson, m)
      | Inr v \<Rightarrow>
          (case get_str ''op'' v of
             None \<Rightarrow> (Inl (MBadArguments (''missing '' @ quoted ''op'' @ '' field'')), m)
           | Some op \<Rightarrow> memory_op render now op v m))"

fun memory_tool_error :: "memory_error \<Rightarrow> tool_error" where
  "memory_tool_error (MNotFound _) = ExecutionFailed"
| "memory_tool_error _ = InvalidArguments"

definition MEMORY_NAMESPACE :: string where "MEMORY_NAMESPACE = ''memory''"
definition MEMORY_KEY :: string where "MEMORY_KEY = ''facts''"

definition memory_invoke ::
  "parser \<Rightarrow> printer \<Rightarrow> string \<Rightarrow> 'w host_storage \<Rightarrow> string \<Rightarrow> 'w \<Rightarrow> (tool_error + string) \<times> 'w" where
  "memory_invoke parse render now hs arguments w =
     (case stored_text hs MEMORY_NAMESPACE MEMORY_KEY w of
        Inl e \<Rightarrow> (Inl e, w)
      | Inr stored \<Rightarrow>
          (case memory_apply parse render now arguments (memory_parse parse stored) of
             (Inl e, _) \<Rightarrow> (Inl (memory_tool_error e), w)
           | (Inr result, m) \<Rightarrow>
               write_stored hs MEMORY_NAMESPACE MEMORY_KEY (memory_render render m) result w))"

section \<open>The facts are well formed\<close>

definition memory_wf :: "memory \<Rightarrow> bool" where
  "memory_wf m \<longleftrightarrow> bt_wf (mm_facts m) \<and> mm_next_id m < 2 ^ 64 \<and>
     (\<forall>(k, f) \<in> set (mm_facts m). mf_key f = k \<and> mf_id f < 2 ^ 64)"

lemma fact_from_json_inv [simp]: "mf_id f < 2 ^ 64 \<Longrightarrow> fact_from_json (fact_json f) = Some f"
  by (simp add: fact_from_json_def fact_json_def json_simps)

lemma fact_from_json_id: "fact_from_json v = Some f \<Longrightarrow> mf_id f < 2 ^ 64"
  unfolding fact_from_json_def get_u64_def
  by (cases "jget ''id'' v"; cases "the (jget ''id'' v)") (auto split: bind_splits if_splits)

lemma set_map_filter: "set (List.map_filter f xs) = {y. \<exists>x \<in> set xs. f x = Some y}"
  by (induction xs) (auto simp: List.map_filter_simps split: option.split)

lemma memory_of_items_wf: "memory_wf (memory_of_items items)"
proof -
  let ?fs = "List.map_filter fact_from_json items"
  have "mf_key f = k \<and> mf_id f < 2 ^ 64"
    if "(k, f) \<in> set (bt_from (map (\<lambda>f. (mf_key f, f)) ?fs))" for k f
    using subsetD [OF set_bt_from that] by (auto simp: set_map_filter dest: fact_from_json_id)
  then show ?thesis by (auto simp: memory_wf_def memory_of_items_def Let_def)
qed

lemma empty_memory_wf [simp]: "memory_wf empty_memory"
  by (simp add: memory_wf_def empty_memory_def)

lemma memory_parse_wf [simp]: "memory_wf (memory_parse parse stored)"
  by (auto simp: memory_parse_def memory_of_items_wf split: option.split sum.split json.split)

lemma memory_insert_wf:
  assumes "memory_wf m" "mf_key f = k" "mf_id f < 2 ^ 64" "n < 2 ^ 64"
  shows "memory_wf \<lparr>mm_facts = bt_insert k f (mm_facts m), mm_next_id = n\<rparr>"
proof -
  have "mf_key g = q \<and> mf_id g < 2 ^ 64" if "(q, g) \<in> set (bt_insert k f (mm_facts m))" for q g
    using subsetD [OF set_bt_insert that] assms by (auto simp: memory_wf_def)
  then show ?thesis using assms by (auto simp: memory_wf_def)
qed

lemma memory_id_at: "memory_wf m \<Longrightarrow> map_of (mm_facts m) k = Some f \<Longrightarrow> mf_id f < 2 ^ 64"
  by (auto simp: memory_wf_def dest!: map_of_SomeD)

lemma memory_next_bound: "memory_wf m \<Longrightarrow> mm_next_id m < 2 ^ 64"
  by (simp add: memory_wf_def)

lemma memory_store_wf:
  assumes "memory_wf m"
  shows "memory_wf (snd (memory_store now k v m))"
proof (cases "map_of (mm_facts m) k")
  case None
  then show ?thesis
    using memory_insert_wf [OF assms] memory_next_bound [OF assms] assms
    by (simp add: memory_store_def Let_def)
next
  case (Some f)
  then show ?thesis
    using memory_insert_wf [OF assms] memory_id_at [OF assms Some] memory_next_bound [OF assms] assms
    by (simp add: memory_store_def Let_def)
qed

lemma memory_forget_wf:
  assumes "memory_wf m"
  shows "memory_wf (snd (memory_forget k m))"
proof -
  have "set (bt_remove k (mm_facts m)) \<subseteq> set (mm_facts m)" by (auto simp: bt_remove_def)
  then show ?thesis using assms by (auto simp: memory_forget_def memory_wf_def split: option.split)
qed

lemma memory_op_wf: "memory_wf m \<Longrightarrow> memory_wf (snd (memory_op render now op v m))"
  by (simp add: memory_op_def memory_store_wf memory_forget_wf split: option.split)

lemma memory_apply_wf: "memory_wf m \<Longrightarrow> memory_wf (snd (memory_apply parse render now arguments m))"
  by (auto simp: memory_apply_def memory_op_wf split: sum.split option.split)

lemma memory_round_trip:
  assumes "memory_wf m" "parse (render (facts_json m)) = Inr (facts_json m)"
  shows "mm_facts (memory_parse parse (Some (memory_render render m))) = mm_facts m"
proof -
  have "List.map_filter fact_from_json (map (fact_json \<circ> snd) fs) = map snd fs"
    if "\<forall>(k, f) \<in> set fs. mf_id f < 2 ^ 64" for fs :: "(string, memory_fact) btree"
    using that by (induction fs) (auto simp: List.map_filter_simps)
  moreover have "\<forall>(k, f) \<in> set (mm_facts m). mf_id f < 2 ^ 64" using assms(1) by (auto simp: memory_wf_def)
  moreover have "map (\<lambda>f. (mf_key f, f)) (map snd (mm_facts m)) = mm_facts m"
    using assms(1) by (auto simp: memory_wf_def intro!: map_idI)
  ultimately show ?thesis
    using assms bt_from_self [of "mm_facts m"]
    by (simp add: memory_parse_def memory_render_def facts_json_def memory_of_items_def memory_wf_def)
qed

section \<open>The specification: a map from keys to values\<close>

definition memory_values :: "parser \<Rightarrow> string option \<Rightarrow> string \<rightharpoonup> string" where
  "memory_values parse stored = map_option mf_value \<circ> map_of (mm_facts (memory_parse parse stored))"

text \<open>Whether the call is accepted, and the map after it.\<close>

definition memory_spec :: "json \<Rightarrow> (string \<rightharpoonup> string) \<Rightarrow> bool \<times> (string \<rightharpoonup> string)" where
  "memory_spec v M =
     (case (get_str ''op'' v, get_str ''key'' v) of
        (None, _) \<Rightarrow> (False, M)
      | (Some op, key) \<Rightarrow>
          (if op = ''store'' then
             (case (key, get_str ''value'' v) of
                (Some k, Some x) \<Rightarrow> if k = [] then (False, M) else (True, M(k \<mapsto> x))
              | _ \<Rightarrow> (False, M))
           else if op = ''recall'' then (case key of None \<Rightarrow> True | Some k \<Rightarrow> M k \<noteq> None, M)
           else if op = ''forget'' then
             (case key of None \<Rightarrow> (False, M) | Some k \<Rightarrow> (M k \<noteq> None, M(k := None)))
           else (False, M)))"

lemma memory_op_spec:
  "memory_spec v (map_option mf_value \<circ> map_of (mm_facts m)) =
     (case memory_apply parse render now arguments m of
        (r, m') \<Rightarrow> (\<not> isl r, map_option mf_value \<circ> map_of (mm_facts m')))"
  if "parse arguments = Inr v"
proof (cases "get_str ''op'' v")
  case None
  then show ?thesis using that by (simp add: memory_spec_def memory_apply_def)
next
  case (Some op)
  consider (store) "op = ''store''" | (recall) "op = ''recall''" | (forget) "op = ''forget''"
    | (other) "op \<notin> {''store'', ''recall'', ''forget''}" by auto
  then show ?thesis
  proof cases
    case store
    then show ?thesis
      using that Some
      by (cases "get_str ''key'' v"; cases "get_str ''value'' v")
        (auto simp: memory_spec_def memory_apply_def memory_op_def memory_store_def Let_def split: option.splits)
  next
    case recall
    then show ?thesis
      using that Some
      by (cases "get_str ''key'' v")
        (auto simp: memory_spec_def memory_apply_def memory_op_def memory_recall_def split: option.splits)
  next
    case forget
    then show ?thesis
      using that Some
      by (cases "get_str ''key'' v")
        (auto simp: memory_spec_def memory_apply_def memory_op_def memory_forget_def split: option.splits)
  next
    case other
    then show ?thesis using that Some by (simp add: memory_spec_def memory_apply_def memory_op_def)
  qed
qed

lemma recall_reply:
  assumes "parse arguments = Inr v" "get_str ''op'' v = Some ''recall''" "get_str ''key'' v = Some k"
    and "fst (memory_apply parse render now arguments m) = Inr out" "memory_wf m"
  shows "\<exists>f. out = render (JArr [fact_json f]) \<and> mf_key f = k \<and>
    Some (mf_value f) = map_option mf_value (map_of (mm_facts m) k)"
  using assms
  by (auto simp: memory_apply_def memory_op_def memory_recall_def memory_wf_def
      split: option.splits dest!: map_of_SomeD)

text \<open>C12 (memory_refines_map): Over the guest storage on the session store, the memory tool is a map from keys to
  values. A call with readable arguments is accepted when the specification accepts it, and then the text it leaves
  in storage holds the specification's map: a store puts its value under its key, a forget removes its key, every
  other key keeps its value; a refused call leaves the map as it was. A recall of a key answers with the fact that
  has the value the map holds.\<close>

theorem memory_refines_map:
  assumes live: "bound (fst w)" "st_fault (snd w) = None"
    and args: "parse arguments = Inr v"
    and stored: "stored_text (guest_host (session_entries now)) MEMORY_NAMESPACE MEMORY_KEY w = Inr stored"
    and codec: "m' = snd (memory_apply parse render clock arguments (memory_parse parse stored))"
      "parse (render (facts_json m')) = Inr (facts_json m')"
    and call: "memory_invoke parse render clock (guest_host (session_entries now)) arguments w = (r, w')"
  shows "\<exists>stored'. stored_text (guest_host (session_entries now)) MEMORY_NAMESPACE MEMORY_KEY w' = Inr stored' \<and>
    memory_spec v (memory_values parse stored) = (\<not> isl r, memory_values parse stored') \<and>
    (get_str ''op'' v = Some ''recall'' \<and> get_str ''key'' v = Some k \<and> r = Inr out \<longrightarrow>
      (\<exists>f. out = render (JArr [fact_json f]) \<and> mf_key f = k \<and>
        memory_values parse stored k = Some (mf_value f)))"
proof -
  let ?hs = "guest_host (session_entries now)" and ?m = "memory_parse parse stored"
  have ok: "bound (fst w) \<and> st_fault (snd w) = None" using live by simp
  obtain q where q: "memory_apply parse render clock arguments ?m = (q, m')"
    using codec(1) by (metis prod.collapse)
  have wf: "memory_wf m'" using codec(1) memory_apply_wf memory_parse_wf by simp
  have spec: "memory_spec v (memory_values parse stored) =
      (\<not> isl q, map_option mf_value \<circ> map_of (mm_facts m'))"
    using memory_op_spec [where parse = parse and arguments = arguments and v = v and m = "?m" and render = render
          and now = clock, OF args] q by (simp add: memory_values_def)
  show ?thesis
  proof (cases q)
    case (Inl e)
    then have "r = Inl (memory_tool_error e)" "w' = w"
      using call stored q by (simp_all add: memory_invoke_def)
    moreover have "m' = ?m"
      using q Inl args
      by (auto simp: memory_apply_def memory_op_def memory_store_def memory_forget_def Let_def
          split: option.splits if_splits)
    ultimately show ?thesis using spec Inl stored by (simp add: memory_values_def)
  next
    case (Inr result)
    obtain e where e: "fst (hs_set ?hs MEMORY_NAMESPACE MEMORY_KEY (memory_render render m') w) = Inr e"
      using guest_rows.set_done [OF ok] by blast
    then have r: "r = Inr result" "w' = snd (hs_set ?hs MEMORY_NAMESPACE MEMORY_KEY (memory_render render m') w)"
      using call stored q Inr by (auto simp: memory_invoke_def write_stored_def split: prod.splits)
    have kept: "stored_text ?hs MEMORY_NAMESPACE MEMORY_KEY w' = Inr (Some (memory_render render m'))"
      using guest_rows.stored_set [OF ok] r(2) by simp
    have "memory_values parse (Some (memory_render render m')) = map_option mf_value \<circ> map_of (mm_facts m')"
      using memory_round_trip [where parse = parse and render = render, OF wf codec(2)] by (simp add: memory_values_def)
    then have "memory_spec v (memory_values parse stored) =
        (\<not> isl r, memory_values parse (Some (memory_render render m')))"
      using spec Inr r(1) by simp
    moreover have "\<exists>f. out = render (JArr [fact_json f]) \<and> mf_key f = k \<and>
        memory_values parse stored k = Some (mf_value f)"
      if "get_str ''op'' v = Some ''recall''" "get_str ''key'' v = Some k" "r = Inr out"
    proof -
      have "fst (memory_apply parse render clock arguments ?m) = Inr out" using q Inr r(1) that(3) by simp
      from recall_reply [OF args that(1,2) this memory_parse_wf] obtain f
        where "out = render (JArr [fact_json f])" "mf_key f = k"
          "Some (mf_value f) = map_option mf_value (map_of (mm_facts ?m) k)" by blast
      then show ?thesis by (intro exI [of _ f]) (simp add: memory_values_def)
    qed
    ultimately show ?thesis using kept by blast
  qed
qed

definition store_call :: json where
  "store_call = JObj [(''key'', JStr ''k''), (''op'', JStr ''store''), (''value'', JStr ''v'')]"

definition one_fact :: memory where
  "one_fact = \<lparr>mm_facts = [(''k'', \<lparr>mf_id = 0, mf_key = ''k'', mf_value = ''v'', mf_created_at = ''t'',
     mf_updated_at = ''t''\<rparr>)], mm_next_id = 1\<rparr>"

definition memory_demo_parse :: parser where
  "memory_demo_parse t = (if t = ''call'' then Inr store_call else Inr (facts_json one_fact))"

lemma demo_apply:
  "memory_apply memory_demo_parse (\<lambda>_. ''facts'') ''t'' ''call'' empty_memory = (Inr ''facts'', one_fact)"
  by (simp add: memory_apply_def memory_demo_parse_def store_call_def json_simps memory_op_def memory_store_def
      empty_memory_def one_fact_def Let_def)

theorem memory_refines_map_witness:
  "\<exists>stored'. stored_text (guest_host (session_entries 1)) MEMORY_NAMESPACE MEMORY_KEY
      (snd (memory_invoke memory_demo_parse (\<lambda>_. ''facts'') ''t'' (guest_host (session_entries 1)) ''call''
        (demo_guest ''a'', empty_store))) = Inr stored' \<and>
    memory_values memory_demo_parse stored' = [''k'' \<mapsto> ''v'']"
proof -
  let ?hs = "guest_host (session_entries 1)" and ?w = "(demo_guest ''a'', empty_store)"
  have b: "bound (fst ?w)" "st_fault (snd ?w) = None"
    by (simp_all add: bound_def durable_def demo_guest_def per_session_def bind_storage_session_def empty_store_def)
  have none: "stored_text ?hs MEMORY_NAMESPACE MEMORY_KEY ?w = Inr None"
    by (simp add: stored_text_def guest_host_def guest_get_def demo_guest_def per_session_def bind_storage_session_def scope_def
        session_entries_def store_get_def store_defs empty_store_def)
  have "memory_spec store_call (memory_values memory_demo_parse None) = (True, [''k'' \<mapsto> ''v''])"
    by (simp add: memory_spec_def store_call_def json_simps memory_values_def memory_parse_def empty_memory_def
        fun_eq_iff)
  with memory_refines_map [OF b _ none refl _ prod.collapse [symmetric],
      where parse = memory_demo_parse and arguments = "''call''" and v = store_call and render = "\<lambda>_. ''facts''"
        and clock = "''t''"]
  show ?thesis
    by (fastforce simp: memory_parse_def demo_apply memory_demo_parse_def)
qed

end
