(* ===== verification/FileTools.thy ===== *)
theory FileTools
  imports HostApi
begin

text \<open>
  The file tools over the host's file calls: \<open>extensions/tool-fs/src/lib.rs\<close> (read, write, grep) and
  \<open>extensions/tool-find/src/lib.rs\<close> (glob search). Both walk the workspace with \<open>GuestFs.walk\<close>. Their
  meta data, lifecycle and log lines are not modelled.
\<close>

section \<open>The filesystem tool\<close>

definition MAX_MATCHES :: nat where "MAX_MATCHES = 400"

definition fs_matches :: "string \<Rightarrow> string \<Rightarrow> string" where
  "fs_matches haystack pattern =
     join_with [newline]
       (map (\<lambda>(i, line). show_nat (i + 1) @ '':'' @ line)
         (filter (\<lambda>(_, line). contains_text pattern line) (enumerate 0 (str_lines haystack))))"

record hits =
  ht_lines :: "string list"
  ht_capped :: bool

text \<open>The two loops of \<open>grep_tree\<close>: \<open>True\<close> beside the lines when the cap ended the search.\<close>

fun grep_lines ::
  "string \<Rightarrow> string \<Rightarrow> (nat \<times> string) list \<Rightarrow> string list \<Rightarrow> string list \<times> bool" where
  "grep_lines path pattern [] acc = (acc, False)"
| "grep_lines path pattern ((i, line) # rest) acc =
     (if contains_text pattern line then
        (if length acc = MAX_MATCHES then (acc, True)
         else grep_lines path pattern rest
                (acc @ [path @ '':'' @ show_nat (i + 1) @ '':'' @ line]))
      else grep_lines path pattern rest acc)"

fun grep_files ::
  "(string \<Rightarrow> string option) \<Rightarrow> string \<Rightarrow> string list \<Rightarrow> string list \<Rightarrow> string list \<times> bool" where
  "grep_files read pattern [] acc = (acc, False)"
| "grep_files read pattern (path # files) acc =
     (case read path of
        None \<Rightarrow> grep_files read pattern files acc
      | Some contents \<Rightarrow>
          (case grep_lines path pattern (enumerate 0 (str_lines contents)) acc of
             (acc1, True) \<Rightarrow> (acc1, True)
           | (acc1, False) \<Rightarrow> grep_files read pattern files acc1))"

definition grep_tree :: "string list \<Rightarrow> string \<Rightarrow> (string \<Rightarrow> string option) \<Rightarrow> hits" where
  "grep_tree files pattern read =
     (case grep_files read pattern files [] of (ls, capped) \<Rightarrow> \<lparr>ht_lines = ls, ht_capped = capped\<rparr>)"

definition grep_render :: "string \<Rightarrow> hits \<Rightarrow> string option \<Rightarrow> string" where
  "grep_render pattern h walk_bound =
     (if ht_lines h = [] then ''no matches for '' @ pattern
      else truncate_output (join_with [newline]
        ((if ht_capped h then [''[partial: stopped at the match cap ('' @ show_nat MAX_MATCHES @ '')]''] else []) @
         (case walk_bound of
            Some b \<Rightarrow> [''[partial: the file walk stopped at the '' @ b @ '']'']
          | None \<Rightarrow> []) @
         [join_with [newline] (ht_lines h)])))"

definition fs_grep :: "'w host_fs \<Rightarrow> string \<Rightarrow> string \<Rightarrow> string \<Rightarrow> 'w \<Rightarrow> tool_error + string" where
  "fs_grep fs path pattern gl w =
     (case hf_list fs path w of
        None \<Rightarrow>
          (case hf_read fs path w of
             None \<Rightarrow> Inl ExecutionFailed
           | Some content \<Rightarrow> Inr (truncate_output (fs_matches content pattern)))
      | Some _ \<Rightarrow>
          (let found = walk path gl (\<lambda>dir. hf_list fs dir w);
               h = grep_tree (oc_paths found) pattern (\<lambda>p. hf_read fs p w)
           in Inr (grep_render pattern h (oc_bounded_by found))))"

definition fs_invoke ::
  "parser \<Rightarrow> 'w host_fs \<Rightarrow> string \<Rightarrow> 'w \<Rightarrow> (tool_error + string) \<times> 'w" where
  "fs_invoke parse fs arguments w =
     (case parse arguments of
        Inl _ \<Rightarrow> (Inl InvalidArguments, w)
      | Inr value \<Rightarrow>
          (case get_str ''op'' value of
             None \<Rightarrow> (Inl InvalidArguments, w)
           | Some op \<Rightarrow>
               (let path = get_str ''path'' value
                in if op = ''read'' then
                     (case path of
                        None \<Rightarrow> (Inl InvalidArguments, w)
                      | Some p \<Rightarrow>
                          (case hf_read fs p w of
                             None \<Rightarrow> (Inl ExecutionFailed, w)
                           | Some content \<Rightarrow> (Inr (truncate_output content), w)))
                   else if op = ''grep'' then
                     (case get_str ''pattern'' value of
                        None \<Rightarrow> (Inl InvalidArguments, w)
                      | Some pattern \<Rightarrow>
                          (fs_grep fs (case path of Some p \<Rightarrow> p | None \<Rightarrow> ''.'') pattern
                             (case get_str ''glob'' value of Some g \<Rightarrow> g | None \<Rightarrow> ''**/*'') w, w))
                   else if op = ''write'' then
                     (case path of
                        None \<Rightarrow> (Inl InvalidArguments, w)
                      | Some p \<Rightarrow>
                          (let contents = (case get_str ''contents'' value of Some c \<Rightarrow> c | None \<Rightarrow> [])
                           in case hf_write fs p contents w of
                                (False, w1) \<Rightarrow> (Inl ExecutionFailed, w1)
                              | (True, w1) \<Rightarrow>
                                  (Inr (''wrote '' @ p @ '' ('' @ show_nat (length contents) @ '' bytes)''), w1)))
                   else (Inl InvalidArguments, w))))"

section \<open>The find tool\<close>

text \<open>\<open>position\<close> with its running count: where the paths stop fitting.\<close>

fun fitting_paths :: "nat \<Rightarrow> string list \<Rightarrow> string list" where
  "fitting_paths used [] = []"
| "fitting_paths used (p # ps) =
     (let used1 = used + length p + 1
      in if MAX_OUTPUT_BYTES < used1 then [] else p # fitting_paths used1 ps)"

definition find_render :: "string \<Rightarrow> walk_outcome \<Rightarrow> string" where
  "find_render pattern outcome =
     (if oc_paths outcome = [] then ''no files match '' @ pattern
      else
        (let kept = fitting_paths 0 (oc_paths outcome);
             omitted = length (oc_paths outcome) - length kept
         in join_with [newline]
              ([join_with [newline] kept] @
               (case oc_bounded_by outcome of
                  Some b \<Rightarrow> [ellipsis @ ''[partial: stopped at the '' @ b @ '']'']
                | None \<Rightarrow> []) @
               (if 0 < omitted then [ellipsis @ ''[truncated: '' @ show_nat omitted @ '' more paths omitted]'']
                else []))))"

definition find_invoke :: "parser \<Rightarrow> 'w host_fs \<Rightarrow> string \<Rightarrow> 'w \<Rightarrow> (tool_error + string) \<times> 'w" where
  "find_invoke parse fs arguments w =
     (case parse arguments of
        Inl _ \<Rightarrow> (Inl InvalidArguments, w)
      | Inr value \<Rightarrow>
          (case get_str ''pattern'' value of
             None \<Rightarrow> (Inl InvalidArguments, w)
           | Some pattern \<Rightarrow>
               (let root = (case get_str ''path'' value of Some p \<Rightarrow> p | None \<Rightarrow> ''.'')
                in case hf_list fs root w of
                     None \<Rightarrow> (Inl ExecutionFailed, w)
                   | Some _ \<Rightarrow>
                       (Inr (find_render pattern (walk root pattern (\<lambda>dir. hf_list fs dir w))), w))))"

section \<open>Facts\<close>

text \<open>Every matching line of a file, as \<open>grep\<close> writes it.\<close>

definition line_hits :: "string \<Rightarrow> string \<Rightarrow> string \<Rightarrow> string list" where
  "line_hits pattern path contents =
     map (\<lambda>(i, line). path @ '':'' @ show_nat (i + 1) @ '':'' @ line)
       (filter (\<lambda>(_, line). contains_text pattern line) (enumerate 0 (str_lines contents)))"

definition all_hits :: "string list \<Rightarrow> string \<Rightarrow> (string \<Rightarrow> string option) \<Rightarrow> string list" where
  "all_hits files pattern read =
     concat (map (\<lambda>p. case read p of None \<Rightarrow> [] | Some c \<Rightarrow> line_hits pattern p c) files)"

definition hits_of :: "string \<Rightarrow> string \<Rightarrow> (nat \<times> string) list \<Rightarrow> string list" where
  "hits_of path pattern ls =
     map (\<lambda>(i, line). path @ '':'' @ show_nat (i + 1) @ '':'' @ line)
       (filter (\<lambda>(_, line). contains_text pattern line) ls)"

lemma grep_lines_take:
  "length acc \<le> MAX_MATCHES \<Longrightarrow> grep_lines path pattern ls acc =
     (take MAX_MATCHES (acc @ hits_of path pattern ls),
      MAX_MATCHES < length (acc @ hits_of path pattern ls))"
  by (induction path pattern ls acc rule: grep_lines.induct) (auto simp: hits_of_def)

lemma grep_files_take:
  "length acc \<le> MAX_MATCHES \<Longrightarrow> grep_files read pattern files acc =
     (take MAX_MATCHES (acc @ all_hits files pattern read),
      MAX_MATCHES < length (acc @ all_hits files pattern read))"
proof (induction files arbitrary: acc)
  case Nil
  then show ?case by (simp add: all_hits_def)
next
  case (Cons path files)
  show ?case
  proof (cases "read path")
    case None
    then show ?thesis using Cons by (simp add: all_hits_def)
  next
    case (Some contents)
    have h: "hits_of path pattern (enumerate 0 (str_lines contents)) = line_hits pattern path contents"
      by (simp add: hits_of_def line_hits_def)
    let ?acc = "acc @ line_hits pattern path contents"
    have all: "all_hits (path # files) pattern read = line_hits pattern path contents @ all_hits files pattern read"
      using Some by (simp add: all_hits_def)
    show ?thesis
    proof (cases "MAX_MATCHES < length ?acc")
      case True
      then show ?thesis unfolding all using Some Cons.prems by (simp add: grep_lines_take h)
    next
      case False
      then show ?thesis
        unfolding all using Some Cons.prems Cons.IH [of ?acc] by (simp add: grep_lines_take h)
    qed
  qed
qed

text \<open>The optimised search is the reference: every hit of every readable file, cut at the cap.\<close>

lemma grep_tree_all:
  "grep_tree files pattern read =
     \<lparr>ht_lines = take MAX_MATCHES (all_hits files pattern read),
      ht_capped = (MAX_MATCHES < length (all_hits files pattern read))\<rparr>"
  by (simp add: grep_tree_def grep_files_take)

end
