(* ===== verification/ProcessTools.thy ===== *)
theory ProcessTools
  imports HostApi
begin

text \<open>
  The tools that run programs through the host: \<open>extensions/tool-git/src/lib.rs\<close> (read-only inspection),
  \<open>extensions/tool-shell/src/lib.rs\<close> (one command) and \<open>extensions/tool-proc/src/lib.rs\<close> (long-lived
  children by name, with the list of the started ones as the instance's state). Meta data, lifecycle and log
  lines are not modelled. A JSON answer has its members in key order, the order of serde_json's map.
\<close>

section \<open>git\<close>

definition MAX_COUNT :: nat where "MAX_COUNT = 200"
definition DEFAULT_COUNT :: nat where "DEFAULT_COUNT = 20"
definition MAX_ARG_LEN :: nat where "MAX_ARG_LEN = 200"

definition HARDENING :: "string list" where
  "HARDENING =
     [''--no-pager'', ''-c'', ''core.fsmonitor=false'', ''-c'', ''core.hooksPath=/dev/null'', ''-c'',
      ''protocol.ext.allow=never'', ''--no-optional-locks'']"

record git_request =
  gr_op :: string
  gr_path :: "string option"
  gr_rev :: "string option"
  gr_staged :: bool
  gr_count :: "nat option"

text \<open>The scalars \<open>validate\<close> accepts are all one byte, so the bytes are looked at.\<close>

definition git_char :: "char \<Rightarrow> bool" where
  "git_char c \<longleftrightarrow> is_ascii_alnum c \<or> c \<in> set (''._/-^~@'' @ [CHR ''{'', CHR ''}''])"

definition git_validate :: "string \<Rightarrow> string \<Rightarrow> string + string" where
  "git_validate value what =
     (if value = [] \<or> MAX_ARG_LEN < length value
      then Inl (what @ '' must be 1..='' @ show_nat MAX_ARG_LEN @ '' characters'')
      else if starts_with ''-'' value
      then Inl (what @ '' '' @ bquote value @ '' must not start with '' @ bquote ''-'')
      else if \<not> list_all git_char value
      then Inl (what @ '' '' @ bquote value @ '' has characters this tool does not accept'')
      else Inr value)"

definition git_pathspec :: "string list \<Rightarrow> string option \<Rightarrow> string + string list" where
  "git_pathspec out path =
     (case path of
        None \<Rightarrow> Inr out
      | Some p \<Rightarrow>
          try_then (git_validate p ''path'') (\<lambda>path.
            if starts_with ''/'' path \<or> list_ex (\<lambda>seg. seg = ''..'') (split_on CHR ''/'' path)
            then Inl (''path '' @ bquote path @ '' must stay inside the repository'')
            else Inr (out @ [''--'', path])))"

definition clamp_count :: "nat option \<Rightarrow> nat" where
  "clamp_count count = max 1 (min MAX_COUNT (case count of Some n \<Rightarrow> n | None \<Rightarrow> DEFAULT_COUNT))"

definition git_argv :: "git_request \<Rightarrow> string + string list" where
  "git_argv req =
     (if gr_op req = ''status'' then Inr (HARDENING @ [''status'', ''--short'', ''--branch''])
      else if gr_op req = ''branch'' then Inr (HARDENING @ [''branch'', ''--list'', ''--no-color''])
      else if gr_op req = ''diff'' then
        git_pathspec (HARDENING @ [''diff'', ''--no-ext-diff'', ''--no-textconv''] @
            (if gr_staged req then [''--staged''] else [])) (gr_path req)
      else if gr_op req = ''log'' then
        git_pathspec (HARDENING @ [''log'', ''--oneline'', ''--no-decorate'', ''-n'',
            show_nat (clamp_count (gr_count req))]) (gr_path req)
      else if gr_op req = ''show'' then
        (case gr_rev req of
           None \<Rightarrow> Inl (''op=show needs a '' @ bquote ''rev'')
         | Some rv \<Rightarrow>
             map_ok (\<lambda>r. HARDENING @ [''show'', ''--no-ext-diff'', ''--no-textconv'', r])
               (git_validate rv ''rev''))
      else Inl (''unknown op '' @ bquote (gr_op req) @ '' '' @ em_dash @ '' this tool reads a repository only: '' @
                ''status | diff | log | show | branch''))"

definition show_int :: "int \<Rightarrow> string" where
  "show_int i = (if i < 0 then ''-'' @ show_nat (nat (- i)) else show_nat (nat i))"

definition git_render :: "int \<Rightarrow> string \<Rightarrow> string \<Rightarrow> string" where
  "git_render code out err =
     (let body = (if trim out = [] \<and> code = 0 then ''(no output)'' else trim_end out)
      in if code = 0 then truncate_output body
         else truncate_output (''git exited '' @ show_int code @ '': '' @
                (if trim err = [] then body else trim_end err)))"

definition git_request_of :: "string \<Rightarrow> json \<Rightarrow> git_request" where
  "git_request_of op v =
     \<lparr>gr_op = op, gr_path = get_str ''path'' v, gr_rev = get_str ''rev'' v,
      gr_staged = (case get_bool ''staged'' v of Some b \<Rightarrow> b | None \<Rightarrow> False), gr_count = get_u64 ''count'' v\<rparr>"

definition git_invoke ::
  "parser \<Rightarrow> 'w host_process \<Rightarrow> string \<Rightarrow> 'w \<Rightarrow> (tool_error + string) \<times> 'w" where
  "git_invoke parse hp arguments w =
     (case parse arguments of
        Inl _ \<Rightarrow> (Inl InvalidArguments, w)
      | Inr v \<Rightarrow>
          (case get_str ''op'' v of
             None \<Rightarrow> (Inl InvalidArguments, w)
           | Some op \<Rightarrow>
               (case git_argv (git_request_of op v) of
                  Inl message \<Rightarrow> (Inr (''REFUSED: '' @ message), w)
                | Inr args \<Rightarrow>
                    (case hp_exec hp ''git'' args None None w of
                       (Inl _, w1) \<Rightarrow> (Inl ExecutionFailed, w1)
                     | (Inr e, w1) \<Rightarrow> (Inr (git_render (ex_code e) (ex_stdout e) (ex_stderr e)), w1)))))"

section \<open>shell\<close>

definition shell_args :: "json \<Rightarrow> string list" where
  "shell_args v =
     (case get_array ''args'' v of Some items \<Rightarrow> List.map_filter as_str items | None \<Rightarrow> [])"

definition shell_invoke ::
  "parser \<Rightarrow> printer \<Rightarrow> 'w host_process \<Rightarrow> string \<Rightarrow> 'w \<Rightarrow> (tool_error + string) \<times> 'w" where
  "shell_invoke parse render hp arguments w =
     (case parse arguments of
        Inl _ \<Rightarrow> (Inl InvalidArguments, w)
      | Inr v \<Rightarrow>
          (case get_str ''command'' v of
             None \<Rightarrow> (Inl InvalidArguments, w)
           | Some command \<Rightarrow>
               (case hp_exec hp command (shell_args v) None None w of
                  (Inl _, w1) \<Rightarrow> (Inl ExecutionFailed, w1)
                | (Inr e, w1) \<Rightarrow>
                    (Inr (render (JObj [(''code'', JInt (ex_code e)), (''stderr'', JStr (ex_stderr e)),
                       (''stdout'', JStr (ex_stdout e))])), w1))))"

section \<open>Long-lived children\<close>

definition READ_BYTES :: nat where "READ_BYTES = 8192"
definition READ_WAIT_MS :: nat where "READ_WAIT_MS = 200"

text \<open>The thread-local \<open>STARTED\<close>: names and the handles the host gave.\<close>

type_synonym started = "(string \<times> nat) list"

definition proc_handle :: "string \<Rightarrow> started \<Rightarrow> nat option" where
  "proc_handle name st = map_option snd (List.find (\<lambda>(n, _). n = name) st)"

definition proc_refused :: "printer \<Rightarrow> string \<Rightarrow> string" where
  "proc_refused render reason = render (JObj [(''refused'', JStr reason)])"

definition no_such_child :: "printer \<Rightarrow> 'w host_process \<Rightarrow> string \<Rightarrow> 'w \<Rightarrow> string" where
  "no_such_child render hp name w =
     render (JObj [(''granted'', JArr (map JStr (hp_granted hp w))),
       (''refused'', JStr (''no long-lived child named '' @ bquote name @ '' is granted''))])"

definition proc_running :: "'w host_process \<Rightarrow> string \<Rightarrow> started \<Rightarrow> 'w \<Rightarrow> bool" where
  "proc_running hp name st w =
     (case proc_handle name st of Some h \<Rightarrow> hp_is_running hp h w | None \<Rightarrow> False)"

definition proc_list :: "printer \<Rightarrow> 'w host_process \<Rightarrow> started \<Rightarrow> 'w \<Rightarrow> string" where
  "proc_list render hp st w =
     render (JObj [(''children'', JArr (map (\<lambda>name.
       JObj [(''name'', JStr name), (''running'', JBool (proc_running hp name st w))]) (hp_granted hp w)))])"

definition drop_started :: "string \<Rightarrow> started \<Rightarrow> started" where
  "drop_started name st = filter (\<lambda>(n, _). n \<noteq> name) st"

definition proc_start ::
  "printer \<Rightarrow> 'w host_process \<Rightarrow> string \<Rightarrow> started \<times> 'w \<Rightarrow> string \<times> started \<times> 'w" where
  "proc_start render hp name = (\<lambda>(st, w).
     if proc_running hp name st w
     then (render (JObj [(''name'', JStr name), (''running'', JBool True), (''started'', JBool False)]), st, w)
     else
       (case hp_spawn hp name w of
          (Inr child, w1) \<Rightarrow>
            (render (JObj [(''name'', JStr name), (''running'', JBool True), (''started'', JBool True)]),
             drop_started name st @ [(name, child)], w1)
        | (Inl ProcDenied, w1) \<Rightarrow> (no_such_child render hp name w1, st, w1)
        | (Inl _, w1) \<Rightarrow> (proc_refused render (bquote name @ '' could not be started''), st, w1)))"

definition not_started :: "printer \<Rightarrow> 'w host_process \<Rightarrow> string \<Rightarrow> 'w \<Rightarrow> string" where
  "not_started render hp name w =
     (if name \<in> set (hp_granted hp w)
      then proc_refused render (bquote name @ '' is granted but not running; start it first'')
      else no_such_child render hp name w)"

definition proc_output ::
  "printer \<Rightarrow> 'w host_process \<Rightarrow> string \<Rightarrow> started \<times> 'w \<Rightarrow> string \<times> started \<times> 'w" where
  "proc_output render hp name = (\<lambda>(st, w).
     case proc_handle name st of
       None \<Rightarrow> (not_started render hp name w, st, w)
     | Some child \<Rightarrow>
         (case hp_read_stdout hp child READ_BYTES READ_WAIT_MS w of
            (out, w1) \<Rightarrow>
              (render (JObj [(''name'', JStr name),
                 (''output'', JStr (case out of Some s \<Rightarrow> s | None \<Rightarrow> [])),
                 (''running'', JBool (hp_is_running hp child w1))]), st, w1)))"

definition proc_stop ::
  "printer \<Rightarrow> 'w host_process \<Rightarrow> string \<Rightarrow> started \<times> 'w \<Rightarrow> string \<times> started \<times> 'w" where
  "proc_stop render hp name = (\<lambda>(st, w).
     case proc_handle name st of
       None \<Rightarrow> (not_started render hp name w, st, w)
     | Some child \<Rightarrow>
         (render (JObj [(''name'', JStr name), (''stopped'', JBool True)]), drop_started name st, hp_kill hp child w))"

definition proc_invoke ::
  "parser \<Rightarrow> printer \<Rightarrow> 'w host_process \<Rightarrow> string \<Rightarrow> started \<times> 'w
     \<Rightarrow> (tool_error + string) \<times> started \<times> 'w" where
  "proc_invoke parse render hp arguments sw =
     (case parse arguments of
        Inl _ \<Rightarrow> (Inl InvalidArguments, sw)
      | Inr v \<Rightarrow>
          (case get_str ''op'' v of
             None \<Rightarrow> (Inl InvalidArguments, sw)
           | Some op \<Rightarrow>
               (if op = ''list'' then (Inr (proc_list render hp (fst sw) (snd sw)), sw)
                else
                  (case get_str ''name'' v of
                     None \<Rightarrow> (Inl InvalidArguments, sw)
                   | Some name \<Rightarrow>
                       apfst Inr
                         (if op = ''start'' then proc_start render hp name sw
                          else if op = ''output'' then proc_output render hp name sw
                          else if op = ''stop'' then proc_stop render hp name sw
                          else (proc_refused render (''unknown op '' @ bquote op), sw))))))"

section \<open>Properties\<close>

text \<open>C11 (git_only_reads): The git tool runs nothing but \<open>git\<close>, hardened, with one of five reading subcommands and
  flags of its own; the caller's text reaches it only as a path after \<open>--\<close> that stays in the repository, or as a
  revision that is no option. Refused arguments run nothing, and neither the directory nor the input is the
  caller's.\<close>

definition reading_argv :: "string list \<Rightarrow> bool" where
  "reading_argv args \<longleftrightarrow>
     (\<exists>sub own rest. args = HARDENING @ sub # own @ rest \<and>
        (sub, own) \<in> {(''status'', [''--short'', ''--branch'']), (''branch'', [''--list'', ''--no-color'']),
            (''diff'', [''--no-ext-diff'', ''--no-textconv'']),
            (''diff'', [''--no-ext-diff'', ''--no-textconv'', ''--staged'']),
            (''show'', [''--no-ext-diff'', ''--no-textconv''])} \<union>
          {(''log'', [''--oneline'', ''--no-decorate'', ''-n'', show_nat n]) |n. 1 \<le> n \<and> n \<le> 200} \<and>
        (rest = [] \<or>
         (\<exists>p. rest = [''--'', p] \<and> sub \<in> {''diff'', ''log''} \<and> \<not> starts_with ''/'' p \<and>
            ''..'' \<notin> set (split_on CHR ''/'' p)) \<or>
         (\<exists>r. rest = [r] \<and> sub = ''show'' \<and> r \<noteq> [] \<and> hd r \<noteq> CHR ''-'')))"

lemma git_validate_Inr:
  "git_validate v what = Inr r \<longleftrightarrow> r = v \<and> v \<noteq> [] \<and> length v \<le> MAX_ARG_LEN \<and> hd v \<noteq> CHR ''-'' \<and> list_all git_char v"
  by (cases v) (auto simp: git_validate_def starts_with_def)

lemma git_pathspec_Inr:
  "git_pathspec out path = Inr args \<Longrightarrow> args = out \<or>
     (\<exists>p. args = out @ [''--'', p] \<and> \<not> starts_with ''/'' p \<and> ''..'' \<notin> set (split_on CHR ''/'' p))"
  by (auto simp: git_pathspec_def try_then_eq_Inr git_validate_Inr list_ex_iff split: option.splits if_splits)

lemma git_argv_reads:
  assumes "git_argv req = Inr args"
  shows "reading_argv args"
proof -
  have count: "1 \<le> clamp_count (gr_count req)" "clamp_count (gr_count req) \<le> 200"
    by (auto simp: clamp_count_def MAX_COUNT_def)
  consider (status) "gr_op req = ''status''" | (branch) "gr_op req = ''branch''" | (diff) "gr_op req = ''diff''"
    | (lg) "gr_op req = ''log''" | (sh) "gr_op req = ''show''"
    using assms by (auto simp: git_argv_def split: if_splits)
  then show ?thesis
  proof cases
    case status
    with assms have "args = HARDENING @ ''status'' # [''--short'', ''--branch''] @ []" by (simp add: git_argv_def)
    then show ?thesis unfolding reading_argv_def by blast
  next
    case branch
    with assms have "args = HARDENING @ ''branch'' # [''--list'', ''--no-color''] @ []" by (simp add: git_argv_def)
    then show ?thesis unfolding reading_argv_def by blast
  next
    case diff
    let ?own = "[''--no-ext-diff'', ''--no-textconv''] @ (if gr_staged req then [''--staged''] else [])"
    from diff assms have "git_pathspec (HARDENING @ ''diff'' # ?own) (gr_path req) = Inr args"
      by (simp add: git_argv_def)
    from git_pathspec_Inr [OF this] obtain rest where rest: "args = HARDENING @ ''diff'' # ?own @ rest"
      "rest = [] \<or> (\<exists>p. rest = [''--'', p] \<and> \<not> starts_with ''/'' p \<and> ''..'' \<notin> set (split_on CHR ''/'' p))"
      by fastforce
    show ?thesis
      unfolding reading_argv_def
      by (rule exI [of _ "''diff''"], rule exI [of _ ?own], rule exI [of _ rest]) (use rest in auto)
  next
    case lg
    let ?own = "[''--oneline'', ''--no-decorate'', ''-n'', show_nat (clamp_count (gr_count req))]"
    from lg assms have "git_pathspec (HARDENING @ ''log'' # ?own) (gr_path req) = Inr args"
      by (simp add: git_argv_def)
    from git_pathspec_Inr [OF this] obtain rest where rest: "args = HARDENING @ ''log'' # ?own @ rest"
      "rest = [] \<or> (\<exists>p. rest = [''--'', p] \<and> \<not> starts_with ''/'' p \<and> ''..'' \<notin> set (split_on CHR ''/'' p))"
      by fastforce
    show ?thesis
      unfolding reading_argv_def
      by (rule exI [of _ "''log''"], rule exI [of _ ?own], rule exI [of _ rest]) (use rest count in auto)
  next
    case sh
    then obtain r where "git_validate r ''rev'' = Inr r"
      "args = HARDENING @ ''show'' # [''--no-ext-diff'', ''--no-textconv''] @ [r]"
      using assms by (auto simp: git_argv_def map_ok_eq_Inr git_validate_Inr split: option.splits)
    then show ?thesis unfolding reading_argv_def by (auto simp: git_validate_Inr)
  qed
qed

theorem git_only_reads:
  "snd (git_invoke parse hp arguments w) = w \<or>
   (\<exists>args. reading_argv args \<and> snd (git_invoke parse hp arguments w) = snd (hp_exec hp ''git'' args None None w))"
proof (cases "parse arguments")
  case (Inr v)
  show ?thesis
  proof (cases "get_str ''op'' v")
    case (Some op)
    show ?thesis
    proof (cases "git_argv (git_request_of op v)")
      case (Inr args)
      have "snd (git_invoke parse hp arguments w) = snd (hp_exec hp ''git'' args None None w)"
        using Inr \<open>parse arguments = Inr v\<close> Some by (simp add: git_invoke_def split: prod.split sum.split)
      then show ?thesis using git_argv_reads [OF Inr] by blast
    qed (use Inr Some in \<open>simp add: git_invoke_def\<close>)
  qed (use Inr in \<open>simp add: git_invoke_def\<close>)
qed (simp add: git_invoke_def)

text \<open>Whatever calls the long-lived-child tool serves, it keeps at most one child under a
  name, and every handle it reads from or kills is one the host gave for that name when it was spawned.\<close>

definition proc_run ::
  "parser \<Rightarrow> printer \<Rightarrow> 'w host_process \<Rightarrow> string list \<Rightarrow> started \<times> 'w \<Rightarrow> started \<times> 'w" where
  "proc_run parse render hp calls sw = fold (\<lambda>a sw. snd (proc_invoke parse render hp a sw)) calls sw"

definition owned :: "'w host_process \<Rightarrow> started \<Rightarrow> bool" where
  "owned hp st \<longleftrightarrow> distinct (map fst st) \<and> (\<forall>(n, h) \<in> set st. \<exists>u u'. hp_spawn hp n u = (Inr h, u'))"

lemma drop_started_owned: "owned hp st \<Longrightarrow> owned hp (drop_started name st)"
  by (auto simp: owned_def drop_started_def distinct_map_filter)

lemma drop_started_fresh: "name \<notin> set (map fst (drop_started name st))"
  by (auto simp: drop_started_def)

lemma proc_start_owned: "owned hp st \<Longrightarrow> owned hp (fst (snd (proc_start render hp name (st, w))))"
proof -
  assume o: "owned hp st"
  have "owned hp (drop_started name st @ [(name, child)])" if "hp_spawn hp name w = (Inr child, w1)" for child w1
    using drop_started_owned [OF o, of name] drop_started_fresh [of name st] that by (auto simp: owned_def)
  then show ?thesis using o by (auto simp: proc_start_def split: prod.split sum.split proc_error.split)
qed

lemma proc_invoke_owned: "owned hp (fst sw) \<Longrightarrow> owned hp (fst (snd (proc_invoke parse render hp a sw)))"
  by (cases sw) (auto simp: proc_invoke_def proc_start_owned proc_output_def proc_stop_def drop_started_owned
      split: sum.split option.split prod.split)

lemma proc_run_owned: "owned hp (fst sw) \<Longrightarrow> owned hp (fst (proc_run parse render hp calls sw))"
  unfolding proc_run_def by (induction calls arbitrary: sw) (simp_all add: proc_invoke_owned)

theorem proc_children_owned:
  assumes "proc_run parse render hp calls ([], w) = (st, w')"
  shows "distinct (map fst st) \<and>
    (proc_handle name st = Some h \<longrightarrow> (\<exists>u u'. hp_spawn hp name u = (Inr h, u')))"
proof -
  have "owned hp st" using proc_run_owned [of hp "([], w)" parse render calls] assms by (simp add: owned_def)
  moreover have "(name, h) \<in> set st" if "proc_handle name st = Some h"
    using that by (auto simp: proc_handle_def find_Some_iff in_set_conv_nth)
  ultimately show ?thesis by (auto simp: owned_def)
qed

definition counting_host :: "nat host_process" where
  "counting_host =
     \<lparr>hp_exec = (\<lambda>c args d i w. (Inl ProcDenied, w)), hp_granted = (\<lambda>w. [''x'']),
      hp_spawn = (\<lambda>n w. (Inr w, w + 1)), hp_write_stdin = (\<lambda>h s w. (True, w)),
      hp_read_stdout = (\<lambda>h m t w. (Some [], w)),
      hp_is_running = (\<lambda>h w. h < w), hp_kill = (\<lambda>h w. w)\<rparr>"

definition start_call :: json where
  "start_call = JObj [(''name'', JStr ''x''), (''op'', JStr ''start'')]"

theorem proc_children_owned_witness:
  "\<exists>u u'. hp_spawn counting_host ''x'' u = (Inr 0, u')"
proof -
  have "proc_run (\<lambda>_. Inr start_call) (\<lambda>_. []) counting_host [''a'', ''b''] ([], 0) = ([(''x'', 0)], 1)"
    by (simp add: proc_run_def proc_invoke_def start_call_def json_simps proc_start_def proc_running_def
        proc_handle_def counting_host_def drop_started_def)
  from proc_children_owned [OF this, of "''x''" 0] show ?thesis by (simp add: proc_handle_def)
qed

end
