(* ===== verification/FetchTools.thy ===== *)
theory FetchTools
  imports HostApi Egress
begin

text \<open>
  The tools that read the web through the host: \<open>extensions/tool-fetch/src/lib.rs\<close> (a page as text, with its
  own check of the address) and \<open>extensions/tool-web-search/src/lib.rs\<close> (a provider's search). Parameters:
  \<open>lower\<close> is \<open>str::to_lowercase\<close> (its Unicode table), \<open>pv6\<close> the standard library's parser of IPv6 literals,
  \<open>lossy\<close> is \<open>String::from_utf8_lossy\<close>, \<open>show_err\<close> the debug text of an HTTP error. A slice that panics makes
  the result \<open>None\<close>; in the loop that drops elements the outer \<open>None\<close> is "never returns".
\<close>

section \<open>The address check\<close>

definition LOCAL_NAMES :: "string list" where
  "LOCAL_NAMES = [''localhost'', ''ip6-localhost'', ''ip6-loopback'', ''metadata'']"

definition LOCAL_SUFFIXES :: "string list" where
  "LOCAL_SUFFIXES = [''.localhost'', ''.local'', ''.internal'', ''.home.arpa'']"

datatype address = PublicAddress | PublicName | NonPublic | Unrecognised

text \<open>\<open>Ipv4Addr::from_str\<close>: four decimal octets, no leading zeros.\<close>

definition parse_octet :: "string \<Rightarrow> nat option" where
  "parse_octet s =
     (if s \<noteq> [] \<and> length s \<le> 3 \<and> list_all is_digit s \<and> (hd s = CHR ''0'' \<longrightarrow> length s = 1) \<and> digits_value s < 256
      then Some (digits_value s) else None)"

definition parse_v4 :: "string \<Rightarrow> (32 word) option" where
  "parse_v4 s =
     (case map parse_octet (split_on CHR ''.'' s) of
        [Some a, Some b, Some c, Some d] \<Rightarrow> Some (of_nat (((a * 256 + b) * 256 + c) * 256 + d))
      | _ \<Rightarrow> None)"

definition is_private_v4 :: "32 word \<Rightarrow> bool" where
  "is_private_v4 ip =
     (let a = octet ip 0; b = octet ip 1
      in ip = 0 \<or> a = 127 \<or> (a = 10 \<or> a = 172 \<and> 16 \<le> b \<and> b \<le> 31 \<or> a = 192 \<and> b = 168) \<or>
         (a = 169 \<and> b = 254) \<or> (224 \<le> a \<and> a \<le> 239) \<or> ip = 0xffffffff \<or>
         (a = 100 \<and> 64 \<le> b \<and> b \<le> 127) \<or> 240 \<le> a)"

definition is_private_v6 :: "128 word \<Rightarrow> bool" where
  "is_private_v6 ip =
     (let seg = (ucast (drop_bit 112 ip) :: 16 word)
      in ip = 1 \<or> ip = 0 \<or> seg AND 0xff00 = 0xff00 \<or> seg AND 0xfe00 = 0xfc00 \<or> seg AND 0xffc0 = 0xfe80)"

definition classify_v4 :: "string \<Rightarrow> address" where
  "classify_v4 host =
     (case parse_v4 host of
        None \<Rightarrow> Unrecognised
      | Some ip \<Rightarrow> if is_private_v4 ip then NonPublic else PublicAddress)"

definition classify_v6 :: "(string \<Rightarrow> (128 word) option) \<Rightarrow> string \<Rightarrow> address" where
  "classify_v6 pv6 addr =
     (case pv6 (takeWhile (\<lambda>c. c \<noteq> CHR ''%'') addr) of
        None \<Rightarrow> Unrecognised
      | Some ip \<Rightarrow>
          (case to_ipv4_mapped ip of
             Some v4 \<Rightarrow> if is_private_v4 v4 then NonPublic else PublicAddress
           | None \<Rightarrow> if is_private_v6 ip then NonPublic else PublicAddress))"

definition host_char :: "char \<Rightarrow> bool" where
  "host_char c \<longleftrightarrow> is_ascii_alnum c \<or> c = CHR ''-'' \<or> c = CHR ''.''"

definition classify_address :: "(string \<Rightarrow> (128 word) option) \<Rightarrow> string \<Rightarrow> address" where
  "classify_address pv6 host =
     (case Option.bind (strip_prefix ''['' host) (strip_suffix '']'') of
        Some v6 \<Rightarrow> classify_v6 pv6 v6
      | None \<Rightarrow>
          (if list_all (\<lambda>c. is_digit c \<or> c = CHR ''.'') host then classify_v4 host
           else if \<not> list_all host_char host then Unrecognised
           else (let seg = last_piece CHR ''.'' host
                 in if seg \<noteq> [] \<and> is_digit (hd seg) then classify_v4 host else PublicName)))"

definition is_local_name :: "string \<Rightarrow> bool" where
  "is_local_name host \<longleftrightarrow> host \<in> set LOCAL_NAMES \<or> list_ex (\<lambda>s. ends_with s host) LOCAL_SUFFIXES"

text \<open>\<open>&hostport[..=h.len()]\<close> panics when nothing follows the piece before the first bracket.\<close>

definition strip_port :: "string \<Rightarrow> string option" where
  "strip_port hostport =
     (if starts_with ''['' hostport
      then (let h = takeWhile (\<lambda>c. c \<noteq> CHR '']'') hostport
            in if length h < length hostport then Some (take (length h + 1) hostport) else None)
      else Some (takeWhile (\<lambda>c. c \<noteq> CHR '':'') hostport))"

definition scheme_of :: "string \<Rightarrow> string" where
  "scheme_of url = (case split_once '':'' url of Some (scheme, _) \<Rightarrow> scheme | None \<Rightarrow> url)"

definition http_rest :: "string \<Rightarrow> string option" where
  "http_rest url =
     (case strip_prefix ''https://'' url of
        Some rest \<Rightarrow> Some rest
      | None \<Rightarrow> strip_prefix ''http://'' url)"

definition vet_host ::
  "(string \<Rightarrow> (128 word) option) \<Rightarrow> bool \<Rightarrow> string \<Rightarrow> string + unit" where
  "vet_host pv6 allow_private host =
     (if host = [] then Inl ''the URL has no host''
      else if allow_private then Inr ()
      else if is_local_name host then Inl (bquote host @ '' names this machine or a private scope'')
      else (case classify_address pv6 host of
              NonPublic \<Rightarrow> Inl (bquote host @ '' is not a public address; set '' @ bquote ''allow-private'' @
                '' to permit it'')
            | Unrecognised \<Rightarrow> Inl (bquote host @ '' is not a plain hostname or dotted-quad address '' @ em_dash @
                '' refusing an address form this tool cannot check'')
            | _ \<Rightarrow> Inr ()))"

definition vet ::
  "(string \<Rightarrow> string) \<Rightarrow> (string \<Rightarrow> (128 word) option) \<Rightarrow> string \<Rightarrow> bool \<Rightarrow> (string + unit) option" where
  "vet lower pv6 url allow_private =
     (let lowered = lower (trim url)
      in case http_rest lowered of
           None \<Rightarrow> Some (Inl (''only http:// and https:// URLs can be fetched (got '' @
                     bquote (scheme_of lowered) @ '')''))
         | Some rest \<Rightarrow> map_option (vet_host pv6 allow_private) (strip_port (authority_of rest)))"

section \<open>A page as text\<close>

fun str_find :: "string \<Rightarrow> string \<Rightarrow> nat option" where
  "str_find p [] = (if p = [] then Some 0 else None)"
| "str_find p (c # cs) =
     (if starts_with p (c # cs) then Some 0 else map_option Suc (str_find p cs))"

text \<open>\<open>String::replace_range(start..end, text)\<close>.\<close>

definition replace_range :: "string \<Rightarrow> nat \<Rightarrow> nat \<Rightarrow> string \<Rightarrow> string option" where
  "replace_range s a b t =
     (if a \<le> b \<and> b \<le> length s \<and> is_char_boundary s a \<and> is_char_boundary s b
      then Some (take a s @ t @ drop b s) else None)"

partial_function (option) drop_loop ::
  "(string \<Rightarrow> string) \<Rightarrow> string \<Rightarrow> string \<Rightarrow> string \<Rightarrow> string option option" where
  "drop_loop lower opn cls out =
     (case str_find opn (lower out) of
        None \<Rightarrow> Some (Some out)
      | Some start \<Rightarrow>
          (let fin = (case str_find cls (drop start (lower out)) of
                        Some offset \<Rightarrow> start + offset + length cls
                      | None \<Rightarrow> length out)
           in case replace_range out start fin '' '' of
                None \<Rightarrow> Some None
              | Some out1 \<Rightarrow> drop_loop lower opn cls out1))"

definition opening_of :: "string \<Rightarrow> string" where
  "opening_of name = ''<'' @ name"

definition closing_of :: "string \<Rightarrow> string" where
  "closing_of name = ''</'' @ name @ ''>''"

fun drop_elements :: "(string \<Rightarrow> string) \<Rightarrow> string list \<Rightarrow> string \<Rightarrow> string option option" where
  "drop_elements lower [] out = Some (Some out)"
| "drop_elements lower (name # names) out =
     (case drop_loop lower (opening_of name) (closing_of name) out of
        None \<Rightarrow> None
      | Some None \<Rightarrow> Some None
      | Some (Some out1) \<Rightarrow> drop_elements lower names out1)"

fun strip_tags :: "bool \<Rightarrow> string \<Rightarrow> string" where
  "strip_tags in_tag [] = []"
| "strip_tags in_tag (c # cs) =
     (if c = CHR ''<'' then strip_tags True cs
      else if c = CHR ''>'' then CHR '' '' # strip_tags False cs
      else if \<not> in_tag then c # strip_tags in_tag cs
      else strip_tags in_tag cs)"

function replace_text :: "string \<Rightarrow> string \<Rightarrow> string \<Rightarrow> string" where
  "replace_text p t [] = []"
| "replace_text p t (c # cs) =
     (if p \<noteq> [] \<and> starts_with p (c # cs) then t @ replace_text p t (drop (length p) (c # cs))
      else c # replace_text p t cs)"
  by pat_completeness auto
termination
  by (relation "measure (\<lambda>(p, t, s). length s)") auto

definition decode_entities :: "string \<Rightarrow> string" where
  "decode_entities s =
     replace_text ''&amp;'' ''&'' (replace_text ''&apos;'' [CHR 0x27] (replace_text ''&#39;'' [CHR 0x27]
       (replace_text ''&quot;'' dquote (replace_text ''&gt;'' ''>'' (replace_text ''&lt;'' ''<''
         (replace_text ''&nbsp;'' '' '' s))))))"

definition collapse :: "string \<Rightarrow> string" where
  "collapse s = trim (join_with '' '' (split_whitespace s))"

definition to_text :: "(string \<Rightarrow> string) \<Rightarrow> string \<Rightarrow> string option option" where
  "to_text lower body =
     (case drop_elements lower [''script'', ''style''] body of
        None \<Rightarrow> None
      | Some None \<Rightarrow> Some None
      | Some (Some stripped) \<Rightarrow> Some (Some (collapse (decode_entities (strip_tags False stripped)))))"

definition fetch_render ::
  "(string \<Rightarrow> string) \<Rightarrow> string \<Rightarrow> u16 \<Rightarrow> string \<Rightarrow> string option option" where
  "fetch_render lower url status body =
     map_option (map_option (\<lambda>t. truncate_output (url @ '' ['' @ show_nat (unat status) @ '']'' @
       [newline, newline] @ (if t = [] then ''(the page had no readable text)'' else t)))) (to_text lower body)"

section \<open>The fetch tool\<close>

definition FETCH_TIMEOUT_MS :: nat where "FETCH_TIMEOUT_MS = 15000"

definition fetch_allow_private :: "parser \<Rightarrow> string option \<Rightarrow> bool" where
  "fetch_allow_private parse config =
     (case parse (case config of Some raw \<Rightarrow> raw | None \<Rightarrow> ''{}'') of
        Inl _ \<Rightarrow> False
      | Inr v \<Rightarrow> (case get_bool ''allow-private'' v of Some b \<Rightarrow> b | None \<Rightarrow> False))"

definition fetch_request :: "string \<Rightarrow> http_request" where
  "fetch_request url =
     \<lparr>hq_method = ''GET'', hq_url = url,
      hq_headers = [(''Accept'', ''text/html,text/plain;q=0.9,*/*;q=0.8'')],
      hq_body = None, hq_timeout_ms = FETCH_TIMEOUT_MS\<rparr>"

text \<open>The reply, and the world after it; \<open>None\<close> is a call that never returns, \<open>Some None\<close> one that traps.\<close>

definition fetch_invoke ::
  "parser \<Rightarrow> (string \<Rightarrow> string) \<Rightarrow> (string \<Rightarrow> (128 word) option) \<Rightarrow> (string \<Rightarrow> string) \<Rightarrow> (http_error \<Rightarrow> string)
     \<Rightarrow> bool \<Rightarrow> 'w host_http \<Rightarrow> string \<Rightarrow> 'w \<Rightarrow> (tool_error + string) option option \<times> 'w" where
  "fetch_invoke parse lower pv6 lossy show_err allow_private http arguments w =
     (case parse arguments of
        Inl _ \<Rightarrow> (Some (Some (Inl InvalidArguments)), w)
      | Inr v \<Rightarrow>
          (case get_str ''url'' v of
             None \<Rightarrow> (Some (Some (Inl InvalidArguments)), w)
           | Some url \<Rightarrow>
               (case vet lower pv6 url allow_private of
                  None \<Rightarrow> (Some None, w)
                | Some (Inl reason) \<Rightarrow> (Some (Some (Inr (''REFUSED: '' @ reason))), w)
                | Some (Inr _) \<Rightarrow>
                    (case http (fetch_request url) w of
                       (Inr response, w1) \<Rightarrow>
                         (map_option (map_option Inr)
                            (fetch_render lower url (hr_status response) (lossy (hr_body response))), w1)
                     | (Inl err, w1) \<Rightarrow>
                         (Some (Some (Inr (''FAILED: '' @ url @ '' could not be fetched ('' @ show_err err @ '')''))),
                          w1)))))"

section \<open>The search tool\<close>

definition SEARCH_TIMEOUT_MS :: nat where "SEARCH_TIMEOUT_MS = 10000"

definition hex_upper :: "nat \<Rightarrow> char" where
  "hex_upper n = char_of (if n < 10 then 48 + n else 55 + n)"

definition unreserved :: "char \<Rightarrow> bool" where
  "unreserved c \<longleftrightarrow> is_ascii_alnum c \<or> c \<in> set ''-_.~''"

definition encode_byte :: "char \<Rightarrow> string" where
  "encode_byte c =
     (if unreserved c then [c]
      else if c = CHR '' '' then ''%20''
      else ''%'' @ [hex_upper (of_char c div 16), hex_upper (of_char c mod 16)])"

definition url_encode :: "string \<Rightarrow> string" where
  "url_encode s = concat (map encode_byte s)"

definition construct_url :: "string \<Rightarrow> string \<Rightarrow> string \<Rightarrow> string + string" where
  "construct_url base_url qry api_key =
     (if base_url = [] then Inl ''base-url is not configured''
      else if api_key = [] then Inl ''api-key is not configured or environment variable not found''
      else if trim qry = [] then Inl ''query cannot be empty''
      else Inr (base_url @ (if CHR ''?'' \<in> set base_url then ''&'' else ''?'') @ ''q='' @ url_encode qry @
             ''&api_key='' @ api_key))"

definition str_or :: "string \<Rightarrow> string \<Rightarrow> json \<Rightarrow> string" where
  "str_or d k v = (case get_str k v of Some s \<Rightarrow> s | None \<Rightarrow> d)"

definition format_results :: "parser \<Rightarrow> string \<Rightarrow> string" where
  "format_results parse body =
     (case parse body of
        Inl _ \<Rightarrow> ''(failed to parse search results as JSON)''
      | Inr v \<Rightarrow>
          (case get_array ''organic_results'' v of
             None \<Rightarrow> ''(unexpected search result format; expected organic_results array)''
           | Some results \<Rightarrow>
               (let formatted = map (\<lambda>r. str_or ''(no title)'' ''title'' r @ '' | '' @
                      str_or ''(no snippet)'' ''snippet'' r @ '' | '' @ str_or ''(no link)'' ''link'' r) results
                in if formatted = [] then ''(no search results found)'' else join_with [newline] formatted)))"

record search_config =
  sc_base_url :: string
  sc_api_key :: string

definition search_init :: "parser \<Rightarrow> string option \<Rightarrow> string + search_config" where
  "search_init parse config =
     (case parse (case config of Some raw \<Rightarrow> raw | None \<Rightarrow> ''{}'') of
        Inl e \<Rightarrow> Inl (''failed to parse config: '' @ e)
      | Inr v \<Rightarrow> Inr \<lparr>sc_base_url = str_or [] ''base-url'' v, sc_api_key = str_or [] ''api-key'' v\<rparr>)"

definition search_request :: "string \<Rightarrow> http_request" where
  "search_request url =
     \<lparr>hq_method = ''GET'', hq_url = url, hq_headers = [(''Accept'', ''application/json'')],
      hq_body = None, hq_timeout_ms = SEARCH_TIMEOUT_MS\<rparr>"

definition search_invoke ::
  "parser \<Rightarrow> (string \<Rightarrow> string) \<Rightarrow> (http_error \<Rightarrow> string) \<Rightarrow> search_config \<Rightarrow> 'w host_http \<Rightarrow> string \<Rightarrow> 'w
     \<Rightarrow> (tool_error + string) \<times> 'w" where
  "search_invoke parse lossy show_err conf http arguments w =
     (case parse arguments of
        Inl _ \<Rightarrow> (Inl InvalidArguments, w)
      | Inr v \<Rightarrow>
          (case get_str ''query'' v of
             None \<Rightarrow> (Inl InvalidArguments, w)
           | Some qry \<Rightarrow>
               (case construct_url (sc_base_url conf) qry (sc_api_key conf) of
                  Inl reason \<Rightarrow> (Inr (''CONFIGURATION ERROR: '' @ reason), w)
                | Inr url \<Rightarrow>
                    (case http (search_request url) w of
                       (Inr response, w1) \<Rightarrow>
                         (Inr (truncate_output (format_results parse (lossy (hr_body response)))), w1)
                     | (Inl err, w1) \<Rightarrow>
                         (Inr (''FAILED: search request failed ('' @ show_err err @ '')''), w1)))))"

section \<open>Plain pages are read\<close>

lemma str_find_None: "str_find p s = None \<longleftrightarrow> \<not> contains_text p s"
  by (induction s) auto

lemma str_find_Some: "str_find p s = Some i \<Longrightarrow> i + length p \<le> length s \<and> starts_with p (drop i s)"
proof (induction s arbitrary: i)
  case (Cons c cs)
  show ?case
  proof (cases "starts_with p (c # cs)")
    case True
    then show ?thesis using Cons.prems by (auto simp: starts_with_def dest: arg_cong [of _ _ length])
  next
    case False
    then show ?thesis using Cons by auto
  qed
qed (auto simp: starts_with_def split: if_splits)

definition ascii :: "string \<Rightarrow> bool" where
  "ascii s \<longleftrightarrow> (\<forall>c \<in> set s. (of_char c :: nat) < 128)"

lemma ascii_simps [simp]:
  "ascii []" "ascii (c # s) \<longleftrightarrow> (of_char c :: nat) < 128 \<and> ascii s" "ascii (a @ b) \<longleftrightarrow> ascii a \<and> ascii b"
  by (auto simp: ascii_def)

lemma ascii_take [simp]: "ascii s \<Longrightarrow> ascii (take n s)"
  by (auto simp: ascii_def dest: in_set_takeD)

lemma ascii_drop [simp]: "ascii s \<Longrightarrow> ascii (drop n s)"
  by (auto simp: ascii_def dest: in_set_dropD)

lemma ascii_boundary: "ascii s \<Longrightarrow> i \<le> length s \<Longrightarrow> is_char_boundary s i"
proof (cases "i = length s")
  case False
  assume "ascii s" "i \<le> length s"
  with False have "(of_char (s ! i) :: nat) < 128" by (simp add: ascii_def)
  then show ?thesis using False \<open>i \<le> length s\<close> by (simp add: is_char_boundary_def is_cont_byte_def)
qed (simp add: is_char_boundary_def)

lemma contains_around_space:
  assumes "contains_text q (a @ '' '' @ b)" "CHR '' '' \<notin> set q"
  shows "contains_text q a \<or> contains_text q b"
proof -
  obtain u v where uv: "a @ CHR '' '' # b = u @ q @ v" using assms(1) by (auto simp: contains_text_iff)
  show ?thesis
  proof (cases "length u + length q \<le> length a")
    case True
    have "take (length a) (a @ CHR '' '' # b) = u @ q @ take (length a - length u - length q) v"
      unfolding uv using True by simp
    then have "a = u @ q @ take (length a - length u - length q) v" by simp
    then show ?thesis unfolding contains_text_iff by blast
  next
    case False
    show ?thesis
    proof (cases "length a < length u")
      case True
      have "drop (Suc (length a)) (a @ CHR '' '' # b) = drop (Suc (length a)) u @ q @ v"
        unfolding uv using True by simp
      then have "b = drop (Suc (length a)) u @ q @ v" by simp
      then show ?thesis unfolding contains_text_iff by blast
    next
      case inside: False
      have "(a @ CHR '' '' # b) ! length a = (u @ q @ v) ! length a" using uv by simp
      moreover have short: "length a - length u < length q" using inside False by simp
      ultimately have "CHR '' '' = q ! (length a - length u)"
        using inside by (simp add: nth_append)
      with short show ?thesis using assms(2) nth_mem by metis
    qed
  qed
qed

lemma contains_take: "contains_text q (take n s) \<Longrightarrow> contains_text q s"
  unfolding contains_text_iff by (metis append.assoc append_take_drop_id)

lemma contains_drop: "contains_text q (drop n s) \<Longrightarrow> contains_text q s"
  unfolding contains_text_iff by (metis append.assoc append_take_drop_id)

lemma to_lower_space: "to_lower_char CHR '' '' = CHR '' ''"
  by (simp add: to_lower_char_def)

definition lowers_ascii :: "(string \<Rightarrow> string) \<Rightarrow> bool" where
  "lowers_ascii lower \<longleftrightarrow> (\<forall>s. ascii s \<longrightarrow> lower s = to_lower s)"

text \<open>One element's name: no space in its tags, and they are not empty.\<close>

lemma drop_loop_ascii:
  assumes "lowers_ascii lower" "ascii out" "2 \<le> length opn" "2 \<le> length cls"
  shows "\<exists>out'. drop_loop lower opn cls out = Some (Some out') \<and> ascii out' \<and>
    \<not> contains_text opn (to_lower out') \<and>
    (\<forall>q. CHR '' '' \<notin> set q \<longrightarrow> \<not> contains_text q (to_lower out) \<longrightarrow> \<not> contains_text q (to_lower out'))"
  using assms(2)
proof (induction "length out" arbitrary: out rule: less_induct)
  case less
  have low: "lower out = to_lower out" using assms(1) less.prems by (simp add: lowers_ascii_def)
  have len: "length (to_lower out) = length out" by (simp add: to_lower_def)
  show ?case
  proof (cases "str_find opn (to_lower out)")
    case None
    then have "drop_loop lower opn cls out = Some (Some out)"
      by (subst drop_loop.simps) (simp add: low)
    then show ?thesis using None less.prems by (simp add: str_find_None)
  next
    case (Some start)
    note at = str_find_Some [OF Some]
    define fin where "fin = (case str_find cls (drop start (to_lower out)) of
                        Some offset \<Rightarrow> start + offset + length cls | None \<Rightarrow> length out)"
    have fin: "start + 2 \<le> fin" "fin \<le> length out"
      using at assms(3,4) str_find_Some [of cls "drop start (to_lower out)"] len
      by (auto simp: fin_def split: option.split)
    define out1 where "out1 = take start out @ '' '' @ drop fin out"
    have cut: "replace_range out start fin '' '' = Some out1"
      using fin ascii_boundary [OF less.prems] by (simp add: replace_range_def out1_def)
    have less1: "length out1 < length out" using fin by (simp add: out1_def)
    have asc1: "ascii out1" using less.prems by (simp add: out1_def)
    have keeps: "\<not> contains_text q (to_lower out1)"
      if "CHR '' '' \<notin> set q" "\<not> contains_text q (to_lower out)" for q
    proof
      assume "contains_text q (to_lower out1)"
      then have "contains_text q (take start (to_lower out) @ '' '' @ drop fin (to_lower out))"
        by (simp add: out1_def to_lower_def to_lower_space take_map drop_map)
      from contains_around_space [OF this that(1)] that(2) show False
        using contains_take contains_drop by blast
    qed
    have "drop_loop lower opn cls out = drop_loop lower opn cls out1"
      using Some cut by (subst drop_loop.simps) (simp add: low fin_def Let_def)
    then show ?thesis using less.hyps [OF less1 asc1] keeps by metis
  qed
qed

lemma tags_of_script:
  "2 \<le> length (opening_of n)" "2 \<le> length (closing_of n)" if "n \<noteq> []"
  using that by (cases n; simp add: opening_of_def closing_of_def)+

text \<open>C20 (plain_page_read): On a page of ASCII text, with \<open>to_lowercase\<close> the ASCII one there, dropping the script
  and style elements returns, without a panic, and leaves no opening tag of either: the text handed to the model has
  been cut of every script and style.\<close>

theorem plain_page_read:
  assumes "lowers_ascii lower" "ascii body"
  shows "\<exists>stripped. drop_elements lower [''script'', ''style''] body = Some (Some stripped) \<and>
    to_text lower body = Some (Some (collapse (decode_entities (strip_tags False stripped)))) \<and>
    \<not> contains_text ''<script'' (to_lower stripped) \<and> \<not> contains_text ''<style'' (to_lower stripped)"
proof -
  obtain a where a: "drop_loop lower (opening_of ''script'') (closing_of ''script'') body = Some (Some a)"
    "ascii a" "\<not> contains_text (opening_of ''script'') (to_lower a)"
    using drop_loop_ascii [OF assms tags_of_script] by blast
  obtain b where b: "drop_loop lower (opening_of ''style'') (closing_of ''style'') a = Some (Some b)"
    "\<not> contains_text (opening_of ''style'') (to_lower b)"
    "\<not> contains_text (opening_of ''script'') (to_lower b)"
    using drop_loop_ascii [OF assms(1) a(2) tags_of_script, of "''style''" "''style''"] a(3)
    by (auto simp: opening_of_def)
  have "drop_elements lower [''script'', ''style''] body = Some (Some b)" using a(1) b(1) by simp
  then show ?thesis using b(2,3) by (simp add: to_text_def opening_of_def)
qed

theorem plain_page_read_witness:
  "to_text to_lower ''a<SCRIPT>x</script>b'' \<noteq> None"
  using plain_page_read [of to_lower "''a<SCRIPT>x</script>b''"] by (auto simp: lowers_ascii_def)

section \<open>A page that is never read\<close>

text \<open>
  \<open>str::to_lowercase\<close> on text of ASCII and the capital I with a dot above (U+0130, two bytes), which it turns
  into an i and a combining dot, three bytes.
\<close>

definition dotted_i :: string where "dotted_i = [CHR 0xC4, CHR 0xB0]"
definition lowered_dotted_i :: string where "lowered_dotted_i = [CHR 0x69, CHR 0xCC, CHR 0x87]"

fun lower_dotted :: "string \<Rightarrow> string" where
  "lower_dotted (c # d # cs) =
     (if [c, d] = dotted_i then lowered_dotted_i @ lower_dotted cs
      else to_lower_char c # lower_dotted (d # cs))"
| "lower_dotted [c] = [to_lower_char c]"
| "lower_dotted [] = []"

definition hanging_page :: string where
  "hanging_page = concat (replicate 7 dotted_i) @ ''<script''"

lemma hanging_round:
  "replace_range (hanging_page @ '' '') 21 22 '' '' = Some (hanging_page @ '' '')"
  "replace_range hanging_page 21 21 '' '' = Some (hanging_page @ '' '')"
  "str_find ''<script'' (lower_dotted hanging_page) = Some 21"
  "str_find ''<script'' (lower_dotted (hanging_page @ '' '')) = Some 21"
  "str_find ''</script>'' (drop 21 (lower_dotted hanging_page)) = None"
  "str_find ''</script>'' (drop 21 (lower_dotted (hanging_page @ '' ''))) = None"
  "length hanging_page = 21" "length (hanging_page @ '' '') = 22"
  by code_simp+

text \<open>C21 (page_hangs_fetch): A page of seven dotted capital I's and an unclosed script tag is never read: the text
  lowered is longer than the page, so the tag is found where the page ends, a space is put there, and from then
  on the space is replaced by itself for ever.\<close>

theorem page_hangs_fetch: "to_text lower_dotted hanging_page = None"
proof -
  let ?loop = "drop_loop lower_dotted ''<script'' ''</script>''"
  let ?P = "\<lambda>lower opn cls out y. (lower, opn, cls, out) \<noteq>
      (lower_dotted, ''<script'', ''</script>'', hanging_page @ '' '')"
  have again: "?loop (hanging_page @ '' '') = None"
  proof (rule ccontr)
    assume "?loop (hanging_page @ '' '') \<noteq> None"
    then obtain y where y: "?loop (hanging_page @ '' '') = Some y" by blast
    have "?P lower_dotted ''<script'' ''</script>'' (hanging_page @ '' '') y"
    proof (rule drop_loop.raw_induct [where P = ?P, OF _ y], intro notI)
      fix loop :: "(string \<Rightarrow> string) \<Rightarrow> string \<Rightarrow> string \<Rightarrow> string \<Rightarrow> string option option"
        and lower opn cls out y
      assume IH: "\<And>lower opn cls out y. loop lower opn cls out = Some y \<Longrightarrow>
          ?P lower opn cls out y"
        and body: "(case str_find opn (lower out) of
              None \<Rightarrow> Some (Some out)
            | Some start \<Rightarrow>
                (let fin = (case str_find cls (drop start (lower out)) of
                    None \<Rightarrow> length out | Some offset \<Rightarrow> start + offset + length cls)
                 in case replace_range out start fin '' '' of
                      None \<Rightarrow> Some None | Some out1 \<Rightarrow> loop lower opn cls out1)) = Some y"
        and eq: "(lower, opn, cls, out) = (lower_dotted, ''<script'', ''</script>'', hanging_page @ '' '')"
      have "loop lower_dotted ''<script'' ''</script>'' (hanging_page @ '' '') = Some y"
        using body eq by (simp only: prod.inject hanging_round option.case Let_def)
      then show False using IH by blast
    qed
    then show False by simp
  qed
  have "?loop hanging_page = None"
    using again by (subst drop_loop.simps) (simp only: hanging_round option.case Let_def)
  then have "drop_elements lower_dotted [''script'', ''style''] hanging_page = None"
    by (simp add: opening_of_def closing_of_def)
  then show ?thesis by (simp add: to_text_def)
qed

text \<open>A URL whose host opens a bracket and never closes it traps the check: the
  slice up to the bracket runs past the end.\<close>

theorem open_bracket_traps_fetch: "vet to_lower pv6 ''http://[::1'' allow_private = None"
proof -
  have "http_rest (to_lower (trim ''http://[::1'')) = Some ''[::1''" by code_simp
  moreover have "strip_port (authority_of ''[::1'') = None" by code_simp
  ultimately show ?thesis by (simp add: vet_def)
qed

section \<open>What the tools send\<close>

text \<open>C27 (fetch_sends_vetted): The fetch tool sends nothing, or one GET of the URL it was given whose lowered host
  passed the check: a host that is not empty and, unless private addresses are allowed, is no local name and is
  either a plain name or an address that is not private.\<close>

definition vetted_host :: "(string \<Rightarrow> (128 word) option) \<Rightarrow> bool \<Rightarrow> string \<Rightarrow> bool" where
  "vetted_host pv6 allow_private host \<longleftrightarrow>
     host \<noteq> [] \<and> (allow_private \<or> \<not> is_local_name host \<and>
       (classify_address pv6 host = PublicName \<and> list_all host_char host \<or>
        (\<exists>ip. parse_v4 host = Some ip \<and> \<not> is_private_v4 ip) \<or>
        (\<exists>v6 ip. pv6 (takeWhile (\<lambda>c. c \<noteq> CHR ''%'') v6) = Some ip \<and> host = ''['' @ v6 @ '']'' \<and>
          (case to_ipv4_mapped ip of Some v4 \<Rightarrow> \<not> is_private_v4 v4 | None \<Rightarrow> \<not> is_private_v6 ip))))"

lemma vet_host_ok:
  assumes "vet_host pv6 allow_private host = Inr ()"
  shows "vetted_host pv6 allow_private host"
proof (cases allow_private)
  case True
  then show ?thesis using assms by (auto simp: vet_host_def vetted_host_def split: if_splits)
next
  case False
  have host: "host \<noteq> []" "\<not> is_local_name host" "classify_address pv6 host \<in> {PublicAddress, PublicName}"
    using assms False by (auto simp: vet_host_def split: if_splits address.splits)
  show ?thesis
  proof (cases "Option.bind (strip_prefix ''['' host) (strip_suffix '']'')")
    case (Some v6)
    then have "host = ''['' @ v6 @ '']''"
      by (auto simp: Option.bind_eq_Some_conv strip_prefix_Some strip_suffix_Some)
    then show ?thesis
      using host Some
      by (fastforce simp: vetted_host_def classify_address_def classify_v6_def split: option.splits if_splits)
  next
    case None
    then show ?thesis
      using host
      by (auto simp: vetted_host_def classify_address_def classify_v4_def Let_def split: option.splits if_splits)
  qed
qed

theorem fetch_sends_vetted:
  "snd (fetch_invoke parse lower pv6 lossy show_err allow_private http arguments w) = w \<or>
   (\<exists>v url rest host. parse arguments = Inr v \<and> get_str ''url'' v = Some url \<and>
      snd (fetch_invoke parse lower pv6 lossy show_err allow_private http arguments w) =
        snd (http (fetch_request url) w) \<and>
      http_rest (lower (trim url)) = Some rest \<and> strip_port (authority_of rest) = Some host \<and>
      vetted_host pv6 allow_private host)"
proof -
  let ?w = "snd (fetch_invoke parse lower pv6 lossy show_err allow_private http arguments w)"
  consider (quiet) "?w = w"
    | (sent) v url where "parse arguments = Inr v" "get_str ''url'' v = Some url"
        "vet lower pv6 url allow_private = Some (Inr ())" "?w = snd (http (fetch_request url) w)"
  proof (cases "parse arguments")
    case (Inr v)
    note v = Inr
    show ?thesis
    proof (cases "get_str ''url'' v")
      case (Some url)
      show ?thesis
      proof (cases "vet lower pv6 url allow_private = Some (Inr ())")
        case True
        then have "?w = snd (http (fetch_request url) w)"
          using v Some by (simp add: fetch_invoke_def split: prod.split sum.split)
        then show ?thesis using sent v Some True by blast
      qed (use v Some quiet in \<open>auto simp: fetch_invoke_def split: option.splits sum.splits\<close>)
    qed (use v quiet in \<open>simp add: fetch_invoke_def\<close>)
  qed (use quiet in \<open>simp add: fetch_invoke_def\<close>)
  then show ?thesis
  proof cases
    case sent
    obtain rest host where "http_rest (lower (trim url)) = Some rest" "strip_port (authority_of rest) = Some host"
      "vet_host pv6 allow_private host = Inr ()"
      using sent(3) by (auto simp: vet_def Let_def split: option.splits)
    with sent vet_host_ok show ?thesis by blast
  qed simp
qed

text \<open>Reading an encoded query back: the percent-decoding of a server.\<close>

definition hex_value :: "char \<Rightarrow> nat" where
  "hex_value c = (let n = of_char c in if n < 65 then n - 48 else n - 55)"

fun url_decode :: "string \<Rightarrow> string" where
  "url_decode (c # a # b # cs) =
     (if c = CHR ''%'' then char_of (hex_value a * 16 + hex_value b) # url_decode cs
      else c # url_decode (a # b # cs))"
| "url_decode (c # cs) = c # url_decode cs"
| "url_decode [] = []"

lemma url_decode_plain: "c \<noteq> CHR ''%'' \<Longrightarrow> url_decode (c # cs) = c # url_decode cs"
  by (cases "(c # cs)" rule: url_decode.cases) auto

lemma hex_value_upper: "n < 16 \<Longrightarrow> hex_value (hex_upper n) = n"
  by (auto simp: hex_value_def hex_upper_def Let_def)

lemma percent_not_unreserved: "\<not> unreserved CHR ''%''"
  by code_simp

lemma decode_encode_byte: "url_decode (encode_byte c @ cs) = c # url_decode cs"
proof (cases "unreserved c")
  case True
  then have "c \<noteq> CHR ''%''" using percent_not_unreserved by auto
  then show ?thesis using True by (simp add: encode_byte_def url_decode_plain)
next
  case False
  have "(of_char c :: nat) div 16 < 16" by (simp add: less_mult_imp_div_less)
  then show ?thesis
    using False
    by (auto simp: encode_byte_def hex_value_upper) (code_simp)
qed

definition query_separators :: string where
  "query_separators = ''&=?#/+ ''"

text \<open>The search tool's query is percent-encoded: the encoding holds no character that
  ends or splits a query string, and a server that decodes it reads the query as it was given.\<close>

theorem search_query_contained:
  "url_decode (url_encode qry) = qry \<and> set (url_encode qry) \<inter> set query_separators = {}"
proof
  show "url_decode (url_encode qry) = qry"
    by (induction qry) (simp_all add: url_encode_def decode_encode_byte)
  have "set (encode_byte c) \<inter> set query_separators = {}" for c
  proof -
    have ok: "\<not> unreserved d" if "d \<in> set query_separators" for d
      using that by (auto simp: unreserved_def is_ascii_alnum_def is_ascii_alpha_def is_digit_def query_separators_def)
    have hex: "hex_upper n \<notin> set query_separators" if "n < 16" for n
    proof -
      have "(of_char (hex_upper n) :: nat) = (if n < 10 then 48 + n else 55 + n)" using that by (simp add: hex_upper_def)
      then have "48 \<le> (of_char (hex_upper n) :: nat)" "(of_char (hex_upper n) :: nat) \<notin> {61, 63}"
        using that by auto
      then show ?thesis by (auto simp: query_separators_def)
    qed
    have digits: "(of_char c :: nat) div 16 < 16" "(of_char c :: nat) mod 16 < 16"
      by (simp_all add: less_mult_imp_div_less)
    have plain: "CHR ''%'' \<notin> set query_separators" "CHR ''2'' \<notin> set query_separators"
      "CHR ''0'' \<notin> set query_separators" by code_simp+
    show ?thesis
      using ok [of c] hex [OF digits(1)] hex [OF digits(2)] plain by (auto simp: encode_byte_def)
  qed
  then show "set (url_encode qry) \<inter> set query_separators = {}"
    unfolding url_encode_def by fastforce
qed

end
