(* ===== verification/HttpClient.thy ===== *)
theory HttpClient
  imports Egress
begin

text \<open>
  Outbound HTTP (\<open>host/wasm/src/http.rs\<close>): one request with the redirects followed by hand, each hop checked
  by the egress policy. Parameters: \<open>exchange\<close> is one exchange of the HTTP library, over the destination it
  was pinned to; \<open>join_url\<close> resolves a location against a URL (the url crate); \<open>lookup\<close> resolves names in the
  current state, so a name may answer differently at every hop.
\<close>

definition DEFAULT_TIMEOUT_MS :: nat where "DEFAULT_TIMEOUT_MS = 30000"
definition MAX_REDIRECTS :: nat where "MAX_REDIRECTS = 10"

definition STRIPPED_ON_REDIRECT :: "string list" where
  "STRIPPED_ON_REDIRECT = [''authorization'', ''cookie'', ''proxy-authorization'']"

type_synonym http_headers = "(string \<times> string) list"

record wire_response =
  wr_status :: u16
  wr_headers :: http_headers
  wr_body :: string

type_synonym 'w exchange =
  "string \<Rightarrow> string \<Rightarrow> destination \<Rightarrow> http_headers \<Rightarrow> string option \<Rightarrow> nat \<Rightarrow> 'w
     \<Rightarrow> (wire_error + wire_response) \<times> 'w"

type_synonym 'w resolver = "'w \<Rightarrow> string \<Rightarrow> nat \<Rightarrow> socket_addr list option"

definition status_error :: "u16 \<Rightarrow> wire_error option" where
  "status_error status =
     (if 400 \<le> status \<and> status \<le> 499 then Some (ClientError status)
      else if 500 \<le> status \<and> status \<le> 599 then Some (ServerError status)
      else None)"

definition redirect_location :: "wire_response \<Rightarrow> string option" where
  "redirect_location response =
     (if wr_status response \<notin> {301, 302, 303, 307, 308} then None
      else
        (case List.find (\<lambda>(name, _). to_lower name = ''location'') (wr_headers response) of
           None \<Rightarrow> None
         | Some (_, value) \<Rightarrow> (let v = trim value in if v = [] then None else Some v)))"

definition strip_forwarded :: "http_headers \<Rightarrow> http_headers" where
  "strip_forwarded hs = filter (\<lambda>(name, _). to_lower name \<notin> set STRIPPED_ON_REDIRECT) hs"

text \<open>A 301 to 303 turns any other method into a GET without a body.\<close>

definition becomes_get :: "u16 \<Rightarrow> string \<Rightarrow> bool" where
  "becomes_get status verb \<longleftrightarrow>
     301 \<le> status \<and> status \<le> 303 \<and> to_lower verb \<noteq> ''get'' \<and> to_lower verb \<noteq> ''head''"

fun fetch_hops ::
  "'w exchange \<Rightarrow> (string \<Rightarrow> string \<Rightarrow> string option) \<Rightarrow> (string \<Rightarrow> ip_addr option) \<Rightarrow> 'w resolver
     \<Rightarrow> egress_policy \<Rightarrow> nat \<Rightarrow> nat \<Rightarrow> string \<Rightarrow> string \<Rightarrow> http_headers \<Rightarrow> string option \<Rightarrow> 'w
     \<Rightarrow> (wire_error + wire_response) \<times> 'w" where
  "fetch_hops exchange join_url parse_ip lookup policy timeout 0 verb target hs body w =
     (Inl WireBackend, w)"
| "fetch_hops exchange join_url parse_ip lookup policy timeout (Suc n) verb target hs body w =
     (case check parse_ip (lookup w) policy target of
        Inl e \<Rightarrow> (Inl e, w)
      | Inr dest \<Rightarrow>
          (case exchange verb target dest hs body timeout w of
             (Inl e, w1) \<Rightarrow> (Inl e, w1)
           | (Inr response, w1) \<Rightarrow>
               (case redirect_location response of
                  None \<Rightarrow>
                    (case status_error (wr_status response) of
                       Some e \<Rightarrow> (Inl e, w1)
                     | None \<Rightarrow> (Inr response, w1))
                | Some location \<Rightarrow>
                    (case join_url target location of
                       None \<Rightarrow> (Inl InvalidUrl, w1)
                     | Some target1 \<Rightarrow>
                         (if becomes_get (wr_status response) verb
                          then fetch_hops exchange join_url parse_ip lookup policy timeout n ''GET'' target1
                                 (strip_forwarded hs) None w1
                          else fetch_hops exchange join_url parse_ip lookup policy timeout n verb target1
                                 (strip_forwarded hs) body w1)))))"

definition fetch_within ::
  "'w exchange \<Rightarrow> (string \<Rightarrow> string \<Rightarrow> string option) \<Rightarrow> (string \<Rightarrow> ip_addr option) \<Rightarrow> 'w resolver
     \<Rightarrow> egress_policy \<Rightarrow> string \<Rightarrow> string \<Rightarrow> http_headers \<Rightarrow> string option \<Rightarrow> nat \<Rightarrow> 'w
     \<Rightarrow> (wire_error + wire_response) \<times> 'w" where
  "fetch_within exchange join_url parse_ip lookup policy verb url hs body timeout_ms w =
     fetch_hops exchange join_url parse_ip lookup policy
       (if timeout_ms = 0 then DEFAULT_TIMEOUT_MS else timeout_ms)
       (MAX_REDIRECTS + 1) verb url hs body w"

definition fetch_public ::
  "'w exchange \<Rightarrow> (string \<Rightarrow> string \<Rightarrow> string option) \<Rightarrow> (string \<Rightarrow> ip_addr option) \<Rightarrow> 'w resolver
     \<Rightarrow> string \<Rightarrow> string \<Rightarrow> http_headers \<Rightarrow> string option \<Rightarrow> nat \<Rightarrow> 'w
     \<Rightarrow> (wire_error + wire_response) \<times> 'w" where
  "fetch_public exchange join_url parse_ip lookup verb url hs body timeout_ms w =
     fetch_within exchange join_url parse_ip lookup public_only verb url hs body timeout_ms w"

text \<open>The addresses handed to the connector: the ones the policy classified, at most sixteen.\<close>

definition MAX_PINNED_ADDRS :: nat where "MAX_PINNED_ADDRS = 16"

definition pinned :: "socket_addr list \<Rightarrow> socket_addr list option" where
  "pinned addrs =
     (let kept = take MAX_PINNED_ADDRS addrs in if kept = [] then None else Some kept)"

section \<open>What goes over the wire\<close>

record sent =
  sn_method :: string
  sn_url :: string
  sn_dest :: destination
  sn_headers :: http_headers
  sn_body :: "string option"

text \<open>An exchange that noted every call it gets, beside the state it had.\<close>

definition noting :: "'w exchange \<Rightarrow> ('w \<times> ('w \<times> sent) list) exchange" where
  "noting ex verb url dest hs body timeout = (\<lambda>(w, noted).
     case ex verb url dest hs body timeout w of
       (r, w1) \<Rightarrow> (r, w1, noted @ [(w, \<lparr>sn_method = verb, sn_url = url, sn_dest = dest, sn_headers = hs,
         sn_body = body\<rparr>)]))"

definition under :: "'w resolver \<Rightarrow> ('w \<times> ('w \<times> sent) list) resolver" where
  "under lookup wn = lookup (fst wn)"

lemma under_pair [simp]: "under lookup (w, l) = lookup w"
  by (simp add: under_def)

text \<open>Each note is of a call the policy let out, in the state it was made in.\<close>

definition let_out ::
  "(string \<Rightarrow> ip_addr option) \<Rightarrow> 'w resolver \<Rightarrow> egress_policy \<Rightarrow> 'w \<times> sent \<Rightarrow> bool" where
  "let_out parse_ip lookup policy = (\<lambda>(w, s).
     check parse_ip (lookup w) policy (sn_url s) = Inr (sn_dest s))"

lemma strip_twice [simp]: "strip_forwarded (strip_forwarded hs) = strip_forwarded hs"
  by (simp add: strip_forwarded_def)

text \<open>
  The noted after a run: those before, and at most \<open>n\<close> more, each let out; those after the first carry the
  stripped headers.
\<close>

lemma fetch_hops_noted:
  "\<exists>new. snd (snd (fetch_hops (noting ex) join_url parse_ip (under lookup) policy timeout n verb target hs body
        (w, noted))) = noted @ new \<and> length new \<le> n \<and> list_all (let_out parse_ip lookup policy) new \<and>
     (new \<noteq> [] \<longrightarrow> sn_url (snd (hd new)) = target \<and> sn_headers (snd (hd new)) = hs) \<and>
     list_all (\<lambda>(_, s). sn_headers s = strip_forwarded hs) (drop 1 new)"
proof (induction n arbitrary: verb target hs body w noted)
  case 0
  then show ?case by simp
next
  case (Suc n)
  let ?run = "\<lambda>n. fetch_hops (noting ex) join_url parse_ip (under lookup) policy timeout n"
  show ?case
  proof (cases "check parse_ip (lookup w) policy target")
    case (Inl e)
    then show ?thesis by simp
  next
    case (Inr dest)
    obtain r w1 where ex: "ex verb target dest hs body timeout w = (r, w1)" by fastforce
    let ?note = "(w, \<lparr>sn_method = verb, sn_url = target, sn_dest = dest, sn_headers = hs, sn_body = body\<rparr>)"
    let ?noted = "noted @ [?note]"
    have call: "noting ex verb target dest hs body timeout (w, noted) = (r, w1, ?noted)"
      using ex by (simp add: noting_def)
    have ok: "let_out parse_ip lookup policy ?note" using Inr by (simp add: let_out_def)
    consider (stop) "snd (?run (Suc n) verb target hs body (w, noted)) = (w1, ?noted)"
      | (hop) verb1 target1 body1 where "?run (Suc n) verb target hs body (w, noted) =
          ?run n verb1 target1 (strip_forwarded hs) body1 (w1, ?noted)"
    proof (cases r)
      case (Inl e)
      then show ?thesis using stop Inr call by simp
    next
      case r: (Inr response)
      show ?thesis
      proof (cases "redirect_location response")
        case None
        then show ?thesis using stop Inr call r by (simp split: option.split)
      next
        case (Some location)
        show ?thesis
        proof (cases "join_url target location")
          case None
          then show ?thesis using stop Inr call r Some by simp
        next
          case (Some target1)
          show ?thesis
          proof (cases "becomes_get (wr_status response) verb")
            case True
            show ?thesis
              by (rule hop [of "''GET''" target1 None])
                (simp add: Inr call r \<open>redirect_location response = _\<close> Some True)
          next
            case False
            show ?thesis
              by (rule hop [of verb target1 body])
                (simp add: Inr call r \<open>redirect_location response = _\<close> Some False)
          qed
        qed
      qed
    qed
    then show ?thesis
    proof cases
      case stop
      then have "snd (snd (?run (Suc n) verb target hs body (w, noted))) = noted @ [?note]"
        by (simp only: snd_conv)
      then show ?thesis using ok by (intro exI [of _ "[?note]"]) (simp del: fetch_hops.simps)
    next
      case hop
      obtain new where new: "snd (snd (?run n verb1 target1 (strip_forwarded hs) body1 (w1, ?noted))) = ?noted @ new"
        "length new \<le> n" "list_all (let_out parse_ip lookup policy) new"
        "new \<noteq> [] \<Longrightarrow> sn_headers (snd (hd new)) = strip_forwarded hs"
        "list_all (\<lambda>(_, s). sn_headers s = strip_forwarded hs) (drop 1 new)"
        using Suc.IH [of verb1 target1 "strip_forwarded hs" body1 w1 ?noted] by auto
      have "list_all (\<lambda>(_, s). sn_headers s = strip_forwarded hs) new"
        using new(4,5) by (cases new) auto
      moreover have "snd (snd (?run (Suc n) verb target hs body (w, noted))) = noted @ ?note # new"
        using new(1) by (simp only: hop) simp
      ultimately show ?thesis
        using new(2,3) ok by (intro exI [of _ "?note # new"]) (simp del: fetch_hops.simps)
    qed
  qed
qed

section \<open>Properties\<close>

text \<open>C10 (every_hop_let_out): A request makes at most eleven exchanges, each to a destination the egress policy
  let out for its URL with the names resolved at that moment, and from the first redirect on no authorization,
  cookie or proxy-authorization header is sent.\<close>

theorem every_hop_let_out:
  "\<exists>sent. snd (snd (fetch_within (noting ex) join_url parse_ip (under lookup) policy verb url hs body timeout_ms
        (w, []))) = sent \<and> length sent \<le> 11 \<and> list_all (let_out parse_ip lookup policy) sent \<and>
     list_all (\<lambda>(_, s). list_all (\<lambda>(name, _). to_lower name \<notin> {''authorization'', ''cookie'',
       ''proxy-authorization''}) (sn_headers s)) (drop 1 sent)"
proof -
  have stripped: "list_all (\<lambda>(name, _). to_lower name \<notin> {''authorization'', ''cookie'', ''proxy-authorization''})
      (strip_forwarded hs)"
    by (auto simp: strip_forwarded_def STRIPPED_ON_REDIRECT_def list_all_iff)
  obtain new where new: "snd (snd (fetch_within (noting ex) join_url parse_ip (under lookup) policy verb url hs body
        timeout_ms (w, []))) = new" "length new \<le> 11" "list_all (let_out parse_ip lookup policy) new"
      "list_all (\<lambda>(_, s). sn_headers s = strip_forwarded hs) (drop 1 new)"
    using fetch_hops_noted [of ex join_url parse_ip lookup policy
        "if timeout_ms = 0 then DEFAULT_TIMEOUT_MS else timeout_ms" "MAX_REDIRECTS + 1" verb url hs body w "[]"]
    unfolding fetch_within_def by (auto simp: MAX_REDIRECTS_def)
  have "list_all (\<lambda>(_, s). list_all (\<lambda>(name, _). to_lower name \<notin> {''authorization'', ''cookie'',
       ''proxy-authorization''}) (sn_headers s)) (drop 1 new)"
    by (rule list.pred_mono_strong [OF new(4)]) (use stripped in auto)
  then show ?thesis using new(1-3) by blast
qed

text \<open>C22 (redirect_leaks_api_key): The key the Anthropic provider sends is in a header the list does not name, so a
  redirect hands it to whatever host the answer points at.\<close>

definition redirecting :: "nat exchange" where
  "redirecting verb url dest hs body timeout n =
     (if n = 0 then (Inr \<lparr>wr_status = 302, wr_headers = [(''Location'', ''https://other.test/'')], wr_body = []\<rparr>, 1)
      else (Inr \<lparr>wr_status = 200, wr_headers = [], wr_body = []\<rparr>, n + 1))"

theorem redirect_leaks_api_key:
  "\<exists>first second. snd (snd (fetch_within (noting redirecting) (\<lambda>base location. Some location) (\<lambda>_. None)
        (under (\<lambda>_ host port. Some [(V4 0x01010101, port)])) public_only ''POST''
        ''https://api.anthropic.com/v1/messages'' [(''x-api-key'', key)] (Some body) 0 (0, []))) = [first, second] \<and>
     sn_url (snd second) = ''https://other.test/'' \<and> (''x-api-key'', key) \<in> set (sn_headers (snd second))"
proof -
  have urls: "origin_of ''https://api.anthropic.com/v1/messages'' = Some ''https://api.anthropic.com:443''"
    "host_port ''https://api.anthropic.com/v1/messages'' = Some (''api.anthropic.com'', 443)"
    "origin_of ''https://other.test/'' = Some ''https://other.test:443''"
    "host_port ''https://other.test/'' = Some (''other.test'', 443)" by code_simp+
  have public: "is_public_v4 0x01010101" by code_simp
  have parts: "trim ''https://other.test/'' = ''https://other.test/''" "to_lower ''Location'' = ''location''"
    "to_lower ''x-api-key'' = ''x-api-key''" "to_lower ''POST'' = ''post''" by code_simp+
  show ?thesis
    using urls public parts
    by (simp add: fetch_within_def MAX_REDIRECTS_def check_def noting_def redirecting_def redirect_location_def
        strip_forwarded_def STRIPPED_ON_REDIRECT_def becomes_get_def public_only_def status_error_def
        numeral_eq_Suc)
qed

end
