(* ===== verification/HostCaps.thy ===== *)
theory HostCaps
  imports HttpClient HostApi
begin

text \<open>
  What the host gives an instance (\<open>host/wasm/src/host.rs\<close>, and the same calls for providers in
  \<open>host/wasm/src/route.rs\<close>): its slice of the configuration, outbound HTTP under its egress policy, secrets
  only when its section grants them, and the text of a log line. The environment is the parameter \<open>env\<close>;
  where the line is written is not modelled.
\<close>

section \<open>Configuration\<close>

fun lookup_path :: "json \<Rightarrow> string list \<Rightarrow> json option" where
  "lookup_path v [] = Some v"
| "lookup_path v (s # ss) = (case jget s v of None \<Rightarrow> None | Some u \<Rightarrow> lookup_path u ss)"

definition config_lookup :: "json \<Rightarrow> string \<Rightarrow> json option" where
  "config_lookup root key = lookup_path root (split_on CHR ''.'' key)"

definition config_get :: "printer \<Rightarrow> json \<Rightarrow> string \<Rightarrow> string option" where
  "config_get render root key = map_option render (config_lookup root key)"

definition config_has :: "json \<Rightarrow> string \<Rightarrow> bool" where
  "config_has root key \<longleftrightarrow> config_lookup root key \<noteq> None"

definition config_all :: "printer \<Rightarrow> json \<Rightarrow> string" where
  "config_all render root = render root"

section \<open>HTTP\<close>

fun to_http_error :: "wire_error \<Rightarrow> http_error" where
  "to_http_error InvalidUrl = HInvalidUrl"
| "to_http_error ConnectionFailed = HConnectionFailed"
| "to_http_error WireTimeout = HTimeout"
| "to_http_error TlsError = HTlsError"
| "to_http_error (ClientError code) = HClientError code"
| "to_http_error (ServerError code) = HServerError code"
| "to_http_error WireBackend = HBackend"

definition host_fetch ::
  "'w exchange \<Rightarrow> (string \<Rightarrow> string \<Rightarrow> string option) \<Rightarrow> (string \<Rightarrow> ip_addr option) \<Rightarrow> 'w resolver
     \<Rightarrow> egress_policy \<Rightarrow> 'w host_http" where
  "host_fetch exchange join_url parse_ip lookup policy request w =
     (case fetch_within exchange join_url parse_ip lookup policy (hq_method request) (hq_url request)
             (hq_headers request) (hq_body request) (hq_timeout_ms request) w of
        (Inr r, w1) \<Rightarrow> (Inr \<lparr>hr_status = wr_status r, hr_headers = wr_headers r, hr_body = wr_body r\<rparr>, w1)
      | (Inl e, w1) \<Rightarrow> (Inl (to_http_error e), w1))"

section \<open>Secrets\<close>

datatype secrets_error = SecretDenied | SecretNotFound | SecretBackend
datatype var_error = NotPresent | NotUnicode

definition secrets_get ::
  "printer \<Rightarrow> json \<Rightarrow> (string \<Rightarrow> var_error + string) \<Rightarrow> string \<Rightarrow> secrets_error + string" where
  "secrets_get render root env name =
     (case config_get render root ''secrets'' of
        None \<Rightarrow> Inl SecretDenied
      | Some s \<Rightarrow>
          (if s \<noteq> ''true'' then Inl SecretDenied
           else
             (case env name of
                Inr value \<Rightarrow> Inr value
              | Inl NotPresent \<Rightarrow> Inl SecretNotFound
              | Inl NotUnicode \<Rightarrow> Inl SecretBackend)))"

text \<open>A provider's secrets need no grant (\<open>route.rs\<close>).\<close>

definition provider_secrets_get :: "(string \<Rightarrow> var_error + string) \<Rightarrow> string \<Rightarrow> secrets_error + string" where
  "provider_secrets_get env name = (case env name of Inr value \<Rightarrow> Inr value | Inl _ \<Rightarrow> Inl SecretNotFound)"

section \<open>Log lines\<close>

datatype log_level = LDebug | LInfo | LWarn | LError

fun level_text :: "log_level \<Rightarrow> string" where
  "level_text LDebug = ''DEBUG''"
| "level_text LInfo = ''INFO''"
| "level_text LWarn = ''WARN''"
| "level_text LError = ''ERROR''"

definition log_line :: "string \<Rightarrow> log_level \<Rightarrow> string \<Rightarrow> string \<Rightarrow> (string \<times> string) list \<Rightarrow> string" where
  "log_line component_id level part msg kvs =
     level_text level @ '' ['' @ component_id @ ''] '' @ part @ '': '' @ msg @
     concat (map (\<lambda>(k, v). '' '' @ k @ ''='' @ v) kvs)"

section \<open>Facts\<close>

text \<open>A secret leaves the host only for a section whose \<open>secrets\<close> prints as \<open>true\<close>.\<close>

lemma secret_needs_grant:
  "secrets_get render root env name = Inr value \<longleftrightarrow>
     (\<exists>v. jget ''secrets'' root = Some v \<and> render v = ''true'') \<and> env name = Inr value"
proof -
  have "config_lookup root ''secrets'' = jget ''secrets'' root"
    by (simp add: config_lookup_def split: option.split)
  then show ?thesis
    by (auto simp: secrets_get_def config_get_def split: option.splits sum.splits var_error.splits)
qed

text \<open>A request the policy refuses is not sent.\<close>

lemma refused_not_sent:
  assumes "check parse_ip (lookup w) policy (hq_url request) = Inl e"
  shows "host_fetch exchange join_url parse_ip lookup policy request w = (Inl (to_http_error e), w)"
  using assms by (simp add: host_fetch_def fetch_within_def MAX_REDIRECTS_def numeral_eq_Suc)

end
