(* ===== verification/Provider.thy ===== *)
theory Provider
  imports HostApi Turn
begin

text \<open>
  The two providers: \<open>extensions/provider-openai/src/lib.rs\<close> and \<open>provider-anthropic/src/lib.rs\<close>, from a
  completion request to the HTTP request, and from the answer to a stream of chunks read one at a time. The
  instance's thread-local state is a record. Parameters: serde_json's parser and printer, \<open>float_json\<close> the JSON value
  of an \<open>f32\<close>, the host's HTTP call and secrets. Log lines are not modelled.
\<close>

datatype provider_error =
    AuthFailed | ModelNotFound | QuotaExceeded | OutOfMemory | ContextOverflow | Unreachable | Transient

datatype chunk = CTextDelta string | CToolCallRequest tool_call | CDone string

record completion_request =
  cr_model :: string
  cr_messages :: "message list"
  cr_tools :: "tool_definition list"
  cr_grammar :: "string option"
  cr_max_tokens :: "nat option"
  cr_temperature :: "32 word option"

type_synonym stream_handle = u32

record provider_config =
  pc_base_url :: string
  pc_api_key :: string
  pc_model :: string

record provider_state =
  ps_config :: provider_config
  ps_streams :: "stream_handle \<rightharpoonup> chunk list"
  ps_next_handle :: stream_handle

definition fresh_provider :: provider_state where
  "fresh_provider =
     \<lparr>ps_config = \<lparr>pc_base_url = [], pc_api_key = [], pc_model = []\<rparr>, ps_streams = Map.empty, ps_next_handle = 1\<rparr>"

section \<open>What both share\<close>

definition str_field :: "json \<Rightarrow> string \<Rightarrow> string" where
  "str_field v k = (case get_str k v of Some s \<Rightarrow> s | None \<Rightarrow> [])"

definition map_http_error :: "http_error \<Rightarrow> provider_error" where
  "map_http_error e =
     (case e of
        HClientError status \<Rightarrow>
          (if status = 401 \<or> status = 403 then AuthFailed
           else if status = 404 then ModelNotFound
           else if status = 429 then QuotaExceeded
           else Transient)
      | HConnectionFailed \<Rightarrow> Unreachable
      | HTimeout \<Rightarrow> Unreachable
      | HTlsError \<Rightarrow> Unreachable
      | _ \<Rightarrow> Transient)"

definition next_handle :: "provider_state \<Rightarrow> stream_handle \<times> provider_state" where
  "next_handle st = (ps_next_handle st, st\<lparr>ps_next_handle := ps_next_handle st + 1\<rparr>)"

definition open_stream :: "chunk list \<Rightarrow> provider_state \<Rightarrow> stream_handle \<times> provider_state" where
  "open_stream chunks st =
     (case next_handle st of (h, st1) \<Rightarrow> (h, st1\<lparr>ps_streams := (ps_streams st1)(h \<mapsto> chunks)\<rparr>))"

definition next_chunk :: "stream_handle \<Rightarrow> provider_state \<Rightarrow> chunk option \<times> provider_state" where
  "next_chunk h st =
     (case ps_streams st h of
        Some (c # cs) \<Rightarrow> (Some c, st\<lparr>ps_streams := (ps_streams st)(h \<mapsto> cs)\<rparr>)
      | _ \<Rightarrow> (None, st))"

definition close_stream :: "stream_handle \<Rightarrow> provider_state \<Rightarrow> provider_state" where
  "close_stream h st = st\<lparr>ps_streams := (ps_streams st)(h := None)\<rparr>"

definition provider_stop :: "provider_state \<Rightarrow> provider_state" where
  "provider_stop st = st\<lparr>ps_streams := Map.empty\<rparr>"

text \<open>The key comes from the named secret when the host has it, else from the section.\<close>

definition api_key_of :: "(string \<Rightarrow> string option) \<Rightarrow> json \<Rightarrow> string" where
  "api_key_of secrets section =
     (case get_str ''api-key-secret'' section of
        None \<Rightarrow> str_field section ''api-key''
      | Some name \<Rightarrow> (case secrets name of Some key \<Rightarrow> key | None \<Rightarrow> str_field section ''api-key''))"

definition section_of :: "parser \<Rightarrow> string option \<Rightarrow> json" where
  "section_of parse all_config =
     (case parse (case all_config of Some raw \<Rightarrow> raw | None \<Rightarrow> ''{}'') of Inr v \<Rightarrow> v | Inl _ \<Rightarrow> JNull)"

definition schema_of :: "parser \<Rightarrow> string \<Rightarrow> json" where
  "schema_of parse text = (case parse text of Inr v \<Rightarrow> v | Inl _ \<Rightarrow> JObj [])"

definition chosen_model :: "provider_config \<Rightarrow> completion_request \<Rightarrow> string" where
  "chosen_model conf request = (if cr_model request = [] then pc_model conf else cr_model request)"

text \<open>Posting a body and opening a stream over the parsed answer.\<close>

definition post_completion ::
  "(string \<Rightarrow> provider_error + chunk list) \<Rightarrow> 'w host_http \<Rightarrow> http_request \<Rightarrow> provider_state \<Rightarrow> 'w
     \<Rightarrow> (provider_error + stream_handle) \<times> provider_state \<times> 'w" where
  "post_completion parse_response http request st w =
     (case http request w of
        (Inl err, w1) \<Rightarrow> (Inl (map_http_error err), st, w1)
      | (Inr response, w1) \<Rightarrow>
          (case parse_response (hr_body response) of
             Inl e \<Rightarrow> (Inl e, st, w1)
           | Inr chunks \<Rightarrow> (case open_stream chunks st of (h, st1) \<Rightarrow> (Inr h, st1, w1))))"

section \<open>The OpenAI-compatible provider\<close>

fun role_str :: "role \<Rightarrow> string" where
  "role_str System = ''system''"
| "role_str User = ''user''"
| "role_str Assistant = ''assistant''"
| "role_str Tool = ''tool''"

definition openai_message :: "message \<Rightarrow> json" where
  "openai_message m =
     JObj ([(''content'', JStr (msg_content m)), (''role'', JStr (role_str (msg_role m)))] @
       (case msg_tool_call_id m of Some i \<Rightarrow> [(''tool_call_id'', JStr i)] | None \<Rightarrow> []))"

definition openai_tool :: "parser \<Rightarrow> tool_definition \<Rightarrow> json" where
  "openai_tool parse t =
     JObj [(''function'', JObj [(''description'', JStr (td_description t)), (''name'', JStr (td_name t)),
            (''parameters'', schema_of parse (td_parameters_schema t))]),
       (''type'', JStr ''function'')]"

definition openai_body ::
  "parser \<Rightarrow> (32 word \<Rightarrow> json) \<Rightarrow> string \<Rightarrow> completion_request \<Rightarrow> json" where
  "openai_body parse float_json model request =
     JObj
       ((case cr_grammar request of Some g \<Rightarrow> [(''grammar'', JStr g)] | None \<Rightarrow> []) @
        (case cr_max_tokens request of Some n \<Rightarrow> [(''max_tokens'', JInt (int n))] | None \<Rightarrow> []) @
        [(''messages'', JArr (map openai_message (cr_messages request))),
         (''model'', JStr model), (''stream'', JBool False)] @
        (case cr_temperature request of Some t \<Rightarrow> [(''temperature'', float_json t)] | None \<Rightarrow> []) @
        (if cr_tools request = [] then [] else [(''tools'', JArr (map (openai_tool parse) (cr_tools request)))]))"

definition jfirst :: "json \<Rightarrow> json option" where
  "jfirst v = (case v of JArr (x # _) \<Rightarrow> Some x | _ \<Rightarrow> None)"

definition openai_call :: "json \<Rightarrow> tool_call" where
  "openai_call v =
     (let f = jget ''function'' v
      in \<lparr>tc_id = str_field v ''id'',
           tc_name = (case f of Some x \<Rightarrow> str_field x ''name'' | None \<Rightarrow> []),
           tc_arguments = (case f of Some x \<Rightarrow> str_field x ''arguments'' | None \<Rightarrow> [])\<rparr>)"

definition openai_chunks :: "json \<Rightarrow> json \<Rightarrow> chunk list" where
  "openai_chunks choice msg =
     (case get_str ''content'' msg of Some c \<Rightarrow> (if c = [] then [] else [CTextDelta c]) | None \<Rightarrow> []) @
     (case get_array ''tool_calls'' msg of Some calls \<Rightarrow> map (CToolCallRequest \<circ> openai_call) calls | None \<Rightarrow> []) @
     [CDone (case get_str ''finish_reason'' choice of Some r \<Rightarrow> r | None \<Rightarrow> ''stop'')]"

definition openai_response :: "parser \<Rightarrow> string \<Rightarrow> provider_error + chunk list" where
  "openai_response parse body =
     (case parse body of
        Inl _ \<Rightarrow> Inl Transient
      | Inr v \<Rightarrow>
          (case Option.bind (jget ''choices'' v) jfirst of
             None \<Rightarrow> Inl Transient
           | Some choice \<Rightarrow>
               (case jget ''message'' choice of
                  None \<Rightarrow> Inl Transient
                | Some msg \<Rightarrow> Inr (openai_chunks choice msg))))"

definition trim_end_matches :: "char \<Rightarrow> string \<Rightarrow> string" where
  "trim_end_matches c s = rev (dropWhile (\<lambda>x. x = c) (rev s))"

definition openai_request :: "provider_config \<Rightarrow> string \<Rightarrow> http_request" where
  "openai_request conf body =
     \<lparr>hq_method = ''POST'', hq_url = trim_end_matches CHR ''/'' (pc_base_url conf) @ ''/chat/completions'',
      hq_headers = (''Content-Type'', ''application/json'') #
        (if pc_api_key conf = [] then [] else [(''Authorization'', ''Bearer '' @ pc_api_key conf)]),
      hq_body = Some body, hq_timeout_ms = 0\<rparr>"

definition openai_complete ::
  "parser \<Rightarrow> printer \<Rightarrow> (32 word \<Rightarrow> json) \<Rightarrow> 'w host_http \<Rightarrow> completion_request \<Rightarrow> provider_state \<times> 'w
     \<Rightarrow> (provider_error + stream_handle) \<times> provider_state \<times> 'w" where
  "openai_complete parse render float_json http request = (\<lambda>(st, w).
     let model = chosen_model (ps_config st) request
     in if model = [] then (Inl ModelNotFound, st, w)
        else post_completion (openai_response parse) http
               (openai_request (ps_config st) (render (openai_body parse float_json model request))) st w)"

definition base_url_required :: string where
  "base_url_required = ''provider-openai: '' @ bquote ''base-url'' @ '' is required''"

definition openai_init ::
  "parser \<Rightarrow> (string \<Rightarrow> string option) \<Rightarrow> string option \<Rightarrow> provider_state \<Rightarrow> (string + unit) \<times> provider_state" where
  "openai_init parse secrets all_config st =
     (let sec = section_of parse all_config;
          conf = \<lparr>pc_base_url = str_field sec ''base-url'', pc_api_key = api_key_of secrets sec,
                  pc_model = str_field sec ''model''\<rparr>
      in if pc_base_url conf = [] then (Inl base_url_required, st)
         else (Inr (), st\<lparr>ps_config := conf\<rparr>))"

definition provider_info :: "string \<Rightarrow> provider_state \<Rightarrow> string \<times> string list" where
  "provider_info i st =
     (i, if pc_model (ps_config st) = [] then [] else [pc_model (ps_config st)])"

section \<open>The Anthropic provider\<close>

definition ANTHROPIC_VERSION :: string where "ANTHROPIC_VERSION = ''2023-06-01''"
definition DEFAULT_MAX_TOKENS :: nat where "DEFAULT_MAX_TOKENS = 8192"

definition role_content :: "string \<Rightarrow> string \<Rightarrow> json" where
  "role_content role content = JObj [(''content'', JStr content), (''role'', JStr role)]"

definition anthropic_message :: "message \<Rightarrow> json" where
  "anthropic_message m =
     (case msg_role m of
        Assistant \<Rightarrow> role_content ''assistant'' (msg_content m)
      | Tool \<Rightarrow>
          JObj [(''content'', JArr [JObj [(''content'', JStr (msg_content m)),
               (''tool_use_id'', JStr (case msg_tool_call_id m of Some i \<Rightarrow> i | None \<Rightarrow> [])),
               (''type'', JStr ''tool_result'')]]),
            (''role'', JStr ''user'')]
      | _ \<Rightarrow> role_content ''user'' (msg_content m))"

definition anthropic_tool :: "parser \<Rightarrow> tool_definition \<Rightarrow> json" where
  "anthropic_tool parse t =
     JObj [(''description'', JStr (td_description t)),
       (''input_schema'', schema_of parse (td_parameters_schema t)), (''name'', JStr (td_name t))]"

definition system_text :: "completion_request \<Rightarrow> string option" where
  "system_text request =
     map_option msg_content (List.find (\<lambda>m. msg_role m = System) (cr_messages request))"

definition anthropic_body ::
  "parser \<Rightarrow> (32 word \<Rightarrow> json) \<Rightarrow> string \<Rightarrow> completion_request \<Rightarrow> json" where
  "anthropic_body parse float_json model request =
     JObj
       ([(''max_tokens'', JInt (int (case cr_max_tokens request of Some n \<Rightarrow> n | None \<Rightarrow> DEFAULT_MAX_TOKENS))),
         (''messages'', JArr (map anthropic_message
            (filter (\<lambda>m. msg_role m \<noteq> System) (cr_messages request)))),
         (''model'', JStr model)] @
        (case system_text request of Some s \<Rightarrow> [(''system'', JStr s)] | None \<Rightarrow> []) @
        (case cr_temperature request of Some t \<Rightarrow> [(''temperature'', float_json t)] | None \<Rightarrow> []) @
        (if cr_tools request = [] then [] else [(''tools'', JArr (map (anthropic_tool parse) (cr_tools request)))]))"

definition block_chunks :: "printer \<Rightarrow> json \<Rightarrow> chunk list" where
  "block_chunks render block =
     (if get_str ''type'' block = Some ''text'' then
        (let t = str_field block ''text'' in if t = [] then [] else [CTextDelta t])
      else if get_str ''type'' block = Some ''tool_use'' then
        [CToolCallRequest \<lparr>tc_id = str_field block ''id'', tc_name = str_field block ''name'',
           tc_arguments =
             (case jget ''input'' block of
                None \<Rightarrow> []
              | Some (JStr s) \<Rightarrow> s
              | Some v \<Rightarrow> render v)\<rparr>]
      else [])"

definition finish_of :: "string \<Rightarrow> string" where
  "finish_of stop_reason =
     (if stop_reason = ''tool_use'' then ''tool-calls''
      else if stop_reason = ''max_tokens'' then ''length''
      else ''stop'')"

definition anthropic_error :: "json \<Rightarrow> provider_error" where
  "anthropic_error v =
     (let kind = (case Option.bind (jget ''error'' v) (get_str ''type'') of Some k \<Rightarrow> k | None \<Rightarrow> [])
      in if kind = ''authentication_error'' \<or> kind = ''permission_error'' then AuthFailed
         else if kind = ''rate_limit_error'' then QuotaExceeded
         else Transient)"

definition anthropic_response :: "parser \<Rightarrow> printer \<Rightarrow> string \<Rightarrow> provider_error + chunk list" where
  "anthropic_response parse render body =
     (case parse body of
        Inl _ \<Rightarrow> Inl Transient
      | Inr v \<Rightarrow>
          (if get_str ''type'' v = Some ''error'' then Inl (anthropic_error v)
           else
             (case get_array ''content'' v of
                None \<Rightarrow> Inl Transient
              | Some content \<Rightarrow>
                  Inr (concat (map (block_chunks render) content) @
                    [CDone (finish_of (case get_str ''stop_reason'' v of Some r \<Rightarrow> r | None \<Rightarrow> ''end_turn''))]))))"

definition anthropic_request :: "provider_config \<Rightarrow> string \<Rightarrow> http_request" where
  "anthropic_request conf body =
     \<lparr>hq_method = ''POST'', hq_url = ''https://api.anthropic.com/v1/messages'',
      hq_headers = [(''Content-Type'', ''application/json''), (''anthropic-version'', ANTHROPIC_VERSION)] @
        (if pc_api_key conf = [] then [] else [(''x-api-key'', pc_api_key conf)]),
      hq_body = Some body, hq_timeout_ms = 0\<rparr>"

definition anthropic_complete ::
  "parser \<Rightarrow> printer \<Rightarrow> (32 word \<Rightarrow> json) \<Rightarrow> 'w host_http \<Rightarrow> completion_request \<Rightarrow> provider_state \<times> 'w
     \<Rightarrow> (provider_error + stream_handle) \<times> provider_state \<times> 'w" where
  "anthropic_complete parse render float_json http request = (\<lambda>(st, w).
     let model = chosen_model (ps_config st) request
     in if model = [] then (Inl ModelNotFound, st, w)
        else post_completion (anthropic_response parse render) http
               (anthropic_request (ps_config st) (render (anthropic_body parse float_json model request))) st w)"

definition anthropic_init ::
  "parser \<Rightarrow> (string \<Rightarrow> string option) \<Rightarrow> string option \<Rightarrow> provider_state \<Rightarrow> (string + unit) \<times> provider_state" where
  "anthropic_init parse secrets all_config st =
     (let sec = section_of parse all_config
      in (Inr (), st\<lparr>ps_config := \<lparr>pc_base_url = [], pc_api_key = api_key_of secrets sec,
                       pc_model = str_field sec ''model''\<rparr>\<rparr>))"

end
