(* ===== verification/ProviderRoute.thy ===== *)
theory ProviderRoute
  imports HostCaps Provider
begin

text \<open>
  The host's side of a provider (\<open>host/wasm/src/route.rs\<close>): \<open>ProviderCompleter\<close> sends a request to a guest,
  reads its chunks until the stream is done and closes it. A guest is a record of its calls; \<open>None\<close> is a trap.
  A guest may stream for ever, so reading is partial: \<open>None\<close> is "never returns". \<open>llm_streams\<close> is what the host
  relies on of a guest; the two providers are interpreted in it.
\<close>

record 'w llm_guest =
  lg_complete :: "completion_request \<Rightarrow> 'w \<Rightarrow> (provider_error + stream_handle) option \<times> 'w"
  lg_next_chunk :: "stream_handle \<Rightarrow> 'w \<Rightarrow> chunk option option \<times> 'w"
  lg_close_stream :: "stream_handle \<Rightarrow> 'w \<Rightarrow> 'w"

definition to_completion_request :: "pending_request \<Rightarrow> completion_request" where
  "to_completion_request r =
     \<lparr>cr_model = (case pr_model r of Some m \<Rightarrow> m | None \<Rightarrow> []), cr_messages = pr_messages r, cr_tools = pr_tools r,
      cr_grammar = pr_grammar r, cr_max_tokens = pr_max_tokens r, cr_temperature = pr_temperature r\<rparr>"

fun describe_failure :: "provider_error \<Rightarrow> string \<Rightarrow> string" where
  "describe_failure AuthFailed endpoint = ''the API key was rejected by '' @ endpoint @
     ''. Check the key this instance reads (the shipped config uses $OPENAI_API_KEY).''"
| "describe_failure ModelNotFound endpoint = endpoint @ '' does not offer the configured model. Check '' @
     bquote ''model:'' @ '' '' @ em_dash @ '' for a local server, that it is pulled.''"
| "describe_failure QuotaExceeded endpoint = ''rate-limited or out of quota''"
| "describe_failure OutOfMemory endpoint = ''the model ran out of memory '' @ em_dash @
     '' usually a local model too large for this machine''"
| "describe_failure ContextOverflow endpoint = ''the request exceeded the model's context window. '' @
     bquote ''interceptor.context'' @ '' trims history to a budget; lower its '' @ bquote ''context-tokens'' @
     '' if it is on.''"
| "describe_failure Unreachable endpoint = endpoint @ '' could not be reached. Is the server running, is the address '' @
     ''right, and is that origin allowed egress? Loopback and private addresses are refused unless config '' @
     ''names them '' @ em_dash @ '' a provider's '' @ bquote ''base-url'' @ '' counts, so a typo in it fails '' @
     ''here rather than being quietly allowed.''"
| "describe_failure Transient endpoint = ''a transient provider failure; worth retrying''"

definition endpoint_of :: "json \<Rightarrow> string" where
  "endpoint_of config = (case get_str ''base-url'' config of Some u \<Rightarrow> u | None \<Rightarrow> ''the configured endpoint'')"

partial_function (option) drain_stream ::
  "'w llm_guest \<Rightarrow> stream_handle \<Rightarrow> string \<Rightarrow> tool_call list \<Rightarrow> 'w \<Rightarrow> (completion \<times> 'w) option" where
  "drain_stream g h reply calls w =
     (case lg_next_chunk g h w of
        (Some (Some (CTextDelta d)), w1) \<Rightarrow> drain_stream g h (reply @ d) calls w1
      | (Some (Some (CToolCallRequest call)), w1) \<Rightarrow> drain_stream g h reply (calls @ [call]) w1
      | (Some (Some (CDone reason)), w1) \<Rightarrow>
          Some (\<lparr>cmp_text = reply, cmp_tool_calls = calls, cmp_finish_reason = reason\<rparr>, w1)
      | (_, w1) \<Rightarrow> Some (\<lparr>cmp_text = reply, cmp_tool_calls = calls, cmp_finish_reason = []\<rparr>, w1))"

definition provider_complete ::
  "'w llm_guest \<Rightarrow> string \<Rightarrow> pending_request \<Rightarrow> 'w \<Rightarrow> ((string + completion) \<times> 'w) option" where
  "provider_complete g endpoint request w =
     (case lg_complete g (to_completion_request request) w of
        (None, w1) \<Rightarrow> Some (Inl ''provider trapped'', w1)
      | (Some (Inl e), w1) \<Rightarrow> Some (Inl (describe_failure e endpoint), w1)
      | (Some (Inr h), w1) \<Rightarrow>
          (case drain_stream g h [] [] w1 of
             None \<Rightarrow> None
           | Some (c, w2) \<Rightarrow> Some (Inr c, lg_close_stream g h w2)))"

section \<open>What a completion is of its chunks\<close>

fun of_chunks :: "string \<Rightarrow> tool_call list \<Rightarrow> chunk list \<Rightarrow> completion" where
  "of_chunks reply calls [] = \<lparr>cmp_text = reply, cmp_tool_calls = calls, cmp_finish_reason = []\<rparr>"
| "of_chunks reply calls (CTextDelta d # cs) = of_chunks (reply @ d) calls cs"
| "of_chunks reply calls (CToolCallRequest call # cs) = of_chunks reply (calls @ [call]) cs"
| "of_chunks reply calls (CDone reason # cs) =
     \<lparr>cmp_text = reply, cmp_tool_calls = calls, cmp_finish_reason = reason\<rparr>"

text \<open>
  The contract of a guest, over a view of the chunks its open streams still hold: a chunk is taken off the front
  of its stream, an empty stream answers nothing, closing forgets the stream, and no call touches another's;
  reading and closing leave the rest of the state (\<open>rest\<close>) as it was.
\<close>

locale llm_streams =
  fixes g :: "'w llm_guest" and view :: "'w \<Rightarrow> stream_handle \<rightharpoonup> chunk list" and rest :: "'w \<Rightarrow> 'r"
  assumes next_some: "view w h = Some (c # cs) \<Longrightarrow>
      \<exists>w1. lg_next_chunk g h w = (Some (Some c), w1) \<and> view w1 = (view w)(h \<mapsto> cs) \<and> rest w1 = rest w"
    and next_none: "view w h = Some [] \<Longrightarrow> \<exists>w1. lg_next_chunk g h w = (Some None, w1) \<and> view w1 = view w \<and>
      rest w1 = rest w"
    and close: "view (lg_close_stream g h w) = (view w)(h := None) \<and> rest (lg_close_stream g h w) = rest w"
    and complete_ok: "lg_complete g req w = (Some (Inr h), w1) \<Longrightarrow> \<exists>cs. view w1 = (view w)(h \<mapsto> cs)"
begin

lemma drained:
  "view w h = Some cs \<Longrightarrow>
   \<exists>w1 left. drain_stream g h reply calls w = Some (of_chunks reply calls cs, w1) \<and>
     view w1 = (view w)(h \<mapsto> left) \<and> rest w1 = rest w"
proof (induction cs arbitrary: reply calls w)
  case Nil
  obtain w1 where w1: "lg_next_chunk g h w = (Some None, w1)" "view w1 = view w" "rest w1 = rest w"
    using next_none [OF Nil] by blast
  then have "drain_stream g h reply calls w = Some (of_chunks reply calls [], w1)"
    by (subst drain_stream.simps) simp
  then show ?case using w1 Nil by (metis map_upd_triv)
next
  case (Cons c cs)
  obtain w1 where w1: "lg_next_chunk g h w = (Some (Some c), w1)" "view w1 = (view w)(h \<mapsto> cs)"
    "rest w1 = rest w" using next_some [OF Cons.prems] by blast
  have view1: "view w1 h = Some cs" using w1(2) by simp
  show ?case
  proof (cases c)
    case (CDone reason)
    then have "drain_stream g h reply calls w = Some (of_chunks reply calls (c # cs), w1)"
      using w1(1) by (subst drain_stream.simps) simp
    then show ?thesis using w1(2,3) by blast
  next
    case (CTextDelta d)
    have "drain_stream g h reply calls w = drain_stream g h (reply @ d) calls w1"
      using w1(1) CTextDelta by (subst drain_stream.simps) simp
    then show ?thesis using Cons.IH [OF view1, of "reply @ d" calls] w1(2,3) CTextDelta by fastforce
  next
    case (CToolCallRequest call)
    have "drain_stream g h reply calls w = drain_stream g h reply (calls @ [call]) w1"
      using w1(1) CToolCallRequest by (subst drain_stream.simps) simp
    then show ?thesis using Cons.IH [OF view1, of reply "calls @ [call]"] w1(2,3) CToolCallRequest by fastforce
  qed
qed

text \<open>A completion is read whole, and leaves no stream of its own behind.\<close>

lemma completed:
  assumes "lg_complete g (to_completion_request req) w = (Some (Inr h), w1)" "view w1 h = Some cs"
  shows "\<exists>w2. provider_complete g endpoint req w = Some (Inr (of_chunks [] [] cs), w2) \<and>
    view w2 = (view w)(h := None) \<and> rest w2 = rest w1"
proof -
  obtain w2 left where d: "drain_stream g h [] [] w1 = Some (of_chunks [] [] cs, w2)"
    "view w2 = (view w1)(h \<mapsto> left)" "rest w2 = rest w1" using drained [OF assms(2)] by blast
  have "view (lg_close_stream g h w2) = (view w)(h := None) \<and> rest (lg_close_stream g h w2) = rest w1"
    using close [of h w2] d(2,3) complete_ok [OF assms(1)] by auto
  then show ?thesis using assms(1) d(1) by (simp add: provider_complete_def)
qed

text \<open>It always returns.\<close>

lemma completes: "provider_complete g endpoint req w \<noteq> None"
proof (cases "lg_complete g (to_completion_request req) w")
  case (Pair r w1)
  show ?thesis
  proof (cases "\<exists>h. r = Some (Inr h)")
    case True
    then obtain h where r: "r = Some (Inr h)" by blast
    obtain cs where "view w1 h = Some cs" using complete_ok Pair r by fastforce
    from completed [OF _ this] Pair r show ?thesis by fastforce
  next
    case False
    then show ?thesis using Pair by (auto simp: provider_complete_def split: option.splits sum.splits)
  qed
qed

end

section \<open>The two providers\<close>

definition provider_guest ::
  "(completion_request \<Rightarrow> provider_state \<times> 'w \<Rightarrow> (provider_error + stream_handle) \<times> provider_state \<times> 'w)
     \<Rightarrow> (provider_state \<times> 'w) llm_guest" where
  "provider_guest complete =
     \<lparr>lg_complete = (\<lambda>req sw. apfst Some (complete req sw)),
      lg_next_chunk = (\<lambda>h (st, w). case next_chunk h st of (c, st1) \<Rightarrow> (Some c, st1, w)),
      lg_close_stream = (\<lambda>h (st, w). (close_stream h st, w))\<rparr>"

definition openai_guest ::
  "parser \<Rightarrow> printer \<Rightarrow> (32 word \<Rightarrow> json) \<Rightarrow> 'w host_http \<Rightarrow> (provider_state \<times> 'w) llm_guest" where
  "openai_guest parse render float_json http = provider_guest (openai_complete parse render float_json http)"

definition anthropic_guest ::
  "parser \<Rightarrow> printer \<Rightarrow> (32 word \<Rightarrow> json) \<Rightarrow> 'w host_http \<Rightarrow> (provider_state \<times> 'w) llm_guest" where
  "anthropic_guest parse render float_json http = provider_guest (anthropic_complete parse render float_json http)"

lemma post_completion_opens:
  "post_completion pr http request st w = (Inr h, st1, w1) \<Longrightarrow>
     h = ps_next_handle st \<and> (\<exists>cs. ps_streams st1 = (ps_streams st)(h \<mapsto> cs))"
  by (auto simp: post_completion_def open_stream_def next_handle_def split: prod.splits sum.splits)

lemma provider_streams:
  assumes "\<And>req st w h st1 w1. complete req (st, w) = (Inr h, st1, w1) \<Longrightarrow>
      \<exists>cs. ps_streams st1 = (ps_streams st)(h \<mapsto> cs)"
  shows "llm_streams (provider_guest complete) (\<lambda>(st, w). ps_streams st)
    (\<lambda>(st, w). (ps_config st, ps_next_handle st, w))"
proof
  fix sw :: "provider_state \<times> 'a" and h c cs
  obtain st w where sw: "sw = (st, w)" by fastforce
  show "\<exists>w1. lg_next_chunk (provider_guest complete) h sw = (Some (Some c), w1) \<and>
      (case w1 of (st, w) \<Rightarrow> ps_streams st) = (case sw of (st, w) \<Rightarrow> ps_streams st)(h \<mapsto> cs) \<and>
      (case w1 of (st, w) \<Rightarrow> (ps_config st, ps_next_handle st, w)) =
        (case sw of (st, w) \<Rightarrow> (ps_config st, ps_next_handle st, w))"
    if "(case sw of (st, w) \<Rightarrow> ps_streams st) h = Some (c # cs)"
    using that sw by (simp add: provider_guest_def next_chunk_def)
  show "\<exists>w1. lg_next_chunk (provider_guest complete) h sw = (Some None, w1) \<and>
      (case w1 of (st, w) \<Rightarrow> ps_streams st) = (case sw of (st, w) \<Rightarrow> ps_streams st) \<and>
      (case w1 of (st, w) \<Rightarrow> (ps_config st, ps_next_handle st, w)) =
        (case sw of (st, w) \<Rightarrow> (ps_config st, ps_next_handle st, w))"
    if "(case sw of (st, w) \<Rightarrow> ps_streams st) h = Some []"
    using that sw by (simp add: provider_guest_def next_chunk_def)
  show "(case lg_close_stream (provider_guest complete) h sw of (st, w) \<Rightarrow> ps_streams st) =
      (case sw of (st, w) \<Rightarrow> ps_streams st)(h := None) \<and>
      (case lg_close_stream (provider_guest complete) h sw of (st, w) \<Rightarrow> (ps_config st, ps_next_handle st, w)) =
        (case sw of (st, w) \<Rightarrow> (ps_config st, ps_next_handle st, w))"
    using sw by (simp add: provider_guest_def close_stream_def)
next
  fix req and sw sw1 :: "provider_state \<times> 'a" and h
  assume "lg_complete (provider_guest complete) req sw = (Some (Inr h), sw1)"
  then show "\<exists>cs. (case sw1 of (st, w) \<Rightarrow> ps_streams st) = (case sw of (st, w) \<Rightarrow> ps_streams st)(h \<mapsto> cs)"
    using assms [of req "fst sw" "snd sw" h "fst sw1" "snd sw1"]
    by (cases sw; cases sw1; cases "complete req sw") (auto simp: provider_guest_def)
qed

interpretation openai: llm_streams "openai_guest parse render float_json http" "\<lambda>(st, w). ps_streams st"
    "\<lambda>(st, w). (ps_config st, ps_next_handle st, w)"
  for parse render float_json http
  unfolding openai_guest_def
  by (rule provider_streams) (auto simp: openai_complete_def Let_def split: if_splits dest: post_completion_opens)

interpretation anthropic: llm_streams "anthropic_guest parse render float_json http" "\<lambda>(st, w). ps_streams st"
    "\<lambda>(st, w). (ps_config st, ps_next_handle st, w)"
  for parse render float_json http
  unfolding anthropic_guest_def
  by (rule provider_streams) (auto simp: anthropic_complete_def Let_def split: if_splits dest: post_completion_opens)

section \<open>Properties\<close>

lemma of_chunks_calls [simp]:
  "of_chunks reply calls (map (CToolCallRequest \<circ> f) xs @ cs) = of_chunks reply (calls @ map f xs) cs"
  by (induction xs arbitrary: calls) auto

definition openai_answer :: "json \<Rightarrow> json \<Rightarrow> completion" where
  "openai_answer choice msg =
     \<lparr>cmp_text = str_field msg ''content'',
      cmp_tool_calls = (case get_array ''tool_calls'' msg of Some calls \<Rightarrow> map openai_call calls | None \<Rightarrow> []),
      cmp_finish_reason = (case get_str ''finish_reason'' choice of Some r \<Rightarrow> r | None \<Rightarrow> ''stop'')\<rparr>"

lemma openai_chunks_answer: "of_chunks [] [] (openai_chunks choice msg) = openai_answer choice msg"
  by (auto simp: openai_chunks_def openai_answer_def str_field_def split: option.split)

text \<open>C13 (answer_delivered): When the endpoint answers a completion with a choice and its message, the completion the
  turn gets is that answer: the message's text, its tool calls in their order and the finish reason, for one POST
  of the request; the provider is left with no stream of it open and its next handle moved on.\<close>

theorem answer_delivered:
  assumes model: "model = chosen_model (ps_config st) (to_completion_request req)" "model \<noteq> []"
    and post: "http (openai_request (ps_config st)
        (render (openai_body parse float_json model (to_completion_request req)))) w = (Inr response, w1)"
    and reply: "parse (hr_body response) = Inr v" "Option.bind (jget ''choices'' v) jfirst = Some choice"
      "jget ''message'' choice = Some msg"
  shows "\<exists>st1. provider_complete (openai_guest parse render float_json http) endpoint req (st, w) =
      Some (Inr (openai_answer choice msg), st1, w1) \<and>
    ps_streams st1 = (ps_streams st)(ps_next_handle st := None) \<and>
    ps_next_handle st1 = ps_next_handle st + 1 \<and> ps_config st1 = ps_config st"
proof -
  let ?g = "openai_guest parse render float_json http" and ?h = "ps_next_handle st"
  define st1 where "st1 = st\<lparr>ps_next_handle := ?h + 1,
    ps_streams := (ps_streams st)(?h \<mapsto> openai_chunks choice msg)\<rparr>"
  have "openai_response parse (hr_body response) = Inr (openai_chunks choice msg)"
    using reply by (simp add: openai_response_def)
  then have c: "lg_complete ?g (to_completion_request req) (st, w) = (Some (Inr ?h), st1, w1)"
    using model post
    by (simp add: openai_guest_def provider_guest_def openai_complete_def Let_def post_completion_def
        open_stream_def next_handle_def st1_def)
  have view: "(case (st1, w1) of (st, w) \<Rightarrow> ps_streams st) ?h = Some (openai_chunks choice msg)"
    by (simp add: st1_def)
  obtain sw where sw: "provider_complete ?g endpoint req (st, w) =
      Some (Inr (of_chunks [] [] (openai_chunks choice msg)), sw)"
    "(case sw of (st, w) \<Rightarrow> ps_streams st) = (ps_streams st)(?h := None)"
    "(case sw of (st, w) \<Rightarrow> (ps_config st, ps_next_handle st, w)) = (ps_config st1, ps_next_handle st1, w1)"
    using openai.completed [OF c view, of endpoint] by auto
  then show ?thesis by (cases sw) (auto simp: openai_chunks_answer st1_def)
qed

definition small_request :: pending_request where
  "small_request = \<lparr>pr_model = Some ''m'', pr_messages = [], pr_tools = [], pr_grammar = None,
     pr_max_tokens = None, pr_temperature = None\<rparr>"

definition small_message :: json where
  "small_message = JObj [(''content'', JStr ''hi'')]"

definition small_choice :: json where
  "small_choice = JObj [(''message'', small_message)]"

definition small_parse :: parser where
  "small_parse t = Inr (JObj [(''choices'', JArr [small_choice])])"

definition ok_http :: "nat host_http" where
  "ok_http q n = (Inr \<lparr>hr_status = 200, hr_headers = [], hr_body = []\<rparr>, n + 1)"

theorem answer_delivered_witness:
  "\<exists>st1. provider_complete (openai_guest small_parse (\<lambda>_. []) (\<lambda>_. JNull) ok_http) ''e'' small_request
      (fresh_provider, 0) =
    Some (Inr \<lparr>cmp_text = ''hi'', cmp_tool_calls = [], cmp_finish_reason = ''stop''\<rparr>, st1, 1)"
proof -
  have answer: "openai_answer small_choice small_message =
      \<lparr>cmp_text = ''hi'', cmp_tool_calls = [], cmp_finish_reason = ''stop''\<rparr>"
    by (simp add: openai_answer_def small_choice_def small_message_def str_field_def json_simps)
  have model: "''m'' = chosen_model (ps_config fresh_provider) (to_completion_request small_request)" "''m'' \<noteq> []"
    by (simp_all add: chosen_model_def to_completion_request_def small_request_def)
  have reply: "small_parse (hr_body \<lparr>hr_status = 200, hr_headers = [], hr_body = []\<rparr>) =
        Inr (JObj [(''choices'', JArr [small_choice])])"
      "Option.bind (jget ''choices'' (JObj [(''choices'', JArr [small_choice])])) jfirst = Some small_choice"
      "jget ''message'' small_choice = Some small_message"
    by (simp_all add: small_parse_def jfirst_def small_choice_def)
  show ?thesis
    using answer_delivered [where render = "\<lambda>_. []" and float_json = "\<lambda>_. JNull" and endpoint = "''e''" and w = 0
        and parse = small_parse and http = ok_http, OF model ok_http_def reply] answer by auto
qed

text \<open>A provider whose endpoint the egress policy refuses sends nothing: the request
  ends with the error that names the endpoint as unreachable, and the world is as it was.\<close>

theorem refused_endpoint_reported:
  assumes "chosen_model (ps_config st) (to_completion_request req) \<noteq> []"
    and "check parse_ip (lookup w) policy (trim_end_matches CHR ''/'' (pc_base_url (ps_config st)) @ ''/chat/completions'') =
      Inl ConnectionFailed"
  shows "provider_complete (openai_guest parse render float_json (host_fetch exchange join_url parse_ip lookup policy))
      endpoint req (st, w) = Some (Inl (describe_failure Unreachable endpoint), st, w)"
proof -
  let ?http = "host_fetch exchange join_url parse_ip lookup policy"
  let ?body = "render (openai_body parse float_json (chosen_model (ps_config st) (to_completion_request req))
      (to_completion_request req))"
  have "?http (openai_request (ps_config st) ?body) w = (Inl HConnectionFailed, w)"
    using refused_not_sent [of parse_ip lookup w policy "openai_request (ps_config st) ?body" ConnectionFailed]
      assms(2) by (simp add: openai_request_def)
  then have "lg_complete (openai_guest parse render float_json ?http) (to_completion_request req) (st, w) =
      (Some (Inl Unreachable), st, w)"
    using assms(1)
    by (simp add: openai_guest_def provider_guest_def openai_complete_def Let_def post_completion_def
        map_http_error_def)
  then show ?thesis by (simp add: provider_complete_def)
qed

definition local_provider :: provider_state where
  "local_provider = fresh_provider\<lparr>ps_config := \<lparr>pc_base_url = ''http://127.0.0.1'', pc_api_key = [], pc_model = []\<rparr>\<rparr>"

theorem refused_endpoint_reported_witness:
  "provider_complete (openai_guest (\<lambda>_. Inr JNull) (\<lambda>_. []) (\<lambda>_. JNull)
      (host_fetch (\<lambda>verb url dest hs body timeout n. (Inl WireBackend, n + 1)) (\<lambda>_ _. None)
        (\<lambda>_. Some (V4 0x7f000001)) (\<lambda>_ _ _. None) public_only)) ''e'' small_request (local_provider, 0 :: nat) =
    Some (Inl (describe_failure Unreachable ''e''), local_provider, 0)"
proof (rule refused_endpoint_reported)
  show "chosen_model (ps_config local_provider) (to_completion_request small_request) \<noteq> []"
    by (simp add: chosen_model_def to_completion_request_def small_request_def)
  have url: "trim_end_matches CHR ''/'' ''http://127.0.0.1'' @ ''/chat/completions'' = ''http://127.0.0.1/chat/completions''"
    by code_simp
  have "origin_of ''http://127.0.0.1/chat/completions'' = Some ''http://127.0.0.1:80''"
    "host_port ''http://127.0.0.1/chat/completions'' = Some (''127.0.0.1'', 80)"
    "\<not> is_public_v4 0x7f000001" by code_simp+
  then show "check (\<lambda>_. Some (V4 0x7f000001)) (\<lambda>_ _. None) public_only
      (trim_end_matches CHR ''/'' (pc_base_url (ps_config local_provider)) @ ''/chat/completions'') = Inl ConnectionFailed"
    using url by (simp add: local_provider_def check_def public_only_def)
qed

end
