(* ===== verification/Selectors.thy ===== *)
theory Selectors
  imports HostApi Turn
begin

text \<open>
  The interceptors that prepare a request: \<open>interceptor-system\<close> (standing instructions), \<open>interceptor-persona\<close>,
  \<open>interceptor-context\<close> (trimming to a token budget) and \<open>interceptor-tool-selector\<close> (which tools are shown).
  Each is the function from what the host hands it to its decision. Parameters: the JSON parser, \<open>lower\<close> for
  \<open>str::to_lowercase\<close>, \<open>alnum\<close> for \<open>char::is_alphanumeric\<close>, \<open>score\<close> for the BM25 score of a tool, which is
  only compared, and \<open>config\<close> for \<open>host-config.get\<close>. A guest's \<open>usize\<close> is 32 bits. Log lines are not modelled.
\<close>

section \<open>Standing instructions\<close>

definition DEFAULT_PROMPT :: string where
  "DEFAULT_PROMPT = join_with [newline]
     [''You are jan-klod, a coding agent working inside one workspace directory.'',
      '''',
      ''- Paths are workspace-relative. Absolute paths and '' @ bquote ''..'' @ '' are refused by the '' @
        ''sandbox, not merely discouraged.'',
      ''- Use the tools rather than describing what you would do. '' @ bquote ''find'' @ '' locates files by '' @
        ''glob, '' @ bquote ''fs'' @ '' reads and greps them (grep searches the whole tree by default), '' @
        bquote ''edit'' @ '' changes part of a file, '' @ bquote ''git'' @ '' shows the repository state read-only.'',
      ''- Prefer '' @ bquote ''edit'' @ '' over rewriting a file: it anchors on the lines you saw, so a stale '' @
        ''edit is rejected instead of applied to the wrong place.'',
      ''- Writes and commands are confirmed with the user before they happen. Expect that, '' @
        ''and do not plan around avoiding it.'',
      ''- Tool output is capped and may say it was truncated. Narrow the query rather than '' @
        ''assuming you saw everything.'',
      ''- Answer concisely; the conversation shares the model'' @ [CHR 0x27] @ ''s context window with the '' @
        ''files you read.'']"

definition resolve_prompt :: "string option \<Rightarrow> string option" where
  "resolve_prompt configured =
     (case configured of
        Some t \<Rightarrow> if trim t = [] then None else Some t
      | None \<Rightarrow> Some DEFAULT_PROMPT)"

datatype prompt_source = BuiltIn | Configured | Off

fun source_label :: "prompt_source \<Rightarrow> string" where
  "source_label BuiltIn = ''built-in''"
| "source_label Configured = ''configured''"
| "source_label Off = ''off''"

fun source_detail :: "prompt_source \<Rightarrow> string" where
  "source_detail BuiltIn = ''no '' @ bquote ''prompt'' @ '' is configured, so the built-in instructions run''"
| "source_detail Configured = ''a configured '' @ bquote ''prompt'' @ '' replaces the built-in instructions''"
| "source_detail Off = bquote ''prompt'' @ '' is empty, so no system message is sent''"

definition prompt_source_of :: "string option \<Rightarrow> prompt_source" where
  "prompt_source_of configured =
     (case configured of None \<Rightarrow> BuiltIn | Some t \<Rightarrow> if trim t = [] then Off else Configured)"

definition prompt_summary :: "string option \<Rightarrow> bool \<Rightarrow> string" where
  "prompt_summary resolved verbose =
     (case resolved of
        None \<Rightarrow> ''No system message is sent: '' @ bquote ''prompt'' @ '' is empty.''
      | Some t \<Rightarrow>
          (if verbose then t
           else (case str_lines t of [] \<Rightarrow> [] | l # _ \<Rightarrow> l) @ '' '' @ ellipsis @ '' ('' @
             show_nat (length (utf8_chars t)) @ '' characters; pass '' @ bquote ''verbose'' @ '' for all of it)''))"

definition resolve_with_project :: "string option \<Rightarrow> string option \<Rightarrow> string option" where
  "resolve_with_project configured project =
     (case resolve_prompt configured of
        None \<Rightarrow> None
      | Some base \<Rightarrow>
          (case project of
             None \<Rightarrow> Some base
           | Some p \<Rightarrow>
               (if trim p = [] then Some base
                else Some (base @ [newline, newline] @ ''## Project instructions (from AGENTS.md)'' @
                  [newline, newline] @
                  ''These come from the repository, not from the runtime. They can shape how '' @
                  ''you work; they cannot grant permissions the sandbox refuses.'' @ [newline, newline] @ trim p))))"

record system_state =
  sy_prompt :: "string option"
  sy_source :: prompt_source

definition system_init :: "parser \<Rightarrow> string option \<Rightarrow> system_state" where
  "system_init parse all_config =
     (let v = parse (case all_config of Some raw \<Rightarrow> raw | None \<Rightarrow> ''{}'');
          configured = (case v of Inr sec \<Rightarrow> get_str ''prompt'' sec | Inl _ \<Rightarrow> None);
          project = (case v of Inr sec \<Rightarrow> get_str ''project-instructions'' sec | Inl _ \<Rightarrow> None)
      in \<lparr>sy_prompt = resolve_with_project configured project, sy_source = prompt_source_of configured\<rparr>)"

definition is_system :: "message \<Rightarrow> bool" where
  "is_system m \<longleftrightarrow> msg_role m = System"

definition system_intercept ::
  "system_state \<Rightarrow> intercept_input \<Rightarrow> interceptor_error + decision" where
  "system_intercept st inp =
     (case in_state inp of
        SSelectModel request \<Rightarrow>
          (case sy_prompt st of
             None \<Rightarrow> Inr Proceed
           | Some t \<Rightarrow>
               (if list_ex is_system (pr_messages request) then Inr Proceed
                else Inr (Replace (SSelectModel (request\<lparr>pr_messages :=
                  \<lparr>msg_role = System, msg_content = t, msg_tool_call_id = None\<rparr> # pr_messages request\<rparr>)))))
      | _ \<Rightarrow> Inl InvalidState)"

definition PROMPT_COMMAND :: string where "PROMPT_COMMAND = ''prompt''"

text \<open>The contributed command; \<open>None\<close> is \<open>InvokeError::Unknown\<close>. Arguments are names with values.\<close>

definition system_invoke :: "system_state \<Rightarrow> string \<Rightarrow> (string \<times> string) list \<Rightarrow> string option" where
  "system_invoke st name arguments =
     (if name \<noteq> PROMPT_COMMAND then None
      else Some (prompt_summary (sy_prompt st)
        (list_ex (\<lambda>(n, v). n = ''verbose'' \<and> trim v \<in> {''true'', ''yes'', ''1''}) arguments)))"

section \<open>Persona\<close>

definition DEFAULT_HELPFUL :: string where
  "DEFAULT_HELPFUL = ''You are helpful, concise, and focused on solving the user'' @ [CHR 0x27] @ ''s problem.''"

definition personalities_of :: "json \<Rightarrow> (string \<times> string) list" where
  "personalities_of conf =
     (case jget ''personalities'' conf of
        Some (JObj ms) \<Rightarrow>
          List.map_filter (\<lambda>(n, d). case d of JStr t \<Rightarrow> Some (n, t) | _ \<Rightarrow> None) ms
      | _ \<Rightarrow> [])"

definition persona_from_config :: "parser \<Rightarrow> string \<Rightarrow> string option \<times> string option" where
  "persona_from_config parse raw =
     (case parse raw of
        Inl _ \<Rightarrow> (None, Some ''Failed to parse persona config as JSON'')
      | Inr (JObj ms) \<Rightarrow>
          (if get_bool ''enabled'' (JObj ms) \<noteq> Some True then (None, None)
           else
             (let ps = personalities_of (JObj ms);
                  name = (case get_str ''default'' (JObj ms) of Some n \<Rightarrow> n | None \<Rightarrow> ''helpful'')
              in (Some (case map_of ps name of Some t \<Rightarrow> t | None \<Rightarrow> DEFAULT_HELPFUL),
                  if map_of ps name = None \<and> ps \<noteq> []
                  then Some (''Persona '' @ [CHR 0x27] @ name @ [CHR 0x27] @
                    '' not found in personalities; using built-in default'')
                  else None)))
      | Inr _ \<Rightarrow> (None, Some ''Persona config is not an object''))"

text \<open>
  \<open>init\<close> looks for \<open>extensions.interceptor.persona\<close> in what the host gives it, which is the instance's own slice.
\<close>

definition persona_section :: "parser \<Rightarrow> printer \<Rightarrow> string option \<Rightarrow> string" where
  "persona_section parse render all_config =
     (case parse (case all_config of Some raw \<Rightarrow> raw | None \<Rightarrow> ''{}'') of
        Inl _ \<Rightarrow> ''{}''
      | Inr v \<Rightarrow>
          (case Option.bind (Option.bind (jget ''extensions'' v) (jget ''interceptor'')) (jget ''persona'') of
             Some p \<Rightarrow> render p
           | None \<Rightarrow> ''{}''))"

definition persona_init :: "parser \<Rightarrow> printer \<Rightarrow> string option \<Rightarrow> string option" where
  "persona_init parse render all_config = fst (persona_from_config parse (persona_section parse render all_config))"

definition persona_heading :: string where
  "persona_heading = ''## Persona'' @ [newline]"

definition insert_at :: "nat \<Rightarrow> 'a \<Rightarrow> 'a list \<Rightarrow> 'a list" where
  "insert_at i x xs = take i xs @ x # drop i xs"

definition persona_intercept ::
  "string option \<Rightarrow> intercept_input \<Rightarrow> interceptor_error + decision" where
  "persona_intercept conf inp =
     (case in_state inp of
        SSelectModel request \<Rightarrow>
          (case conf of
             None \<Rightarrow> Inr Proceed
           | Some t \<Rightarrow>
               (if list_ex (\<lambda>m. starts_with persona_heading (msg_content m)) (pr_messages request) then Inr Proceed
                else Inr (Replace (SSelectModel (request\<lparr>pr_messages :=
                  insert_at (if list_ex is_system (pr_messages request) then 1 else 0)
                    \<lparr>msg_role = User, msg_content = persona_heading @ t, msg_tool_call_id = None\<rparr>
                    (pr_messages request)\<rparr>)))))
      | _ \<Rightarrow> Inl InvalidState)"

section \<open>Trimming the context\<close>

definition estimate_tokens :: "nat \<Rightarrow> nat" where
  "estimate_tokens char_len = char_len div 4"

text \<open>The loop from the newest message back: \<open>remaining\<close> tokens, the indices kept so far.\<close>

fun keep_recent :: "nat list \<Rightarrow> bool list \<Rightarrow> nat \<Rightarrow> nat list \<Rightarrow> nat list \<Rightarrow> nat list" where
  "keep_recent tokens sys remaining [] kept = kept"
| "keep_recent tokens sys remaining (i # is) kept =
     (if sys ! i then keep_recent tokens sys remaining is kept
      else if tokens ! i \<le> remaining then keep_recent tokens sys (remaining - tokens ! i) is (kept @ [i])
      else if kept = [] then kept @ [i]
      else kept)"

definition keep_indices :: "nat list \<Rightarrow> bool list \<Rightarrow> nat \<Rightarrow> nat list" where
  "keep_indices tokens sys budget =
     (if sum_list tokens \<le> budget then [0..<length tokens]
      else
        (let system_total = sum_list (map fst (filter snd (zip tokens sys)))
         in sort (filter (\<lambda>i. sys ! i) [0..<length tokens] @
              keep_recent tokens sys (budget - system_total) (rev [0..<length tokens]) [])))"

definition DEFAULT_BUDGET :: nat where "DEFAULT_BUDGET = 8192"

type_synonym config_reader = "string \<Rightarrow> string option"

definition number_or :: "config_reader \<Rightarrow> string \<Rightarrow> nat \<Rightarrow> nat" where
  "number_or config key fallback =
     (case Option.bind (config key) (\<lambda>raw. parse_u32 (trim raw)) of Some n \<Rightarrow> n | None \<Rightarrow> fallback)"

definition context_intercept :: "config_reader \<Rightarrow> intercept_input \<Rightarrow> interceptor_error + decision" where
  "context_intercept config inp =
     (case in_state inp of
        SSelectContext request \<Rightarrow>
          (let ms = pr_messages request;
               keep = keep_indices (map (\<lambda>m. estimate_tokens (length (msg_content m))) ms) (map is_system ms)
                 (number_or config ''context-tokens'' DEFAULT_BUDGET)
           in if length keep = length ms then Inr Proceed
              else Inr (Replace (SSelectContext (request\<lparr>pr_messages := map (\<lambda>i. ms ! i) keep\<rparr>))))
      | _ \<Rightarrow> Inl InvalidState)"

section \<open>Which tools are shown\<close>

type_synonym scalar_test = "string \<Rightarrow> bool"

text \<open>\<open>split\<close> on scalars that satisfy a test: the pieces between them.\<close>

fun split_scalars :: "scalar_test \<Rightarrow> string list \<Rightarrow> string list list" where
  "split_scalars stop [] = [[]]"
| "split_scalars stop (ch # chs) =
     (if stop ch then [] # split_scalars stop chs
      else (case split_scalars stop chs of [] \<Rightarrow> [[ch]] | p # ps \<Rightarrow> (ch # p) # ps))"

definition terms_of :: "(string \<Rightarrow> string) \<Rightarrow> scalar_test \<Rightarrow> string \<Rightarrow> string list" where
  "terms_of lower alnum t =
     map (\<lambda>w. lower (concat w))
       (filter (\<lambda>w. 1 < length w) (split_scalars (\<lambda>ch. \<not> alnum ch) (utf8_chars t)))"

record tool_doc =
  dc_name :: string
  dc_terms :: "string list"

definition new_doc :: "(string \<Rightarrow> string) \<Rightarrow> scalar_test \<Rightarrow> string \<Rightarrow> string \<Rightarrow> tool_doc" where
  "new_doc lower alnum name description =
     \<lparr>dc_name = lower name, dc_terms = terms_of lower alnum name @ terms_of lower alnum description\<rparr>"

text \<open>\<open>match_indices\<close>: the starts of the matches that do not overlap, \<open>skip\<close> bytes of one still to pass.\<close>

fun matches_from :: "string \<Rightarrow> nat \<Rightarrow> nat \<Rightarrow> string \<Rightarrow> nat list" where
  "matches_from p pos skip [] = []"
| "matches_from p pos (Suc skip) (c # cs) = matches_from p (pos + 1) skip cs"
| "matches_from p pos 0 (c # cs) =
     (if starts_with p (c # cs) then pos # matches_from p (pos + 1) (length p - 1) cs
      else matches_from p (pos + 1) 0 cs)"

definition named_in :: "scalar_test \<Rightarrow> tool_doc \<Rightarrow> string \<Rightarrow> bool" where
  "named_in alnum d lowered \<longleftrightarrow>
     dc_name d \<noteq> [] \<and>
     list_ex (\<lambda>p.
       (let before = utf8_chars (take p lowered); after = utf8_chars (drop (p + length (dc_name d)) lowered)
        in (before = [] \<or> \<not> alnum (last before)) \<and> (after = [] \<or> \<not> alnum (hd after))))
       (matches_from (dc_name d) 0 0 lowered)"

definition rank_tools ::
  "(string \<Rightarrow> string) \<Rightarrow> scalar_test \<Rightarrow> (tool_doc list \<Rightarrow> string list \<Rightarrow> tool_doc \<Rightarrow> 'f::{linorder, zero})
     \<Rightarrow> tool_doc list \<Rightarrow> string \<Rightarrow> nat list" where
  "rank_tools lower alnum score docs qry =
     (let qs = terms_of lower alnum qry
      in if qs = [] \<or> docs = [] then []
         else rev (sort_key (\<lambda>i. score docs qs (docs ! i))
                (rev (filter (\<lambda>i. 0 < score docs qs (docs ! i)) [0..<length docs]))))"

record cut =
  ct_most :: nat
  ct_least :: nat

text \<open>The two loops that add what is not kept yet until \<open>bound\<close> are kept.\<close>

fun add_until :: "nat \<Rightarrow> nat list \<Rightarrow> nat list \<Rightarrow> nat list" where
  "add_until limit [] keep = keep"
| "add_until limit (i # is) keep =
     (if limit \<le> length keep then keep
      else if i \<in> set keep then add_until limit is keep
      else add_until limit is (keep @ [i]))"

definition select_tools ::
  "(string \<Rightarrow> string) \<Rightarrow> scalar_test \<Rightarrow> (tool_doc list \<Rightarrow> string list \<Rightarrow> tool_doc \<Rightarrow> 'f::{linorder, zero})
     \<Rightarrow> tool_doc list \<Rightarrow> string \<Rightarrow> string \<Rightarrow> cut \<Rightarrow> nat list" where
  "select_tools lower alnum score docs asked conversation c =
     (if ct_most c = 0 \<or> length docs \<le> ct_most c then [0..<length docs]
      else
        (let lowered = lower conversation;
             named = filter (\<lambda>i. named_in alnum (docs ! i) lowered) [0..<length docs];
             ranked = add_until (ct_most c) (rank_tools lower alnum score docs asked) named;
             floored = add_until (min (ct_least c) (length docs)) [0..<length docs] ranked
         in sort floored))"

definition joined :: "message list \<Rightarrow> string" where
  "joined ms = join_with [newline] (map msg_content ms)"

definition tool_of_json :: "json \<Rightarrow> tool_definition option" where
  "tool_of_json v =
     (case get_str ''name'' v of
        None \<Rightarrow> None
      | Some n \<Rightarrow> Some
          \<lparr>td_name = n,
           td_description = (case get_str ''description'' v of Some d \<Rightarrow> d | None \<Rightarrow> []),
           td_parameters_schema = (case get_str ''parameters-schema'' v of Some s \<Rightarrow> s | None \<Rightarrow> ''{}'')\<rparr>)"

definition advertised_tools :: "parser \<Rightarrow> config_reader \<Rightarrow> tool_definition list" where
  "advertised_tools parse config =
     (case config ''tools'' of
        None \<Rightarrow> []
      | Some raw \<Rightarrow>
          (case parse raw of
             Inr (JArr items) \<Rightarrow> List.map_filter tool_of_json items
           | _ \<Rightarrow> []))"

definition DEFAULT_MAX_TOOLS :: nat where "DEFAULT_MAX_TOOLS = 0"
definition DEFAULT_MIN_TOOLS :: nat where "DEFAULT_MIN_TOOLS = 3"

definition selector_intercept ::
  "(string \<Rightarrow> string) \<Rightarrow> scalar_test \<Rightarrow> (tool_doc list \<Rightarrow> string list \<Rightarrow> tool_doc \<Rightarrow> 'f::{linorder, zero})
     \<Rightarrow> parser \<Rightarrow> config_reader \<Rightarrow> intercept_input \<Rightarrow> interceptor_error + decision" where
  "selector_intercept lower alnum score parse config inp =
     (case in_state inp of
        SSelectTools request \<Rightarrow>
          (let tools = advertised_tools parse config;
               keep = select_tools lower alnum score
                 (map (\<lambda>t. new_doc lower alnum (td_name t) (td_description t)) tools)
                 (joined (filter (\<lambda>m. msg_role m = User) (pr_messages request))) (joined (pr_messages request))
                 \<lparr>ct_most = number_or config ''max-tools'' DEFAULT_MAX_TOOLS,
                  ct_least = number_or config ''min-tools'' DEFAULT_MIN_TOOLS\<rparr>
           in if tools = [] then Inr Proceed
              else Inr (Replace (SSelectTools (request\<lparr>pr_tools := nths tools (set keep)\<rparr>))))
      | _ \<Rightarrow> Inl InvalidState)"

end
