(* ===== verification/Selectors_Properties.thy ===== *)
theory Selectors_Properties
  imports Selectors
begin

text \<open>
  What the request-preparing interceptors keep: trimming keeps the system messages and a suffix of the others,
  the tool selector keeps every tool the conversation names and stays within its bounds, and the standing
  instructions go in once, at the front.
\<close>

section \<open>Trimming\<close>

text \<open>The loop on the messages it does not skip.\<close>

definition others :: "bool list \<Rightarrow> nat list \<Rightarrow> nat list" where
  "others sys is = filter (\<lambda>i. \<not> sys ! i) is"

lemma keep_recent_run:
  "kept \<noteq> [] \<Longrightarrow> \<exists>m. keep_recent tokens sys remaining is kept = kept @ take m (others sys is) \<and>
     sum_list (map (\<lambda>i. tokens ! i) (take m (others sys is))) \<le> remaining"
proof (induction "is" arbitrary: remaining kept)
  case Nil
  then show ?case by (simp add: others_def)
next
  case (Cons i "is")
  show ?case
  proof (cases "sys ! i")
    case True
    then show ?thesis using Cons by (simp add: others_def)
  next
    case False
    show ?thesis
    proof (cases "tokens ! i \<le> remaining")
      case True
      obtain m where "keep_recent tokens sys (remaining - tokens ! i) is (kept @ [i]) =
          (kept @ [i]) @ take m (others sys is)"
        "sum_list (map (\<lambda>i. tokens ! i) (take m (others sys is))) \<le> remaining - tokens ! i"
        using Cons.IH [of "kept @ [i]"] by blast
      then show ?thesis using False True by (intro exI [of _ "Suc m"]) (simp add: others_def)
    next
      case big: False
      then show ?thesis using False Cons.prems by (intro exI [of _ 0]) simp
    qed
  qed
qed

lemma keep_recent_start:
  "\<exists>m. keep_recent tokens sys remaining is [] = take m (others sys is) \<and>
     (others sys is \<noteq> [] \<longrightarrow> m \<noteq> 0) \<and>
     (m = 1 \<or> sum_list (map (\<lambda>i. tokens ! i) (take m (others sys is))) \<le> remaining)"
proof (induction "is" arbitrary: remaining)
  case Nil
  then show ?case by (intro exI [of _ 1]) (simp add: others_def)
next
  case (Cons i "is")
  show ?case
  proof (cases "sys ! i")
    case True
    then show ?thesis using Cons by (simp add: others_def)
  next
    case False
    show ?thesis
    proof (cases "tokens ! i \<le> remaining")
      case True
      obtain m where "keep_recent tokens sys (remaining - tokens ! i) is [i] = [i] @ take m (others sys is)"
        "sum_list (map (\<lambda>i. tokens ! i) (take m (others sys is))) \<le> remaining - tokens ! i"
        using keep_recent_run [of "[i]"] by blast
      then show ?thesis using False True by (intro exI [of _ "Suc m"]) (auto simp: others_def)
    next
      case big: False
      then show ?thesis using False by (intro exI [of _ 1]) (simp add: others_def)
    qed
  qed
qed

lemma others_rev: "others sys (rev is) = rev (others sys is)"
  by (simp add: others_def rev_filter)

lemma drop_filter_set:
  "sorted_wrt (<) xs \<Longrightarrow> filter (\<lambda>i. i \<in> set (drop k (filter P xs))) xs = drop k (filter P xs)" for xs :: "nat list"
proof (induction xs arbitrary: k)
  case (Cons x xs)
  have fresh: "x \<notin> set (filter P xs)" using Cons.prems by auto
  show ?case
  proof (cases "P x")
    case True
    show ?thesis
    proof (cases k)
      case 0
      have "filter (\<lambda>i. i = x \<or> i \<in> set xs \<and> P i) xs = filter P xs"
        by (rule filter_cong) (use Cons.prems in auto)
      then show ?thesis using True 0 by simp
    next
      case (Suc j)
      have "x \<notin> set (drop j (filter P xs))" using fresh by (meson in_set_dropD)
      then show ?thesis using True Suc Cons by simp
    qed
  next
    case False
    have "x \<notin> set (drop k (filter P xs))" using fresh by (meson in_set_dropD)
    then show ?thesis using False Cons by simp
  qed
qed simp

text \<open>What is kept: in order, every index of a system message and a suffix of the others.\<close>

lemma keep_indices_shape:
  assumes "length sys = length tokens"
  shows "\<exists>k. keep_indices tokens sys budget =
      filter (\<lambda>i. sys ! i \<or> i \<in> set (drop k (others sys [0..<length tokens]))) [0..<length tokens] \<and>
    (others sys [0..<length tokens] \<noteq> [] \<longrightarrow> k < length (others sys [0..<length tokens])) \<and>
    (sum_list tokens \<le> budget \<or> length (drop k (others sys [0..<length tokens])) \<le> 1 \<or>
     sum_list (map (\<lambda>i. tokens ! i) (drop k (others sys [0..<length tokens]))) \<le>
       budget - sum_list (map fst (filter snd (zip tokens sys))))"
proof (cases "sum_list tokens \<le> budget")
  case True
  have "filter (\<lambda>i. sys ! i \<or> i \<in> set (others sys [0..<length tokens])) [0..<length tokens] = [0..<length tokens]"
    by (rule filter_True) (auto simp: others_def)
  then show ?thesis using True by (intro exI [of _ 0]) (simp add: keep_indices_def)
next
  case False
  let ?n = "length tokens" and ?rest = "budget - sum_list (map fst (filter snd (zip tokens sys)))"
  let ?o = "others sys [0..<?n]"
  obtain m where m: "keep_recent tokens sys ?rest (rev [0..<?n]) [] = take m (rev ?o)"
    "?o \<noteq> [] \<Longrightarrow> m \<noteq> 0"
    "m = 1 \<or> sum_list (map (\<lambda>i. tokens ! i) (take m (rev ?o))) \<le> ?rest"
    using keep_recent_start [of tokens sys ?rest "rev [0..<?n]"] by (auto simp: others_rev)
  define k where "k = length ?o - m"
  have suffix: "take m (rev ?o) = rev (drop k ?o)" by (simp add: k_def take_rev)
  have "keep_indices tokens sys budget = sort (filter (\<lambda>i. sys ! i) [0..<?n] @ rev (drop k ?o))"
    using False m(1) suffix by (simp add: keep_indices_def)
  also have "\<dots> = filter (\<lambda>i. sys ! i \<or> i \<in> set (drop k ?o)) [0..<?n]"
  proof (rule sorted_distinct_set_unique)
    have apart: "set (drop k ?o) \<subseteq> {i. \<not> sys ! i \<and> i < ?n}"
      using set_drop_subset [of k ?o] by (auto simp: others_def)
    have "distinct (drop k ?o)" by (simp add: others_def)
    then show "distinct (sort (filter (\<lambda>i. sys ! i) [0..<?n] @ rev (drop k ?o)))"
      using apart by auto
    show "set (sort (filter (\<lambda>i. sys ! i) [0..<?n] @ rev (drop k ?o))) =
        set (filter (\<lambda>i. sys ! i \<or> i \<in> set (drop k ?o)) [0..<?n])"
      using apart by auto
  qed (simp_all add: sorted_wrt_filter)
  finally have eq: "keep_indices tokens sys budget = filter (\<lambda>i. sys ! i \<or> i \<in> set (drop k ?o)) [0..<?n]" .
  have "k < length ?o" if "?o \<noteq> []" using m(2) [OF that] that by (simp add: k_def)
  moreover have "length (drop k ?o) \<le> 1 \<or> sum_list (map (\<lambda>i. tokens ! i) (drop k ?o)) \<le> ?rest"
  proof (cases "m = 1")
    case True
    then have "length (drop k ?o) \<le> 1" by (simp add: k_def)
    then show ?thesis ..
  next
    case False
    then have "sum_list (map (\<lambda>i. tokens ! i) (rev (drop k ?o))) \<le> ?rest" using m(3) suffix by simp
    then show ?thesis by (simp add: rev_map [symmetric] sum_list_rev)
  qed
  ultimately show ?thesis using eq by (intro exI [of _ k]) simp
qed

definition ordinary :: "message list \<Rightarrow> message list" where
  "ordinary ms = filter (\<lambda>m. \<not> is_system m) ms"

definition est :: "message \<Rightarrow> nat" where
  "est m = estimate_tokens (length (msg_content m))"

lemma filter_all_length: "length (filter P xs) = length xs \<Longrightarrow> filter P xs = xs"
  by (metis filter_id_conv length_filter_less less_irrefl)

lemma sum_parts:
  "sum_list (map f xs) = sum_list (map f (filter P xs)) + sum_list (map f (filter (\<lambda>x. \<not> P x) xs))"
  for f :: "'a \<Rightarrow> nat"
  by (induction xs) auto

lemma system_total: "sum_list (map fst (filter snd (zip (map f ms) (map P ms)))) = sum_list (map f (filter P ms))"
  by (induction ms) auto

lemma map_nth_filter: "map (\<lambda>i. ms ! i) (filter (\<lambda>i. P (ms ! i)) [0..<length ms]) = filter P ms"
proof -
  have "map (\<lambda>i. ms ! i) (filter (P \<circ> (\<lambda>i. ms ! i)) [0..<length ms]) = filter P (map (\<lambda>i. ms ! i) [0..<length ms])"
    by (rule filter_map [symmetric])
  then show ?thesis by (simp add: map_nth comp_def)
qed

text \<open>The messages a decision of the trimming interceptor leaves.\<close>

definition messages_after :: "pending_request \<Rightarrow> decision \<Rightarrow> message list" where
  "messages_after request d =
     (case d of Replace (SSelectContext r) \<Rightarrow> pr_messages r | _ \<Rightarrow> pr_messages request)"

text \<open>C19 (trimming_keeps_system_and_recent): Trimming a request keeps every system message, and of the others a
  suffix, in their order and never empty when there is one; and what is left fits the budget, unless one message
  alone is left beside the system messages, or those alone exceed it and only messages of no weight are left.\<close>

theorem trimming_keeps_system_and_recent:
  assumes state: "in_state inp = SSelectContext request" and ran: "context_intercept config inp = Inr d"
    and ms: "ms = pr_messages request" and ms1: "ms1 = messages_after request d"
    and budget: "budget = number_or config ''context-tokens'' DEFAULT_BUDGET"
  shows "filter is_system ms1 = filter is_system ms \<and>
    (\<exists>k. ordinary ms1 = drop k (ordinary ms) \<and> (ordinary ms = [] \<or> k < length (ordinary ms))) \<and>
    (sum_list (map est ms1) \<le> budget \<or> length (ordinary ms1) \<le> 1 \<or> sum_list (map est (ordinary ms1)) = 0)"
proof -
  let ?n = "length ms" and ?tokens = "map est ms" and ?sys = "map is_system ms"
  let ?keep = "keep_indices ?tokens ?sys budget" and ?o = "others (map is_system ms) [0..<length ms]"
  obtain k where k: "?keep = filter (\<lambda>i. ?sys ! i \<or> i \<in> set (drop k ?o)) [0..<?n]"
    "?o \<noteq> [] \<Longrightarrow> k < length ?o"
    "sum_list ?tokens \<le> budget \<or> length (drop k ?o) \<le> 1 \<or>
      sum_list (map (\<lambda>i. ?tokens ! i) (drop k ?o)) \<le> budget - sum_list (map est (filter is_system ms))"
    using keep_indices_shape [of ?sys ?tokens budget] by (auto simp: system_total)
  have full: "?keep = [0..<?n]" if "length ?keep = ?n"
    using filter_all_length [of _ "[0..<?n]"] k(1) that by simp
  have "context_intercept config inp =
      (if length ?keep = ?n then Inr Proceed
       else Inr (Replace (SSelectContext (request\<lparr>pr_messages := map (\<lambda>i. ms ! i) ?keep\<rparr>))))"
    using state by (simp add: context_intercept_def ms budget est_def [abs_def] Let_def)
  then have ms1': "ms1 = map (\<lambda>i. ms ! i) ?keep"
    using ran full by (auto simp: ms1 messages_after_def ms map_nth split: if_splits)
  have o: "?o = filter (\<lambda>i. \<not> is_system (ms ! i)) [0..<?n]"
    unfolding others_def by (rule filter_cong) auto
  have o_set: "i < ?n \<and> \<not> is_system (ms ! i)" if "i \<in> set (drop k ?o)" for i
    using in_set_dropD [OF that] by (simp add: o)
  have "filter is_system ms1 = map (\<lambda>i. ms ! i) (filter (\<lambda>i. is_system (ms ! i)) ?keep)"
    by (simp add: ms1' filter_map comp_def)
  also have "filter (\<lambda>i. is_system (ms ! i)) ?keep = filter (\<lambda>i. is_system (ms ! i)) [0..<?n]"
    unfolding k(1) filter_filter by (rule filter_cong) auto
  also have "map (\<lambda>i. ms ! i) \<dots> = filter is_system ms" by (rule map_nth_filter)
  finally have system: "filter is_system ms1 = filter is_system ms" .
  have "ordinary ms1 = map (\<lambda>i. ms ! i) (filter (\<lambda>i. \<not> is_system (ms ! i)) ?keep)"
    by (simp add: ordinary_def ms1' filter_map comp_def)
  also have "filter (\<lambda>i. \<not> is_system (ms ! i)) ?keep = filter (\<lambda>i. i \<in> set (drop k ?o)) [0..<?n]"
    unfolding k(1) filter_filter by (rule filter_cong) (use o_set in auto)
  also have "\<dots> = drop k ?o" unfolding o by (rule drop_filter_set) simp
  finally have ord1: "ordinary ms1 = map (\<lambda>i. ms ! i) (drop k ?o)" .
  have ord: "map (\<lambda>i. ms ! i) ?o = ordinary ms"
    unfolding o ordinary_def by (rule map_nth_filter)
  have suffix: "ordinary ms1 = drop k (ordinary ms)" by (simp only: ord1 drop_map [symmetric] ord)
  have len: "length ?o = length (ordinary ms)" using ord by (metis length_map)
  have weight: "sum_list (map est ms1) = sum_list (map est (filter is_system ms)) + sum_list (map est (ordinary ms1))"
    using sum_parts [of est ms1 is_system] system by (simp add: ordinary_def)
  have tokens: "map (\<lambda>i. ?tokens ! i) (drop k ?o) = map est (ordinary ms1)"
    unfolding ord1 map_map by (rule map_cong) (use o_set in auto)
  have "sum_list (map est ms1) \<le> budget \<or> length (ordinary ms1) \<le> 1 \<or> sum_list (map est (ordinary ms1)) = 0"
  proof (cases "sum_list ?tokens \<le> budget")
    case True
    then have "ms1 = ms" using ms1' by (simp add: keep_indices_def map_nth)
    then show ?thesis using True by simp
  next
    case False
    then consider "length (drop k ?o) \<le> 1"
      | "sum_list (map est (ordinary ms1)) \<le> budget - sum_list (map est (filter is_system ms))"
      using k(3) tokens by auto
    then show ?thesis
    proof cases
      case 1
      then show ?thesis by (simp add: ord1)
    next
      case 2
      then have "sum_list (map est ms1) \<le> budget \<or> sum_list (map est (ordinary ms1)) = 0"
        using weight by linarith
      then show ?thesis by metis
    qed
  qed
  moreover have "ordinary ms = [] \<or> k < length (ordinary ms)" using k(2) len by fastforce
  ultimately show ?thesis using system suffix by blast
qed

definition long_request :: pending_request where
  "long_request = \<lparr>pr_model = None,
     pr_messages =
       [\<lparr>msg_role = System, msg_content = ''12345678'', msg_tool_call_id = None\<rparr>,
        \<lparr>msg_role = User, msg_content = ''12345678'', msg_tool_call_id = None\<rparr>,
        \<lparr>msg_role = User, msg_content = ''1234'', msg_tool_call_id = None\<rparr>],
     pr_tools = [], pr_grammar = None, pr_max_tokens = None, pr_temperature = None\<rparr>"

definition long_input :: intercept_input where
  "long_input = \<lparr>in_phase = PSelectContext, in_state = SSelectContext long_request, in_answer = None\<rparr>"

theorem trimming_keeps_system_and_recent_witness:
  "\<exists>d. context_intercept (\<lambda>_. Some ''3'') long_input = Inr d \<and>
     filter is_system (messages_after long_request d) = filter is_system (pr_messages long_request) \<and>
     map msg_content (messages_after long_request d) = [''12345678'', ''1234'']"
proof -
  define d where "d = Replace (SSelectContext (long_request\<lparr>pr_messages :=
      map (\<lambda>i. pr_messages long_request ! i) [0, 2]\<rparr>))"
  have d: "context_intercept (\<lambda>_. Some ''3'') long_input = Inr d"
  proof -
    have "trim ''3'' = ''3''" "show_nat 3 = ''3''" by code_simp+
    then have "number_or (\<lambda>_. Some ''3'') ''context-tokens'' DEFAULT_BUDGET = 3"
      using parse_show_u32 [of 3] by (simp add: number_or_def)
    moreover have "keep_indices [2, 2, 1] [True, False, False] 3 = [0, 2]"
      by (simp add: keep_indices_def upt_rec)
    moreover have "map (\<lambda>m. estimate_tokens (length (msg_content m))) (pr_messages long_request) = [2, 2, 1]"
      "map is_system (pr_messages long_request) = [True, False, False]" "length (pr_messages long_request) = 3"
      by (simp_all add: long_request_def estimate_tokens_def is_system_def)
    ultimately show ?thesis
      by (simp add: context_intercept_def long_input_def d_def Let_def)
  qed
  from trimming_keeps_system_and_recent [OF _ d refl refl refl, of long_request]
  have "filter is_system (messages_after long_request d) = filter is_system (pr_messages long_request)"
    by (simp add: long_input_def)
  moreover have "map msg_content (messages_after long_request d) = [''12345678'', ''1234'']"
  proof -
    have "messages_after long_request d = map (\<lambda>i. pr_messages long_request ! i) [0, 2]"
      by (simp add: d_def messages_after_def)
    then show ?thesis by (simp add: long_request_def)
  qed
  ultimately show ?thesis using d by (intro exI [of _ d] conjI)
qed

section \<open>The tool selector\<close>

lemma add_until_facts:
  assumes "distinct keep"
  shows "\<exists>new. add_until limit is keep = keep @ new \<and> set new \<subseteq> set is \<and> distinct (keep @ new) \<and>
    length (keep @ new) \<le> max limit (length keep) \<and>
    (length (keep @ new) < limit \<longrightarrow> set is \<subseteq> set (keep @ new))"
  using assms
proof (induction "is" arbitrary: keep)
  case Nil
  then show ?case by simp
next
  case (Cons i "is")
  show ?case
  proof (cases "limit \<le> length keep \<or> i \<in> set keep")
    case True
    show ?thesis
    proof (cases "limit \<le> length keep")
      case True
      then show ?thesis using Cons.prems by simp
    next
      case False
      with True have "i \<in> set keep" by blast
      then show ?thesis using False Cons.IH [OF Cons.prems] by auto
    qed
  next
    case False
    then have "distinct (keep @ [i])" using Cons.prems by simp
    from Cons.IH [OF this] obtain new where "add_until limit is (keep @ [i]) = (keep @ [i]) @ new"
      "set new \<subseteq> set is" "distinct ((keep @ [i]) @ new)" "length ((keep @ [i]) @ new) \<le> max limit (length (keep @ [i]))"
      "length ((keep @ [i]) @ new) < limit \<longrightarrow> set is \<subseteq> set ((keep @ [i]) @ new)" by blast
    then show ?thesis using False by (intro exI [of _ "i # new"]) auto
  qed
qed

text \<open>With a bound on the tools shown, the selection is indices of the fleet in its order,
  without repetition; it has every tool the conversation names, no more than the bound, the floor or the number
  of named tools, whichever is largest, and no fewer than the floor or the whole fleet.\<close>

theorem selector_keeps_named:
  fixes score :: "tool_doc list \<Rightarrow> string list \<Rightarrow> tool_doc \<Rightarrow> 'f::{linorder, zero}"
  assumes cut: "0 < ct_most c" "ct_most c < length docs"
    and kept: "kept = select_tools lower alnum score docs asked conversation c"
    and named: "named = filter (\<lambda>i. named_in alnum (docs ! i) (lower conversation)) [0..<length docs]"
  shows "sorted_wrt (<) kept \<and> set kept \<subseteq> {..<length docs} \<and> set named \<subseteq> set kept \<and>
    length kept \<le> max (ct_most c) (max (ct_least c) (length named)) \<and>
    min (ct_least c) (length docs) \<le> length kept"
proof -
  let ?ranks = "rank_tools lower alnum score docs asked" and ?floor = "min (ct_least c) (length docs)"
  have d: "distinct named" by (simp add: named)
  obtain a where a: "add_until (ct_most c) ?ranks named = named @ a" "set a \<subseteq> set ?ranks" "distinct (named @ a)"
    "length (named @ a) \<le> max (ct_most c) (length named)"
    using add_until_facts [OF d, of "ct_most c" ?ranks] by blast
  obtain b where b: "add_until ?floor [0..<length docs] (named @ a) = (named @ a) @ b" "set b \<subseteq> {..<length docs}"
    "distinct ((named @ a) @ b)" "length ((named @ a) @ b) \<le> max ?floor (length (named @ a))"
    "length ((named @ a) @ b) < ?floor \<longrightarrow> {..<length docs} \<subseteq> set ((named @ a) @ b)"
    using add_until_facts [OF a(3), of ?floor "[0..<length docs]"] by (auto simp: lessThan_atLeast0)
  have kept: "kept = sort (named @ a @ b)"
    using cut a(1) b(1) by (simp add: kept select_tools_def named Let_def)
  have ranks: "set ?ranks \<subseteq> {..<length docs}"
    by (auto simp: rank_tools_def Let_def)
  have inside: "set (named @ a @ b) \<subseteq> {..<length docs}"
    using a(2) b(2) ranks by (auto simp: named)
  have "sorted_wrt (<) (sort (named @ a @ b))"
    using b(3) by (simp add: strict_sorted_iff)
  moreover have "min (ct_least c) (length docs) \<le> length (named @ a @ b)"
  proof (rule ccontr)
    assume "\<not> ?thesis"
    then have short: "length (named @ a @ b) < ?floor" by (simp only: not_le)
    then have "{..<length docs} \<subseteq> set (named @ a @ b)" using b(5) by simp
    then have "card {..<length docs} \<le> card (set (named @ a @ b))" by (intro card_mono) simp_all
    also have "\<dots> \<le> length (named @ a @ b)" by (rule card_length)
    finally show False using short by simp
  qed
  ultimately show ?thesis using a(4) b(4) inside by (auto simp: kept)
qed

definition two_docs :: "tool_doc list" where
  "two_docs = [\<lparr>dc_name = ''fs'', dc_terms = [''file'']\<rparr>, \<lparr>dc_name = ''git'', dc_terms = [''log'']\<rparr>]"

theorem selector_keeps_named_witness:
  "\<exists>kept. kept = select_tools to_lower (\<lambda>ch. ch \<noteq> '' '') (\<lambda>_ _ _. 0 :: nat) two_docs ''x'' ''use git now''
      \<lparr>ct_most = 1, ct_least = 0\<rparr> \<and> 1 \<in> set kept \<and> length kept \<le> 1"
proof -
  have "named_in (\<lambda>ch. ch \<noteq> '' '') (two_docs ! 0) ''use git now'' = False"
    "named_in (\<lambda>ch. ch \<noteq> '' '') (two_docs ! 1) ''use git now'' = True"
    "to_lower ''use git now'' = ''use git now''" "length two_docs = 2" by code_simp+
  then have "filter (\<lambda>i. named_in (\<lambda>ch. ch \<noteq> '' '') (two_docs ! i) (to_lower ''use git now'')) [0..<length two_docs] = [1]"
    by (simp add: upt_rec numeral_2_eq_2)
  from selector_keeps_named [where c = "\<lparr>ct_most = 1, ct_least = 0\<rparr>" and score = "\<lambda>_ _ _. 0 :: nat"
      and asked = "''x''" and docs = two_docs and lower = to_lower and alnum = "\<lambda>ch. ch \<noteq> '' ''"
      and conversation = "''use git now''", OF _ _ refl this [symmetric]]
  show ?thesis by (simp add: \<open>length two_docs = 2\<close>)
qed

text \<open>The standing instructions are added at most once and only at the front: a request
  without a system message gets the prompt as its first, the rest as it was; a request with one, or an empty
  prompt, is left alone, and so is the request on a second pass.\<close>

theorem instructions_go_first:
  "system_intercept st \<lparr>in_phase = p, in_state = SSelectModel request, in_answer = a\<rparr> =
     (case sy_prompt st of
        Some t \<Rightarrow>
          (if filter is_system (pr_messages request) = []
           then Inr (Replace (SSelectModel (request\<lparr>pr_messages :=
             \<lparr>msg_role = System, msg_content = t, msg_tool_call_id = None\<rparr> # pr_messages request\<rparr>)))
           else Inr Proceed)
      | None \<Rightarrow> Inr Proceed) \<and>
   (case system_intercept st \<lparr>in_phase = p, in_state = SSelectModel request, in_answer = a\<rparr> of
      Inr (Replace s) \<Rightarrow> system_intercept st \<lparr>in_phase = p, in_state = s, in_answer = b\<rparr> = Inr Proceed
    | _ \<Rightarrow> True)"
  by (auto simp: system_intercept_def is_system_def list_ex_iff filter_empty_conv split: option.splits)

end
