(* ===== verification/Routers.thy ===== *)
theory Routers
  imports Provider Selectors
begin

text \<open>
  The interceptors that ask a model before the turn runs: \<open>interceptor-intent-router\<close> (does the prompt need the
  agent loop at all) and \<open>interceptor-task-router\<close> (which model serves the task). Both read a stream until it is
  done, so a provider that streams for ever keeps them: the outer \<open>None\<close> is "never returns". Parameters:
  \<open>eligible\<close> is the language gate over the whatlang detector, \<open>lower\<close> and \<open>alnum\<close> as in \<open>Selectors\<close>.
\<close>

section \<open>Asking the model\<close>

record 'w host_llm =
  hl_complete :: "completion_request \<Rightarrow> 'w \<Rightarrow> (provider_error + stream_handle) \<times> 'w"
  hl_next_chunk :: "stream_handle \<Rightarrow> 'w \<Rightarrow> chunk option \<times> 'w"
  hl_close_stream :: "stream_handle \<Rightarrow> 'w \<Rightarrow> 'w"

partial_function (option) read_text ::
  "'w host_llm \<Rightarrow> stream_handle \<Rightarrow> string \<Rightarrow> 'w \<Rightarrow> (string \<times> 'w) option" where
  "read_text llm h reply w =
     (case hl_next_chunk llm h w of
        (Some (CTextDelta d), w1) \<Rightarrow> read_text llm h (reply @ d) w1
      | (Some (CToolCallRequest _), w1) \<Rightarrow> read_text llm h reply w1
      | (_, w1) \<Rightarrow> Some (reply, w1))"

definition drain_text :: "'w host_llm \<Rightarrow> stream_handle \<Rightarrow> 'w \<Rightarrow> (string \<times> 'w) option" where
  "drain_text llm h w =
     map_option (\<lambda>(t, w1). (t, hl_close_stream llm h w1)) (read_text llm h [] w)"

definition classifier_request :: "string \<Rightarrow> string \<Rightarrow> string \<Rightarrow> nat \<Rightarrow> completion_request" where
  "classifier_request instructions prompt grammar max_tokens =
     \<lparr>cr_model = [],
      cr_messages =
        [\<lparr>msg_role = System, msg_content = instructions, msg_tool_call_id = None\<rparr>,
         \<lparr>msg_role = User, msg_content = prompt, msg_tool_call_id = None\<rparr>],
      cr_tools = [], cr_grammar = Some grammar, cr_max_tokens = Some max_tokens, cr_temperature = Some 0\<rparr>"

text \<open>The reply to one question, \<open>None\<close> inside when the provider refused it.\<close>

definition ask_model :: "'w host_llm \<Rightarrow> completion_request \<Rightarrow> 'w \<Rightarrow> (string option \<times> 'w) option" where
  "ask_model llm request w =
     (case hl_complete llm request w of
        (Inl _, w1) \<Rightarrow> Some (None, w1)
      | (Inr h, w1) \<Rightarrow> map_option (apfst Some) (drain_text llm h w1))"

section \<open>The intent router\<close>

datatype intent = Simple | Agentic

definition CLASSIFIER_GRAMMAR :: string where
  "CLASSIFIER_GRAMMAR = ''root ::= '' @ dquote @ ''simple'' @ dquote @ '' | '' @ dquote @ ''agentic'' @ dquote"

definition GREETINGS :: "string list" where
  "GREETINGS = [''hi'', ''hello'', ''hey'', ''yo'', ''hiya'', ''howdy'', ''sup'', ''heya'', ''hullo'', ''greetings'',
     ''morning'', ''evening'', ''whats up'', ''what'' @ [CHR 0x27] @ ''s up'', ''wassup'']"

definition GREETING_PREFIXES :: "string list" where
  "GREETING_PREFIXES = [''good morning'', ''good afternoon'', ''good evening'', ''good day'']"

definition FAREWELLS :: "string list" where
  "FAREWELLS = [''bye'', ''goodbye'', ''good bye'', ''see you'', ''see ya'', ''cya'', ''later'', ''catch you later'',
     ''take care'', ''farewell'', ''good night'', ''goodnight'', ''gn'']"

definition AFFIRMATIONS :: "string list" where
  "AFFIRMATIONS = [''yes'', ''yeah'', ''yep'', ''yup'', ''no'', ''nope'', ''nah'', ''ok'', ''okay'', ''k'', ''kk'',
     ''sure'', ''sounds good'', ''got it'', ''understood'', ''makes sense'', ''cool'', ''nice'', ''great'', ''awesome'',
     ''perfect'', ''fine'', ''alright'', ''right'', ''indeed'', ''agreed'']"

definition COURTESIES :: "string list" where
  "COURTESIES = [''thanks'', ''thank you'', ''thank you very much'', ''thanks a lot'', ''thx'', ''ty'', ''cheers'',
     ''much appreciated'', ''appreciate it'', ''no thanks'', ''no thank you'', ''please'', ''pardon'', ''sorry'',
     ''excuse me'', ''my bad'']"

definition CLARIFICATIONS :: "string list" where
  "CLARIFICATIONS = [''never mind'', ''nevermind'', ''forget it'', ''ignore that'', ''as i said'', ''anyway'',
     ''moving on'']"

definition META_QUERIES :: "string list" where
  "META_QUERIES = [''who are you'', ''what are you'', ''what can you do'', ''what do you do'', ''help'',
     ''what is your name'', ''what'' @ [CHR 0x27] @ ''s your name'', ''how do you work'', ''are you there'',
     ''can you hear me'', ''what are your capabilities'']"

definition FILLERS :: "string list" where
  "FILLERS = [''hmm'', ''huh'', ''oh'', ''ah'', ''wow'', ''lol'', ''haha'', ''hey there'', ''hi there'']"

definition EXACT_GROUPS :: "string list list" where
  "EXACT_GROUPS = [GREETINGS, FAREWELLS, AFFIRMATIONS, COURTESIES, CLARIFICATIONS, META_QUERIES, FILLERS]"

definition normalize_prompt :: "(string \<Rightarrow> string) \<Rightarrow> scalar_test \<Rightarrow> string \<Rightarrow> string" where
  "normalize_prompt lower alnum t =
     join_with '' '' (split_whitespace (concat
       (map (\<lambda>ch. if alnum ch \<or> ch = [CHR 0x27] then ch else '' '') (utf8_chars (lower t)))))"

definition is_simple :: "(string \<Rightarrow> string) \<Rightarrow> scalar_test \<Rightarrow> string \<Rightarrow> bool" where
  "is_simple lower alnum t =
     (let n = normalize_prompt lower alnum t
      in n = [] \<or> list_ex (\<lambda>group. n \<in> set group) EXACT_GROUPS \<or>
         list_ex (\<lambda>p. n = p \<or> starts_with (p @ '' '') n) GREETING_PREFIXES)"

definition parse_intent :: "(string \<Rightarrow> string) \<Rightarrow> string \<Rightarrow> intent" where
  "parse_intent lower t =
     (let lowered = lower (trim t)
      in if contains_text ''agentic'' lowered then Agentic
         else if contains_text ''simple'' lowered then Simple
         else Agentic)"

definition INTENT_SYSTEM :: string where
  "INTENT_SYSTEM = ''You are an intent classifier. Reply with exactly one word. '' @
     ''Answer '' @ [CHR 0x27] @ ''simple'' @ [CHR 0x27] @ '' when the message is a greeting, acknowledgement, or a '' @
     ''single-fact question answerable directly. Answer '' @ [CHR 0x27] @ ''agentic'' @ [CHR 0x27] @
     '' when it needs tools, planning, or multiple steps.''"

definition llm_classify ::
  "(string \<Rightarrow> string) \<Rightarrow> 'w host_llm \<Rightarrow> string \<Rightarrow> 'w \<Rightarrow> (intent \<times> 'w) option" where
  "llm_classify lower llm prompt w =
     map_option (apfst (\<lambda>reply. case reply of None \<Rightarrow> Agentic | Some t \<Rightarrow> parse_intent lower t))
       (ask_model llm (classifier_request INTENT_SYSTEM prompt CLASSIFIER_GRAMMAR 4) w)"

definition classify_intent ::
  "scalar_test \<Rightarrow> (string \<Rightarrow> string) \<Rightarrow> scalar_test \<Rightarrow> 'w host_llm \<Rightarrow> string \<Rightarrow> 'w \<Rightarrow> (intent \<times> 'w) option" where
  "classify_intent eligible lower alnum llm prompt w =
     (if eligible prompt \<and> is_simple lower alnum prompt then Some (Simple, w)
      else llm_classify lower llm prompt w)"

definition intent_intercept ::
  "scalar_test \<Rightarrow> (string \<Rightarrow> string) \<Rightarrow> scalar_test \<Rightarrow> 'w host_llm \<Rightarrow> intercept_input \<Rightarrow> 'w
     \<Rightarrow> ((interceptor_error + decision) \<times> 'w) option" where
  "intent_intercept eligible lower alnum llm inp w =
     (case in_state inp of
        SBeforeLoop turn \<Rightarrow>
          map_option (apfst (\<lambda>i. Inr
              (case i of
                 Simple \<Rightarrow> Block ''intent=simple: answerable inline without the agentic loop''
               | Agentic \<Rightarrow> Proceed)))
            (classify_intent eligible lower alnum llm (ut_user_message turn) w)
      | _ \<Rightarrow> Some (Inl InvalidState, w))"

section \<open>The task router\<close>

definition BUILT_IN_TASKS :: "string list" where
  "BUILT_IN_TASKS = [''code-generation'', ''code-review'', ''file-edit'', ''reasoning'', ''planning'', ''web-search'',
     ''research'', ''chat'', ''clarification'', ''agent-delegation'']"

definition DEFAULT_TASK :: string where "DEFAULT_TASK = ''chat''"

definition classifier_grammar :: "string list \<Rightarrow> string" where
  "classifier_grammar tasks =
     ''root ::= '' @ join_with '' | '' (map (\<lambda>t. dquote @ t @ dquote) tasks)"

definition parse_task :: "(string \<Rightarrow> string) \<Rightarrow> string \<Rightarrow> string list \<Rightarrow> string option" where
  "parse_task lower t tasks =
     (let lowered = lower (trim t)
      in case List.find (\<lambda>task. lowered = task) tasks of
           Some task \<Rightarrow> Some task
         | None \<Rightarrow> List.find (\<lambda>task. contains_text task lowered) tasks)"

definition model_from_route :: "string \<Rightarrow> string option" where
  "model_from_route route =
     (let model = trim (case split_once ''/'' route of Some (_, m) \<Rightarrow> m | None \<Rightarrow> route)
      in if model = [] then None else Some model)"

definition unhonoured_provider :: "string \<Rightarrow> string option" where
  "unhonoured_provider route =
     (case split_once ''/'' route of
        None \<Rightarrow> None
      | Some (p, _) \<Rightarrow> if trim p = [] then None else Some (trim p))"

definition TASK_SYSTEM :: string where
  "TASK_SYSTEM = ''You are a task classifier. Reply with exactly one task label from the allowed set '' @
     ''that best fits the user'' @ [CHR 0x27] @ ''s request.''"

definition classify_task ::
  "(string \<Rightarrow> string) \<Rightarrow> 'w host_llm \<Rightarrow> string \<Rightarrow> 'w \<Rightarrow> (string option \<times> 'w) option" where
  "classify_task lower llm prompt w =
     map_option (apfst (\<lambda>reply. Option.bind reply (\<lambda>t. parse_task lower t BUILT_IN_TASKS)))
       (ask_model llm (classifier_request TASK_SYSTEM prompt (classifier_grammar BUILT_IN_TASKS) 8) w)"

definition last_user :: "message list \<Rightarrow> string option" where
  "last_user ms = map_option msg_content (List.find (\<lambda>m. msg_role m = User) (rev ms))"

definition trim_matches :: "char \<Rightarrow> string \<Rightarrow> string" where
  "trim_matches c s = rev (dropWhile (\<lambda>x. x = c) (rev (dropWhile (\<lambda>x. x = c) s)))"

text \<open>The route of a task, from the configuration: \<open>None\<close> when nothing is to change.\<close>

definition routed_model :: "config_reader \<Rightarrow> string \<Rightarrow> string option" where
  "routed_model config task =
     Option.bind (config (''routing.'' @ task)) (\<lambda>raw. model_from_route (trim_matches CHR 0x22 (trim raw)))"

definition task_intercept ::
  "(string \<Rightarrow> string) \<Rightarrow> 'w host_llm \<Rightarrow> config_reader \<Rightarrow> intercept_input \<Rightarrow> 'w
     \<Rightarrow> ((interceptor_error + decision) \<times> 'w) option" where
  "task_intercept lower llm config inp w =
     (case in_state inp of
        SSelectModel request \<Rightarrow>
          (case last_user (pr_messages request) of
             None \<Rightarrow> Some (Inr Proceed, w)
           | Some msg \<Rightarrow>
               map_option (apfst (\<lambda>task.
                   case routed_model config (case task of Some t \<Rightarrow> t | None \<Rightarrow> DEFAULT_TASK) of
                     None \<Rightarrow> Inr Proceed
                   | Some model \<Rightarrow> Inr (Replace (SSelectModel (request\<lparr>pr_model := Some model\<rparr>)))))
                 (classify_task lower llm msg w))
      | _ \<Rightarrow> Some (Inl InvalidState, w))"

section \<open>Properties\<close>

text \<open>The intent router keeps a prompt from the agent loop only when the phrase
  lists say so of an eligible prompt, without a model, or when the model's reply says simple and not agentic; a
  provider that refuses the question lets the prompt through.\<close>

theorem loop_skipped_only_when_simple:
  assumes "intent_intercept eligible lower alnum llm
      \<lparr>in_phase = p, in_state = SBeforeLoop turn, in_answer = a\<rparr> w = Some (r, w1)"
  shows "r = Inr Proceed \<or>
    r = Inr (Block ''intent=simple: answerable inline without the agentic loop'') \<and>
      (eligible (ut_user_message turn) \<and> is_simple lower alnum (ut_user_message turn) \<and> w1 = w \<or>
       (\<exists>h w2 t. hl_complete llm (classifier_request INTENT_SYSTEM (ut_user_message turn) CLASSIFIER_GRAMMAR 4) w =
           (Inr h, w2) \<and> drain_text llm h w2 = Some (t, w1) \<and>
         contains_text ''simple'' (lower (trim t)) \<and> \<not> contains_text ''agentic'' (lower (trim t))))"
proof -
  obtain i where i: "classify_intent eligible lower alnum llm (ut_user_message turn) w = Some (i, w1)"
    "r = Inr (case i of Simple \<Rightarrow> Block ''intent=simple: answerable inline without the agentic loop'' | Agentic \<Rightarrow> Proceed)"
    using assms by (auto simp: intent_intercept_def)
  show ?thesis
  proof (cases i)
    case Agentic
    then show ?thesis using i(2) by simp
  next
    case Simple
    have r: "r = Inr (Block ''intent=simple: answerable inline without the agentic loop'')"
      using i(2) Simple by simp
    show ?thesis
    proof (cases "eligible (ut_user_message turn) \<and> is_simple lower alnum (ut_user_message turn)")
      case True
      then show ?thesis using r i(1) by (simp add: classify_intent_def)
    next
      case False
      then have "llm_classify lower llm (ut_user_message turn) w = Some (Simple, w1)"
        using i(1) Simple by (auto simp: classify_intent_def split: if_splits)
      then obtain reply where reply: "ask_model llm
          (classifier_request INTENT_SYSTEM (ut_user_message turn) CLASSIFIER_GRAMMAR 4) w = Some (reply, w1)"
        "(case reply of None \<Rightarrow> Agentic | Some t \<Rightarrow> parse_intent lower t) = Simple"
        by (auto simp: llm_classify_def)
      then obtain t where t: "reply = Some t" "parse_intent lower t = Simple" by (auto split: option.splits)
      have "contains_text ''simple'' (lower (trim t))" "\<not> contains_text ''agentic'' (lower (trim t))"
        using t(2) by (auto simp: parse_intent_def Let_def split: if_splits)
      moreover obtain h w2 where "hl_complete llm
          (classifier_request INTENT_SYSTEM (ut_user_message turn) CLASSIFIER_GRAMMAR 4) w = (Inr h, w2)"
        "drain_text llm h w2 = Some (t, w1)"
        using reply(1) t(1) by (auto simp: ask_model_def split: prod.splits sum.splits)
      ultimately show ?thesis using r by blast
    qed
  qed
qed

definition silent_llm :: "nat host_llm" where
  "silent_llm = \<lparr>hl_complete = (\<lambda>req w. (Inl Transient, w + 1)), hl_next_chunk = (\<lambda>h w. (None, w)),
     hl_close_stream = (\<lambda>h w. w)\<rparr>"

theorem loop_skipped_only_when_simple_witness:
  "\<exists>r w1. intent_intercept (\<lambda>_. False) to_lower (\<lambda>_. True) silent_llm
      \<lparr>in_phase = PBeforeLoop, in_state = SBeforeLoop \<lparr>ut_session = ''s'', ut_user_message = ''hi'', ut_principal = None\<rparr>,
       in_answer = None\<rparr> 0 = Some (r, w1) \<and> r = Inr Proceed"
proof -
  let ?turn = "\<lparr>ut_session = ''s'', ut_user_message = ''hi'', ut_principal = None\<rparr>"
  have run: "intent_intercept (\<lambda>_. False) to_lower (\<lambda>_. True) silent_llm
      \<lparr>in_phase = PBeforeLoop, in_state = SBeforeLoop ?turn, in_answer = None\<rparr> 0 = Some (Inr Proceed, 1)"
    by (simp add: intent_intercept_def classify_intent_def llm_classify_def ask_model_def silent_llm_def)
  have "hl_complete silent_llm q 0 = (Inl Transient, 1)" for q by (simp add: silent_llm_def)
  with loop_skipped_only_when_simple [OF run] run show ?thesis by auto
qed

text \<open>The task router changes nothing of a request but its model, and only to one the
  configuration routes the task to: a task of the built-in set, or the default one when the model's reply names
  none.\<close>

theorem routing_changes_only_model:
  assumes "task_intercept lower llm config \<lparr>in_phase = p, in_state = SSelectModel request, in_answer = a\<rparr> w =
      Some (r, w1)"
  shows "r = Inr Proceed \<or>
    (\<exists>task model. task \<in> set BUILT_IN_TASKS \<and> routed_model config task = Some model \<and>
       r = Inr (Replace (SSelectModel (request\<lparr>pr_model := Some model\<rparr>))))"
proof -
  have known: "parse_task lower t BUILT_IN_TASKS = Some task \<Longrightarrow> task \<in> set BUILT_IN_TASKS" for t task
    unfolding parse_task_def Let_def by (auto simp: find_Some_iff split: option.splits)
  have default: "DEFAULT_TASK \<in> set BUILT_IN_TASKS" by (simp add: DEFAULT_TASK_def BUILT_IN_TASKS_def)
  show ?thesis
  proof (cases "last_user (pr_messages request)")
    case None
    then show ?thesis using assms by (simp add: task_intercept_def)
  next
    case (Some msg)
    then obtain task where task: "classify_task lower llm msg w = Some (task, w1)"
      "r = (case routed_model config (case task of Some t \<Rightarrow> t | None \<Rightarrow> DEFAULT_TASK) of
          None \<Rightarrow> Inr Proceed | Some model \<Rightarrow> Inr (Replace (SSelectModel (request\<lparr>pr_model := Some model\<rparr>))))"
      using assms by (auto simp: task_intercept_def)
    have "(case task of Some t \<Rightarrow> t | None \<Rightarrow> DEFAULT_TASK) \<in> set BUILT_IN_TASKS"
      using task(1) known default
      by (auto simp: classify_task_def Option.bind_eq_Some_conv split: option.split)
    then show ?thesis using task(2) by (auto split: option.splits)
  qed
qed

theorem routing_changes_only_model_witness:
  "\<exists>r w1. task_intercept to_lower silent_llm (\<lambda>k. if k = ''routing.chat'' then Some ''m'' else None)
      \<lparr>in_phase = PSelectModel,
       in_state = SSelectModel \<lparr>pr_model = None,
         pr_messages = [\<lparr>msg_role = User, msg_content = ''hi'', msg_tool_call_id = None\<rparr>],
         pr_tools = [], pr_grammar = None, pr_max_tokens = None, pr_temperature = None\<rparr>,
       in_answer = None\<rparr> 0 = Some (r, w1) \<and> r \<noteq> Inr Proceed"
proof -
  let ?req = "\<lparr>pr_model = None,
         pr_messages = [\<lparr>msg_role = User, msg_content = ''hi'', msg_tool_call_id = None\<rparr>],
         pr_tools = [], pr_grammar = None, pr_max_tokens = None, pr_temperature = None\<rparr>"
  let ?config = "\<lambda>k. if k = ''routing.chat'' then Some ''m'' else None"
  have route: "routed_model ?config ''chat'' = Some ''m''"
  proof -
    have "model_from_route (trim_matches CHR 0x22 (trim ''m'')) = Some ''m''" by code_simp
    then show ?thesis by (simp add: routed_model_def)
  qed
  have run: "task_intercept to_lower silent_llm ?config
      \<lparr>in_phase = PSelectModel, in_state = SSelectModel ?req, in_answer = None\<rparr> 0 =
      Some (Inr (Replace (SSelectModel (?req\<lparr>pr_model := Some ''m''\<rparr>))), 1)"
    using route
    by (simp add: task_intercept_def last_user_def classify_task_def ask_model_def silent_llm_def DEFAULT_TASK_def)
  from routing_changes_only_model [OF run] show ?thesis using run by auto
qed

end
