(* ===== verification/Config.thy ===== *)
theory Config
  imports Prelude
begin

text \<open>
  Loading \<open>config.yaml\<close> (\<open>host/config/src/lib.rs\<close>): the instances of every category with their sections, the check on
  them, and the expansion of \<open>${VAR}\<close> in the sections of enabled instances. The YAML parser and the environment are
  parameters; serde_json's map is ordered by key, so an object is the list of its entries in that order.
\<close>

datatype output_format = Human | JsonLines

datatype config_error =
    ConfigUnreadable string
  | ConfigUnparsable string
  | RootNotMap
  | ExtensionsNotMap
  | CategoryNotMap string
  | InstanceNotMap string
  | EnabledNotBool string
  | TypeNotString string
  | MissingEnv string string
  | MultipleStores string
  | UnterminatedExpansion string
  | ObservabilityNotMap
  | ObservabilityFormatNotString
  | InvalidOutputFormat string

record extension_instance =
  ei_id :: string
  ei_category :: string
  ei_name :: string
  ei_kind :: string
  ei_component :: string
  ei_enabled :: bool
  ei_config :: json

record config =
  cf_instances :: "extension_instance list"
  cf_agent :: json
  cf_format :: output_format

section \<open>Observability\<close>

definition format_from_str :: "string \<Rightarrow> output_format option" where
  "format_from_str s =
     (if s = ''human'' then Some Human else if s = ''json'' then Some JsonLines else None)"

fun format_str :: "output_format \<Rightarrow> string" where
  "format_str Human = ''human''"
| "format_str JsonLines = ''json''"

definition observability_from :: "json \<Rightarrow> config_error + output_format" where
  "observability_from v =
     (case v of
        JObj obs \<Rightarrow>
          (case map_of obs ''output-format'' of
             None \<Rightarrow> Inr Human
           | Some (JStr s) \<Rightarrow> ok_or (InvalidOutputFormat s) (format_from_str s)
           | Some _ \<Rightarrow> Inl ObservabilityFormatNotString)
      | _ \<Rightarrow> Inl ObservabilityNotMap)"

section \<open>Expansion\<close>

text \<open>\<open>str::find\<close> of \<open>${\<close> and of \<open>}\<close>: the text before the first, and the text after it.\<close>

fun cut_after :: "string \<Rightarrow> string \<Rightarrow> (string \<times> string) option" where
  "cut_after p [] = (if p = [] then Some ([], []) else None)"
| "cut_after p (c # s) =
     (if starts_with p (c # s) then Some ([], drop (length p) (c # s))
      else map_option (\<lambda>(a, b). (c # a, b)) (cut_after p s))"

lemma cut_after_Some: "cut_after p s = Some (a, b) \<Longrightarrow> s = a @ p @ b"
proof (induction p s arbitrary: a rule: cut_after.induct)
  case (2 p c s)
  then show ?case by (auto simp: starts_with_iff split: if_splits)
qed (simp split: if_splits)

definition var_open :: string where "var_open = [CHR ''$'', CHR 0x7B]"
definition var_close :: string where "var_close = [CHR 0x7D]"

lemma cut_after_shorter: "cut_after p s = Some (a, b) \<Longrightarrow> p \<noteq> [] \<Longrightarrow> length b < length s"
  using cut_after_Some by fastforce

lemma var_marks_nonempty [simp]: "var_open \<noteq> []" "var_close \<noteq> []"
  by (simp_all add: var_open_def var_close_def)

function expand_loop ::
  "(string \<Rightarrow> string option) \<Rightarrow> string \<Rightarrow> string \<Rightarrow> string \<Rightarrow> config_error + string" where
  "expand_loop env i out rest =
     (case cut_after var_open rest of
        None \<Rightarrow> Inr (out @ rest)
      | Some (before, after) \<Rightarrow>
          (case cut_after var_close after of
             None \<Rightarrow> Inl (UnterminatedExpansion i)
           | Some (var, rest1) \<Rightarrow>
               (case env var of
                  None \<Rightarrow> Inl (MissingEnv i var)
                | Some val \<Rightarrow> expand_loop env i (out @ before @ val) rest1)))"
  by auto
termination
  by (relation "measure (\<lambda>(_, _, _, rest). length rest)") (auto dest!: cut_after_shorter)

declare expand_loop.simps [simp del]

definition expand_str :: "(string \<Rightarrow> string option) \<Rightarrow> string \<Rightarrow> string \<Rightarrow> config_error + string option" where
  "expand_str env s i =
     (if \<not> contains_text var_open s then Inr None else map_ok Some (expand_loop env i [] s))"

text \<open>The code changes the value in place and stops at the first error, so the value of a failed expansion is not
  looked at again.\<close>

fun expand_env :: "(string \<Rightarrow> string option) \<Rightarrow> string \<Rightarrow> json \<Rightarrow> config_error + json"
  and expand_items :: "(string \<Rightarrow> string option) \<Rightarrow> string \<Rightarrow> json list \<Rightarrow> config_error + json list"
  and expand_fields :: "(string \<Rightarrow> string option) \<Rightarrow> string \<Rightarrow> (string \<times> json) list
    \<Rightarrow> config_error + (string \<times> json) list" where
  "expand_env env i (JStr s) =
     map_ok (\<lambda>e. JStr (case e of Some t \<Rightarrow> t | None \<Rightarrow> s)) (expand_str env s i)"
| "expand_env env i (JArr vs) = map_ok JArr (expand_items env i vs)"
| "expand_env env i (JObj fs) = map_ok JObj (expand_fields env i fs)"
| "expand_env env i v = Inr v"
| "expand_items env i [] = Inr []"
| "expand_items env i (v # vs) =
     try_then (expand_env env i v) (\<lambda>v1. map_ok (Cons v1) (expand_items env i vs))"
| "expand_fields env i [] = Inr []"
| "expand_fields env i ((k, v) # fs) =
     try_then (expand_env env i v) (\<lambda>v1. map_ok (Cons (k, v1)) (expand_fields env i fs))"

section \<open>Instances\<close>

definition without :: "string \<Rightarrow> (string \<times> json) list \<Rightarrow> (string \<times> json) list" where
  "without k fs = filter (\<lambda>(q, _). q \<noteq> k) fs"

definition parse_instance ::
  "(string \<Rightarrow> string option) \<Rightarrow> string \<Rightarrow> string \<Rightarrow> json \<Rightarrow> config_error + extension_instance" where
  "parse_instance env category name entry =
     (let i = category @ ''.'' @ name
      in case entry of
           JObj fs \<Rightarrow>
             try_then
               (case map_of fs ''enabled'' of
                  None \<Rightarrow> Inr False
                | Some (JBool b) \<Rightarrow> Inr b
                | Some _ \<Rightarrow> Inl (EnabledNotBool i)) (\<lambda>enabled.
             try_then
               (case map_of fs ''type'' of
                  None \<Rightarrow> Inr name
                | Some (JStr s) \<Rightarrow> Inr s
                | Some _ \<Rightarrow> Inl (TypeNotString i)) (\<lambda>kind.
             let own = JObj (without ''type'' (without ''enabled'' fs))
             in map_ok
                  (\<lambda>c. \<lparr>ei_id = i, ei_category = category, ei_name = name, ei_kind = kind,
                        ei_component = category @ ''-'' @ kind, ei_enabled = enabled, ei_config = c\<rparr>)
                  (if enabled then expand_env env i own else Inr own)))
         | _ \<Rightarrow> Inl (InstanceNotMap i))"

fun parse_entries ::
  "(string \<Rightarrow> string option) \<Rightarrow> string \<Rightarrow> (string \<times> json) list \<Rightarrow> config_error + extension_instance list" where
  "parse_entries env category [] = Inr []"
| "parse_entries env category ((name, entry) # es) =
     try_then (parse_instance env category name entry) (\<lambda>x. map_ok (Cons x) (parse_entries env category es))"

fun parse_categories ::
  "(string \<Rightarrow> string option) \<Rightarrow> (string \<times> json) list \<Rightarrow> config_error + extension_instance list" where
  "parse_categories env [] = Inr []"
| "parse_categories env ((category, entries) # cs) =
     (case entries of
        JObj es \<Rightarrow>
          try_then (parse_entries env category es) (\<lambda>xs. map_ok ((@) xs) (parse_categories env cs))
      | _ \<Rightarrow> Inl (CategoryNotMap category))"

definition parse_instances :: "(string \<Rightarrow> string option) \<Rightarrow> json \<Rightarrow> config_error + extension_instance list" where
  "parse_instances env extensions =
     (case extensions of JObj cs \<Rightarrow> parse_categories env cs | _ \<Rightarrow> Inl ExtensionsNotMap)"

definition enabled_stores :: "extension_instance list \<Rightarrow> extension_instance list" where
  "enabled_stores xs = filter (\<lambda>x. ei_enabled x \<and> ei_category x = ''store'') xs"

definition validate_instances :: "extension_instance list \<Rightarrow> config_error + unit" where
  "validate_instances xs =
     (if 1 < length (enabled_stores xs)
      then Inl (MultipleStores (join_with '', '' (map ei_id (enabled_stores xs)))) else Inr ())"

definition from_yaml ::
  "(string \<Rightarrow> string + json) \<Rightarrow> (string \<Rightarrow> string option) \<Rightarrow> string \<Rightarrow> config_error + config" where
  "from_yaml yaml env text =
     try_then (map_err ConfigUnparsable (yaml text)) (\<lambda>root.
       case root of
         JObj fs \<Rightarrow>
           try_then (parse_instances env (case map_of fs ''extensions'' of Some v \<Rightarrow> v | None \<Rightarrow> JObj []))
             (\<lambda>instances.
           try_then (validate_instances instances) (\<lambda>_.
           map_ok
             (\<lambda>fmt. \<lparr>cf_instances = instances,
                cf_agent = JObj (without ''observability'' (without ''extensions'' fs)), cf_format = fmt\<rparr>)
             (case map_of fs ''observability'' of Some v \<Rightarrow> observability_from v | None \<Rightarrow> Inr Human)))
       | _ \<Rightarrow> Inl RootNotMap)"

definition top_level :: "(string \<Rightarrow> string + json) \<Rightarrow> string \<Rightarrow> string \<Rightarrow> config_error + json option" where
  "top_level yaml text key =
     try_then (map_err ConfigUnparsable (yaml text)) (\<lambda>root.
       case root of JObj fs \<Rightarrow> Inr (map_of fs key) | _ \<Rightarrow> Inl RootNotMap)"

definition from_path ::
  "(string \<Rightarrow> string + json) \<Rightarrow> (string \<Rightarrow> string option) \<Rightarrow> string + string \<Rightarrow> config_error + config" where
  "from_path yaml env contents = try_then (map_err ConfigUnreadable contents) (from_yaml yaml env)"

definition enabled_of :: "config \<Rightarrow> extension_instance list" where
  "enabled_of c = filter ei_enabled (cf_instances c)"

section \<open>What expansion does\<close>

text \<open>A text with references, as its pieces, and what it stands for.\<close>

datatype piece = Lit string | Ref string

fun piece_text :: "piece \<Rightarrow> string" where
  "piece_text (Lit s) = s"
| "piece_text (Ref v) = var_open @ v @ var_close"

definition template_text :: "piece list \<Rightarrow> string" where
  "template_text ps = concat (map piece_text ps)"

text \<open>Literals hold no \<open>${\<close> and stand between references; a name holds no closing brace.\<close>

fun template :: "piece list \<Rightarrow> bool" where
  "template [Lit s] \<longleftrightarrow> \<not> contains_text var_open s"
| "template (Lit s # Ref v # ps) \<longleftrightarrow>
     \<not> contains_text var_open s \<and> CHR 0x7D \<notin> set v \<and> template ps"
| "template _ \<longleftrightarrow> False"

fun fill_in :: "(string \<Rightarrow> string option) \<Rightarrow> string \<Rightarrow> piece list \<Rightarrow> config_error + string" where
  "fill_in env i [] = Inr []"
| "fill_in env i (Lit s # ps) = map_ok ((@) s) (fill_in env i ps)"
| "fill_in env i (Ref v # ps) =
     (case env v of
        None \<Rightarrow> Inl (MissingEnv i v)
      | Some x \<Rightarrow> map_ok ((@) x) (fill_in env i ps))"

lemma cut_after_none: "p \<noteq> [] \<Longrightarrow> cut_after p s = None \<longleftrightarrow> \<not> contains_text p s"
  by (induction s) auto

lemma cut_after_open:
  "\<not> contains_text var_open s \<Longrightarrow> cut_after var_open (s @ var_open @ r) = Some (s, r)"
proof (induction s)
  case (Cons c s)
  have no: "\<not> starts_with var_open (c # s @ var_open @ r)"
  proof
    assume a: "starts_with var_open (c # s @ var_open @ r)"
    show False
    proof (cases s)
      case Nil
      then show ?thesis using a by (auto simp: starts_with_def var_open_def)
    next
      case (Cons d t)
      then show ?thesis
        using a Cons.prems by (auto simp: starts_with_def var_open_def)
    qed
  qed
  with Cons show ?case by simp
qed (simp add: var_open_def starts_with_def)

lemma cut_after_close: "CHR 0x7D \<notin> set v \<Longrightarrow> cut_after var_close (v @ var_close @ r) = Some (v, r)"
  by (induction v) (auto simp: var_close_def starts_with_def)

lemma map_ok_map_ok: "map_ok f (map_ok g r) = map_ok (f \<circ> g) r"
  by (cases r) auto

lemma map_ok_cong: "(\<And>x. f x = g x) \<Longrightarrow> map_ok f r = map_ok g r"
  by (cases r) auto

lemma expand_loop_template:
  "template ps \<Longrightarrow> expand_loop env i out (template_text ps) = map_ok ((@) out) (fill_in env i ps)"
proof (induction ps arbitrary: out rule: template.induct)
  case (1 s)
  then show ?case
    by (subst expand_loop.simps) (simp add: template_text_def cut_after_none [THEN iffD2])
next
  case (2 s v ps)
  have "template_text (Lit s # Ref v # ps) = s @ var_open @ v @ var_close @ template_text ps"
    by (simp add: template_text_def)
  then show ?case
    using 2 cut_after_open [of s "v @ var_close @ template_text ps"] cut_after_close [of v "template_text ps"]
    by (subst expand_loop.simps) (auto simp: map_ok_map_ok comp_def split: option.split intro!: map_ok_cong)
qed auto

text \<open>C33 (expansion_fills_references): A reference is replaced by the value of its variable and everything else is kept: the
  expansion of a text is its pieces with each reference filled in, the first variable that is not set is the error,
  and a text without a reference is left as it is.\<close>

theorem expansion_fills_references:
  assumes "template ps"
  shows "map_ok (\<lambda>e. case e of Some t \<Rightarrow> t | None \<Rightarrow> template_text ps) (expand_str env (template_text ps) i) =
    fill_in env i ps"
proof (cases "contains_text var_open (template_text ps)")
  case True
  then show ?thesis
    using expand_loop_template [OF assms, of env i "[]"]
    by (cases "fill_in env i ps") (simp_all add: expand_str_def)
next
  case False
  from assms have "expand_loop env i [] (template_text ps) = fill_in env i ps"
    using expand_loop_template [OF assms, of env i "[]"] by (cases "fill_in env i ps") simp_all
  then show ?thesis
    using False by (subst (asm) expand_loop.simps) (simp add: expand_str_def cut_after_none [THEN iffD2])
qed

theorem expansion_fills_references_witness:
  "expand_str (\<lambda>v. if v = ''K'' then Some ''x'' else None) (template_text [Lit ''a$'', Ref ''K'', Lit ''b'']) ''i'' =
     Inr (Some ''a$xb'')"
proof -
  have "template [Lit ''a$'', Ref ''K'', Lit ''b'']" by (simp add: var_open_def starts_with_def)
  from expansion_fills_references [OF this, of "\<lambda>v. if v = ''K'' then Some ''x'' else None" "''i''"]
  show ?thesis
    by (auto simp: map_ok_eq_Inr expand_str_def template_text_def var_open_def starts_with_def split: option.splits if_splits)
qed

section \<open>What a loaded configuration is\<close>

definition sound_instance :: "extension_instance \<Rightarrow> bool" where
  "sound_instance x \<longleftrightarrow>
     ei_id x = ei_category x @ ''.'' @ ei_name x \<and> ei_component x = ei_category x @ ''-'' @ ei_kind x \<and>
     (\<exists>fs. ei_config x = JObj fs \<and> map_of fs ''enabled'' = None \<and> map_of fs ''type'' = None)"

lemma without_none [simp]: "map_of (without k fs) q = (if q = k then None else map_of fs q)"
  by (induction fs) (auto simp: without_def)

lemma expand_fields_keys: "expand_fields env i fs = Inr fs1 \<Longrightarrow> map fst fs1 = map fst fs"
  by (induction fs arbitrary: fs1) (auto simp: try_then_eq_Inr map_ok_eq_Inr)

lemma parse_instance_sound:
  assumes "parse_instance env category name entry = Inr x"
  shows "sound_instance x \<and> ei_category x = category \<and> ei_name x = name"
proof -
  obtain fs where fs: "entry = JObj fs"
    using assms by (cases entry) (auto simp: parse_instance_def Let_def)
  let ?own = "without ''type'' (without ''enabled'' fs)"
  obtain c where x: "ei_id x = category @ ''.'' @ name" "ei_component x = category @ ''-'' @ ei_kind x"
      "ei_category x = category" "ei_name x = name" "ei_config x = c"
      "c = JObj ?own \<or> expand_env env (category @ ''.'' @ name) (JObj ?own) = Inr c"
    using assms fs by (auto simp: parse_instance_def Let_def try_then_eq_Inr map_ok_eq_Inr split: if_splits)
  obtain gs where gs: "c = JObj gs" "map fst gs = map fst ?own"
    using x(6) expand_fields_keys by (fastforce simp: map_ok_eq_Inr)
  have "set (map fst ?own) \<inter> {''enabled'', ''type''} = {}"
    by (auto simp: without_def)
  then have "map_of gs ''enabled'' = None" "map_of gs ''type'' = None"
    unfolding map_of_eq_None_iff set_map [symmetric] gs(2) by blast+
  then show ?thesis using x(1-5) gs(1) by (simp add: sound_instance_def)
qed

lemma parse_entries_sound: "parse_entries env category es = Inr xs \<Longrightarrow> list_all sound_instance xs"
  by (induction es arbitrary: xs) (auto simp: try_then_eq_Inr map_ok_eq_Inr dest!: parse_instance_sound)

lemma parse_categories_sound: "parse_categories env cs = Inr xs \<Longrightarrow> list_all sound_instance xs"
  by (induction cs arbitrary: xs)
    (auto simp: try_then_eq_Inr map_ok_eq_Inr dest!: parse_entries_sound split: json.splits)

text \<open>In a configuration that loads every instance is named after its category and name, its
  component after its category and type, and its section has neither of the keys the core reads; at most one store is
  enabled; and the agent's part has neither the extensions nor the observability section.\<close>

theorem loaded_config_sound:
  assumes "from_yaml yaml env text = Inr c"
  shows "list_all sound_instance (cf_instances c) \<and> length (enabled_stores (cf_instances c)) \<le> 1 \<and>
    (\<exists>fs. cf_agent c = JObj fs \<and> map_of fs ''extensions'' = None \<and> map_of fs ''observability'' = None)"
proof -
  obtain root where root: "map_err ConfigUnparsable (yaml text) = Inr root"
    using assms by (auto simp: from_yaml_def try_then_eq_Inr)
  then obtain fs where "root = JObj fs" using assms by (cases root) (auto simp: from_yaml_def)
  then obtain xs where "parse_instances env (case map_of fs ''extensions'' of Some v \<Rightarrow> v | None \<Rightarrow> JObj []) = Inr xs"
      "validate_instances xs = Inr ()" "cf_instances c = xs"
      "cf_agent c = JObj (without ''observability'' (without ''extensions'' fs))"
    using assms root by (auto simp: from_yaml_def try_then_eq_Inr map_ok_eq_Inr)
  then show ?thesis
    using parse_categories_sound by (auto simp: parse_instances_def validate_instances_def split: json.splits if_splits)
qed

definition tiny_yaml :: "string \<Rightarrow> string + json" where
  "tiny_yaml text = Inr (JObj [(''extensions'', JObj [(''store'', JObj [(''db'', JObj [(''enabled'', JBool True)])])])])"

theorem loaded_config_sound_witness:
  "\<exists>c. from_yaml tiny_yaml (\<lambda>_. None) ''p'' = Inr c \<and> list_all sound_instance (cf_instances c) \<and>
     map ei_id (cf_instances c) = [''store.db'']"
proof -
  have "parse_instances (\<lambda>_. None) (JObj [(''store'', JObj [(''db'', JObj [(''enabled'', JBool True)])])]) =
      Inr [\<lparr>ei_id = ''store.db'', ei_category = ''store'', ei_name = ''db'', ei_kind = ''db'',
        ei_component = ''store-db'', ei_enabled = True, ei_config = JObj []\<rparr>]" (is "_ = Inr ?xs")
    by (simp add: parse_instances_def parse_instance_def Let_def without_def)
  then obtain c where c: "from_yaml tiny_yaml (\<lambda>_. None) ''p'' = Inr c" "cf_instances c = ?xs"
    by (simp add: from_yaml_def tiny_yaml_def validate_instances_def enabled_stores_def)
  then show ?thesis using loaded_config_sound [OF c(1)] by simp
qed

text \<open>The id of an instance does not name it: a dot in a category or a name lets two share one.\<close>

lemma ids_clash:
  "map_ok (map ei_id) (parse_instances env (JObj [(''tool'', JObj [(''a.b'', JObj [])]),
      (''tool.a'', JObj [(''b'', JObj [])])])) = Inr [''tool.a.b'', ''tool.a.b'']"
  by (simp add: parse_instances_def parse_instance_def Let_def without_def)

end
