(* ===== verification/HostFs.thy ===== *)
theory HostFs
  imports HostApi FileTools Edit "HOL-Library.AList" "HOL-Library.Sublist" "HOL-Library.List_Lexorder" "HOL-Library.Char_ord"
begin

text \<open>
  The workspace behind \<open>host-fs\<close> (\<open>host/wasm/src/host_fs.rs\<close>) and how a tool reaches it
  (\<open>host/wasm/src/tool_host.rs\<close>). A path is the list of its components below \<open>/\<close>. The disk is an association list from
  paths to files and directories; \<open>dk_refused\<close> says which paths the operating system turns down and \<open>dk_follow\<close> where a path
  leads once symbolic links are followed. The names of a directory are read through \<open>lossy\<close>.
\<close>

type_synonym path = "string list"

datatype node = NFile string | NDir

record disk =
  dk_nodes :: "(path \<times> node) list"
  dk_refused :: "path \<Rightarrow> bool"
  dk_follow :: "path \<Rightarrow> path"

datatype fs_error = FsNotFound | FsDenied | FsIo

section \<open>What the standard library does\<close>

abbreviation node_at :: "disk \<Rightarrow> path \<Rightarrow> node option" where
  "node_at d p \<equiv> map_of (dk_nodes d) p"

definition put_node :: "path \<Rightarrow> node \<Rightarrow> disk \<Rightarrow> disk" where
  "put_node p n d = d\<lparr>dk_nodes := AList.update p n (dk_nodes d)\<rparr>"

text \<open>Text that is UTF-8: no overlong form, no surrogate, nothing above \<open>U+10FFFF\<close>.\<close>

definition byte_in :: "nat \<Rightarrow> nat \<Rightarrow> char \<Rightarrow> bool" where
  "byte_in lo hi c \<longleftrightarrow> lo \<le> of_char c \<and> of_char c \<le> hi"

fun valid_utf8 :: "string \<Rightarrow> bool" where
  "valid_utf8 [] \<longleftrightarrow> True"
| "valid_utf8 (a # s) \<longleftrightarrow>
     (if byte_in 0 0x7F a then valid_utf8 s
      else
        (case s of
           [] \<Rightarrow> False
         | b # s1 \<Rightarrow>
             (if byte_in 0xC2 0xDF a then byte_in 0x80 0xBF b \<and> valid_utf8 s1
              else
                (case s1 of
                   [] \<Rightarrow> False
                 | c # s2 \<Rightarrow>
                     (if byte_in 0xE0 0xEF a then
                        (if byte_in 0xE0 0xE0 a then byte_in 0xA0 0xBF b
                         else if byte_in 0xED 0xED a then byte_in 0x80 0x9F b
                         else byte_in 0x80 0xBF b) \<and> byte_in 0x80 0xBF c \<and> valid_utf8 s2
                      else
                        (case s2 of
                           [] \<Rightarrow> False
                         | e # s3 \<Rightarrow>
                             byte_in 0xF0 0xF4 a \<and>
                             (if byte_in 0xF0 0xF0 a then byte_in 0x90 0xBF b
                              else if byte_in 0xF4 0xF4 a then byte_in 0x80 0x8F b
                              else byte_in 0x80 0xBF b) \<and>
                             byte_in 0x80 0xBF c \<and> byte_in 0x80 0xBF e \<and> valid_utf8 s3))))))"

definition is_file :: "disk \<Rightarrow> path \<Rightarrow> bool" where
  "is_file d p \<longleftrightarrow> (case node_at d p of Some (NFile _) \<Rightarrow> True | _ \<Rightarrow> False)"

definition above :: "path \<Rightarrow> path list" where
  "above p = map (\<lambda>n. take n p) [0..<length p]"

text \<open>Nothing there is \<open>NotFound\<close>, unless a file stands where a directory is needed.\<close>

definition missing :: "disk \<Rightarrow> path \<Rightarrow> fs_error" where
  "missing d p = (if list_ex (is_file d) (above p) then FsIo else FsNotFound)"

definition read_to_string :: "disk \<Rightarrow> path \<Rightarrow> fs_error + string" where
  "read_to_string d p =
     (let q = dk_follow d p
      in if dk_refused d q then Inl FsIo
         else
           (case node_at d q of
              None \<Rightarrow> Inl (missing d q)
            | Some NDir \<Rightarrow> Inl FsIo
            | Some (NFile bytes) \<Rightarrow> (if valid_utf8 bytes then Inr bytes else Inl FsIo)))"

text \<open>\<open>create_dir_all\<close>: the directories above are made first, what is there stays, a file in the way ends it.\<close>

fun make_dirs :: "path list \<Rightarrow> disk \<Rightarrow> bool \<times> disk" where
  "make_dirs [] d = (True, d)"
| "make_dirs (p # ps) d =
     (let q = dk_follow d p
      in case node_at d q of
           Some NDir \<Rightarrow> make_dirs ps d
         | Some (NFile _) \<Rightarrow> (False, d)
         | None \<Rightarrow> (if dk_refused d q then (False, d) else make_dirs ps (put_node q NDir d)))"

definition create_dir_all :: "path \<Rightarrow> disk \<Rightarrow> bool \<times> disk" where
  "create_dir_all p d = make_dirs (above p @ [p]) d"

definition write_file :: "path \<Rightarrow> string \<Rightarrow> disk \<Rightarrow> bool \<times> disk" where
  "write_file p contents d =
     (let q = dk_follow d p
      in if q = [] \<or> dk_refused d q \<or> node_at d (butlast q) \<noteq> Some NDir \<or> node_at d q = Some NDir then (False, d)
         else (True, put_node q (NFile contents) d))"

definition children_of :: "disk \<Rightarrow> path \<Rightarrow> (string \<times> node) list" where
  "children_of d p =
     map (\<lambda>(q, n). (last q, n)) (filter (\<lambda>(q, _). q \<noteq> [] \<and> butlast q = p) (dk_nodes d))"

definition read_dir :: "disk \<Rightarrow> path \<Rightarrow> fs_error + (string \<times> node) list" where
  "read_dir d p =
     (let q = dk_follow d p
      in if dk_refused d q then Inl FsIo
         else
           (case node_at d q of
              None \<Rightarrow> Inl (missing d q)
            | Some (NFile _) \<Rightarrow> Inl FsIo
            | Some NDir \<Rightarrow> Inr (children_of d q)))"

section \<open>The workspace\<close>

text \<open>\<open>Path::components\<close> of a relative path, then \<open>normalize\<close>: \<open>.\<close> is dropped and \<open>..\<close> drops the last component,
  at the top too.\<close>

definition path_parts :: "string \<Rightarrow> path" where
  "path_parts s = filter (\<lambda>c. c \<noteq> []) (split_on CHR ''/'' s)"

fun normalize_path :: "path \<Rightarrow> path \<Rightarrow> path" where
  "normalize_path out [] = out"
| "normalize_path out (c # cs) =
     (if c = ''..'' then normalize_path (butlast out) cs
      else if c = ''.'' then normalize_path out cs
      else normalize_path (out @ [c]) cs)"

definition is_absolute :: "string \<Rightarrow> bool" where
  "is_absolute s \<longleftrightarrow> starts_with ''/'' s"

definition ws_resolve :: "path \<Rightarrow> string \<Rightarrow> fs_error + path" where
  "ws_resolve root requested =
     (if is_absolute requested then Inl FsDenied
      else
        (let candidate = normalize_path [] (root @ path_parts requested)
         in if prefix root candidate then Inr candidate else Inl FsDenied))"

definition ws_read :: "path \<Rightarrow> string \<Rightarrow> disk \<Rightarrow> fs_error + string" where
  "ws_read root p d = try_then (ws_resolve root p) (read_to_string d)"

text \<open>The root of the disk has no parent, so nothing is made for it.\<close>

definition make_parent :: "path \<Rightarrow> disk \<Rightarrow> bool \<times> disk" where
  "make_parent full d = (if full = [] then (True, d) else create_dir_all (butlast full) d)"

definition ws_write :: "path \<Rightarrow> string \<Rightarrow> string \<Rightarrow> disk \<Rightarrow> (fs_error + unit) \<times> disk" where
  "ws_write root p contents d =
     (case ws_resolve root p of
        Inl e \<Rightarrow> (Inl e, d)
      | Inr full \<Rightarrow>
          (case make_parent full d of
             (False, d1) \<Rightarrow> (Inl FsIo, d1)
           | (True, d1) \<Rightarrow>
               (case write_file full contents d1 of
                  (False, d2) \<Rightarrow> (Inl FsIo, d2)
                | (True, d2) \<Rightarrow> (Inr (), d2))))"

definition ws_list_dir :: "(string \<Rightarrow> string) \<Rightarrow> path \<Rightarrow> string \<Rightarrow> disk \<Rightarrow> fs_error + dir_entry list" where
  "ws_list_dir lossy root p d =
     try_then (ws_resolve root p) (\<lambda>full.
       map_ok (\<lambda>es. sort_key de_name (map (\<lambda>(n, k). \<lparr>de_name = lossy n, de_is_dir = (k = NDir)\<rparr>) es))
         (read_dir d full))"

definition ws_exists :: "path \<Rightarrow> string \<Rightarrow> disk \<Rightarrow> bool" where
  "ws_exists root p d =
     (case ws_resolve root p of
        Inl _ \<Rightarrow> False
      | Inr full \<Rightarrow> \<not> dk_refused d (dk_follow d full) \<and> node_at d (dk_follow d full) \<noteq> None)"

section \<open>What a tool sees\<close>

definition with_workspace :: "path option \<Rightarrow> (path \<Rightarrow> fs_error + 'a) \<Rightarrow> fs_error + 'a" where
  "with_workspace ws f = (case ws of None \<Rightarrow> Inl FsDenied | Some root \<Rightarrow> f root)"

definition tool_fs :: "(string \<Rightarrow> string) \<Rightarrow> path option \<Rightarrow> disk host_fs" where
  "tool_fs lossy ws =
     \<lparr>hf_read = (\<lambda>p d. ok_of (with_workspace ws (\<lambda>root. ws_read root p d))),
      hf_write = (\<lambda>p c d.
        (case ws of
           None \<Rightarrow> (False, d)
         | Some root \<Rightarrow> (case ws_write root p c d of (r, d1) \<Rightarrow> (\<not> isl r, d1)))),
      hf_list = (\<lambda>p d. ok_of (with_workspace ws (\<lambda>root. ws_list_dir lossy root p d)))\<rparr>"

section \<open>Facts\<close>

text \<open>An invariant of the files a tool keeps when each write keeps it.\<close>

locale kept_files =
  fixes fs :: "'w host_fs" and P :: "'w \<Rightarrow> bool"
  assumes write_keeps: "P w \<Longrightarrow> P (snd (hf_write fs p c w))"
begin

lemma wrote: "P w \<Longrightarrow> hf_write fs p c w = (b, w1) \<Longrightarrow> P w1"
  using write_keeps by (metis snd_conv)

lemma fs_invoke_keeps: "P w \<Longrightarrow> P (snd (fs_invoke parse fs arguments w))"
  by (auto simp: fs_invoke_def Let_def wrote split: sum.split option.split prod.split bool.split)

lemma edit_invoke_keeps: "P w \<Longrightarrow> P (snd (edit_invoke parse fs arguments w))"
  by (auto simp: edit_invoke_def wrote split: sum.split option.split prod.split bool.split edit_plan.split)

end

text \<open>Two states a tool cannot tell apart: it answers the same in both, and they stay that way.\<close>

locale same_files =
  fixes fs :: "'w host_fs" and R :: "'w \<Rightarrow> 'w \<Rightarrow> bool"
  assumes read_same: "R v w \<Longrightarrow> hf_read fs p v = hf_read fs p w"
    and list_same: "R v w \<Longrightarrow> hf_list fs p v = hf_list fs p w"
    and write_same: "R v w \<Longrightarrow> fst (hf_write fs p c v) = fst (hf_write fs p c w)"
    and writes_same: "R v w \<Longrightarrow> R (snd (hf_write fs p c v)) (snd (hf_write fs p c w))"
begin

lemma write_cases:
  assumes "R v w"
  obtains b v1 w1 where "hf_write fs p c v = (b, v1)" "hf_write fs p c w = (b, w1)" "R v1 w1"
  using write_same [OF assms, of p c] writes_same [OF assms, of p c]
  by (cases "hf_write fs p c v"; cases "hf_write fs p c w") auto

lemma fs_grep_same:
  assumes "R v w"
  shows "fs_grep fs p pattern gl v = fs_grep fs p pattern gl w"
  unfolding fs_grep_def read_same [OF assms] list_same [OF assms] by (rule refl)

lemma fs_invoke_same:
  assumes "R v w"
  shows "fst (fs_invoke parse fs arguments v) = fst (fs_invoke parse fs arguments w) \<and>
    R (snd (fs_invoke parse fs arguments v)) (snd (fs_invoke parse fs arguments w))"
proof -
  have "R (snd (hf_write fs p c v)) (snd (hf_write fs p c w)) \<and> fst (hf_write fs p c v) = fst (hf_write fs p c w)" for p c
    using assms write_same writes_same by blast
  then show ?thesis
    using assms read_same [OF assms] fs_grep_same [OF assms]
    by (auto simp: fs_invoke_def Let_def case_prod_beta split: sum.split option.split bool.split)
qed

lemma edit_invoke_same:
  assumes "R v w"
  shows "fst (edit_invoke parse fs arguments v) = fst (edit_invoke parse fs arguments w) \<and>
    R (snd (edit_invoke parse fs arguments v)) (snd (edit_invoke parse fs arguments w))"
proof -
  have "R (snd (hf_write fs p c v)) (snd (hf_write fs p c w)) \<and> fst (hf_write fs p c v) = fst (hf_write fs p c w)" for p c
    using assms write_same writes_same by blast
  then show ?thesis
    using assms read_same [OF assms]
    by (auto simp: edit_invoke_def case_prod_beta split: sum.split option.split bool.split edit_plan.split)
qed

end

lemma filter_update: "filter (\<lambda>(q, _). Q q) (AList.update p n xs) =
    (if Q p then AList.update p n (filter (\<lambda>(q, _). Q q) xs) else filter (\<lambda>(q, _). Q q) xs)"
  by (induction xs) auto

lemma map_of_filter_key: "map_of (filter (\<lambda>(q, _). Q q) xs) p = (if Q p then map_of xs p else None)"
  by (induction xs) auto

lemma put_node_simps [simp]:
  "node_at (put_node p n d) q = (if q = p then Some n else node_at d q)"
  "dk_follow (put_node p n d) = dk_follow d" "dk_refused (put_node p n d) = dk_refused d"
  by (simp_all add: put_node_def update_conv')

section \<open>The jail\<close>

text \<open>A root that is there and has no link on the way to it; and no link inside that leads out.\<close>

definition rooted :: "path \<Rightarrow> disk \<Rightarrow> bool" where
  "rooted root d \<longleftrightarrow>
     (\<forall>n \<le> length root. dk_follow d (take n root) = take n root \<and> node_at d (take n root) = Some NDir)"

definition no_way_out :: "path \<Rightarrow> disk \<Rightarrow> bool" where
  "no_way_out root d \<longleftrightarrow> (\<forall>p. prefix root p \<longrightarrow> prefix root (dk_follow d p))"

text \<open>\<open>d'\<close> is \<open>d\<close> but for what is under the root.\<close>

definition outside_kept :: "path \<Rightarrow> disk \<Rightarrow> disk \<Rightarrow> bool" where
  "outside_kept root d d' \<longleftrightarrow>
     dk_follow d' = dk_follow d \<and> dk_refused d' = dk_refused d \<and> rooted root d' \<and>
     filter (\<lambda>(q, _). \<not> prefix root q) (dk_nodes d') = filter (\<lambda>(q, _). \<not> prefix root q) (dk_nodes d)"

lemma outside_kept_put:
  assumes "outside_kept root d d'" "prefix root q" "n = NDir \<or> node_at d' q \<noteq> Some NDir"
  shows "outside_kept root d (put_node q n d')"
proof -
  have "rooted root (put_node q n d')"
    using assms unfolding rooted_def outside_kept_def
    by (metis put_node_simps(1,2) prefix_def take_all_iff append_eq_conv_conj nle_le)
  then show ?thesis
    using assms by (simp add: outside_kept_def) (simp add: put_node_def filter_update)
qed

text \<open>A directory that is made on the way is one of the root's, which are there, or under it.\<close>

lemma make_dirs_kept:
  assumes "no_way_out root d" "\<forall>p \<in> set ps. prefix p root \<or> prefix root p" "outside_kept root d d'"
  shows "outside_kept root d (snd (make_dirs ps d'))"
  using assms(2,3)
proof (induction ps arbitrary: d')
  case (Cons p ps)
  consider (up) n where "n \<le> length root" "p = take n root" | (down) "prefix root p"
    using Cons.prems(1) by (metis append_eq_conv_conj list.set_intros(1) prefix_def prefix_length_le)
  then show ?case
  proof cases
    case up
    then have "dk_follow d' p = p" "node_at d' p = Some NDir"
      using Cons.prems(2) by (auto simp: outside_kept_def rooted_def)
    then show ?thesis using Cons by simp
  next
    case down
    then have "prefix root (dk_follow d' p)"
      using assms(1) Cons.prems(2) by (auto simp: no_way_out_def outside_kept_def)
    then show ?thesis
      using Cons by (auto simp: Let_def outside_kept_put split: option.split node.split)
  qed
qed simp

lemma write_file_kept:
  assumes "no_way_out root d" "outside_kept root d d'" "prefix root p"
  shows "outside_kept root d (snd (write_file p c d'))"
proof -
  have "prefix root (dk_follow d' p)"
    using assms by (auto simp: no_way_out_def outside_kept_def)
  then show ?thesis using assms by (auto simp: write_file_def Let_def outside_kept_put)
qed

lemma ws_resolve_inside: "ws_resolve root p = Inr full \<Longrightarrow> prefix root full"
  by (auto simp: ws_resolve_def Let_def split: if_splits)

lemma above_related: "prefix root full \<Longrightarrow> \<forall>p \<in> set (above (butlast full) @ [butlast full]). prefix p root \<or> prefix root p"
  using prefix_same_cases [OF take_is_prefix, of root full]
  by (auto simp: above_def butlast_conv_take)

lemma ws_write_cases:
  assumes "ws_resolve root p = Inr full"
  shows "ws_write root p c d =
    (let (made, d1) = make_parent full d; (wrote, d2) = write_file full c d1
     in if \<not> made then (Inl FsIo, d1) else (if wrote then Inr () else Inl FsIo, d2))"
  by (simp add: ws_write_def assms case_prod_beta Let_def split: bool.split)

lemma ws_write_kept:
  assumes "no_way_out root d" "outside_kept root d d'"
  shows "outside_kept root d (snd (ws_write root p c d'))"
proof (cases "ws_resolve root p")
  case (Inr full)
  have "outside_kept root d (snd (make_parent full d'))"
    using assms make_dirs_kept above_related [OF ws_resolve_inside [OF Inr]]
    by (simp add: create_dir_all_def make_parent_def)
  then show ?thesis
    using write_file_kept [OF assms(1) _ ws_resolve_inside [OF Inr]]
    by (simp add: ws_write_cases [OF Inr] Let_def case_prod_beta)
qed (simp add: ws_write_def assms)

interpretation jailed: kept_files "tool_fs lossy (Some root)" "\<lambda>d'. no_way_out root d \<and> outside_kept root d d'"
  for lossy root d
  by standard (simp add: tool_fs_def ws_write_kept case_prod_beta)

text \<open>Two disks that have the same under the root, and the same links and refusals.\<close>

definition inside_same :: "path \<Rightarrow> disk \<Rightarrow> disk \<Rightarrow> bool" where
  "inside_same root d d' \<longleftrightarrow>
     dk_follow d' = dk_follow d \<and> dk_refused d' = dk_refused d \<and> rooted root d \<and> rooted root d' \<and>
     filter (\<lambda>(q, _). prefix root q) (dk_nodes d') = filter (\<lambda>(q, _). prefix root q) (dk_nodes d)"

lemma inside_node:
  assumes "inside_same root d d'" "prefix root p \<or> prefix p root"
  shows "node_at d' p = node_at d p"
proof (cases "prefix root p")
  case True
  then show ?thesis
    using assms(1) map_of_filter_key [of "prefix root" "dk_nodes d" p] map_of_filter_key [of "prefix root" "dk_nodes d'" p]
    by (simp add: inside_same_def)
next
  case False
  then have "prefix p root" using assms(2) by simp
  then obtain n where "n \<le> length root" "p = take n root"
    by (metis append_eq_conv_conj prefix_def prefix_length_le)
  then show ?thesis using assms(1) by (simp add: inside_same_def rooted_def)
qed

lemma inside_missing:
  assumes "inside_same root d d'" "prefix root p"
  shows "missing d' p = missing d p"
proof -
  have "\<forall>q \<in> set (above p). prefix root q \<or> prefix q root"
    using assms(2) prefix_same_cases [OF take_is_prefix assms(2)] by (auto simp: above_def)
  then have "\<forall>q \<in> set (above p). is_file d' q = is_file d q"
    using inside_node [OF assms(1)] by (auto simp: is_file_def)
  then show ?thesis by (simp add: missing_def list_ex_iff)
qed

lemma inside_children:
  assumes "inside_same root d d'" "prefix root p"
  shows "children_of d' p = children_of d p"
proof -
  have "children_of e p = map (\<lambda>(q, n). (last q, n)) (filter (\<lambda>(q, _). q \<noteq> [] \<and> butlast q = p)
      (filter (\<lambda>(q, _). prefix root q) (dk_nodes e)))" for e :: disk
  proof -
    have "prefix root q" if "q \<noteq> []" "butlast q = p" for q
      using assms(2) that by (metis append_butlast_last_id prefix_prefix)
    then show ?thesis unfolding children_of_def filter_filter
      by (intro arg_cong [where f = "map _"] filter_cong) auto
  qed
  note this [of d] this [of d']
  then show ?thesis using assms(1) unfolding inside_same_def by argo
qed

lemma inside_put:
  assumes "inside_same root d d'" "prefix root q" "n = NDir \<or> node_at d q \<noteq> Some NDir"
  shows "inside_same root (put_node q n d) (put_node q n d')"
proof -
  have "rooted root (put_node q n e)" if "rooted root e" "node_at e q = node_at d q" for e
    using assms(2,3) that unfolding rooted_def
    by (metis put_node_simps(1,2) prefix_def take_all_iff append_eq_conv_conj nle_le)
  then have "rooted root (put_node q n d)" "rooted root (put_node q n d')"
    using assms inside_node [OF assms(1), of q] by (auto simp: inside_same_def)
  then show ?thesis
    using assms by (simp add: inside_same_def) (simp add: put_node_def filter_update)
qed

lemma make_dirs_same:
  assumes "no_way_out root d" "\<forall>p \<in> set ps. prefix p root \<or> prefix root p" "inside_same root d d'"
  shows "fst (make_dirs ps d') = fst (make_dirs ps d) \<and> no_way_out root (snd (make_dirs ps d)) \<and>
    inside_same root (snd (make_dirs ps d)) (snd (make_dirs ps d'))"
  using assms
proof (induction ps arbitrary: d d')
  case (Cons p ps)
  have f: "dk_follow d' p = dk_follow d p" "dk_refused d' = dk_refused d"
    using Cons.prems(3) by (auto simp: inside_same_def)
  have q: "prefix root (dk_follow d p) \<or> prefix (dk_follow d p) root \<and> node_at d (dk_follow d p) = Some NDir"
  proof (cases "prefix root p")
    case False
    then obtain n where "n \<le> length root" "p = take n root"
      using Cons.prems(2) by (metis append_eq_conv_conj list.set_intros(1) prefix_def prefix_length_le)
    then show ?thesis using Cons.prems(3) by (auto simp: inside_same_def rooted_def take_is_prefix)
  qed (use Cons.prems(1) in \<open>simp add: no_way_out_def\<close>)
  have n: "node_at d' (dk_follow d p) = node_at d (dk_follow d p)"
    using inside_node [OF Cons.prems(3)] q by blast
  have "no_way_out root (put_node (dk_follow d p) NDir d)" using Cons.prems(1) by (simp add: no_way_out_def)
  then show ?case
    using Cons n f q inside_put [OF Cons.prems(3), of "dk_follow d p" NDir]
    by (auto simp: Let_def split: option.split node.split)
qed simp


lemma write_file_same:
  assumes "no_way_out root d" "prefix root p" "inside_same root d d'"
  shows "fst (write_file p c d') = fst (write_file p c d) \<and> no_way_out root (snd (write_file p c d)) \<and>
    inside_same root (snd (write_file p c d)) (snd (write_file p c d'))"
proof -
  let ?q = "dk_follow d p"
  have f: "dk_follow d' p = ?q" "dk_refused d' = dk_refused d"
    using assms(3) by (auto simp: inside_same_def)
  have q: "prefix root ?q" using assms by (simp add: no_way_out_def)
  then have "prefix root (butlast ?q) \<or> prefix (butlast ?q) root"
    using prefix_same_cases [OF prefixeq_butlast] by blast
  then have "node_at d' (butlast ?q) = node_at d (butlast ?q)" "node_at d' ?q = node_at d ?q"
    using inside_node [OF assms(3)] q by blast+
  moreover have "no_way_out root (put_node ?q (NFile c) d)" using assms(1) by (simp add: no_way_out_def)
  ultimately show ?thesis
    using assms f inside_put [OF assms(3) q, of "NFile c"] by (auto simp: write_file_def Let_def)
qed

lemma ws_write_same:
  assumes "no_way_out root d" "inside_same root d d'"
  shows "fst (ws_write root p c d') = fst (ws_write root p c d) \<and> no_way_out root (snd (ws_write root p c d)) \<and>
    inside_same root (snd (ws_write root p c d)) (snd (ws_write root p c d'))"
proof (cases "ws_resolve root p")
  case (Inr full)
  have r: "fst (make_parent full d') = fst (make_parent full d) \<and> no_way_out root (snd (make_parent full d)) \<and>
      inside_same root (snd (make_parent full d)) (snd (make_parent full d'))"
    using assms make_dirs_same [OF assms(1) above_related [OF ws_resolve_inside [OF Inr]] assms(2)]
    by (simp add: create_dir_all_def make_parent_def)
  then show ?thesis
    using write_file_same [OF _ ws_resolve_inside [OF Inr], of "snd (make_parent full d)" "snd (make_parent full d')" c]
    by (simp add: ws_write_cases [OF Inr] Let_def case_prod_beta)
qed (simp add: ws_write_def assms)

lemma ws_read_same:
  assumes "no_way_out root d" "inside_same root d d'"
  shows "ws_read root p d' = ws_read root p d"
proof (cases "ws_resolve root p")
  case (Inr full)
  then have q: "prefix root (dk_follow d full)"
    using assms(1) ws_resolve_inside by (simp add: no_way_out_def)
  have "read_to_string d' full = read_to_string d full"
    using assms(2) q inside_node [OF assms(2), of "dk_follow d full"] inside_missing [OF assms(2) q]
    unfolding read_to_string_def Let_def by (simp add: inside_same_def split: option.split node.split)
  then show ?thesis by (simp add: ws_read_def Inr)
qed (simp add: ws_read_def)

lemma ws_list_same:
  assumes "no_way_out root d" "inside_same root d d'"
  shows "ws_list_dir lossy root p d' = ws_list_dir lossy root p d"
proof (cases "ws_resolve root p")
  case (Inr full)
  then have q: "prefix root (dk_follow d full)"
    using assms(1) ws_resolve_inside by (simp add: no_way_out_def)
  have "read_dir d' full = read_dir d full"
    using assms(2) q inside_node [OF assms(2), of "dk_follow d full"] inside_missing [OF assms(2) q]
      inside_children [OF assms(2) q]
    unfolding read_dir_def Let_def by (simp add: inside_same_def split: option.split node.split)
  then show ?thesis by (simp add: ws_list_dir_def Inr)
qed (simp add: ws_list_dir_def)

interpretation jailed: same_files "tool_fs lossy (Some root)" "\<lambda>d d'. no_way_out root d \<and> inside_same root d d'"
  for lossy root
proof
  fix d d' :: disk and p c
  assume a: "no_way_out root d \<and> inside_same root d d'"
  note same = ws_read_same [OF a [THEN conjunct1] a [THEN conjunct2]]
    ws_list_same [OF a [THEN conjunct1] a [THEN conjunct2]] ws_write_same [OF a [THEN conjunct1] a [THEN conjunct2]]
  show "hf_read (tool_fs lossy (Some root)) p d = hf_read (tool_fs lossy (Some root)) p d'"
    "hf_list (tool_fs lossy (Some root)) p d = hf_list (tool_fs lossy (Some root)) p d'"
    "fst (hf_write (tool_fs lossy (Some root)) p c d) = fst (hf_write (tool_fs lossy (Some root)) p c d')"
    "no_way_out root (snd (hf_write (tool_fs lossy (Some root)) p c d)) \<and>
      inside_same root (snd (hf_write (tool_fs lossy (Some root)) p c d))
        (snd (hf_write (tool_fs lossy (Some root)) p c d'))"
    using same by (simp_all add: tool_fs_def with_workspace_def case_prod_beta)
qed

text \<open>C30 (file_tools_jailed): The file tools are jailed. What they do and answer depends on nothing of the disk
  that is outside the workspace, and nothing outside it is changed: on two disks that agree under the root, the same
  call gets the same answer and leaves disks that agree there, each with the rest as it was. That is so as long as no
  link under the root leads out of it; without a workspace every call is refused.\<close>

definition jailed_run :: "path \<Rightarrow> (disk \<Rightarrow> (tool_error + string) \<times> disk) \<Rightarrow> disk \<Rightarrow> disk \<Rightarrow> bool" where
  "jailed_run root call d d' \<longleftrightarrow>
     fst (call d) = fst (call d') \<and> inside_same root (snd (call d)) (snd (call d')) \<and>
     outside_kept root d (snd (call d)) \<and> outside_kept root d' (snd (call d'))"

theorem file_tools_jailed:
  assumes "inside_same root d d'" "no_way_out root d"
  shows "jailed_run root (fs_invoke parse (tool_fs lossy (Some root)) arguments) d d' \<and>
    jailed_run root (edit_invoke parse (tool_fs lossy (Some root)) arguments) d d' \<and>
    jailed_run root (find_invoke parse (tool_fs lossy (Some root)) arguments) d d'"
proof -
  let ?fs = "tool_fs lossy (Some root)"
  have self: "outside_kept root d d" "outside_kept root d' d'" "no_way_out root d'"
    using assms by (auto simp: outside_kept_def inside_same_def no_way_out_def)
  have "find_invoke parse ?fs arguments d = (fst (find_invoke parse ?fs arguments d'), d)"
       "find_invoke parse ?fs arguments d' = (fst (find_invoke parse ?fs arguments d'), d')"
    using jailed.list_same [OF conjI [OF assms(2,1)]]
    by (auto simp: find_invoke_def Let_def split: sum.split option.split)
  then show ?thesis
    using assms self jailed.fs_invoke_same [OF conjI [OF assms(2,1)]] jailed.edit_invoke_same [OF conjI [OF assms(2,1)]]
      jailed.fs_invoke_keeps [OF conjI [OF assms(2) self(1)]] jailed.edit_invoke_keeps [OF conjI [OF assms(2) self(1)]]
      jailed.fs_invoke_keeps [OF conjI [OF self(3,2)]] jailed.edit_invoke_keeps [OF conjI [OF self(3,2)]]
    unfolding jailed_run_def by (metis fst_conv snd_conv)
qed

definition small_disk :: "(path \<times> node) list \<Rightarrow> disk" where
  "small_disk ns =
     \<lparr>dk_nodes = [([], NDir), ([''ws''], NDir)] @ ns, dk_refused = (\<lambda>_. False), dk_follow = (\<lambda>p. p)\<rparr>"

definition write_call :: parser where
  "write_call a = Inr (JObj [(''op'', JStr ''write''), (''path'', JStr ''d/../f''), (''contents'', JStr ''x'')])"

lemma upto_one: "n \<le> Suc 0 \<Longrightarrow> n = 0 \<or> n = 1" by auto

theorem file_tools_jailed_witness:
  "jailed_run [''ws''] (fs_invoke write_call (tool_fs (\<lambda>n. n) (Some [''ws''])) ''{}'')
      (small_disk [([''etc''], NFile ''a'')]) (small_disk []) \<and>
    node_at (snd (fs_invoke write_call (tool_fs (\<lambda>n. n) (Some [''ws''])) ''{}'' (small_disk []))) [''ws'', ''f''] =
      Some (NFile ''x'')"
proof
  have "inside_same [''ws''] (small_disk [([''etc''], NFile ''a'')]) (small_disk [])"
       "no_way_out [''ws''] (small_disk [([''etc''], NFile ''a'')])"
    by (auto simp: inside_same_def no_way_out_def rooted_def small_disk_def dest!: upto_one)
  from file_tools_jailed [OF this]
  show "jailed_run [''ws''] (fs_invoke write_call (tool_fs (\<lambda>n. n) (Some [''ws''])) ''{}'')
      (small_disk [([''etc''], NFile ''a'')]) (small_disk [])" by blast
qed code_simp

text \<open>A link inside the workspace is followed: a write to a path under the root lands outside
  it, and a read comes from there.\<close>

definition linked_disk :: disk where
  "linked_disk = (small_disk [([''home''], NDir), ([''home'', ''key''], NFile ''s'')])
     \<lparr>dk_follow := (\<lambda>p. if take 2 p = [''ws'', ''link''] then ''home'' # drop 2 p else p)\<rparr>"

theorem link_escapes_workspace:
  "ws_read [''ws''] ''link/key'' linked_disk = Inr ''s'' \<and>
   (case ws_write [''ws''] ''link/key'' ''t'' linked_disk of
      (r, d) \<Rightarrow> r = Inr () \<and> node_at d [''home'', ''key''] = Some (NFile ''t''))"
  by code_simp

text \<open>A write that succeeds is what the next read of the path gives, and it changes no other
  file.\<close>

lemma make_dirs_files:
  "node_at d q = Some (NFile c) \<Longrightarrow> node_at (snd (make_dirs ps d)) q = Some (NFile c)"
proof (induction ps arbitrary: d)
  case (Cons p ps)
  then show ?case by (auto simp: Let_def intro!: Cons.IH split: option.split node.split)
qed simp

lemma make_dirs_follow: "dk_follow (snd (make_dirs ps d)) = dk_follow d \<and> dk_refused (snd (make_dirs ps d)) = dk_refused d"
  by (induction ps arbitrary: d) (auto simp: Let_def split: option.split node.split)

theorem write_then_read:
  assumes "ws_write root p c d = (Inr (), d')" "valid_utf8 c"
  shows "ws_read root p d' = Inr c \<and>
    (\<forall>full q b. ws_resolve root p = Inr full \<longrightarrow> q \<noteq> dk_follow d full \<longrightarrow> node_at d q = Some (NFile b) \<longrightarrow>
      node_at d' q = Some (NFile b))"
proof -
  obtain full where full: "ws_resolve root p = Inr full"
    using assms(1) by (cases "ws_resolve root p") (auto simp: ws_write_def)
  obtain d1 where d1: "make_parent full d = (True, d1)" "write_file full c d1 = (True, d')"
    using assms(1) by (cases "make_parent full d"; cases "write_file full c (snd (make_parent full d))")
      (auto simp: ws_write_cases [OF full] Let_def split: if_splits)
  have f: "dk_follow d1 = dk_follow d \<and> dk_refused d1 = dk_refused d \<and>
      (\<forall>q b. node_at d q = Some (NFile b) \<longrightarrow> node_at d1 q = Some (NFile b))"
    using d1(1) make_dirs_follow [of "above (butlast full) @ [butlast full]" d]
      make_dirs_files [of d _ _ "above (butlast full) @ [butlast full]"]
    by (auto simp: make_parent_def create_dir_all_def split: if_splits)
  then show ?thesis
    using d1(2) full assms(2)
    by (auto simp: write_file_def ws_read_def read_to_string_def Let_def split: if_splits)
qed

theorem write_then_read_witness:
  "ws_read [''ws''] ''d/f'' (snd (ws_write [''ws''] ''d/f'' ''x'' (small_disk []))) = Inr ''x''"
proof -
  have "ws_write [''ws''] ''d/f'' ''x'' (small_disk []) = (Inr (), snd (ws_write [''ws''] ''d/f'' ''x'' (small_disk [])))"
    by (simp add: small_disk_def ws_write_def ws_resolve_def path_parts_def is_absolute_def starts_with_def
        make_parent_def create_dir_all_def above_def write_file_def put_node_def Let_def)
  from write_then_read [OF this] show ?thesis by (simp add: byte_in_def)
qed

end
