(* ===== verification/Processes.thy ===== *)
theory Processes
  imports HostFs ProcessTools
begin

text \<open>
  Running commands for a guest: the sandbox policy (\<open>host/wasm/src/sandbox.rs\<close>), the runner and the long-lived
  children (\<open>host_process.rs\<close>), how boot builds the runner (\<open>lib.rs\<close>, \<open>open_process_runner\<close>) and what a tool sees of it
  (\<open>tool_host.rs\<close>). The operating system is a parameter: its environment, making a directory, running a command to
  its end, starting one that stays. The Seatbelt and Landlock backends are parameters: a name and a \<open>confine\<close>. The
  reader thread of a child is the step \<open>child_prints\<close>; log lines are not modelled.
\<close>

section \<open>The sandbox policy\<close>

datatype sandbox_mode = OsMode | ApprovalOnly

record sandbox_policy =
  sp_mode :: sandbox_mode
  sp_writable :: "path list"
  sp_network :: bool
  sp_require :: bool

datatype sandbox_config_error =
    UnknownMode string | WritableNotAList | WritableOutsideWorkspace string fs_error

definition DEFAULT_WRITABLE :: string where "DEFAULT_WRITABLE = ''.''"

definition sandbox_flag :: "json option \<Rightarrow> string \<Rightarrow> bool" where
  "sandbox_flag sandbox name = (Option.bind sandbox (get_bool name) = Some True)"

definition requested_mode :: "json option \<Rightarrow> sandbox_config_error + sandbox_mode" where
  "requested_mode sandbox =
     (case Option.bind sandbox (get_str ''mode'') of
        None \<Rightarrow> Inr OsMode
      | Some m \<Rightarrow>
          (if m = ''os'' then Inr OsMode
           else if m = ''approval-only'' then Inr ApprovalOnly
           else Inl (UnknownMode m)))"

definition requested_writable :: "json option \<Rightarrow> sandbox_config_error + string list" where
  "requested_writable sandbox =
     (case Option.bind sandbox (jget ''writable'') of
        None \<Rightarrow> Inr [DEFAULT_WRITABLE]
      | Some (JArr items) \<Rightarrow> collect_ok (map (\<lambda>v. ok_or WritableNotAList (as_str v)) items)
      | Some _ \<Rightarrow> Inl WritableNotAList)"

definition sandbox_from_config :: "json option \<Rightarrow> path \<Rightarrow> sandbox_config_error + sandbox_policy" where
  "sandbox_from_config execution root =
     (let sandbox = Option.bind execution (jget ''sandbox'')
      in try_then (requested_mode sandbox) (\<lambda>mode.
         try_then (requested_writable sandbox) (\<lambda>entries.
         map_ok
           (\<lambda>writable. \<lparr>sp_mode = mode, sp_writable = writable, sp_network = sandbox_flag sandbox ''network'',
              sp_require = sandbox_flag sandbox ''require''\<rparr>)
           (collect_ok (map (\<lambda>e. map_err (WritableOutsideWorkspace e) (ws_resolve root e)) entries)))))"

record effective_sandbox =
  es_mode :: sandbox_mode
  es_downgrade :: "string option"

definition downgrade_text :: "string \<Rightarrow> string" where
  "downgrade_text absence = bquote ''execution.sandbox.mode: os'' @ '' was requested, but '' @ absence @ '' '' @
     em_dash @ '' a command is confined only by the confirmation prompt''"

definition policy_resolve :: "string \<Rightarrow> sandbox_policy \<Rightarrow> bool \<Rightarrow> effective_sandbox" where
  "policy_resolve absence p backend =
     (case sp_mode p of
        ApprovalOnly \<Rightarrow> \<lparr>es_mode = ApprovalOnly, es_downgrade = None\<rparr>
      | OsMode \<Rightarrow>
          (if backend then \<lparr>es_mode = OsMode, es_downgrade = None\<rparr>
           else \<lparr>es_mode = ApprovalOnly, es_downgrade = Some (downgrade_text absence)\<rparr>))"

definition permits_execution :: "sandbox_policy \<Rightarrow> effective_sandbox \<Rightarrow> bool" where
  "permits_execution p e \<longleftrightarrow> \<not> (sp_require p \<and> es_mode e \<noteq> OsMode)"

definition sandbox_refusal :: "string \<Rightarrow> sandbox_policy \<Rightarrow> effective_sandbox \<Rightarrow> string option" where
  "sandbox_refusal os_name p e =
     (if permits_execution p e then None
      else Some (case sp_mode p of
        OsMode \<Rightarrow> bquote ''execution.sandbox.require: true'' @ '' demands an OS sandbox and this build has none for '' @
          os_name @ '' '' @ em_dash @ '' host-process is denied and no command will run. Set '' @
          bquote ''require: false'' @ '' to accept approval-only instead.''
      | ApprovalOnly \<Rightarrow> bquote ''execution.sandbox.require: true'' @ '' cannot be satisfied by '' @
          bquote ''mode: approval-only'' @ '' '' @ em_dash @
          '' the two ask for opposite things. host-process is denied and no command will run.''))"

section \<open>The runner\<close>

definition BASE_ENV :: "string list" where
  "BASE_ENV = [''PATH'', ''HOME'', ''CARGO_HOME'', ''RUSTUP_HOME'', ''TMPDIR'', ''LANG'', ''LC_ALL'', ''LC_CTYPE'']"

record long_lived =
  ll_name :: string
  ll_command :: string
  ll_args :: "string list"

type_synonym command = "string \<times> string list"

record confinement =
  cn_confine :: "command \<Rightarrow> sandbox_policy \<Rightarrow> string + command"
  cn_policy :: sandbox_policy

record process_runner =
  rn_workspace :: "path option"
  rn_timeout :: nat
  rn_cap :: nat
  rn_passthrough :: "string list"
  rn_confinement :: "confinement option"
  rn_long_lived :: "long_lived list"

text \<open>What is handed to the operating system to start, and how a command it ran to the end came out.\<close>

record launch =
  ln_command :: command
  ln_dir :: path
  ln_env :: "(string \<times> string) list"

datatype child_end = CouldNotStart | Overran | Lost | Ended "int option" string string

record 'w os =
  os_env :: "string \<Rightarrow> string option"
  os_make_dir :: "path \<Rightarrow> 'w \<Rightarrow> bool \<times> 'w"
  os_run :: "launch \<Rightarrow> string option \<Rightarrow> nat \<Rightarrow> 'w \<Rightarrow> child_end \<times> 'w"
  os_start :: "launch \<Rightarrow> 'w \<Rightarrow> bool \<times> 'w"
  os_write :: "u32 \<Rightarrow> string \<Rightarrow> 'w \<Rightarrow> bool \<times> 'w"

definition runner_disabled :: process_runner where
  "runner_disabled =
     \<lparr>rn_workspace = None, rn_timeout = 0, rn_cap = 0, rn_passthrough = [], rn_confinement = None,
      rn_long_lived = []\<rparr>"

definition runner_new :: "path \<Rightarrow> nat \<Rightarrow> nat \<Rightarrow> process_runner" where
  "runner_new root timeout cap =
     \<lparr>rn_workspace = Some root, rn_timeout = timeout, rn_cap = cap, rn_passthrough = [], rn_confinement = None,
      rn_long_lived = []\<rparr>"

definition long_lived_names :: "process_runner \<Rightarrow> string list" where
  "long_lived_names r = map ll_name (rn_long_lived r)"

definition long_lived_grant :: "process_runner \<Rightarrow> string \<Rightarrow> long_lived option" where
  "long_lived_grant r name = List.find (\<lambda>c. ll_name c = name) (rn_long_lived r)"

definition path_text :: "path \<Rightarrow> string" where
  "path_text p = (if p = [] then ''/'' else concat (map (\<lambda>c. CHR ''/'' # c) p))"

definition scratch_dir :: "'w os \<Rightarrow> process_runner \<Rightarrow> 'w \<Rightarrow> string option \<times> 'w" where
  "scratch_dir os r w =
     (case rn_workspace r of
        None \<Rightarrow> (None, w)
      | Some root \<Rightarrow>
          (let p = root @ [''.jan-klod'', ''tmp'']
           in case os_make_dir os p w of
                (False, w1) \<Rightarrow> (None, w1)
              | (True, w1) \<Rightarrow> (if valid_utf8 (path_text p) then Some (path_text p) else None, w1)))"

definition inherited :: "'w os \<Rightarrow> string list \<Rightarrow> (string \<times> string) list" where
  "inherited os names = List.map_filter (\<lambda>n. map_option (Pair n) (os_env os n)) names"

definition child_environment :: "'w os \<Rightarrow> process_runner \<Rightarrow> 'w \<Rightarrow> (string \<times> string) list \<times> 'w" where
  "child_environment os r w =
     (let out = inherited os BASE_ENV @ inherited os (rn_passthrough r)
      in case scratch_dir os r w of
           (scratch, w1) \<Rightarrow>
             ((case scratch of
                 None \<Rightarrow> out
               | Some dir \<Rightarrow> filter (\<lambda>(n, _). n \<noteq> ''TMPDIR'') out @ [(''TMPDIR'', dir)]) @
              [(''NO_COLOR'', ''1'')], w1))"

definition prepared ::
  "'w os \<Rightarrow> process_runner \<Rightarrow> command \<Rightarrow> path \<Rightarrow> 'w \<Rightarrow> (proc_error + launch) \<times> 'w" where
  "prepared os r cmd dir w =
     (case (case rn_confinement r of
              None \<Rightarrow> Inr cmd
            | Some c \<Rightarrow> cn_confine c cmd (cn_policy c)) of
        Inl _ \<Rightarrow> (Inl ProcDenied, w)
      | Inr spawnable \<Rightarrow>
          (case child_environment os r w of
             (env, w1) \<Rightarrow> (Inr \<lparr>ln_command = spawnable, ln_dir = dir, ln_env = env\<rparr>, w1)))"

definition read_capped :: "(string \<Rightarrow> string) \<Rightarrow> nat \<Rightarrow> string \<Rightarrow> string" where
  "read_capped lossy cap bytes =
     (let buf = take (cap + 1) bytes
      in lossy (take cap buf) @ (if cap < length buf then ellipsis @ ''[truncated]'' else []))"

definition runner_exec ::
  "(string \<Rightarrow> string) \<Rightarrow> 'w os \<Rightarrow> process_runner \<Rightarrow> string \<Rightarrow> string list \<Rightarrow> string option \<Rightarrow> string option \<Rightarrow> 'w
     \<Rightarrow> (proc_error + proc_exit) \<times> 'w" where
  "runner_exec lossy os r cmd args cwd stdin w =
     (case rn_workspace r of
        None \<Rightarrow> (Inl ProcDenied, w)
      | Some root \<Rightarrow>
          (case (case cwd of None \<Rightarrow> Inr root | Some rel \<Rightarrow> ws_resolve root rel) of
             Inl _ \<Rightarrow> (Inl ProcDenied, w)
           | Inr dir \<Rightarrow>
               (case prepared os r (cmd, args) dir w of
                  (Inl e, w1) \<Rightarrow> (Inl e, w1)
                | (Inr l, w1) \<Rightarrow>
                    (case os_run os l stdin (rn_timeout r) w1 of
                       (CouldNotStart, w2) \<Rightarrow> (Inl SpawnFailed, w2)
                     | (Lost, w2) \<Rightarrow> (Inl SpawnFailed, w2)
                     | (Overran, w2) \<Rightarrow> (Inl ProcTimeout, w2)
                     | (Ended code out err, w2) \<Rightarrow>
                         (Inr \<lparr>ex_code = (case code of Some c \<Rightarrow> c | None \<Rightarrow> - 1),
                               ex_stdout = read_capped lossy (rn_cap r) out,
                               ex_stderr = read_capped lossy (rn_cap r) err\<rparr>, w2)))))"

section \<open>Long-lived children\<close>

record live_child =
  lc_unread :: string
  lc_cap :: nat
  lc_name :: string
  lc_running :: bool

definition live_new :: "nat \<Rightarrow> string \<Rightarrow> live_child" where
  "live_new cap name = \<lparr>lc_unread = [], lc_cap = cap, lc_name = name, lc_running = True\<rparr>"

definition spawn_long_lived ::
  "'w os \<Rightarrow> process_runner \<Rightarrow> string \<Rightarrow> 'w \<Rightarrow> (proc_error + live_child) \<times> 'w" where
  "spawn_long_lived os r name w =
     (case rn_workspace r of
        None \<Rightarrow> (Inl ProcDenied, w)
      | Some root \<Rightarrow>
          (case long_lived_grant r name of
             None \<Rightarrow> (Inl ProcDenied, w)
           | Some g \<Rightarrow>
               (case prepared os r (ll_command g, ll_args g) root w of
                  (Inl e, w1) \<Rightarrow> (Inl e, w1)
                | (Inr l, w1) \<Rightarrow>
                    (case os_start os l w1 of
                       (False, w2) \<Rightarrow> (Inl SpawnFailed, w2)
                     | (True, w2) \<Rightarrow> (Inr (live_new (rn_cap r) name), w2)))))"

text \<open>The reader thread: what the child prints is queued, the oldest beyond the cap dropped.\<close>

definition child_prints :: "string \<Rightarrow> live_child \<Rightarrow> live_child" where
  "child_prints bytes c =
     (let unread = lc_unread c @ bytes in c\<lparr>lc_unread := drop (length unread - lc_cap c) unread\<rparr>)"

text \<open>\<open>read_stdout\<close> once its wait is over, whether something arrived or not.\<close>

definition child_read :: "(string \<Rightarrow> string) \<Rightarrow> nat \<Rightarrow> live_child \<Rightarrow> string \<times> live_child" where
  "child_read lossy max_bytes c =
     (let n = min (min max_bytes (lc_cap c)) (length (lc_unread c))
      in (lossy (take n (lc_unread c)), c\<lparr>lc_unread := drop n (lc_unread c)\<rparr>))"

record children =
  ch_live :: "u32 \<rightharpoonup> live_child"
  ch_next :: u32

definition no_children :: children where
  "no_children = \<lparr>ch_live = Map.empty, ch_next = 0\<rparr>"

definition children_spawn ::
  "'w os \<Rightarrow> process_runner \<Rightarrow> string \<Rightarrow> children \<times> 'w \<Rightarrow> (proc_error + u32) \<times> children \<times> 'w" where
  "children_spawn os r name = (\<lambda>(ch, w).
     case spawn_long_lived os r name w of
       (Inl e, w1) \<Rightarrow> (Inl e, ch, w1)
     | (Inr live, w1) \<Rightarrow>
         (let h = ch_next ch + 1
          in (Inr h, ch\<lparr>ch_next := h, ch_live := (ch_live ch)(h \<mapsto> live)\<rparr>, w1)))"

definition children_read ::
  "(string \<Rightarrow> string) \<Rightarrow> u32 \<Rightarrow> nat \<Rightarrow> children \<Rightarrow> (proc_error + string) \<times> children" where
  "children_read lossy h max_bytes ch =
     (case ch_live ch h of
        None \<Rightarrow> (Inl ProcDenied, ch)
      | Some c \<Rightarrow>
          (case child_read lossy max_bytes c of
             (s, c1) \<Rightarrow> (Inr s, ch\<lparr>ch_live := (ch_live ch)(h \<mapsto> c1)\<rparr>)))"

definition children_write :: "'w os \<Rightarrow> u32 \<Rightarrow> string \<Rightarrow> children \<times> 'w \<Rightarrow> (proc_error + unit) \<times> children \<times> 'w" where
  "children_write os h data = (\<lambda>(ch, w).
     case ch_live ch h of
       None \<Rightarrow> (Inl ProcDenied, ch, w)
     | Some _ \<Rightarrow>
         (case os_write os h data w of
            (True, w1) \<Rightarrow> (Inr (), ch, w1)
          | (False, w1) \<Rightarrow> (Inl SpawnFailed, ch, w1)))"

definition children_is_running :: "u32 \<Rightarrow> children \<Rightarrow> bool" where
  "children_is_running h ch = (case ch_live ch h of None \<Rightarrow> False | Some c \<Rightarrow> lc_running c)"

definition children_exit :: "u32 \<Rightarrow> children \<Rightarrow> children" where
  "children_exit h ch =
     ch\<lparr>ch_live := (ch_live ch)(h := map_option (\<lambda>c. c\<lparr>lc_running := False\<rparr>) (ch_live ch h))\<rparr>"

definition children_kill :: "u32 \<Rightarrow> children \<Rightarrow> children" where
  "children_kill h ch = ch\<lparr>ch_live := (ch_live ch)(h := None)\<rparr>"

definition children_print :: "u32 \<Rightarrow> string \<Rightarrow> children \<Rightarrow> children" where
  "children_print h bytes ch = ch\<lparr>ch_live := (ch_live ch)(h := map_option (child_prints bytes) (ch_live ch h))\<rparr>"

section \<open>How boot builds the runner\<close>

definition long_lived_entry :: "json \<Rightarrow> long_lived option" where
  "long_lived_entry v =
     (case (get_str ''name'' v, get_str ''command'' v) of
        (Some n, Some c) \<Rightarrow>
          Some \<lparr>ll_name = n, ll_command = c,
            ll_args = (case get_array ''args'' v of Some xs \<Rightarrow> List.map_filter as_str xs | None \<Rightarrow> [])\<rparr>
      | _ \<Rightarrow> None)"

definition entries_of :: "string \<Rightarrow> json option \<Rightarrow> json list" where
  "entries_of key exec = (case Option.bind exec (get_array key) of Some xs \<Rightarrow> xs | None \<Rightarrow> [])"

definition number_of :: "string \<Rightarrow> nat \<Rightarrow> json option \<Rightarrow> nat" where
  "number_of key fallback exec = (case Option.bind exec (get_u64 key) of Some n \<Rightarrow> n | None \<Rightarrow> fallback)"

type_synonym backend = "command \<Rightarrow> sandbox_policy \<Rightarrow> string + command"

definition open_process_runner ::
  "string \<Rightarrow> string \<Rightarrow> backend option \<Rightarrow> json \<Rightarrow> path option \<Rightarrow> process_runner" where
  "open_process_runner os_name absence backend agent workspace =
     (let exec = jget ''execution'' agent
      in case (Option.bind exec (get_bool ''enabled''), workspace) of
           (Some True, Some root) \<Rightarrow>
             (case sandbox_from_config exec root of
                Inl _ \<Rightarrow> runner_disabled
              | Inr policy \<Rightarrow>
                  (let effective = policy_resolve absence policy (backend \<noteq> None)
                   in case sandbox_refusal os_name policy effective of
                        Some _ \<Rightarrow> runner_disabled
                      | None \<Rightarrow>
                          (runner_new root (number_of ''timeout-secs'' 30 exec) (number_of ''output-cap'' (64 * 1024) exec))
                            \<lparr>rn_passthrough := List.map_filter as_str (entries_of ''env-passthrough'' exec),
                             rn_long_lived := List.map_filter long_lived_entry (entries_of ''long-lived'' exec),
                             rn_confinement :=
                               (case (es_mode effective, backend) of
                                  (OsMode, Some b) \<Rightarrow> Some \<lparr>cn_confine = b, cn_policy = policy\<rparr>
                                | _ \<Rightarrow> None)\<rparr>))
         | _ \<Rightarrow> runner_disabled)"

section \<open>What a tool sees\<close>

definition tool_process ::
  "(string \<Rightarrow> string) \<Rightarrow> 'w os \<Rightarrow> process_runner \<Rightarrow> (children \<times> 'w) host_process" where
  "tool_process lossy os r =
     \<lparr>hp_exec = (\<lambda>cmd args cwd stdin (ch, w).
        (case runner_exec lossy os r cmd args cwd stdin w of (res, w1) \<Rightarrow> (res, ch, w1))),
      hp_granted = (\<lambda>_. long_lived_names r),
      hp_spawn = (\<lambda>name s. case children_spawn os r name s of (res, s1) \<Rightarrow> (map_ok unat res, s1)),
      hp_write_stdin = (\<lambda>h data s.
        (case children_write os (of_nat h) data s of (res, s1) \<Rightarrow> (\<not> isl res, s1))),
      hp_read_stdout = (\<lambda>h max_bytes timeout (ch, w).
        (case children_read lossy (of_nat h) max_bytes ch of (res, ch1) \<Rightarrow> (ok_of res, ch1, w))),
      hp_is_running = (\<lambda>h (ch, w). children_is_running (of_nat h) ch),
      hp_kill = (\<lambda>h (ch, w). (children_kill (of_nat h) ch, w))\<rparr>"

section \<open>What a process tool keeps\<close>

locale kept_processes =
  fixes hp :: "'w host_process" and P :: "'w \<Rightarrow> bool"
  assumes exec_keeps: "P w \<Longrightarrow> P (snd (hp_exec hp cmd args cwd stdin w))"
    and spawn_keeps: "P w \<Longrightarrow> P (snd (hp_spawn hp name w))"
    and write_keeps: "P w \<Longrightarrow> P (snd (hp_write_stdin hp h s w))"
    and read_keeps: "P w \<Longrightarrow> P (snd (hp_read_stdout hp h m t w))"
    and kill_keeps: "P w \<Longrightarrow> P (hp_kill hp h w)"
begin

lemma git_invoke_keeps: "P w \<Longrightarrow> P (snd (git_invoke parse hp arguments w))"
  using exec_keeps [of w] by (simp add: git_invoke_def case_prod_beta split: sum.split option.split)

lemma shell_invoke_keeps: "P w \<Longrightarrow> P (snd (shell_invoke parse render hp arguments w))"
  using exec_keeps [of w] by (simp add: shell_invoke_def case_prod_beta split: sum.split option.split)

lemma proc_invoke_keeps: "P (snd sw) \<Longrightarrow> P (snd (snd (proc_invoke parse render hp arguments sw)))"
  using spawn_keeps [of "snd sw"] read_keeps [of "snd sw"] kill_keeps [of "snd sw"]
  by (cases sw) (simp add: proc_invoke_def proc_start_def proc_output_def proc_stop_def Let_def case_prod_beta apfst_def
      map_prod_def split: sum.split option.split proc_error.split)

lemma proc_run_keeps: "P (snd sw) \<Longrightarrow> P (snd (proc_run parse render hp calls sw))"
  unfolding proc_run_def by (induction calls arbitrary: sw) (simp_all add: proc_invoke_keeps)

end

section \<open>What is started\<close>

text \<open>The operating system with a note of every command it is asked to start.\<close>

definition noting_os :: "'w os \<Rightarrow> ('w \<times> launch list) os" where
  "noting_os os =
     \<lparr>os_env = os_env os,
      os_make_dir = (\<lambda>p (w, log). case os_make_dir os p w of (b, w1) \<Rightarrow> (b, w1, log)),
      os_run = (\<lambda>l i t (w, log). case os_run os l i t w of (e, w1) \<Rightarrow> (e, w1, log @ [l])),
      os_start = (\<lambda>l (w, log). case os_start os l w of (b, w1) \<Rightarrow> (b, w1, log @ [l])),
      os_write = (\<lambda>h s (w, log). case os_write os h s w of (b, w1) \<Rightarrow> (b, w1, log))\<rparr>"

definition allowed_env :: "'w os \<Rightarrow> process_runner \<Rightarrow> string \<times> string \<Rightarrow> bool" where
  "allowed_env os r = (\<lambda>(n, v).
     n \<in> {''TMPDIR'', ''NO_COLOR''} \<or>
     (n \<in> set BASE_ENV \<or> n \<in> set (rn_passthrough r)) \<and> os_env os n = Some v)"

definition permitted_launch :: "'w os \<Rightarrow> process_runner \<Rightarrow> launch \<Rightarrow> bool" where
  "permitted_launch os r l \<longleftrightarrow>
     (case rn_confinement r of
        None \<Rightarrow> True
      | Some c \<Rightarrow> (\<exists>cmd. cn_confine c cmd (cn_policy c) = Inr (ln_command l))) \<and>
     (\<exists>root. rn_workspace r = Some root \<and> prefix root (ln_dir l)) \<and>
     list_all (allowed_env os r) (ln_env l)"

lemma inherited_allowed: "set names \<subseteq> set BASE_ENV \<union> set (rn_passthrough r) \<Longrightarrow>
    list_all (allowed_env os r) (inherited os names)"
  by (auto simp: inherited_def allowed_env_def list_all_iff map_filter_def)

lemma child_environment_allowed: "list_all (allowed_env os r) (fst (child_environment (noting_os os) r w))"
proof -
  have "inherited (noting_os os) names = inherited os names" for names
    by (simp add: inherited_def noting_os_def)
  moreover have "list_all (allowed_env os r) (inherited os BASE_ENV @ inherited os (rn_passthrough r))"
    using inherited_allowed [of BASE_ENV r os] inherited_allowed [of "rn_passthrough r" r os] by simp
  ultimately show ?thesis
    by (auto simp: child_environment_def Let_def list_all_iff allowed_env_def case_prod_beta split: option.split)
qed

lemma scratch_log: "snd (snd (child_environment (noting_os os) r w)) = snd w"
  by (cases w) (auto simp: child_environment_def scratch_dir_def noting_os_def Let_def split: option.split prod.split bool.split)

lemma prepared_permitted:
  assumes "prepared (noting_os os) r cmd dir w = (Inr l, w1)" "rn_workspace r = Some root" "prefix root dir"
  shows "permitted_launch os r l \<and> snd w1 = snd w"
  using assms child_environment_allowed [of os r w] scratch_log [of os r w]
  by (cases cmd; cases "rn_confinement r")
    (auto simp: prepared_def permitted_launch_def case_prod_beta split: sum.splits, blast)

lemma prepared_log: "snd (snd (prepared (noting_os os) r cmd dir w)) = snd w"
  using scratch_log [of os r w] by (auto simp: prepared_def case_prod_beta split: sum.split)

definition launches_ok :: "'w os \<Rightarrow> process_runner \<Rightarrow> 'w \<times> launch list \<Rightarrow> bool" where
  "launches_ok os r w \<longleftrightarrow> list_all (permitted_launch os r) (snd w)"

lemma exec_launches:
  assumes "launches_ok os r w"
  shows "launches_ok os r (snd (runner_exec lossy (noting_os os) r cmd args cwd stdin w))"
proof (cases "rn_workspace r")
  case (Some root)
  show ?thesis
  proof (cases "case cwd of None \<Rightarrow> Inr root | Some rel \<Rightarrow> ws_resolve root rel")
    case (Inr dir)
    then have inside: "prefix root dir" using ws_resolve_inside by (auto split: option.splits)
    obtain res w1 where p: "prepared (noting_os os) r (cmd, args) dir w = (res, w1)" by (metis surj_pair)
    obtain v log where w1: "w1 = (v, log)" by fastforce
    have log: "log = snd w" using prepared_log [of os r "(cmd, args)" dir w] p w1 by simp
    show ?thesis
    proof (cases res)
      case (Inr l)
      then have "permitted_launch os r l" using prepared_permitted p Some inside by blast
      then show ?thesis
        using assms Some \<open>_ = Inr dir\<close> p w1 Inr log
        by (simp add: runner_exec_def noting_os_def launches_ok_def case_prod_beta split: child_end.split)
    qed (use assms Some Inr p w1 log in \<open>simp add: runner_exec_def launches_ok_def\<close>)
  qed (use assms Some in \<open>simp add: runner_exec_def\<close>)
qed (use assms in \<open>simp add: runner_exec_def\<close>)

lemma spawn_launches:
  assumes "launches_ok os r w"
  shows "launches_ok os r (snd (spawn_long_lived (noting_os os) r name w))"
proof (cases "rn_workspace r")
  case (Some root)
  show ?thesis
  proof (cases "long_lived_grant r name")
    case (Some g)
    let ?cmd = "(ll_command g, ll_args g)"
    obtain res w1 where p: "prepared (noting_os os) r ?cmd root w = (res, w1)" by (metis surj_pair)
    obtain v log where w1: "w1 = (v, log)" by fastforce
    have log: "log = snd w" using prepared_log [of os r ?cmd root w] p w1 by simp
    show ?thesis
    proof (cases res)
      case (Inr l)
      then have "permitted_launch os r l" using prepared_permitted p \<open>rn_workspace r = Some root\<close> by blast
      then show ?thesis
        using assms Some \<open>rn_workspace r = Some root\<close> p w1 Inr log
        by (simp add: spawn_long_lived_def noting_os_def launches_ok_def case_prod_beta split: bool.split)
    qed (use assms Some \<open>rn_workspace r = Some root\<close> p w1 log in \<open>simp add: spawn_long_lived_def launches_ok_def\<close>)
  qed (use assms Some in \<open>simp add: spawn_long_lived_def\<close>)
qed (use assms in \<open>simp add: spawn_long_lived_def\<close>)

lemma children_spawn_world:
  "snd (snd (children_spawn os r name (ch, w))) = snd (spawn_long_lived os r name w)"
  by (simp add: children_spawn_def Let_def case_prod_beta split: sum.split)

interpretation launching: kept_processes "tool_process lossy (noting_os os) r" "\<lambda>cw. launches_ok os r (snd cw)"
  for lossy os r
proof
  fix cw :: "children \<times> 'a \<times> launch list" and cmd args cwd stdin name h m t s
  assume "launches_ok os r (snd cw)"
  then obtain ch w where cw: "cw = (ch, w)" "launches_ok os r w" by (cases cw) auto
  show "launches_ok os r (snd (snd (hp_exec (tool_process lossy (noting_os os) r) cmd args cwd stdin cw)))"
    using cw exec_launches [of os r w lossy cmd args cwd stdin] by (simp add: tool_process_def case_prod_beta)
  show "launches_ok os r (snd (snd (hp_spawn (tool_process lossy (noting_os os) r) name cw)))"
    using cw spawn_launches [of os r w name] children_spawn_world [of "noting_os os" r name ch w]
    by (simp add: tool_process_def case_prod_beta)
  show "launches_ok os r (snd (snd (hp_write_stdin (tool_process lossy (noting_os os) r) h s cw)))"
    using cw by (auto simp: tool_process_def children_write_def noting_os_def launches_ok_def case_prod_beta
        split: option.split bool.split)
  show "launches_ok os r (snd (snd (hp_read_stdout (tool_process lossy (noting_os os) r) h m t cw)))"
    "launches_ok os r (snd (hp_kill (tool_process lossy (noting_os os) r) h cw))"
    using cw by (simp_all add: tool_process_def case_prod_beta)
qed

section \<open>Properties\<close>

text \<open>C31 (required_sandbox_confines): What an operator requires holds of every command started: with
  \<open>execution.sandbox.require: true\<close> nothing the git, shell and process tools are asked is started but as the backend
  confined it under the configured policy, in a directory of the workspace, with no variable of the host's environment
  beyond the listed ones; without a backend nothing is started at all.\<close>

definition started_by_tools ::
  "parser \<Rightarrow> printer \<Rightarrow> (string \<Rightarrow> string) \<Rightarrow> 'w os \<Rightarrow> process_runner \<Rightarrow> string list \<Rightarrow> string list \<Rightarrow> string list
     \<Rightarrow> 'w \<Rightarrow> launch list" where
  "started_by_tools parse render lossy os r git_calls shell_calls proc_calls w =
     (let hp = tool_process lossy (noting_os os) r;
          s1 = fold (\<lambda>a s. snd (git_invoke parse hp a s)) git_calls (no_children, w, []);
          s2 = fold (\<lambda>a s. snd (shell_invoke parse render hp a s)) shell_calls s1
      in snd (snd (snd (proc_run parse render hp proc_calls ([], s2)))))"

lemma fold_keeps: "P s \<Longrightarrow> (\<And>a s. P s \<Longrightarrow> P (f a s)) \<Longrightarrow> P (fold f xs s)"
  by (induction xs arbitrary: s) auto

lemma tools_launch_permitted:
  "list_all (permitted_launch os r) (started_by_tools parse render lossy os r gs ss ps w)"
proof -
  let ?hp = "tool_process lossy (noting_os os) r"
  let ?P = "\<lambda>cw :: children \<times> 'a \<times> launch list. launches_ok os r (snd cw)"
  let ?s1 = "fold (\<lambda>a s. snd (git_invoke parse ?hp a s)) gs (no_children, w, [])"
  let ?s2 = "fold (\<lambda>a s. snd (shell_invoke parse render ?hp a s)) ss ?s1"
  have "?P ?s1"
    by (rule fold_keeps [where P = ?P]) (simp_all add: launches_ok_def launching.git_invoke_keeps [unfolded launches_ok_def])
  then have "?P ?s2"
    by (rule fold_keeps [where P = ?P]) (simp add: launching.shell_invoke_keeps)
  then have "?P (snd (proc_run parse render ?hp ps ([], ?s2)))"
    by (intro launching.proc_run_keeps) simp
  then show ?thesis by (simp add: started_by_tools_def Let_def launches_ok_def case_prod_beta)
qed

lemma disabled_starts_nothing:
  "rn_workspace r = None \<Longrightarrow> started_by_tools parse render lossy os r gs ss ps w = []"
  using tools_launch_permitted [of os r parse render lossy gs ss ps w]
  by (cases "started_by_tools parse render lossy os r gs ss ps w") (auto simp: permitted_launch_def)

lemma no_workspace: "rn_workspace (open_process_runner os_name absence backend agent None) = None"
  by (simp add: open_process_runner_def runner_disabled_def Let_def split: option.split bool.split)

lemma required_runner:
  assumes "sandbox_flag (Option.bind (jget ''execution'' agent) (jget ''sandbox'')) ''require''"
    and r: "r = open_process_runner os_name absence backend agent workspace"
  shows "rn_workspace r = None \<or> (\<exists>root policy b. workspace = Some root \<and> backend = Some b \<and>
    sandbox_from_config (jget ''execution'' agent) root = Inr policy \<and> sp_mode policy = OsMode \<and>
    rn_confinement r = Some \<lparr>cn_confine = b, cn_policy = policy\<rparr>)"
proof (cases "rn_workspace r = None")
  case False
  let ?exec = "jget ''execution'' agent"
  obtain root where root: "workspace = Some root"
    using False r no_workspace by (cases workspace) auto
  have en: "Option.bind ?exec (get_bool ''enabled'') = Some True"
    using False r by (cases "Option.bind ?exec (get_bool ''enabled'')" rule: option.exhaust)
      (auto simp: open_process_runner_def runner_disabled_def Let_def split: bool.splits)
  obtain policy where p: "sandbox_from_config ?exec root = Inr policy"
    using False r root en by (cases "sandbox_from_config ?exec root")
      (auto simp: open_process_runner_def runner_disabled_def Let_def)
  have req: "sp_require policy"
    using p assms(1) by (auto simp: sandbox_from_config_def Let_def try_then_eq_Inr map_ok_eq_Inr)
  have ok: "sandbox_refusal os_name policy (policy_resolve absence policy (backend \<noteq> None)) = None"
    using False r root en p by (auto simp: open_process_runner_def runner_disabled_def Let_def split: option.splits)
  then have os: "sp_mode policy = OsMode" "backend \<noteq> None"
    using req by (auto simp: sandbox_refusal_def permits_execution_def policy_resolve_def
        split: if_splits sandbox_mode.splits)
  then obtain b where b: "backend = Some b" by blast
  have "rn_confinement r = Some \<lparr>cn_confine = b, cn_policy = policy\<rparr>"
    using r root en p ok os b by (simp add: open_process_runner_def Let_def policy_resolve_def)
  with root b p os show ?thesis by blast
qed simp

theorem required_sandbox_confines:
  assumes "sandbox_flag (Option.bind (jget ''execution'' agent) (jget ''sandbox'')) ''require''"
    and "r = open_process_runner os_name absence backend agent workspace"
    and "l \<in> set (started_by_tools parse render lossy os r gs ss ps w)"
  shows "\<exists>root policy b cmd. workspace = Some root \<and> backend = Some b \<and>
    sandbox_from_config (jget ''execution'' agent) root = Inr policy \<and> sp_mode policy = OsMode \<and>
    b cmd policy = Inr (ln_command l) \<and> prefix root (ln_dir l) \<and> list_all (allowed_env os r) (ln_env l)"
proof -
  have l: "permitted_launch os r l"
    using tools_launch_permitted [of os r] assms(3) unfolding list_all_iff by blast
  have "rn_workspace r \<noteq> None"
    using disabled_starts_nothing [of r parse render lossy os gs ss ps w] assms(3) by (metis empty_iff list.set(1))
  then obtain root policy b where c: "workspace = Some root" "backend = Some b"
      "sandbox_from_config (jget ''execution'' agent) root = Inr policy" "sp_mode policy = OsMode"
      "rn_confinement r = Some \<lparr>cn_confine = b, cn_policy = policy\<rparr>"
    using required_runner [OF assms(1,2)] by auto
  moreover have "rn_workspace r = Some root"
    using assms(2) c(1) \<open>rn_workspace r \<noteq> None\<close>
    by (auto simp: open_process_runner_def runner_disabled_def runner_new_def Let_def split: option.splits sum.splits bool.splits)
  ultimately show ?thesis using l by (auto simp: permitted_launch_def intro!: exI [of _ root])
qed

definition strict_agent :: json where
  "strict_agent = JObj [(''execution'', JObj [(''enabled'', JBool True),
     (''sandbox'', JObj [(''require'', JBool True)])])]"

definition wrapping :: backend where
  "wrapping cmd p = Inr (''sandbox-exec'', fst cmd # snd cmd)"

definition quiet_os :: "nat os" where
  "quiet_os = \<lparr>os_env = (\<lambda>_. None), os_make_dir = (\<lambda>_ w. (False, w)),
     os_run = (\<lambda>_ _ _ w. (Ended (Some 0) [] [], w)), os_start = (\<lambda>_ w. (True, w)),
     os_write = (\<lambda>_ _ w. (True, w))\<rparr>"

definition ls_call :: parser where
  "ls_call _ = Inr (JObj [(''command'', JStr ''ls'')])"

theorem required_sandbox_confines_witness:
  "\<exists>l. started_by_tools ls_call (\<lambda>_. []) (\<lambda>s. s) quiet_os
      (open_process_runner ''linux'' ''none'' (Some wrapping) strict_agent (Some [''ws''])) [] [''{}''] [] 0 = [l] \<and>
    ln_command l = (''sandbox-exec'', [''ls'']) \<and> prefix [''ws''] (ln_dir l)"
proof -
  let ?r = "open_process_runner ''linux'' ''none'' (Some wrapping) strict_agent (Some [''ws''])"
  let ?p = "\<lparr>sp_mode = OsMode, sp_writable = [[''ws'']], sp_network = False, sp_require = True\<rparr>"
  have pol: "sandbox_from_config (jget ''execution'' strict_agent) [''ws''] = Inr ?p"
    by (simp add: sandbox_from_config_def strict_agent_def requested_mode_def requested_writable_def sandbox_flag_def
        json_simps DEFAULT_WRITABLE_def ws_resolve_def path_parts_def is_absolute_def starts_with_def Let_def)
  have enabled: "Option.bind (jget ''execution'' strict_agent) (get_bool ''enabled'') = Some True"
    by (simp add: strict_agent_def json_simps)
  from pol have r: "?r = (runner_new [''ws''] 30 (64 * 1024))\<lparr>rn_confinement := Some \<lparr>cn_confine = wrapping, cn_policy = ?p\<rparr>\<rparr>"
    using enabled
    by (simp add: open_process_runner_def Let_def policy_resolve_def sandbox_refusal_def permits_execution_def)
      (simp add: strict_agent_def json_simps number_of_def entries_of_def runner_new_def)
  have req: "sandbox_flag (Option.bind (jget ''execution'' strict_agent) (jget ''sandbox'')) ''require''"
    by (simp add: strict_agent_def json_simps sandbox_flag_def)
  have "started_by_tools ls_call (\<lambda>_. []) (\<lambda>s. s) quiet_os ?r [] [''{}''] [] 0 =
      [\<lparr>ln_command = (''sandbox-exec'', [''ls'']), ln_dir = [''ws''], ln_env = [(''NO_COLOR'', ''1'')]\<rparr>]" (is "_ = [?l]")
    unfolding r
    by (simp add: started_by_tools_def proc_run_def shell_invoke_def ls_call_def json_simps shell_args_def
        tool_process_def runner_exec_def runner_new_def prepared_def wrapping_def child_environment_def scratch_dir_def
        inherited_def noting_os_def quiet_os_def map_filter_def no_children_def Let_def)
  then show ?thesis
    using required_sandbox_confines [OF req refl, of ?l ls_call "\<lambda>_. []" "\<lambda>s. s" quiet_os "''linux''" "''none''" "Some wrapping"
        "Some [''ws'']" "[]" "[''{}'']" "[]" 0] by auto
qed

text \<open>A \<open>require\<close> that is not a boolean is read as \<open>false\<close>: the command the operator wanted
  confined runs with nothing confining it when there is no backend.\<close>

theorem unreadable_require_loosens:
  "rn_confinement (open_process_runner os_name absence None
      (JObj [(''execution'', JObj [(''enabled'', JBool True), (''sandbox'', JObj [(''require'', JStr ''true'')])])])
      (Some [''ws''])) = None \<and>
   rn_workspace (open_process_runner os_name absence None
      (JObj [(''execution'', JObj [(''enabled'', JBool True), (''sandbox'', JObj [(''require'', JStr ''true'')])])])
      (Some [''ws''])) = Some [''ws'']"
  by (simp add: open_process_runner_def Let_def sandbox_from_config_def requested_mode_def requested_writable_def
      sandbox_flag_def json_simps DEFAULT_WRITABLE_def ws_resolve_def path_parts_def is_absolute_def starts_with_def
      policy_resolve_def sandbox_refusal_def permits_execution_def runner_new_def)

text \<open>A pipe holds so much and no more, and the runner reads only what a command that has ended left: with the
  output cap that boot sets, no output is ever cut, since a command that prints more than a pipe holds never ends.\<close>

definition PIPE_BYTES :: nat where "PIPE_BYTES = 65536"

definition pipes_fill :: "'w os \<Rightarrow> bool" where
  "pipes_fill os \<longleftrightarrow>
     (\<forall>l i t w code out err w1. os_run os l i t w = (Ended code out err, w1) \<longrightarrow>
        length out \<le> PIPE_BYTES \<and> length err \<le> PIPE_BYTES)"

theorem default_cap_never_cuts:
  assumes "pipes_fill os" "PIPE_BYTES \<le> rn_cap r"
    and "runner_exec lossy os r cmd args cwd stdin w = (Inr e, w1)"
  shows "\<exists>out err. ex_stdout e = lossy out \<and> ex_stderr e = lossy err \<and> length out \<le> PIPE_BYTES \<and>
    (\<exists>l w2 code. os_run os l stdin (rn_timeout r) w2 = (Ended code out err, w1))"
proof -
  obtain l w2 code out err where run: "os_run os l stdin (rn_timeout r) w2 = (Ended code out err, w1)"
      and e: "e = \<lparr>ex_code = (case code of Some c \<Rightarrow> c | None \<Rightarrow> - 1),
        ex_stdout = read_capped lossy (rn_cap r) out, ex_stderr = read_capped lossy (rn_cap r) err\<rparr>"
    using assms(3) by (fastforce simp: runner_exec_def split: option.splits sum.splits prod.splits child_end.splits)
  then have "length out \<le> PIPE_BYTES \<and> length err \<le> PIPE_BYTES"
    using assms(1) unfolding pipes_fill_def by metis
  moreover have "read_capped lossy (rn_cap r) out = lossy out" "read_capped lossy (rn_cap r) err = lossy err"
    using calculation assms(2) by (simp_all add: read_capped_def Let_def)
  ultimately show ?thesis
    using run e by (intro exI [of _ out] exI [of _ err] conjI exI [of _ l] exI [of _ w2] exI [of _ code]) simp_all
qed

theorem default_cap_never_cuts_witness:
  "\<exists>e w1. runner_exec (\<lambda>s. s) quiet_os (runner_new [''ws''] 30 (64 * 1024)) ''ls'' [] None None 0 = (Inr e, w1) \<and>
     length (ex_stdout e) \<le> PIPE_BYTES"
proof -
  have run: "runner_exec (\<lambda>s. s) quiet_os (runner_new [''ws''] 30 (64 * 1024)) ''ls'' [] None None 0 =
      (Inr \<lparr>ex_code = 0, ex_stdout = [], ex_stderr = []\<rparr>, 0)"
    by (simp add: runner_exec_def runner_new_def prepared_def child_environment_def scratch_dir_def inherited_def
        quiet_os_def map_filter_def read_capped_def Let_def)
  have "pipes_fill quiet_os" "PIPE_BYTES \<le> rn_cap (runner_new [''ws''] 30 (64 * 1024))"
    by (auto simp: pipes_fill_def quiet_os_def runner_new_def PIPE_BYTES_def)
  from default_cap_never_cuts [OF this run] run show ?thesis by fastforce
qed

section \<open>Handles and output\<close>

datatype child_op = OSpawn string | OKill u32 | ORead u32 nat | OPrint u32 string | OExit u32

text \<open>The handles given out in a run, the newest first.\<close>

fun child_step :: "'w os \<Rightarrow> process_runner \<Rightarrow> child_op \<Rightarrow> u32 list \<times> children \<times> 'w \<Rightarrow> u32 list \<times> children \<times> 'w" where
  "child_step os r (OSpawn name) (hs, s) =
     (case children_spawn os r name s of (Inl _, s1) \<Rightarrow> (hs, s1) | (Inr h, s1) \<Rightarrow> (h # hs, s1))"
| "child_step os r (OKill h) (hs, ch, w) = (hs, children_kill h ch, w)"
| "child_step os r (ORead h n) (hs, ch, w) = (hs, snd (children_read id h n ch), w)"
| "child_step os r (OPrint h b) (hs, ch, w) = (hs, children_print h b ch, w)"
| "child_step os r (OExit h) (hs, ch, w) = (hs, children_exit h ch, w)"

definition handles_ok :: "nat \<Rightarrow> u32 list \<times> children \<times> 'w \<Rightarrow> bool" where
  "handles_ok n = (\<lambda>(hs, ch, w). unat (ch_next ch) \<le> n \<and> distinct hs \<and>
     (\<forall>h \<in> set hs. unat h \<le> unat (ch_next ch)) \<and> dom (ch_live ch) \<subseteq> set hs \<and>
     (\<forall>h c. ch_live ch h = Some c \<longrightarrow> length (lc_unread c) \<le> lc_cap c))"

lemma child_step_ok:
  assumes "handles_ok n s" "n + 1 < 2 ^ 32"
  shows "handles_ok (n + 1) (child_step os r op s)"
proof -
  obtain hs ch w where s: "s = (hs, ch, w)" by (metis surj_pair)
  show ?thesis
  proof (cases op)
    case (OSpawn name)
    have next_handle: "unat (ch_next ch + 1) = unat (ch_next ch) + 1"
      using assms s by (auto simp: handles_ok_def unat_word_ariths)
    then have "ch_next ch + 1 \<notin> set hs" using assms(1) s by (auto simp: handles_ok_def)
    then show ?thesis
      using assms s OSpawn next_handle
      by (auto simp: handles_ok_def children_spawn_def Let_def live_new_def spawn_long_lived_def
          split: sum.splits prod.splits option.splits bool.splits)
  qed (use assms s in \<open>auto simp: handles_ok_def children_kill_def children_read_def child_read_def children_print_def
      child_prints_def children_exit_def Let_def intro: order_trans [OF diff_le_self]
      split: option.splits prod.splits if_splits\<close>)
qed

text \<open>C36 (handles_never_reissued): As long as fewer than \<open>2\<^sup>3\<^sup>2\<close> steps are taken, no handle is given out twice, so a handle
  of a killed child never reaches another; and what a child has printed and nobody has read stays within the output
  cap.\<close>

definition child_run :: "'w os \<Rightarrow> process_runner \<Rightarrow> child_op list \<Rightarrow> 'w \<Rightarrow> u32 list \<times> children \<times> 'w" where
  "child_run os r ops w = fold (child_step os r) ops ([], no_children, w)"

lemma child_run_ok:
  "n + length ops < 2 ^ 32 \<Longrightarrow> handles_ok n s \<Longrightarrow> handles_ok (n + length ops) (fold (child_step os r) ops s)"
proof (induction ops arbitrary: n s)
  case (Cons x xs)
  have "handles_ok (n + 1) (child_step os r x s)" using Cons.prems by (intro child_step_ok) auto
  then show ?case using Cons.IH [of "n + 1"] Cons.prems(1) by simp
qed simp

theorem handles_never_reissued:
  assumes "length ops < 2 ^ 32" "child_run os r ops w = (hs, ch, w1)"
  shows "distinct hs \<and> dom (ch_live ch) \<subseteq> set hs \<and>
    (\<forall>h c. ch_live ch h = Some c \<longrightarrow> length (lc_unread c) \<le> lc_cap c) \<and>
    (\<forall>h name h1 s. h \<in> set hs \<longrightarrow> length ops + 1 < 2 ^ 32 \<longrightarrow>
       children_spawn os r name (ch, w1) = (Inr h1, s) \<longrightarrow> h1 \<noteq> h)"
proof -
  have start: "handles_ok 0 ([], no_children, w)" by (simp add: handles_ok_def no_children_def)
  then have ok: "handles_ok (length ops) (hs, ch, w1)"
    using child_run_ok [of 0 ops "([], no_children, w)" os r] assms by (simp add: child_run_def)
  have "h1 \<noteq> h" if "h \<in> set hs" "length ops + 1 < 2 ^ 32" "children_spawn os r name (ch, w1) = (Inr h1, s)" for h name h1 s
    using child_step_ok [OF ok that(2), of os r "OSpawn name"] that by (cases s) (auto simp: handles_ok_def)
  with ok show ?thesis by (auto simp: handles_ok_def)
qed

definition one_child :: process_runner where
  "one_child = (runner_new [''ws''] 30 4)\<lparr>rn_long_lived := [\<lparr>ll_name = ''lsp'', ll_command = ''x'', ll_args = []\<rparr>]\<rparr>"

theorem handles_never_reissued_witness:
  "\<exists>ch w1. child_run quiet_os one_child [OSpawn ''lsp'', OKill 1, OSpawn ''lsp'', OPrint 2 ''abcdef''] 0 = ([2, 1], ch, w1) \<and>
     map_option lc_unread (ch_live ch 2) = Some ''cdef'' \<and> dom (ch_live ch) \<subseteq> {1, 2}"
proof -
  let ?ops = "[OSpawn ''lsp'', OKill 1, OSpawn ''lsp'', OPrint 2 ''abcdef'']"
  obtain ch w1 where run: "child_run quiet_os one_child ?ops 0 = ([2, 1], ch, w1)"
      and unread: "map_option lc_unread (ch_live ch 2) = Some ''cdef''"
    by (simp add: child_run_def children_spawn_def spawn_long_lived_def one_child_def runner_new_def quiet_os_def
        long_lived_grant_def prepared_def child_environment_def scratch_dir_def inherited_def map_filter_def
        no_children_def children_kill_def children_print_def child_prints_def live_new_def Let_def)
  from handles_never_reissued [OF _ run] unread run show ?thesis by auto
qed

end
