(* ===== verification/ToolHost.thy ===== *)
theory ToolHost
  imports Processes HostCaps FetchTools Turn
begin

text \<open>
  The host side of the tools (\<open>host/wasm/src/tool_host.rs\<close>): the capabilities every tool instance is given, one
  extension and its questions, the fleet that is dispatched by name, and the fleet that is instantiated at its first use.
  A guest is a record of its exports over the state \<open>'w\<close>; that it traps is one of its answers. Instantiating a component
  is a function that may fail. How Rust prints an error (\<open>{err:?}\<close>) is a parameter.
\<close>

section \<open>What a tool instance is given\<close>

text \<open>No tool has a section: its configuration is the empty object, whatever \<open>config.yaml\<close> says.\<close>

definition tool_config_get :: "string \<Rightarrow> string option" where
  "tool_config_get key = None"

definition tool_config_has :: "string \<Rightarrow> bool" where
  "tool_config_has key = False"

definition tool_config_all :: "string option" where
  "tool_config_all = Some ''{}''"

type_synonym 'w http_fn =
  "string \<Rightarrow> string \<Rightarrow> http_headers \<Rightarrow> string option \<Rightarrow> nat \<Rightarrow> 'w \<Rightarrow> (wire_error + wire_response) \<times> 'w"

definition tool_http :: "'w http_fn option \<Rightarrow> 'w host_http" where
  "tool_http client request w =
     (case client of
        None \<Rightarrow> (Inl HBackend, w)
      | Some f \<Rightarrow>
          (case f (hq_method request) (hq_url request) (hq_headers request) (hq_body request) (hq_timeout_ms request) w of
             (Inr response, w1) \<Rightarrow>
               (Inr \<lparr>hr_status = wr_status response, hr_headers = wr_headers response, hr_body = wr_body response\<rparr>, w1)
           | (Inl _, w1) \<Rightarrow> (Inl HConnectionFailed, w1)))"

definition tool_secrets_get :: "(string \<Rightarrow> var_error + string) \<Rightarrow> string \<Rightarrow> secrets_error + string" where
  "tool_secrets_get env name = map_err (\<lambda>_. SecretNotFound) (env name)"

section \<open>One extension\<close>

record tool_meta =
  tm_name :: string
  tm_description :: string
  tm_schema :: string

datatype 'a guest_answer = Trapped string | Refused tool_error | Gave 'a
datatype tool_step = StepDone string | StepAsking user_prompt

record 'w tool_guest =
  tg_id :: string
  tg_meta :: "'w \<Rightarrow> tool_meta option \<times> 'w"
  tg_invoke :: "string \<Rightarrow> 'w \<Rightarrow> string guest_answer \<times> 'w"
  tg_asking :: "(string \<Rightarrow> string option \<Rightarrow> 'w \<Rightarrow> tool_step guest_answer \<times> 'w) option"
  tg_bind_session :: "string \<Rightarrow> 'w \<Rightarrow> 'w"

definition MAX_ASKS :: nat where "MAX_ASKS = 8"

type_synonym show_error = "tool_error \<Rightarrow> string"

definition extension_invoke :: "show_error \<Rightarrow> 'w tool_guest \<Rightarrow> string \<Rightarrow> 'w \<Rightarrow> (string + string) \<times> 'w" where
  "extension_invoke show_err g arguments w =
     (case tg_invoke g arguments w of
        (Gave res, w1) \<Rightarrow> (Inr res, w1)
      | (Refused err, w1) \<Rightarrow> (Inl (''tool '' @ bquote (tg_id g) @ '' error: '' @ show_err err), w1)
      | (Trapped _, w1) \<Rightarrow> (Inl (''tool '' @ bquote (tg_id g) @ '' trapped''), w1))"

definition too_many_asks :: "string \<Rightarrow> string" where
  "too_many_asks i = ''tool '' @ bquote i @ '' asked more than '' @ show_nat MAX_ASKS @
     '' times without answering; the turn was not left waiting on it''"

text \<open>The loop of \<open>invoke_asking\<close>, with the rounds that are left.\<close>

primrec ask_rounds ::
  "nat \<Rightarrow> show_error \<Rightarrow> string \<Rightarrow> (string \<Rightarrow> string option \<Rightarrow> 'w \<Rightarrow> tool_step guest_answer \<times> 'w) \<Rightarrow> 'w driver
     \<Rightarrow> string \<Rightarrow> string option \<Rightarrow> 'w \<Rightarrow> (string + string) \<times> 'w" where
  "ask_rounds 0 show_err i asking d arguments answer w = (Inl (too_many_asks i), w)"
| "ask_rounds (Suc n) show_err i asking d arguments answer w =
     (case asking arguments answer w of
        (Refused err, w1) \<Rightarrow> (Inl (''tool error: '' @ show_err err), w1)
      | (Trapped err, w1) \<Rightarrow> (Inl (''tool trapped: '' @ err), w1)
      | (Gave (StepDone res), w1) \<Rightarrow> (Inr res, w1)
      | (Gave (StepAsking prompt), w1) \<Rightarrow>
          (case drv_ask d prompt w1 of
             (a, w2) \<Rightarrow> ask_rounds n show_err i asking d arguments (Some a) w2))"

definition extension_invoke_asking ::
  "show_error \<Rightarrow> 'w driver \<Rightarrow> 'w tool_guest \<Rightarrow> string \<Rightarrow> 'w \<Rightarrow> (string + string) option \<times> 'w" where
  "extension_invoke_asking show_err d g arguments w =
     (case tg_asking g of
        None \<Rightarrow> (None, w)
      | Some asking \<Rightarrow> apfst Some (ask_rounds MAX_ASKS show_err (tg_id g) asking d arguments None w))"

section \<open>The fleet\<close>

type_synonym 'w fleet = "(tool_meta \<times> 'w tool_guest) list"

fun fleet_new :: "'w tool_guest list \<Rightarrow> 'w \<Rightarrow> 'w fleet \<times> 'w" where
  "fleet_new [] w = ([], w)"
| "fleet_new (g # gs) w =
     (case tg_meta g w of
        (m, w1) \<Rightarrow>
          (let meta = (case m of
              Some x \<Rightarrow> x
            | None \<Rightarrow> \<lparr>tm_name = tg_id g, tm_description = [], tm_schema = ''{}''\<rparr>)
           in case fleet_new gs w1 of (rest, w2) \<Rightarrow> ((meta, g) # rest, w2)))"

definition fleet_bind :: "string \<Rightarrow> 'w fleet \<Rightarrow> 'w \<Rightarrow> 'w" where
  "fleet_bind session f w = fold (\<lambda>(_, g). tg_bind_session g session) f w"

fun invocation_of :: "string + string \<Rightarrow> tool_invocation" where
  "invocation_of (Inr content) = \<lparr>inv_content = content, inv_failed = False\<rparr>"
| "invocation_of (Inl content) = \<lparr>inv_content = content, inv_failed = True\<rparr>"

definition fleet_find :: "'w fleet \<Rightarrow> string \<Rightarrow> 'w tool_guest option" where
  "fleet_find f name = map_option snd (List.find (\<lambda>(m, _). tm_name m = name) f)"

definition fleet_invoke ::
  "show_error \<Rightarrow> 'w fleet \<Rightarrow> tool_call \<Rightarrow> 'w \<Rightarrow> tool_invocation option \<times> 'w" where
  "fleet_invoke show_err f call w =
     (case fleet_find f (tc_name call) of
        None \<Rightarrow> (None, w)
      | Some g \<Rightarrow>
          (case extension_invoke show_err g (tc_arguments call) w of (res, w1) \<Rightarrow> (Some (invocation_of res), w1)))"

definition fleet_invoke_asking ::
  "show_error \<Rightarrow> 'w driver \<Rightarrow> 'w fleet \<Rightarrow> tool_call \<Rightarrow> 'w \<Rightarrow> tool_invocation option \<times> 'w" where
  "fleet_invoke_asking show_err d f call w =
     (case fleet_find f (tc_name call) of
        None \<Rightarrow> (None, w)
      | Some g \<Rightarrow>
          (case extension_invoke_asking show_err d g (tc_arguments call) w of
             (None, w1) \<Rightarrow> fleet_invoke show_err f call w1
           | (Some res, w1) \<Rightarrow> (Some (invocation_of res), w1)))"

section \<open>The lazy fleet\<close>

type_synonym 'w pending_tool = "'w \<Rightarrow> (string + 'w tool_guest) \<times> 'w"

record 'w lazy_fleet =
  lf_pending :: "'w pending_tool list"
  lf_live :: "'w fleet option"
  lf_session :: "string option"

definition lazy_new :: "'w lazy_fleet" where
  "lazy_new = \<lparr>lf_pending = [], lf_live = None, lf_session = None\<rparr>"

definition lazy_push :: "'w pending_tool \<Rightarrow> 'w lazy_fleet \<Rightarrow> 'w lazy_fleet" where
  "lazy_push p lf = lf\<lparr>lf_pending := lf_pending lf @ [p]\<rparr>"

fun instantiate_all :: "'w pending_tool list \<Rightarrow> 'w \<Rightarrow> (string + 'w tool_guest list) \<times> 'w" where
  "instantiate_all [] w = (Inr [], w)"
| "instantiate_all (p # ps) w =
     (case p w of
        (Inl e, w1) \<Rightarrow> (Inl e, w1)
      | (Inr g, w1) \<Rightarrow> (case instantiate_all ps w1 of (res, w2) \<Rightarrow> (map_ok (Cons g) res, w2)))"

text \<open>\<open>drain(..)\<close> empties the pending list also when the loop over it is left early.\<close>

definition lazy_ensure :: "'w lazy_fleet \<times> 'w \<Rightarrow> (string + 'w fleet) \<times> 'w lazy_fleet \<times> 'w" where
  "lazy_ensure = (\<lambda>(lf, w).
     case lf_live lf of
       Some f \<Rightarrow> (Inr f, lf, w)
     | None \<Rightarrow>
         (case instantiate_all (lf_pending lf) w of
            (Inl e, w1) \<Rightarrow> (Inl e, lf\<lparr>lf_pending := []\<rparr>, w1)
          | (Inr gs, w1) \<Rightarrow>
              (case fleet_new gs w1 of
                 (f, w2) \<Rightarrow>
                   (Inr f, lf\<lparr>lf_pending := [], lf_live := Some f\<rparr>,
                    case lf_session lf of Some s \<Rightarrow> fleet_bind s f w2 | None \<Rightarrow> w2))))"

definition lazy_metas :: "'w lazy_fleet \<times> 'w \<Rightarrow> (string + tool_meta list) \<times> 'w lazy_fleet \<times> 'w" where
  "lazy_metas s = (case lazy_ensure s of (res, s1) \<Rightarrow> (map_ok (map fst) res, s1))"

definition lazy_invoke ::
  "show_error \<Rightarrow> tool_call \<Rightarrow> 'w lazy_fleet \<times> 'w \<Rightarrow> tool_invocation option \<times> 'w lazy_fleet \<times> 'w" where
  "lazy_invoke show_err call s =
     (case lazy_ensure s of
        (Inl e, s1) \<Rightarrow>
          (Some \<lparr>inv_content = ''tool fleet failed to instantiate: '' @ e, inv_failed = True\<rparr>, s1)
      | (Inr f, lf, w) \<Rightarrow> (case fleet_invoke show_err f call w of (r, w1) \<Rightarrow> (r, lf, w1)))"

definition lazy_invoke_asking ::
  "show_error \<Rightarrow> 'w driver \<Rightarrow> tool_call \<Rightarrow> 'w lazy_fleet \<times> 'w \<Rightarrow> tool_invocation option \<times> 'w lazy_fleet \<times> 'w" where
  "lazy_invoke_asking show_err d call s =
     (case lazy_ensure s of
        (Inl _, s1) \<Rightarrow> (None, s1)
      | (Inr f, lf, w) \<Rightarrow> (case fleet_invoke_asking show_err d f call w of (r, w1) \<Rightarrow> (r, lf, w1)))"

definition lazy_bind_session :: "string \<Rightarrow> 'w lazy_fleet \<times> 'w \<Rightarrow> 'w lazy_fleet \<times> 'w" where
  "lazy_bind_session session = (\<lambda>(lf, w).
     (lf\<lparr>lf_session := Some session\<rparr>, case lf_live lf of Some f \<Rightarrow> fleet_bind session f w | None \<Rightarrow> w))"

section \<open>Properties\<close>

text \<open>The search tool is told of no provider: its configuration is what the host gives every
  tool, the empty object, so each search that is asked for answers with a configuration error and sends nothing.\<close>

theorem search_never_configured:
  assumes "parse ''{}'' = Inr (JObj [])"
  shows "\<exists>conf. search_init parse tool_config_all = Inr conf \<and>
    search_invoke parse lossy show_err conf http arguments w =
      (case parse arguments of
         Inl _ \<Rightarrow> (Inl InvalidArguments, w)
       | Inr v \<Rightarrow>
           (case get_str ''query'' v of
              None \<Rightarrow> (Inl InvalidArguments, w)
            | Some _ \<Rightarrow> (Inr ''CONFIGURATION ERROR: base-url is not configured'', w)))"
  using assms
  by (simp add: search_init_def tool_config_all_def str_or_def json_simps search_invoke_def construct_url_def
      split: sum.split option.split)

definition asking_search :: parser where
  "asking_search t = (if t = ''{}'' then Inr (JObj []) else Inr (JObj [(''query'', JStr t)]))"

theorem search_never_configured_witness:
  "\<exists>conf. search_init asking_search tool_config_all = Inr conf \<and>
     search_invoke asking_search (\<lambda>s. s) (\<lambda>_. []) conf (tool_http None) ''rust'' (0 :: nat) =
       (Inr ''CONFIGURATION ERROR: base-url is not configured'', 0)"
proof -
  have "asking_search ''{}'' = Inr (JObj [])" by (simp add: asking_search_def)
  from search_never_configured [where parse = asking_search and lossy = "\<lambda>s. s" and show_err = "\<lambda>_. []" and
      http = "tool_http None" and arguments = "''rust''" and w = "0 :: nat", OF this]
  show ?thesis by (auto simp: asking_search_def json_simps)
qed

text \<open>A fleet that has nothing left to instantiate and nothing running stays that way and knows no tool.\<close>

definition emptied :: "'w lazy_fleet \<Rightarrow> bool" where
  "emptied lf \<longleftrightarrow> lf_pending lf = [] \<and> (lf_live lf = None \<or> lf_live lf = Some [])"

lemma emptied_step:
  assumes "emptied (fst s)"
  shows "fst (lazy_invoke show_err c s) = None" "fst (lazy_invoke_asking show_err d c s) = None"
    "emptied (fst (snd (lazy_invoke show_err c s)))"
  using assms
  by (cases s; auto simp: emptied_def lazy_invoke_def lazy_invoke_asking_def lazy_ensure_def fleet_invoke_def
    fleet_invoke_asking_def fleet_find_def fleet_bind_def split: option.splits)+


definition broken_fleet :: "nat lazy_fleet" where
  "broken_fleet = lazy_push (\<lambda>w. (Inl ''no'', w)) lazy_new"


end
