(* ===== verification/InterceptorHost.thy ===== *)
theory InterceptorHost
  imports Routers ProviderRoute App
begin

text \<open>
  The host side of the interceptors (\<open>host/wasm/src/interceptor_host.rs\<close>): what crosses the boundary in each
  direction, the completions a guest may ask for, and the adapter that makes a guest an interceptor of the loop. The types
  of the boundary are those of \<open>wit/interceptor.wit\<close>, \<open>wit/llm-types.wit\<close> and \<open>wit/client-surface.wit\<close>; a guest is a
  function over the state, \<open>None\<close> the trap. \<open>classifier_fn\<close> is from \<open>lib.rs\<close>.
\<close>

section \<open>The types of the boundary\<close>

datatype g_role = GSystem | GUser | GAssistant | GTool

datatype g_phase =
    GBeforeLoop | GSelectModel | GSelectContext | GSelectTools | GAfterResponse
  | GToolCall | GToolResult | GFinalize | GPrepareNextTurn

record g_message =
  gm_role :: g_role
  gm_content :: string
  gm_tool_call_id :: "string option"

record g_tool =
  gt_name :: string
  gt_description :: string
  gt_parameters_schema :: string

record g_call =
  gc_id :: string
  gc_name :: string
  gc_arguments :: string

record g_request =
  gr_model :: "string option"
  gr_messages :: "g_message list"
  gr_tools :: "g_tool list"
  gr_grammar :: "string option"
  gr_max_tokens :: "nat option"
  gr_temperature :: "32 word option"

record g_user_turn =
  gu_session :: string
  gu_user_message :: string
  gu_principal :: "string option"

record g_raw_response =
  gw_text :: string
  gw_finish_reason :: string

record g_outcome =
  go_tool_call_id :: string
  go_content :: string

datatype g_state =
    GSBeforeLoop g_user_turn
  | GSSelectModel g_request
  | GSSelectContext g_request
  | GSSelectTools g_request
  | GSAfterResponse g_raw_response
  | GSToolCall g_call
  | GSToolResult g_outcome
  | GSFinalize string
  | GSPrepareNextTurn g_request

record g_prompt =
  gp_question :: string
  gp_options :: "string list"
  gp_default_answer :: string

datatype g_decision = GProceed | GReplace g_state | GBlock string | GAsk g_prompt
datatype g_error = GInternal | GInvalidState | GDependencyFailed

record g_input =
  gi_phase :: g_phase
  gi_state :: g_state
  gi_answer :: "string option"

section \<open>Crossing it\<close>

fun to_gen_phase :: "phase \<Rightarrow> g_phase" where
  "to_gen_phase PBeforeLoop = GBeforeLoop"
| "to_gen_phase PSelectModel = GSelectModel"
| "to_gen_phase PSelectContext = GSelectContext"
| "to_gen_phase PSelectTools = GSelectTools"
| "to_gen_phase PAfterResponse = GAfterResponse"
| "to_gen_phase PToolCall = GToolCall"
| "to_gen_phase PToolResult = GToolResult"
| "to_gen_phase PFinalize = GFinalize"
| "to_gen_phase PPrepareNextTurn = GPrepareNextTurn"

fun from_gen_phase :: "g_phase \<Rightarrow> phase" where
  "from_gen_phase GBeforeLoop = PBeforeLoop"
| "from_gen_phase GSelectModel = PSelectModel"
| "from_gen_phase GSelectContext = PSelectContext"
| "from_gen_phase GSelectTools = PSelectTools"
| "from_gen_phase GAfterResponse = PAfterResponse"
| "from_gen_phase GToolCall = PToolCall"
| "from_gen_phase GToolResult = PToolResult"
| "from_gen_phase GFinalize = PFinalize"
| "from_gen_phase GPrepareNextTurn = PPrepareNextTurn"

fun to_gen_role :: "role \<Rightarrow> g_role" where
  "to_gen_role role.System = GSystem"
| "to_gen_role role.User = GUser"
| "to_gen_role role.Assistant = GAssistant"
| "to_gen_role role.Tool = GTool"

fun from_gen_role :: "g_role \<Rightarrow> role" where
  "from_gen_role GSystem = role.System"
| "from_gen_role GUser = role.User"
| "from_gen_role GAssistant = role.Assistant"
| "from_gen_role GTool = role.Tool"

definition to_gen_message :: "message \<Rightarrow> g_message" where
  "to_gen_message m =
     \<lparr>gm_role = to_gen_role (msg_role m), gm_content = msg_content m, gm_tool_call_id = msg_tool_call_id m\<rparr>"

definition from_gen_message :: "g_message \<Rightarrow> message" where
  "from_gen_message m =
     \<lparr>msg_role = from_gen_role (gm_role m), msg_content = gm_content m, msg_tool_call_id = gm_tool_call_id m\<rparr>"

definition to_gen_tool :: "tool_definition \<Rightarrow> g_tool" where
  "to_gen_tool t =
     \<lparr>gt_name = td_name t, gt_description = td_description t, gt_parameters_schema = td_parameters_schema t\<rparr>"

definition from_gen_tool :: "g_tool \<Rightarrow> tool_definition" where
  "from_gen_tool t =
     \<lparr>td_name = gt_name t, td_description = gt_description t, td_parameters_schema = gt_parameters_schema t\<rparr>"

definition to_gen_call :: "tool_call \<Rightarrow> g_call" where
  "to_gen_call c = \<lparr>gc_id = tc_id c, gc_name = tc_name c, gc_arguments = tc_arguments c\<rparr>"

definition from_gen_call :: "g_call \<Rightarrow> tool_call" where
  "from_gen_call c = \<lparr>tc_id = gc_id c, tc_name = gc_name c, tc_arguments = gc_arguments c\<rparr>"

definition to_gen_request :: "pending_request \<Rightarrow> g_request" where
  "to_gen_request r =
     \<lparr>gr_model = pr_model r, gr_messages = map to_gen_message (pr_messages r), gr_tools = map to_gen_tool (pr_tools r),
      gr_grammar = pr_grammar r, gr_max_tokens = pr_max_tokens r, gr_temperature = pr_temperature r\<rparr>"

definition from_gen_request :: "g_request \<Rightarrow> pending_request" where
  "from_gen_request r =
     \<lparr>pr_model = gr_model r, pr_messages = map from_gen_message (gr_messages r),
      pr_tools = map from_gen_tool (gr_tools r), pr_grammar = gr_grammar r, pr_max_tokens = gr_max_tokens r,
      pr_temperature = gr_temperature r\<rparr>"

fun to_gen_state :: "hook_state \<Rightarrow> g_state" where
  "to_gen_state (SBeforeLoop t) = GSBeforeLoop
     \<lparr>gu_session = ut_session t, gu_user_message = ut_user_message t, gu_principal = ut_principal t\<rparr>"
| "to_gen_state (SSelectModel r) = GSSelectModel (to_gen_request r)"
| "to_gen_state (SSelectContext r) = GSSelectContext (to_gen_request r)"
| "to_gen_state (SSelectTools r) = GSSelectTools (to_gen_request r)"
| "to_gen_state (SAfterResponse r) = GSAfterResponse \<lparr>gw_text = rr_text r, gw_finish_reason = rr_finish_reason r\<rparr>"
| "to_gen_state (SToolCall c) = GSToolCall (to_gen_call c)"
| "to_gen_state (SToolResult o1) = GSToolResult
     \<lparr>go_tool_call_id = out_tool_call_id o1, go_content = out_content o1\<rparr>"
| "to_gen_state (SFinalize t) = GSFinalize t"
| "to_gen_state (SPrepareNextTurn r) = GSPrepareNextTurn (to_gen_request r)"

fun from_gen_state :: "g_state \<Rightarrow> hook_state" where
  "from_gen_state (GSBeforeLoop t) = SBeforeLoop
     \<lparr>ut_session = gu_session t, ut_user_message = gu_user_message t, ut_principal = gu_principal t\<rparr>"
| "from_gen_state (GSSelectModel r) = SSelectModel (from_gen_request r)"
| "from_gen_state (GSSelectContext r) = SSelectContext (from_gen_request r)"
| "from_gen_state (GSSelectTools r) = SSelectTools (from_gen_request r)"
| "from_gen_state (GSAfterResponse r) = SAfterResponse \<lparr>rr_text = gw_text r, rr_finish_reason = gw_finish_reason r\<rparr>"
| "from_gen_state (GSToolCall c) = SToolCall (from_gen_call c)"
| "from_gen_state (GSToolResult o1) = SToolResult
     \<lparr>out_tool_call_id = go_tool_call_id o1, out_content = go_content o1, out_failed = False\<rparr>"
| "from_gen_state (GSFinalize t) = SFinalize t"
| "from_gen_state (GSPrepareNextTurn r) = SPrepareNextTurn (from_gen_request r)"

fun from_gen_decision :: "g_decision \<Rightarrow> decision" where
  "from_gen_decision GProceed = Proceed"
| "from_gen_decision (GReplace s) = Replace (from_gen_state s)"
| "from_gen_decision (GBlock reason) = Block reason"
| "from_gen_decision (GAsk p) = Ask
     \<lparr>up_question = gp_question p, up_options = gp_options p, up_default_answer = gp_default_answer p\<rparr>"

fun from_gen_error :: "g_error \<Rightarrow> interceptor_error" where
  "from_gen_error GInternal = Internal"
| "from_gen_error GInvalidState = InvalidState"
| "from_gen_error GDependencyFailed = DependencyFailed"

fun preserve_tool_result_failed :: "decision \<Rightarrow> hook_state \<Rightarrow> decision" where
  "preserve_tool_result_failed (Replace (SToolResult o1)) (SToolResult before) =
     Replace (SToolResult (o1\<lparr>out_failed := out_failed before\<rparr>))"
| "preserve_tool_result_failed d _ = d"

section \<open>A guest as an interceptor\<close>

record g_argument =
  ga_name :: string
  ga_description :: string
  ga_required :: bool

record g_command =
  gd_name :: string
  gd_title :: string
  gd_description :: string
  gd_arguments :: "g_argument list"

record g_status_item =
  gs_name :: string
  gs_text :: string
  gs_detail :: string

record g_field =
  gf_name :: string
  gf_label :: string
  gf_options :: "string list"
  gf_default_value :: string

record g_form =
  gk_name :: string
  gk_title :: string
  gk_fields :: "g_field list"

record g_contributions =
  gx_commands :: "g_command list"
  gx_status_items :: "g_status_item list"
  gx_forms :: "g_form list"

record g_invoked =
  gv_text :: string
  gv_changed :: bool

datatype g_invoke_error = GUnknown | GInvalidArguments | GFailed

record 'w g_surface =
  gy_contribute :: "'w \<Rightarrow> (string + g_contributions) \<times> 'w"
  gy_invoke :: "string \<Rightarrow> (string \<times> string) list \<Rightarrow> 'w \<Rightarrow> (string + (g_invoke_error + g_invoked)) \<times> 'w"

record 'w icept_guest =
  ig_phases :: "g_phase list"
  ig_intercept :: "g_input \<Rightarrow> 'w \<Rightarrow> (g_error + g_decision) option \<times> 'w"
  ig_surface :: "'w g_surface option"

definition wasm_intercept ::
  "'w icept_guest \<Rightarrow> intercept_input \<Rightarrow> 'w \<Rightarrow> (interceptor_error + decision) \<times> 'w" where
  "wasm_intercept g inp w =
     (case ig_intercept g
         \<lparr>gi_phase = to_gen_phase (in_phase inp), gi_state = to_gen_state (in_state inp), gi_answer = in_answer inp\<rparr> w of
        (Some (Inr d), w1) \<Rightarrow> (Inr (preserve_tool_result_failed (from_gen_decision d) (in_state inp)), w1)
      | (Some (Inl e), w1) \<Rightarrow> (Inl (from_gen_error e), w1)
      | (None, w1) \<Rightarrow> (Inl Internal, w1))"

definition wasm_interceptor :: "string \<Rightarrow> 'w icept_guest \<Rightarrow> 'w interceptor" where
  "wasm_interceptor i g =
     \<lparr>icp_id = i, icp_phases = map from_gen_phase (ig_phases g), icp_intercept = wasm_intercept g\<rparr>"

definition from_gen_command :: "g_command \<Rightarrow> command_spec" where
  "from_gen_command c =
     \<lparr>cd_name = gd_name c, cd_title = gd_title c, cd_description = gd_description c,
      cd_arguments = map (\<lambda>a. \<lparr>ar_name = ga_name a, ar_description = ga_description a, ar_required = ga_required a\<rparr>)
        (gd_arguments c)\<rparr>"

definition from_gen_form :: "g_form \<Rightarrow> form" where
  "from_gen_form f =
     \<lparr>fo_name = gk_name f, fo_title = gk_title f,
      fo_fields = map (\<lambda>x. \<lparr>ff_name = gf_name x, ff_label = gf_label x, ff_options = gf_options x,
        ff_default_value = gf_default_value x\<rparr>) (gk_fields f)\<rparr>"

definition from_gen_contributions :: "string \<Rightarrow> g_contributions \<Rightarrow> contributions" where
  "from_gen_contributions extension declared =
     \<lparr>ct_extension = extension, ct_commands = map from_gen_command (gx_commands declared),
      ct_status_items = map (\<lambda>s. \<lparr>si_name = gs_name s, si_text = gs_text s, si_detail = gs_detail s\<rparr>)
        (gx_status_items declared),
      ct_forms = map from_gen_form (gx_forms declared)\<rparr>"

text \<open>A surface that traps is read as one that contributes nothing; invoking one that traps fails with its error.\<close>

definition wasm_contributions ::
  "string \<Rightarrow> 'w icept_guest \<Rightarrow> 'w \<Rightarrow> contributions option \<times> 'w" where
  "wasm_contributions i g w =
     (case ig_surface g of
        None \<Rightarrow> (None, w)
      | Some surface \<Rightarrow>
          (case gy_contribute surface w of
             (Inr declared, w1) \<Rightarrow> (Some (from_gen_contributions i declared), w1)
           | (Inl _, w1) \<Rightarrow> (None, w1)))"

datatype invoke_error = InvokeUnknown | InvokeInvalidArguments | InvokeFailed string

record invoke_outcome =
  io_text :: string
  io_contributions_changed :: bool

definition wasm_invoke_contribution ::
  "'w icept_guest \<Rightarrow> string \<Rightarrow> (string \<times> string) list \<Rightarrow> 'w \<Rightarrow> (invoke_error + invoke_outcome) \<times> 'w" where
  "wasm_invoke_contribution g name args w =
     (case ig_surface g of
        None \<Rightarrow> (Inl InvokeUnknown, w)
      | Some surface \<Rightarrow>
          (case gy_invoke surface name args w of
             (Inl err, w1) \<Rightarrow> (Inl (InvokeFailed err), w1)
           | (Inr (Inl GUnknown), w1) \<Rightarrow> (Inl InvokeUnknown, w1)
           | (Inr (Inl GInvalidArguments), w1) \<Rightarrow> (Inl InvokeInvalidArguments, w1)
           | (Inr (Inl GFailed), w1) \<Rightarrow> (Inl (InvokeFailed ''the extension refused it''), w1)
           | (Inr (Inr r), w1) \<Rightarrow>
               (Inr \<lparr>io_text = gv_text r, io_contributions_changed = gv_changed r\<rparr>, w1)))"

section \<open>The completions a guest may ask for\<close>

type_synonym 'w provider_fn = "pending_request \<Rightarrow> 'w \<Rightarrow> string \<times> 'w"

record icept_host =
  ih_streams :: "stream_handle \<rightharpoonup> chunk list"
  ih_next_handle :: stream_handle

definition icept_host_new :: icept_host where
  "icept_host_new = \<lparr>ih_streams = Map.empty, ih_next_handle = 1\<rparr>"

definition to_pending_request :: "completion_request \<Rightarrow> pending_request" where
  "to_pending_request r =
     \<lparr>pr_model = (if cr_model r = [] then None else Some (cr_model r)), pr_messages = cr_messages r, pr_tools = [],
      pr_grammar = cr_grammar r, pr_max_tokens = cr_max_tokens r, pr_temperature = cr_temperature r\<rparr>"

definition icept_complete ::
  "'w provider_fn \<Rightarrow> completion_request \<Rightarrow> icept_host \<times> 'w \<Rightarrow> (provider_error + stream_handle) \<times> icept_host \<times> 'w" where
  "icept_complete provider request = (\<lambda>(st, w).
     case provider (to_pending_request request) w of
       (answer, w1) \<Rightarrow>
         (let h = ih_next_handle st
          in (Inr h, st\<lparr>ih_next_handle := h + 1,
                ih_streams := (ih_streams st)(h \<mapsto> [CTextDelta answer, CDone ''stop''])\<rparr>, w1)))"

definition icept_next_chunk :: "stream_handle \<Rightarrow> icept_host \<Rightarrow> chunk option \<times> icept_host" where
  "icept_next_chunk h st =
     (case ih_streams st h of
        Some (c # cs) \<Rightarrow> (Some c, st\<lparr>ih_streams := (ih_streams st)(h \<mapsto> cs)\<rparr>)
      | _ \<Rightarrow> (None, st))"

definition icept_close_stream :: "stream_handle \<Rightarrow> icept_host \<Rightarrow> icept_host" where
  "icept_close_stream h st = st\<lparr>ih_streams := (ih_streams st)(h := None)\<rparr>"

definition icept_llm :: "'w provider_fn \<Rightarrow> (icept_host \<times> 'w) host_llm" where
  "icept_llm provider =
     \<lparr>hl_complete = icept_complete provider,
      hl_next_chunk = (\<lambda>h (st, w). case icept_next_chunk h st of (c, st1) \<Rightarrow> (c, st1, w)),
      hl_close_stream = (\<lambda>h (st, w). (icept_close_stream h st, w))\<rparr>"

text \<open>\<open>classifier_fn\<close>: no classifier, or one that fails, is the conservative label.\<close>

definition classifier_fn :: "'w completer option \<Rightarrow> 'w provider_fn" where
  "classifier_fn classifier request w =
     (case classifier of
        None \<Rightarrow> (''agentic'', w)
      | Some p \<Rightarrow>
          (case prov_complete p request w of
             (Inl _, w1) \<Rightarrow> (''agentic'', w1)
           | (Inr c, w1) \<Rightarrow> (cmp_text c, w1)))"

section \<open>Properties\<close>

lemma role_crossing [simp]: "from_gen_role (to_gen_role r) = r" by (cases r) auto
lemma phase_crossing [simp]: "from_gen_phase (to_gen_phase p) = p" by (cases p) auto

lemma message_crossing [simp]: "from_gen_message (to_gen_message m) = m"
  by (simp add: from_gen_message_def to_gen_message_def)

lemma tool_crossing [simp]: "from_gen_tool (to_gen_tool t) = t"
  by (simp add: from_gen_tool_def to_gen_tool_def)

lemma call_crossing [simp]: "from_gen_call (to_gen_call c) = c"
  by (simp add: from_gen_call_def to_gen_call_def)

lemma request_crossing [simp]: "from_gen_request (to_gen_request r) = r"
  by (simp add: from_gen_request_def to_gen_request_def map_idI)

text \<open>What a guest hands back is what the loop gets: a state that crosses the boundary and
  comes back unchanged is the state that was dispatched, the failure of a tool's result included, which the boundary
  has no field for; and whatever a guest makes of a tool's result, it cannot change whether it failed.\<close>

theorem crossing_keeps_state:
  "(ig_intercept g
      \<lparr>gi_phase = to_gen_phase (in_phase inp), gi_state = to_gen_state (in_state inp), gi_answer = in_answer inp\<rparr> w =
      (Some (Inr (GReplace (to_gen_state (in_state inp)))), w1) \<longrightarrow>
    icp_intercept (wasm_interceptor i g) inp w = (Inr (Replace (in_state inp)), w1)) \<and>
   (in_state inp = SToolResult before \<longrightarrow>
    icp_intercept (wasm_interceptor i g) inp w = (Inr (Replace (SToolResult after)), w2) \<longrightarrow>
    out_failed after = out_failed before)"
proof (intro conjI impI)
  assume "ig_intercept g
      \<lparr>gi_phase = to_gen_phase (in_phase inp), gi_state = to_gen_state (in_state inp), gi_answer = in_answer inp\<rparr> w =
      (Some (Inr (GReplace (to_gen_state (in_state inp)))), w1)"
  then show "icp_intercept (wasm_interceptor i g) inp w = (Inr (Replace (in_state inp)), w1)"
    by (cases "in_state inp") (simp_all add: wasm_interceptor_def wasm_intercept_def)
next
  assume a: "in_state inp = SToolResult before"
    "icp_intercept (wasm_interceptor i g) inp w = (Inr (Replace (SToolResult after)), w2)"
  have "preserve_tool_result_failed d (SToolResult before) = Replace (SToolResult after) \<Longrightarrow>
      out_failed after = out_failed before" for d
    by (induction d "SToolResult before" rule: preserve_tool_result_failed.induct) auto
  then show "out_failed after = out_failed before"
    using a by (auto simp: wasm_interceptor_def wasm_intercept_def split: prod.splits option.splits sum.splits)
qed

definition echoing :: "nat icept_guest" where
  "echoing = \<lparr>ig_phases = [], ig_intercept = (\<lambda>inp w. (Some (Inr (GReplace (gi_state inp))), w + 1)), ig_surface = None\<rparr>"

theorem crossing_keeps_state_witness:
  "icp_intercept (wasm_interceptor ''i'' echoing)
      \<lparr>in_phase = PToolResult,
       in_state = SToolResult \<lparr>out_tool_call_id = ''c'', out_content = ''no'', out_failed = True\<rparr>,
       in_answer = None\<rparr> 0 =
    (Inr (Replace (SToolResult \<lparr>out_tool_call_id = ''c'', out_content = ''no'', out_failed = True\<rparr>)), 1)"
  using crossing_keeps_state [THEN conjunct1, of echoing "\<lparr>in_phase = PToolResult,
       in_state = SToolResult \<lparr>out_tool_call_id = ''c'', out_content = ''no'', out_failed = True\<rparr>,
       in_answer = None\<rparr>" 0 1 "''i''"]
  by (simp add: echoing_def)

text \<open>An interceptor's question to the model is answered with the text of the classifier's
  completion, and leaves no stream behind; so with the intent router on the host's completions a prompt outside the
  phrase lists enters the loop when no classifier is configured or it fails, and otherwise as its text says.\<close>

lemma icept_answer:
  assumes "provider (to_pending_request request) w = (answer, w1)"
  shows "ask_model (icept_llm provider) request (st, w) =
    Some (Some answer, st\<lparr>ih_next_handle := ih_next_handle st + 1,
      ih_streams := (ih_streams st)(ih_next_handle st := None)\<rparr>, w1)"
  using assms
  by (subst (1) ask_model_def)
    (simp add: icept_llm_def icept_complete_def drain_text_def icept_next_chunk_def icept_close_stream_def Let_def
      read_text.simps [of _ _ "[]"] read_text.simps [of _ _ answer])

theorem classifier_decides_loop:
  assumes "\<not> (eligible (ut_user_message turn) \<and> is_simple lower alnum (ut_user_message turn))"
    and "classifier_fn classifier
        (to_pending_request (classifier_request INTENT_SYSTEM (ut_user_message turn) CLASSIFIER_GRAMMAR 4)) w = (answer, w1)"
  shows "\<exists>st1. intent_intercept eligible lower alnum (icept_llm (classifier_fn classifier))
      \<lparr>in_phase = p, in_state = SBeforeLoop turn, in_answer = a\<rparr> (st, w) =
    Some (Inr (case parse_intent lower answer of
        Agentic \<Rightarrow> Proceed
      | Simple \<Rightarrow> Block ''intent=simple: answerable inline without the agentic loop''), st1, w1) \<and>
    ih_streams st1 = (ih_streams st)(ih_next_handle st := None) \<and>
    (classifier = None \<longrightarrow> answer = ''agentic'')"
proof -
  have none: "classifier = None \<longrightarrow> answer = ''agentic''"
    using assms(2) by (auto simp: classifier_fn_def)
  show ?thesis
    using icept_answer [where provider = "classifier_fn classifier" and st = st, OF assms(2)] assms(1) none
    by (cases "eligible (ut_user_message turn)")
      (simp_all add: intent_intercept_def classify_intent_def llm_classify_def split: intent.split)
qed

definition plain_turn :: "string \<Rightarrow> user_turn" where
  "plain_turn msg = \<lparr>ut_session = ''s'', ut_user_message = msg, ut_principal = None\<rparr>"

theorem classifier_decides_loop_witness:
  "\<exists>st1. intent_intercept (\<lambda>_. False) to_lower (\<lambda>_. True) (icept_llm (classifier_fn None))
      \<lparr>in_phase = PBeforeLoop, in_state = SBeforeLoop (plain_turn ''fix it''), in_answer = None\<rparr> (icept_host_new, 0 :: nat) =
    Some (Inr Proceed, st1, 0)"
proof -
  have i: "parse_intent to_lower ''agentic'' = Agentic" by code_simp
  have "\<not> (False \<and> is_simple to_lower (\<lambda>_. True) (ut_user_message (plain_turn ''fix it'')))" by simp
  from classifier_decides_loop [where eligible = "\<lambda>_. False" and lower = to_lower and alnum = "\<lambda>_. True" and classifier = None
      and w = "0 :: nat" and turn = "plain_turn ''fix it''" and st = icept_host_new and p = PBeforeLoop and a = None, OF this]
  show ?thesis by (simp add: classifier_fn_def i) blast
qed

end
