(* ===== verification/Boot.thy ===== *)
theory Boot
  imports Config Processes Egress "HOL-Library.Product_Lexorder" "HOL-Library.Multiset"
begin

text \<open>
  Booting the core (\<open>host/wasm/src/lib.rs\<close>, \<open>manifest.rs\<close>, \<open>wasm_cache.rs\<close>): the enabled instances in the order of their tiers, the check
  of a component against the manifest beside it, adopting what was installed since, and starting what was compiled.
  What wasmtime does is a parameter: \<open>compile\<close> turns the bytes of a file into the names the component imports, and the
  life of an instance is a record of its answers. So are the TOML parser and what \<open>build_engine\<close> asks of wasmtime.
\<close>

section \<open>The manifest\<close>

definition API_VERSION :: string where "API_VERSION = ''0.4.0''"

definition version_parts :: "string \<Rightarrow> (nat \<times> nat) option" where
  "version_parts v =
     (case split_on CHR ''.'' v of
        major # minor # _ \<Rightarrow>
          Option.bind (parse_u64 major) (\<lambda>a. map_option (\<lambda>b. (a, b)) (parse_u64 minor))
      | _ \<Rightarrow> None)"

definition api_compatible :: "string \<Rightarrow> string \<Rightarrow> bool" where
  "api_compatible host declared =
     (case (version_parts host, version_parts declared) of
        (Some (host_major, host_minor), Some (their_major, their_minor)) \<Rightarrow>
          host_major = their_major \<and> (host_major \<noteq> 0 \<or> host_minor = their_minor)
      | _ \<Rightarrow> False)"

record manifest =
  mf_name :: string
  mf_version :: string
  mf_api_version :: string
  mf_kind :: string
  mf_description :: string
  mf_capabilities :: "string list"

datatype manifest_error = ManifestUnreadable path | ManifestMalformed path string | ManifestMissingKey path string

type_synonym toml_parser = "string \<Rightarrow> string + (string \<times> json) list"

definition path_exists :: "disk \<Rightarrow> path \<Rightarrow> bool" where
  "path_exists d p \<longleftrightarrow> \<not> dk_refused d (dk_follow d p) \<and> node_at d (dk_follow d p) \<noteq> None"

definition file_stem :: "string \<Rightarrow> string" where
  "file_stem name = (case rsplit_once CHR ''.'' name of Some (stem, _) \<Rightarrow> if stem = [] then name else stem | None \<Rightarrow> name)"

definition manifest_path :: "path \<Rightarrow> path" where
  "manifest_path component = butlast component @ [file_stem (last component) @ ''.manifest.toml'']"

definition sorted_set :: "string list \<Rightarrow> string list" where
  "sorted_set xs = remdups_adj (sort xs)"

definition manifest_from :: "path \<Rightarrow> (string \<times> json) list \<Rightarrow> manifest_error + manifest" where
  "manifest_from shown table =
     (let text = (\<lambda>key. ok_or (ManifestMissingKey shown key) (Option.bind (map_of table key) as_str))
      in try_then (ok_or (ManifestMissingKey shown ''capabilities'')
             (Option.bind (map_of table ''capabilities'') as_array)) (\<lambda>items.
         try_then (text ''name'') (\<lambda>name.
         try_then (text ''version'') (\<lambda>version.
         try_then (text ''api-version'') (\<lambda>api.
         try_then (text ''kind'') (\<lambda>kind.
           Inr \<lparr>mf_name = name, mf_version = version, mf_api_version = api, mf_kind = kind,
             mf_description =
               (case Option.bind (map_of table ''description'') as_str of Some t \<Rightarrow> t | None \<Rightarrow> []),
             mf_capabilities = sorted_set (List.map_filter as_str items)\<rparr>))))))"

definition manifest_beside :: "toml_parser \<Rightarrow> disk \<Rightarrow> path \<Rightarrow> manifest_error + manifest option" where
  "manifest_beside toml d component =
     (let p = manifest_path component
      in if \<not> path_exists d p then Inr None
         else
           try_then (map_err (\<lambda>_. ManifestUnreadable p) (read_to_string d p)) (\<lambda>text.
           try_then (map_err (ManifestMalformed p) (toml text)) (\<lambda>table.
             map_ok Some (manifest_from p table))))"

definition undeclared :: "manifest \<Rightarrow> string list \<Rightarrow> string list" where
  "undeclared m imported = filter (\<lambda>i. i \<notin> set (mf_capabilities m)) imported"

section \<open>Inspecting a component\<close>

record wasm_component =
  wc_imports :: "string list"

type_synonym compiler = "string \<Rightarrow> string + wasm_component"

definition host_interface :: "string \<Rightarrow> string option" where
  "host_interface name =
     Option.bind (strip_prefix ''jan-klod:interfaces/'' name) (\<lambda>rest.
       (let interface = hd (split_on CHR 0x40 rest)
        in if starts_with ''host-'' interface then Some interface else None))"

definition host_capabilities :: "wasm_component \<Rightarrow> string list" where
  "host_capabilities c = sorted_set (List.map_filter host_interface (wc_imports c))"

datatype load_verdict = Consistent | NoManifest | ApiMismatch string | UnderDeclared "string list"

definition verdict_of :: "manifest option \<Rightarrow> string list \<Rightarrow> load_verdict" where
  "verdict_of declared capabilities =
     (case declared of
        None \<Rightarrow> NoManifest
      | Some m \<Rightarrow>
          (if api_compatible API_VERSION (mf_api_version m) then
             (case undeclared m capabilities of [] \<Rightarrow> Consistent | is \<Rightarrow> UnderDeclared is)
           else ApiMismatch (mf_api_version m)))"

definition inspect ::
  "toml_parser \<Rightarrow> disk \<Rightarrow> wasm_component \<Rightarrow> path \<Rightarrow> manifest_error + (string list \<times> load_verdict)" where
  "inspect toml d component p =
     (let capabilities = host_capabilities component
      in map_ok (\<lambda>declared. (capabilities, verdict_of declared capabilities)) (manifest_beside toml d p))"

section \<open>Categories\<close>

definition CATEGORIES :: "string list" where
  "CATEGORIES = [''provider'', ''interceptor'', ''registry'', ''tool'']"

definition categorise :: "string \<Rightarrow> string + (string \<times> string)" where
  "categorise stem =
     (case split_once ''-'' stem of
        None \<Rightarrow> Inl (''a component stem is `<category>-<kind>`, e.g. `tool-greet`; '' @ bquote stem @ '' has no `-`'')
      | Some (category, kind) \<Rightarrow>
          (if category \<notin> set CATEGORIES then
             Inl (bquote stem @ '' names the category '' @ bquote category @ '', which this runtime does not dispatch '' @
               em_dash @ '' a component under it would load and never be callable. The categories are: '' @
               join_with '', '' CATEGORIES)
           else if kind = [] then Inl (bquote stem @ '' names no kind after `'' @ category @ ''-`'')
           else Inr (category, kind)))"

definition boot_rank :: "string \<Rightarrow> nat" where
  "boot_rank category =
     (case map_of [(''registry'', 1), (''provider'', 2), (''manager'', 3), (''tool'', 4), (''agent'', 5), (''api'', 6),
        (''chat'', 7)] category of Some n \<Rightarrow> n | None \<Rightarrow> 8)"

definition is_lazy_category :: "string \<Rightarrow> bool" where
  "is_lazy_category category \<longleftrightarrow> category \<in> {''tool'', ''registry'', ''agent''}"

section \<open>Booting\<close>

datatype core_error =
    CoreConfig config_error
  | CoreAdopt string string
  | CoreLinker
  | CoreLoad string path string
  | CoreManifest string manifest_error
  | CoreUndeclared string string string
  | CoreApiVersion string string string string
  | CoreNoManifest string string
  | CoreInstantiate string
  | CoreLifecycle string string
  | CoreStore string
  | CoreCache path string
  | CoreLifecycleRejected string string string

datatype load_state = Compiled wasm_component | MissingAt path

record loaded_extension =
  le_instance :: extension_instance
  le_state :: load_state
  le_capabilities :: "string list option"

record runtime =
  rt_extensions :: "loaded_extension list"
  rt_agent :: json
  rt_ext_dir :: path

definition component_file :: "extension_instance \<Rightarrow> string" where
  "component_file i = ei_component i @ ''.wasm''"

definition join_path :: "path \<Rightarrow> string \<Rightarrow> path" where
  "join_path base s = (if is_absolute s then path_parts s else base @ path_parts s)"

definition read_bytes :: "disk \<Rightarrow> path \<Rightarrow> string option" where
  "read_bytes d p =
     (let q = dk_follow d p
      in if dk_refused d q then None else (case node_at d q of Some (NFile bytes) \<Rightarrow> Some bytes | _ \<Rightarrow> None))"

definition component_from_file :: "compiler \<Rightarrow> disk \<Rightarrow> path \<Rightarrow> string + wasm_component" where
  "component_from_file compile d p = try_then (ok_or ''failed to read'' (read_bytes d p)) compile"

definition load_instance ::
  "compiler \<Rightarrow> toml_parser \<Rightarrow> disk \<Rightarrow> path \<Rightarrow> extension_instance \<Rightarrow> bool \<Rightarrow> core_error + (load_state \<times> string list option)" where
  "load_instance compile toml d ext_dir i allow_unmanifested =
     (let p = join_path ext_dir (component_file i)
      in if \<not> path_exists d p then Inr (MissingAt p, None)
         else
           try_then (map_err (CoreLoad (ei_id i) p) (component_from_file compile d p)) (\<lambda>component.
           try_then (map_err (CoreManifest (ei_id i)) (inspect toml d component p)) (\<lambda>(capabilities, v).
             case v of
               ApiMismatch theirs \<Rightarrow> Inl (CoreApiVersion (ei_id i) (component_file i) theirs API_VERSION)
             | UnderDeclared interfaces \<Rightarrow>
                 Inl (CoreUndeclared (ei_id i) (component_file i) (join_with '', '' interfaces))
             | NoManifest \<Rightarrow>
                 (if \<not> allow_unmanifested then Inl (CoreNoManifest (ei_id i) (component_file i))
                  else Inr (Compiled component, Some capabilities))
             | Consistent \<Rightarrow> Inr (Compiled component, Some capabilities))))"

definition boot_order :: "extension_instance list \<Rightarrow> extension_instance list" where
  "boot_order = sort_key (\<lambda>i. (boot_rank (ei_category i), ei_id i))"

definition allow_unmanifested_of :: "json \<Rightarrow> bool" where
  "allow_unmanifested_of agent = (get_bool ''allow-unmanifested'' agent = Some True)"

definition load_all ::
  "compiler \<Rightarrow> toml_parser \<Rightarrow> disk \<Rightarrow> path \<Rightarrow> bool \<Rightarrow> extension_instance list \<Rightarrow> core_error + loaded_extension list" where
  "load_all compile toml d ext_dir allow order =
     collect_ok (map (\<lambda>i. map_ok (\<lambda>(s, c). \<lparr>le_instance = i, le_state = s, le_capabilities = c\<rparr>)
       (load_instance compile toml d ext_dir i allow)) order)"

text \<open>\<open>wasm_cache.rs\<close>: \<open>restrict\<close> sets the mode of the directory, \<open>engine\<close> is wasmtime's cache and engine on its
  canonical path.\<close>

definition resolve_cache_dir :: "path \<Rightarrow> json \<Rightarrow> path" where
  "resolve_cache_dir config_dir agent =
     (case Option.bind (jget ''storage'' agent) (get_str ''cache-dir'') of
        None \<Rightarrow> join_path config_dir ''wasmtime-cache''
      | Some dir \<Rightarrow> join_path config_dir dir)"

definition ensure_private_dir :: "(path \<Rightarrow> disk \<Rightarrow> bool) \<Rightarrow> path \<Rightarrow> disk \<Rightarrow> bool \<times> disk" where
  "ensure_private_dir restrict dir d =
     (case create_dir_all dir d of (False, d1) \<Rightarrow> (False, d1) | (True, d1) \<Rightarrow> (restrict dir d1, d1))"

definition build_engine ::
  "(path \<Rightarrow> disk \<Rightarrow> bool) \<Rightarrow> (path \<Rightarrow> string + unit) \<Rightarrow> path \<Rightarrow> json \<Rightarrow> disk \<Rightarrow> (core_error + unit) \<times> disk" where
  "build_engine restrict engine config_dir agent d =
     (let dir = resolve_cache_dir config_dir agent
      in case ensure_private_dir restrict dir d of
           (False, d1) \<Rightarrow> (Inl (CoreCache dir ''io''), d1)
         | (True, d1) \<Rightarrow> (map_err (CoreCache (dk_follow d1 dir)) (engine (dk_follow d1 dir)), d1))"

definition boot ::
  "compiler \<Rightarrow> toml_parser \<Rightarrow> (path \<Rightarrow> disk \<Rightarrow> bool) \<Rightarrow> (path \<Rightarrow> string + unit) \<Rightarrow> (string \<Rightarrow> string + json) \<Rightarrow> (string \<Rightarrow> string option)
     \<Rightarrow> path \<Rightarrow> path \<Rightarrow> disk \<Rightarrow> (core_error + runtime) \<times> disk" where
  "boot compile toml restrict engine yaml env config_path ext_dir d =
     (case map_err CoreConfig (from_path yaml env (map_err (\<lambda>_. ''io'') (read_to_string d config_path))) of
        Inl e \<Rightarrow> (Inl e, d)
      | Inr config \<Rightarrow>
          (case build_engine restrict engine (butlast config_path) (cf_agent config) d of
             (Inl e, d1) \<Rightarrow> (Inl e, d1)
           | (Inr _, d1) \<Rightarrow>
               (map_ok (\<lambda>exts. \<lparr>rt_extensions = exts, rt_agent = cf_agent config, rt_ext_dir = ext_dir\<rparr>)
                  (load_all compile toml d1 ext_dir (allow_unmanifested_of (cf_agent config))
                     (boot_order (enabled_of config))), d1)))"

section \<open>What was installed since\<close>

definition adopt_installed ::
  "compiler \<Rightarrow> toml_parser \<Rightarrow> disk \<Rightarrow> string \<Rightarrow> runtime \<Rightarrow> (core_error + string) \<times> runtime" where
  "adopt_installed compile toml d stem rt =
     (case map_err (CoreAdopt stem) (categorise stem) of
        Inl e \<Rightarrow> (Inl e, rt)
      | Inr (category, kind) \<Rightarrow>
          (let i = category @ ''.'' @ kind
           in if list_ex (\<lambda>e. ei_id (le_instance e) = i) (rt_extensions rt)
              then (Inl (CoreAdopt stem (bquote i @ '' is already loaded; nothing to adopt'')), rt)
              else
                (let inst = \<lparr>ei_id = i, ei_category = category, ei_name = kind, ei_kind = kind, ei_component = stem,
                   ei_enabled = True, ei_config = JObj []\<rparr>
                 in case load_instance compile toml d (rt_ext_dir rt) inst (allow_unmanifested_of (rt_agent rt)) of
                      Inl e \<Rightarrow> (Inl e, rt)
                    | Inr (MissingAt p, _) \<Rightarrow> (Inl (CoreAdopt stem (''nothing at '' @ path_text p)), rt)
                    | Inr (Compiled c, capabilities) \<Rightarrow>
                        (Inr i, rt\<lparr>rt_extensions := rt_extensions rt @
                          [\<lparr>le_instance = inst, le_state = Compiled c, le_capabilities = capabilities\<rparr>]\<rparr>))))"

section \<open>Starting\<close>

datatype life_answer = LifeOk | LifeTrapped | LifeRefused string

record 'w instance_life =
  il_instantiate :: "'w \<Rightarrow> bool \<times> 'w"
  il_init :: "'w \<Rightarrow> life_answer \<times> 'w"
  il_start :: "'w \<Rightarrow> life_answer \<times> 'w"

fun drive :: "string \<Rightarrow> life_answer \<Rightarrow> string \<Rightarrow> core_error + unit" where
  "drive i LifeOk step = Inr ()"
| "drive i LifeTrapped step = Inl (CoreLifecycle i step)"
| "drive i (LifeRefused message) step = Inl (CoreLifecycleRejected i step message)"

definition start_instance :: "string \<Rightarrow> 'w instance_life \<Rightarrow> 'w \<Rightarrow> (core_error + string) \<times> 'w" where
  "start_instance i g w =
     (case il_instantiate g w of
        (False, w1) \<Rightarrow> (Inl (CoreInstantiate i), w1)
      | (True, w1) \<Rightarrow>
          (case il_init g w1 of
             (a, w2) \<Rightarrow>
               (case drive i a ''init'' of
                  Inl e \<Rightarrow> (Inl e, w2)
                | Inr _ \<Rightarrow>
                    (case il_start g w2 of
                       (b, w3) \<Rightarrow> (map_ok (\<lambda>_. i) (drive i b ''start''), w3)))))"

text \<open>Which world an instance is instantiated against, and the section it is shown.\<close>

datatype world_kind = ToolWorld | SkillsWorld | McpWorld | InterceptorWorld | SharedWorld

definition world_of :: "extension_instance \<Rightarrow> world_kind" where
  "world_of i =
     (if ei_category i = ''tool'' then ToolWorld
      else if ei_category i = ''registry'' \<and> ei_kind i = ''skills'' then SkillsWorld
      else if ei_category i = ''registry'' \<and> ei_kind i = ''mcp'' then McpWorld
      else if ei_category i = ''interceptor'' then InterceptorWorld
      else SharedWorld)"

definition entry_or :: "string \<Rightarrow> json \<Rightarrow> (string \<times> json) list \<Rightarrow> (string \<times> json) list" where
  "entry_or key v fs = (case map_of fs key of Some _ \<Rightarrow> fs | None \<Rightarrow> insort_key fst (key, v) fs)"

definition interceptor_config :: "json \<Rightarrow> extension_instance \<Rightarrow> json" where
  "interceptor_config agent i =
     (case (ei_config i, agent) of
        (JObj fs, JObj keys) \<Rightarrow>
          JObj (fold (\<lambda>key fs. case map_of keys key of Some v \<Rightarrow> entry_or key v fs | None \<Rightarrow> fs)
            [''routing'', ''providers''] fs)
      | _ \<Rightarrow> ei_config i)"

type_synonym 'w guests = "world_kind \<Rightarrow> wasm_component \<Rightarrow> json \<Rightarrow> 'w instance_life"

definition start_one :: "'w guests \<Rightarrow> json \<Rightarrow> extension_instance \<Rightarrow> wasm_component \<Rightarrow> 'w \<Rightarrow> (core_error + string) \<times> 'w" where
  "start_one guest agent i c w =
     start_instance (ei_id i)
       (guest (world_of i) c
         (case world_of i of
            ToolWorld \<Rightarrow> JObj []
          | InterceptorWorld \<Rightarrow> interceptor_config agent i
          | _ \<Rightarrow> ei_config i)) w"

fun start_selected ::
  "'w guests \<Rightarrow> json \<Rightarrow> bool \<Rightarrow> loaded_extension list \<Rightarrow> 'w \<Rightarrow> (core_error + string list) \<times> 'w" where
  "start_selected guest agent skip_lazy [] w = (Inr [], w)"
| "start_selected guest agent skip_lazy (e # es) w =
     (case le_state e of
        MissingAt _ \<Rightarrow> start_selected guest agent skip_lazy es w
      | Compiled c \<Rightarrow>
          (if skip_lazy \<and> is_lazy_category (ei_category (le_instance e)) then start_selected guest agent skip_lazy es w
           else
             (case start_one guest agent (le_instance e) c w of
                (Inl err, w1) \<Rightarrow> (Inl err, w1)
              | (Inr i, w1) \<Rightarrow> apfst (map_ok (\<lambda>ids. i # ids)) (start_selected guest agent skip_lazy es w1))))"

definition start_all :: "'w guests \<Rightarrow> runtime \<Rightarrow> 'w \<Rightarrow> (core_error + string list) \<times> 'w" where
  "start_all guest rt = start_selected guest (rt_agent rt) True (rt_extensions rt)"

definition start_all_eager :: "'w guests \<Rightarrow> runtime \<Rightarrow> 'w \<Rightarrow> (core_error + string list) \<times> 'w" where
  "start_all_eager guest rt = start_selected guest (rt_agent rt) False (rt_extensions rt)"

section \<open>What may be loaded\<close>

lemma set_sorted_set [simp]: "set (sorted_set xs) = set xs"
  by (simp add: sorted_set_def)

lemma undeclared_Nil: "undeclared m is = [] \<longleftrightarrow> set is \<subseteq> set (mf_capabilities m)"
  by (auto simp: undeclared_def filter_empty_conv)

lemma verdict_of_Consistent:
  "verdict_of declared is = Consistent \<longleftrightarrow>
    (\<exists>m. declared = Some m \<and> api_compatible API_VERSION (mf_api_version m) \<and> set is \<subseteq> set (mf_capabilities m))"
  by (auto simp: verdict_of_def undeclared_Nil [symmetric] split: option.split list.split)

lemma verdict_of_NoManifest: "verdict_of declared is = NoManifest \<longleftrightarrow> declared = None"
  by (auto simp: verdict_of_def split: option.split list.split)

text \<open>What a loaded extension owes: the file is missing, or the manifest beside the component is compatible and declares
  every host interface it imports, or there is none and that is allowed.\<close>

definition loaded_soundly :: "toml_parser \<Rightarrow> disk \<Rightarrow> path \<Rightarrow> bool \<Rightarrow> loaded_extension \<Rightarrow> bool" where
  "loaded_soundly toml d ext_dir allow e \<longleftrightarrow>
     (let p = join_path ext_dir (component_file (le_instance e))
      in case le_state e of
           MissingAt q \<Rightarrow> q = p \<and> \<not> path_exists d p \<and> le_capabilities e = None
         | Compiled c \<Rightarrow>
             le_capabilities e = Some (host_capabilities c) \<and>
             (case manifest_beside toml d p of
                Inl _ \<Rightarrow> False
              | Inr None \<Rightarrow> allow
              | Inr (Some m) \<Rightarrow>
                  api_compatible API_VERSION (mf_api_version m) \<and>
                  set (host_capabilities c) \<subseteq> set (mf_capabilities m)))"

lemma map_err_eq_Inr: "map_err f r = Inr a \<longleftrightarrow> r = Inr a"
  by (cases r) auto

lemma load_instance_sound:
  assumes "load_instance compile toml d ext_dir i allow = Inr (s, caps)"
  shows "loaded_soundly toml d ext_dir allow \<lparr>le_instance = i, le_state = s, le_capabilities = caps\<rparr>"
proof (cases "path_exists d (join_path ext_dir (component_file i))")
  case False
  then show ?thesis using assms by (auto simp: load_instance_def loaded_soundly_def Let_def)
next
  case True
  then obtain c where c: "component_from_file compile d (join_path ext_dir (component_file i)) = Inr c"
    using assms by (auto simp: load_instance_def Let_def try_then_eq_Inr map_err_eq_Inr)
  then obtain found v where read: "inspect toml d c (join_path ext_dir (component_file i)) = Inr (found, v)"
    using assms True by (auto simp: load_instance_def Let_def try_then_eq_Inr map_err_eq_Inr)
  have s: "s = Compiled c" "caps = Some found" and v: "v = Consistent \<or> v = NoManifest \<and> allow"
    using assms True c read by (cases v; auto simp: load_instance_def Let_def split: if_splits)+
  from read obtain declared where "manifest_beside toml d (join_path ext_dir (component_file i)) = Inr declared"
      "found = host_capabilities c" "v = verdict_of declared found"
    by (auto simp: inspect_def Let_def map_ok_eq_Inr)
  with v s show ?thesis
    by (auto simp: loaded_soundly_def verdict_of_Consistent verdict_of_NoManifest
        dest: sym [of Consistent] sym [of NoManifest])
qed

lemma collect_ok_sound:
  "collect_ok (map f xs) = Inr ys \<Longrightarrow> list_all2 (\<lambda>x y. f x = Inr y) xs ys"
proof (induction xs arbitrary: ys)
  case Nil
  then show ?case by simp
next
  case (Cons x xs)
  then show ?case by (auto simp: try_then_eq_Inr map_ok_eq_Inr)
qed

lemma load_all_sound:
  assumes "load_all compile toml d ext_dir allow order = Inr es"
  shows "map le_instance es = order \<and> (\<forall>e \<in> set es. loaded_soundly toml d ext_dir allow e)"
proof -
  have rel: "list_all2 (\<lambda>i e. le_instance e = i \<and> loaded_soundly toml d ext_dir allow e) order es"
    using collect_ok_sound [OF assms [unfolded load_all_def]]
    by (rule list_all2_mono) (auto simp: map_ok_eq_Inr dest: load_instance_sound)
  then have "list_all2 (\<lambda>i e. le_instance e = i) order es" by (rule list_all2_mono) simp
  then have "map le_instance es = order"
    by (auto simp: list_all2_conv_all_nth intro: nth_equalityI)
  moreover have "loaded_soundly toml d ext_dir allow e" if "e \<in> set es" for e
    using rel that by (auto simp: list_all2_conv_all_nth in_set_conv_nth)
  ultimately show ?thesis by blast
qed

text \<open>C32 (booted_extensions_sound): Whatever boots is what the configuration enables, tier by tier (so providers come before the tools and
  agents that need them), and each component that was compiled either has a manifest beside it that this host's interfaces can
  serve and that declares every host interface the component imports, or has no manifest at all and the operator set
  \<open>allow-unmanifested: true\<close>; a component that was not found is recorded as missing.\<close>

theorem booted_extensions_sound:
  assumes "boot compile toml restrict engine yaml env config_path ext_dir d = (Inr rt, d1)"
  shows "sorted (map (\<lambda>e. boot_rank (ei_category (le_instance e))) (rt_extensions rt)) \<and>
    (\<exists>config. from_path yaml env (map_err (\<lambda>_. ''io'') (read_to_string d config_path)) = Inr config \<and>
       mset (map le_instance (rt_extensions rt)) = mset (enabled_of config)) \<and>
    (\<forall>e \<in> set (rt_extensions rt).
       loaded_soundly toml d1 ext_dir (allow_unmanifested_of (rt_agent rt)) e)"
proof -
  obtain config where config: "from_path yaml env (map_err (\<lambda>_. ''io'') (read_to_string d config_path)) = Inr config"
    and agent: "rt_agent rt = cf_agent config"
    and all: "load_all compile toml d1 ext_dir (allow_unmanifested_of (cf_agent config)) (boot_order (enabled_of config)) =
      Inr (rt_extensions rt)"
    using assms by (auto simp: boot_def map_ok_eq_Inr map_err_eq_Inr split: sum.splits prod.splits)
  note sound = load_all_sound [OF all]
  have ranks: "map (\<lambda>e. boot_rank (ei_category (le_instance e))) es =
      map (\<lambda>i. boot_rank (ei_category i)) (map le_instance es)" for es
    by simp
  have pairs: "sorted (map (\<lambda>i. (boot_rank (ei_category i), ei_id i)) (boot_order xs))" for xs
    by (simp add: boot_order_def)
  have "sorted (map (\<lambda>i. boot_rank (ei_category i)) (boot_order xs))" for xs
    using pairs [of xs] unfolding sorted_map
    by (rule sorted_wrt_mono_rel [rotated]) auto
  then have "sorted (map (\<lambda>e. boot_rank (ei_category (le_instance e))) (rt_extensions rt))"
    unfolding ranks using sound by simp
  moreover have "mset (map le_instance (rt_extensions rt)) = mset (enabled_of config)"
    using sound by (simp add: boot_order_def)
  ultimately show ?thesis using config sound agent by auto
qed

text \<open>A component installed while the host runs is held to the same check before it is adopted. A refused
  adoption changes nothing, and an accepted one adds exactly one extension, under an identifier nothing loaded had.\<close>

theorem adoption_keeps_runtime_sound:
  assumes "adopt_installed compile toml d stem rt = (r, rt1)"
  shows "(case r of
      Inl _ \<Rightarrow> rt1 = rt
    | Inr i \<Rightarrow>
        (\<exists>e. rt1 = rt\<lparr>rt_extensions := rt_extensions rt @ [e]\<rparr> \<and> ei_id (le_instance e) = i \<and>
           (\<forall>old \<in> set (rt_extensions rt). ei_id (le_instance old) \<noteq> i) \<and>
           ei_category (le_instance e) \<in> set CATEGORIES \<and>
           (\<exists>c. le_state e = Compiled c) \<and>
           loaded_soundly toml d (rt_ext_dir rt) (allow_unmanifested_of (rt_agent rt)) e))"
  using assms
  by (auto simp: adopt_installed_def categorise_def Let_def list_ex_iff map_err_eq_Inr
      split: sum.splits option.splits if_splits load_state.splits prod.splits dest!: load_instance_sound)

definition booting_disk :: disk where
  "booting_disk = small_disk [([], NDir), ([''config.yaml''], NFile ''''), ([''ext''], NDir),
     ([''ext'', ''tool-greet.wasm''], NFile ''wasm''), ([''ext'', ''tool-greet.manifest.toml''], NFile ''toml''),
     ([''ext'', ''tool-bash.wasm''], NFile ''wasm''), ([''ext'', ''tool-bash.manifest.toml''], NFile ''toml'')]"

definition booting_yaml :: "string \<Rightarrow> string + json" where
  "booting_yaml text = Inr (JObj [(''extensions'', JObj [(''tool'', JObj
     [(''bash'', JObj [(''enabled'', JBool False)]), (''greet'', JObj [(''enabled'', JBool True)])])])])"

definition fs_only :: compiler where
  "fs_only bytes = Inr \<lparr>wc_imports = [''wasi:io/streams@0.2.0'', ''jan-klod:interfaces/host-fs@0.4.0'']\<rparr>"

definition fs_toml :: toml_parser where
  "fs_toml text = Inr [(''api-version'', JStr ''0.4.1''), (''capabilities'', JArr [JStr ''host-fs'']), (''kind'', JStr ''tool''),
     (''name'', JStr ''t''), (''version'', JStr ''1'')]"

definition booting :: "(core_error + runtime) \<times> disk" where
  "booting = boot fs_only fs_toml (\<lambda>_ _. True) (\<lambda>_. Inr ()) booting_yaml (\<lambda>_. None) [''config.yaml''] [''ext''] booting_disk"

definition booted_runtime :: runtime where
  "booted_runtime = \<lparr>rt_extensions = [\<lparr>le_instance = \<lparr>ei_id = ''tool.greet'', ei_category = ''tool'', ei_name = ''greet'',
       ei_kind = ''greet'', ei_component = ''tool-greet'', ei_enabled = True, ei_config = JObj []\<rparr>,
     le_state = Compiled \<lparr>wc_imports = [''wasi:io/streams@0.2.0'', ''jan-klod:interfaces/host-fs@0.4.0'']\<rparr>,
     le_capabilities = Some [''host-fs'']\<rparr>], rt_agent = JObj [], rt_ext_dir = [''ext'']\<rparr>"

lemma booting_boots: "fst booting = Inr booted_runtime"
  by code_simp

theorem booted_extensions_sound_witness:
  "\<exists>d1. booting = (Inr booted_runtime, d1) \<and>
    sorted (map (\<lambda>e. boot_rank (ei_category (le_instance e))) (rt_extensions booted_runtime)) \<and>
    loaded_soundly fs_toml d1 [''ext''] False (hd (rt_extensions booted_runtime))"
proof -
  obtain d1 where b: "booting = (Inr booted_runtime, d1)"
    using booting_boots by (metis prod.collapse)
  have "\<not> allow_unmanifested_of (rt_agent booted_runtime)" by code_simp
  then have allow: "allow_unmanifested_of (rt_agent booted_runtime) = False" by simp
  have "hd (rt_extensions booted_runtime) \<in> set (rt_extensions booted_runtime)"
    by (simp add: booted_runtime_def)
  with booted_extensions_sound [OF b [unfolded booting_def]] b allow show ?thesis by auto
qed

theorem adoption_keeps_runtime_sound_witness:
  "\<exists>e. rt_extensions (snd (adopt_installed fs_only fs_toml booting_disk ''tool-bash'' booted_runtime)) =
    rt_extensions booted_runtime @ [e] \<and> ei_id (le_instance e) = ''tool.bash'' \<and>
    loaded_soundly fs_toml booting_disk [''ext''] False e"
proof -
  have "fst (adopt_installed fs_only fs_toml booting_disk ''tool-bash'' booted_runtime) = Inr ''tool.bash''"
    by code_simp
  then have "adopt_installed fs_only fs_toml booting_disk ''tool-bash'' booted_runtime =
      (Inr ''tool.bash'', snd (adopt_installed fs_only fs_toml booting_disk ''tool-bash'' booted_runtime))"
    by (metis prod.collapse)
  from adoption_keeps_runtime_sound [OF this]
  show ?thesis by (auto simp: booted_runtime_def allow_unmanifested_of_def get_bool_def)
qed

text \<open>C35 (adoption_revives_disabled): Adopting looks at the extensions that are loaded and not at the configuration. Whatever
  was booted, for every instance the configuration lists with \<open>enabled: false\<close> (and under whose id it enables no other), once its
  stem is installed and loads, adopting the stem succeeds and appends an extension under that very id that is enabled, and whose
  section is empty whatever the configuration gives that instance.\<close>

theorem adoption_revives_disabled:
  assumes "boot compile toml restrict engine yaml env config_path ext_dir d = (Inr rt, d1)"
    and "from_path yaml env (map_err (\<lambda>_. ''io'') (read_to_string d config_path)) = Inr config"
    and "off \<in> set (cf_instances config)" "\<not> ei_enabled off"
    and "\<forall>other \<in> set (cf_instances config). ei_enabled other \<longrightarrow> ei_id other \<noteq> ei_id off"
    and "categorise stem = Inr (category, kind)" "ei_id off = category @ ''.'' @ kind"
    and "load_instance compile toml d2 ext_dir \<lparr>ei_id = ei_id off, ei_category = category, ei_name = kind, ei_kind = kind,
      ei_component = stem, ei_enabled = True, ei_config = JObj []\<rparr> (allow_unmanifested_of (cf_agent config)) =
      Inr (Compiled c, capabilities)"
  shows "\<exists>e. adopt_installed compile toml d2 stem rt = (Inr (ei_id off), rt\<lparr>rt_extensions := rt_extensions rt @ [e]\<rparr>) \<and>
    ei_id (le_instance e) = ei_id off \<and> ei_enabled (le_instance e) \<and> ei_config (le_instance e) = JObj [] \<and>
    le_state e = Compiled c"
proof -
  have rt: "rt_agent rt = cf_agent config" "rt_ext_dir rt = ext_dir"
    and all: "load_all compile toml d1 ext_dir (allow_unmanifested_of (cf_agent config)) (boot_order (enabled_of config)) =
      Inr (rt_extensions rt)"
    using assms(1,2) by (auto simp: boot_def map_ok_eq_Inr map_err_eq_Inr split: sum.splits prod.splits)
  have "le_instance e \<in> set (enabled_of config)" if "e \<in> set (rt_extensions rt)" for e
  proof -
    have "le_instance e \<in> set (map le_instance (rt_extensions rt))" using that by simp
    then show ?thesis using load_all_sound [OF all] by (simp add: boot_order_def)
  qed
  then have "\<not> list_ex (\<lambda>e. ei_id (le_instance e) = ei_id off) (rt_extensions rt)"
    using assms(5) by (auto simp: list_ex_iff enabled_of_def)
  then show ?thesis
    using assms(6-8)
    by (intro exI [of _ "\<lparr>le_instance = \<lparr>ei_id = ei_id off, ei_category = category, ei_name = kind, ei_kind = kind,
      ei_component = stem, ei_enabled = True, ei_config = JObj []\<rparr>, le_state = Compiled c, le_capabilities = capabilities\<rparr>"])
      (simp add: adopt_installed_def rt Let_def)
qed

text \<open>\<open>start_all\<close> leaves the lazy categories alone: what it starts is the compiled rest, in order.\<close>

lemma start_selected_ids:
  "start_selected guest agent skip es w = (Inr ids, w1) \<Longrightarrow>
    ids = map (\<lambda>e. ei_id (le_instance e))
      (filter (\<lambda>e. (\<exists>c. le_state e = Compiled c) \<and> \<not> (skip \<and> is_lazy_category (ei_category (le_instance e)))) es)"
proof (induction es arbitrary: ids w)
  case Nil
  then show ?case by simp
next
  case (Cons e es)
  have started: "start_one guest agent i c v = (Inr r, v1) \<Longrightarrow> r = ei_id i" for i c v r v1
    by (auto simp: start_one_def start_instance_def map_ok_eq_Inr split: prod.splits bool.splits sum.splits)
  show ?case
  proof (cases "le_state e")
    case (MissingAt p)
    then show ?thesis using Cons by simp
  next
    case (Compiled c)
    show ?thesis
    proof (cases "skip \<and> is_lazy_category (ei_category (le_instance e))")
      case True
      then show ?thesis using Cons Compiled by simp
    next
      case False
      obtain r v where one: "start_one guest agent (le_instance e) c w = (r, v)" by (metis surj_pair)
      obtain rest v1 where rest: "start_selected guest agent skip es v = (rest, v1)" by (metis surj_pair)
      show ?thesis
        using Cons False Compiled one rest 
        by (cases r; cases rest) (auto dest: started)
    qed
  qed
qed

lemma boot_starts_no_lazy:
  "start_all guest rt w = (Inr ids, w1) \<Longrightarrow> i \<in> set ids \<Longrightarrow>
    \<exists>e \<in> set (rt_extensions rt). ei_id (le_instance e) = i \<and> \<not> is_lazy_category (ei_category (le_instance e))"
  unfolding start_all_def by (drule start_selected_ids) auto

theorem adoption_revives_disabled_witness:
  "\<exists>e. adopt_installed fs_only fs_toml booting_disk ''tool-bash'' booted_runtime =
      (Inr ''tool.bash'', booted_runtime\<lparr>rt_extensions := rt_extensions booted_runtime @ [e]\<rparr>) \<and>
    ei_enabled (le_instance e) \<and> ei_config (le_instance e) = JObj []"
proof -
  obtain d1 where b: "booting = (Inr booted_runtime, d1)"
    using booting_boots by (metis prod.collapse)
  let ?read = "map_err (\<lambda>_. ''io'') (read_to_string booting_disk [''config.yaml''])"
  obtain config where config: "from_path booting_yaml (\<lambda>_. None) ?read = Inr config"
    and ids: "map (\<lambda>i. (ei_id i, ei_enabled i)) (cf_instances config) = [(''tool.bash'', False), (''tool.greet'', True)]"
    and agent: "\<not> allow_unmanifested_of (cf_agent config)"
  proof -
    have "map_ok (\<lambda>config. (map (\<lambda>i. (ei_id i, ei_enabled i)) (cf_instances config), allow_unmanifested_of (cf_agent config)))
        (from_path booting_yaml (\<lambda>_. None) ?read) = Inr ([(''tool.bash'', False), (''tool.greet'', True)], False)"
      by code_simp
    then show thesis using that by (auto simp: map_ok_eq_Inr)
  qed
  obtain off rest where off: "cf_instances config = off # rest" "ei_id off = ''tool.bash''" "\<not> ei_enabled off"
      "map (\<lambda>i. (ei_id i, ei_enabled i)) rest = [(''tool.greet'', True)]"
    using ids by (cases "cf_instances config") auto
  have others: "\<forall>other \<in> set (cf_instances config). ei_enabled other \<longrightarrow> ei_id other \<noteq> ei_id off"
    using off by auto
  have stem: "categorise ''tool-bash'' = Inr (''tool'', ''bash'')" by code_simp
  have "map_ok fst (load_instance fs_only fs_toml booting_disk [''ext''] \<lparr>ei_id = ''tool.bash'', ei_category = ''tool'',
      ei_name = ''bash'', ei_kind = ''bash'', ei_component = ''tool-bash'', ei_enabled = True, ei_config = JObj []\<rparr> False) =
      Inr (Compiled \<lparr>wc_imports = [''wasi:io/streams@0.2.0'', ''jan-klod:interfaces/host-fs@0.4.0'']\<rparr>)"
    by code_simp
  then obtain c capabilities where loads: "load_instance fs_only fs_toml booting_disk [''ext''] \<lparr>ei_id = ''tool.bash'',
      ei_category = ''tool'', ei_name = ''bash'', ei_kind = ''bash'', ei_component = ''tool-bash'', ei_enabled = True,
      ei_config = JObj []\<rparr> False = Inr (Compiled c, capabilities)"
    by (auto simp: map_ok_eq_Inr)
  have "off \<in> set (cf_instances config)" using off(1) by simp
  from adoption_revives_disabled [OF b [unfolded booting_def] config this off(3) others stem, of booting_disk c capabilities]
    off(2) loads agent
  show ?thesis by auto
qed

end
