(* ===== verification/Registries.thy ===== *)
theory Registries
  imports ToolHost Ordered_Map
begin

text \<open>
  The two registries: Markdown skills of the workspace (\<open>extensions/registry-skills\<close>), tools of MCP servers
  (\<open>extensions/registry-mcp\<close>), and the fleet the host keeps of them (\<open>host/wasm/src/registry_host.rs\<close>). A call whose reply is
  awaited on a pipe may never come back, which is the value \<open>None\<close>. A guest of the fleet is a record of its exports.
\<close>

section \<open>Skills\<close>

record skill =
  sk_name :: string
  sk_description :: string
  sk_path :: string
  sk_body :: string

definition nl :: string where "nl = [newline]"
definition crlf :: string where "crlf = [CHR 0x0D, newline]"

definition strip_line_end :: "string \<Rightarrow> string option" where
  "strip_line_end s = (case strip_prefix nl s of Some r \<Rightarrow> Some r | None \<Rightarrow> strip_prefix crlf s)"

definition split_frontmatter :: "string \<Rightarrow> (string \<times> string) option" where
  "split_frontmatter content =
     Option.bind (strip_prefix ''---'' content) (\<lambda>r.
     Option.bind (strip_line_end r) (\<lambda>rest.
       map_option (\<lambda>(front, after). (front, case strip_line_end after of Some b \<Rightarrow> b | None \<Rightarrow> after))
         (split_once (newline # ''---'') rest)))"

definition trim_matches :: "char \<Rightarrow> string \<Rightarrow> string" where
  "trim_matches c s = rev (dropWhile (\<lambda>x. x = c) (rev (dropWhile (\<lambda>x. x = c) s)))"

fun yaml_line :: "string \<Rightarrow> string list \<Rightarrow> string option" where
  "yaml_line key [] = None"
| "yaml_line key (line # ls) =
     (case Option.bind (strip_prefix key line) (strip_prefix '':'') of
        Some val \<Rightarrow> Some (trim_matches (CHR 0x27) (trim_matches (CHR 0x22) (trim val)))
      | None \<Rightarrow> yaml_line key ls)"

definition yaml_str :: "string \<Rightarrow> string \<Rightarrow> string option" where
  "yaml_str front key = yaml_line key (str_lines front)"

definition skill_of :: "string \<Rightarrow> string \<Rightarrow> skill option" where
  "skill_of p content =
     Option.bind (split_frontmatter content) (\<lambda>(front, body).
       case yaml_str front ''name'' of
         None \<Rightarrow> None
       | Some n \<Rightarrow>
           (if n = [] then None
            else Some \<lparr>sk_name = n,
              sk_description = (case yaml_str front ''description'' of Some d \<Rightarrow> d | None \<Rightarrow> []),
              sk_path = p, sk_body = body\<rparr>))"

definition is_markdown :: "string \<Rightarrow> bool" where
  "is_markdown name \<longleftrightarrow> to_lower (last_piece CHR ''.'' name) = ''md''"

definition skills_in :: "'w host_fs \<Rightarrow> string \<Rightarrow> 'w \<Rightarrow> skill list" where
  "skills_in fs dir w =
     (case hf_list fs dir w of
        None \<Rightarrow> []
      | Some entries \<Rightarrow>
          List.map_filter (\<lambda>e.
            if de_is_dir e \<or> \<not> is_markdown (de_name e) then None
            else (let p = dir @ ''/'' @ de_name e in Option.bind (hf_read fs p w) (skill_of p)))
            entries)"

definition add_skills :: "skill list \<Rightarrow> (string, skill) btree \<Rightarrow> (string, skill) btree" where
  "add_skills sks m = fold (\<lambda>s. bt_insert (sk_name s) s) sks m"

definition load_skills :: "'w host_fs \<Rightarrow> 'w \<Rightarrow> skill list" where
  "load_skills fs w =
     map snd (add_skills (skills_in fs ''.agents/skills'' w) (add_skills (skills_in fs ''skills'' w) []))"

record skill_meta =
  sm_name :: string
  sm_description :: string
  sm_path :: string
  sm_schema :: string

datatype skill_error = SkillNotFound | SkillExecutionFailed | SkillBackend

definition skill_info :: "skill \<Rightarrow> skill_meta" where
  "skill_info s = \<lparr>sm_name = sk_name s, sm_description = sk_description s, sm_path = sk_path s, sm_schema = ''{}''\<rparr>"

definition list_skills :: "skill list \<Rightarrow> skill_meta list" where
  "list_skills sks = map skill_info sks"

definition find_skill :: "string \<Rightarrow> skill list \<Rightarrow> skill option" where
  "find_skill name sks = List.find (\<lambda>s. sk_name s = name) sks"

definition get_skill :: "string \<Rightarrow> skill list \<Rightarrow> skill_error + skill_meta" where
  "get_skill name sks = ok_or SkillNotFound (map_option skill_info (find_skill name sks))"

definition invoke_skill :: "string \<Rightarrow> string \<Rightarrow> skill list \<Rightarrow> skill_error + string" where
  "invoke_skill name arguments sks =
     (case find_skill name sks of
        None \<Rightarrow> Inl SkillNotFound
      | Some s \<Rightarrow>
          Inr (if arguments = [] \<or> arguments = ''{}'' then sk_body s
               else sk_body s @ nl @ nl @ ''<!-- arguments: '' @ arguments @ '' -->''))"

section \<open>MCP servers\<close>

datatype wire = OverHttp string | OverStdio nat

record mcp_tool =
  mt_name :: string
  mt_description :: string
  mt_input_schema :: string

record mcp_server =
  ms_id :: string
  ms_wire :: wire
  ms_status :: bool
  ms_tools :: "mcp_tool list"

fun transport_name :: "wire \<Rightarrow> string" where
  "transport_name (OverHttp _) = ''sse''"
| "transport_name (OverStdio _) = ''stdio''"

text \<open>What the guest is given, and what it keeps: the servers and the counter of requests, a \<open>u64\<close> that wraps.\<close>

record 'w mcp_host =
  mh_parse :: parser
  mh_render :: printer
  mh_http :: "'w host_http"
  mh_process :: "'w host_process"

type_synonym 'w rpc_state = "64 word \<times> 'w"

definition rpc_request :: "64 word \<Rightarrow> string \<Rightarrow> json option \<Rightarrow> json" where
  "rpc_request i method_name params =
     JObj ([(''id'', JInt (uint i)), (''jsonrpc'', JStr ''2.0''), (''method'', JStr method_name)] @
       (case params of None \<Rightarrow> [] | Some p \<Rightarrow> [(''params'', p)]))"

definition json_rpc_post ::
  "'w mcp_host \<Rightarrow> string \<Rightarrow> string \<Rightarrow> json option \<Rightarrow> 'w rpc_state \<Rightarrow> (string + json) \<times> 'w rpc_state" where
  "json_rpc_post h url method_name params = (\<lambda>(i, w).
     case mh_http h
         \<lparr>hq_method = ''POST'', hq_url = url, hq_headers = [(''Content-Type'', ''application/json'')],
          hq_body = Some (mh_render h (rpc_request i method_name params)), hq_timeout_ms = 10000\<rparr> w of
       (Inl _, w1) \<Rightarrow> (Inl ''fetch failed'', i + 1, w1)
     | (Inr resp, w1) \<Rightarrow> (mh_parse h (hr_body resp), i + 1, w1))"

definition STDIO_REPLY_BUDGET_MS :: nat where "STDIO_REPLY_BUDGET_MS = 10000"
definition STDIO_POLL_MS :: nat where "STDIO_POLL_MS = 200"

partial_function (option) await_reply ::
  "'w mcp_host \<Rightarrow> nat \<Rightarrow> string \<Rightarrow> nat \<Rightarrow> 'w \<Rightarrow> ((string + json) \<times> 'w) option" where
  "await_reply h child buffered waited w =
     (if waited < STDIO_REPLY_BUDGET_MS then
        (case hp_read_stdout (mh_process h) child 8192 STDIO_POLL_MS w of
           (None, w1) \<Rightarrow> Some (Inl ''read failed'', w1)
         | (Some chunk, w1) \<Rightarrow>
             (if chunk = [] then
                (if \<not> hp_is_running (mh_process h) child w1 then Some (Inl ''server exited'', w1)
                 else await_reply h child buffered (waited + STDIO_POLL_MS) w1)
              else
                (case split_once nl (buffered @ chunk) of
                   Some (line, _) \<Rightarrow> Some (map_err (\<lambda>e. ''malformed reply: '' @ e) (mh_parse h (trim line)), w1)
                 | None \<Rightarrow> await_reply h child (buffered @ chunk) waited w1)))
      else Some (Inl ''no reply within 10000ms'', w))"

definition json_rpc_stdio ::
  "'w mcp_host \<Rightarrow> nat \<Rightarrow> string \<Rightarrow> json option \<Rightarrow> 'w rpc_state \<Rightarrow> ((string + json) \<times> 'w rpc_state) option" where
  "json_rpc_stdio h child method_name params = (\<lambda>(i, w).
     case hp_write_stdin (mh_process h) child (mh_render h (rpc_request i method_name params) @ nl) w of
       (False, w1) \<Rightarrow> Some (Inl ''write failed'', i + 1, w1)
     | (True, w1) \<Rightarrow> map_option (\<lambda>(r, w2). (r, i + 1, w2)) (await_reply h child [] 0 w1))"

fun json_rpc ::
  "'w mcp_host \<Rightarrow> wire \<Rightarrow> string \<Rightarrow> json option \<Rightarrow> 'w rpc_state \<Rightarrow> ((string + json) \<times> 'w rpc_state) option" where
  "json_rpc h (OverHttp url) method_name params s = Some (json_rpc_post h url method_name params s)"
| "json_rpc h (OverStdio child) method_name params s = json_rpc_stdio h child method_name params s"

definition str_in :: "string \<Rightarrow> json \<Rightarrow> string" where
  "str_in key v = (case get_str key v of Some s \<Rightarrow> s | None \<Rightarrow> [])"

definition tools_of :: "printer \<Rightarrow> json \<Rightarrow> mcp_tool list" where
  "tools_of render resp =
     (case Option.bind (Option.bind (jget ''result'' resp) (jget ''tools'')) as_array of
        None \<Rightarrow> []
      | Some items \<Rightarrow>
          filter (\<lambda>t. mt_name t \<noteq> [])
            (map (\<lambda>t. \<lparr>mt_name = str_in ''name'' t, mt_description = str_in ''description'' t,
               mt_input_schema = (case jget ''inputSchema'' t of Some v \<Rightarrow> render v | None \<Rightarrow> ''{}'')\<rparr>) items))"

definition connect_over ::
  "'w mcp_host \<Rightarrow> string \<Rightarrow> wire \<Rightarrow> 'w rpc_state \<Rightarrow> (mcp_server \<times> 'w rpc_state) option" where
  "connect_over h i wr s =
     map_option (apfst (\<lambda>r. case r of
         Inr resp \<Rightarrow> \<lparr>ms_id = i, ms_wire = wr, ms_status = True, ms_tools = tools_of (mh_render h) resp\<rparr>
       | Inl _ \<Rightarrow> \<lparr>ms_id = i, ms_wire = wr, ms_status = False, ms_tools = []\<rparr>))
       (json_rpc h wr ''tools/list'' None s)"

definition initialize_params :: json where
  "initialize_params = JObj
     [(''capabilities'', JObj []),
      (''clientInfo'', JObj [(''name'', JStr ''jan-klod''), (''version'', JStr ''0.1.0'')]),
      (''protocolVersion'', JStr ''2024-11-05'')]"

definition connect_stdio ::
  "'w mcp_host \<Rightarrow> string \<Rightarrow> string \<Rightarrow> 'w rpc_state \<Rightarrow> (mcp_server \<times> 'w rpc_state) option" where
  "connect_stdio h i child_name = (\<lambda>(n, w).
     case hp_spawn (mh_process h) child_name w of
       (Inl _, w1) \<Rightarrow> Some (\<lparr>ms_id = i, ms_wire = OverStdio 0, ms_status = False, ms_tools = []\<rparr>, n, w1)
     | (Inr child, w1) \<Rightarrow>
         Option.bind (json_rpc h (OverStdio child) ''initialize'' (Some initialize_params) (n, w1)) (\<lambda>(r, s1).
           case r of
             Inl _ \<Rightarrow> Some (\<lparr>ms_id = i, ms_wire = OverStdio child, ms_status = False, ms_tools = []\<rparr>, s1)
           | Inr _ \<Rightarrow> connect_over h i (OverStdio child) s1))"

text \<open>What an entry of \<open>servers\<close> asks for: nothing, a child, or an address.\<close>

definition wanted_wire :: "json \<Rightarrow> (string \<times> (string + string)) option" where
  "wanted_wire entry =
     (let i = str_in ''name'' entry; transport = str_in ''transport'' entry; url = str_in ''url'' entry
      in if i = [] then None
         else if transport = ''stdio'' then
           Some (i, Inl (let child = str_in ''child'' entry in if child = [] then i else child))
         else if url = [] then None
         else if transport \<notin> {''sse'', ''streamable-http'', []} then None
         else Some (i, Inr url))"

fun connect_all :: "'w mcp_host \<Rightarrow> json list \<Rightarrow> 'w rpc_state \<Rightarrow> (mcp_server list \<times> 'w rpc_state) option" where
  "connect_all h [] s = Some ([], s)"
| "connect_all h (entry # es) s =
     (case wanted_wire entry of
        None \<Rightarrow> connect_all h es s
      | Some (i, target) \<Rightarrow>
          Option.bind
            (case target of Inl child \<Rightarrow> connect_stdio h i child s | Inr url \<Rightarrow> connect_over h i (OverHttp url) s)
            (\<lambda>(server, s1). map_option (apfst (Cons server)) (connect_all h es s1)))"

definition mcp_init :: "'w mcp_host \<Rightarrow> string \<Rightarrow> 'w rpc_state \<Rightarrow> (mcp_server list \<times> 'w rpc_state) option" where
  "mcp_init h raw s =
     (let config = (case mh_parse h raw of Inr v \<Rightarrow> v | Inl _ \<Rightarrow> JNull)
      in connect_all h (case get_array ''servers'' config of Some es \<Rightarrow> es | None \<Rightarrow> []) s)"

definition mcp_health :: "mcp_server list \<Rightarrow> bool" where
  "mcp_health servers \<longleftrightarrow> list_ex ms_status servers"

datatype mcp_error = McpServerNotFound | McpServerDown | McpToolNotFound | McpInvocationFailed | McpBackend

record server_info =
  si_id :: string
  si_connected :: bool
  si_transport :: string
  si_tool_count :: nat

definition list_servers :: "mcp_server list \<Rightarrow> server_info list" where
  "list_servers servers =
     map (\<lambda>s. \<lparr>si_id = ms_id s, si_connected = ms_status s, si_transport = transport_name (ms_wire s),
       si_tool_count = min (length (ms_tools s)) (2 ^ 32 - 1)\<rparr>) servers"

record tool_info =
  ti_name :: string
  ti_description :: string
  ti_server_id :: string
  ti_input_schema :: string

definition mcp_list_tools :: "mcp_server list \<Rightarrow> tool_info list" where
  "mcp_list_tools servers =
     concat (map (\<lambda>s. map (\<lambda>t. \<lparr>ti_name = mt_name t, ti_description = mt_description t, ti_server_id = ms_id s,
       ti_input_schema = mt_input_schema t\<rparr>) (ms_tools s)) (filter ms_status servers))"

text \<open>\<open>split("::").last()\<close>.\<close>

lemma split_once_shorter: "split_once sep s = Some (a, b) \<Longrightarrow> sep \<noteq> [] \<Longrightarrow> length b < length s"
  by (induction s arbitrary: a) (auto split: if_splits)

function last_after :: "string \<Rightarrow> string \<Rightarrow> string" where
  "last_after sep s =
     (if sep = [] then s else (case split_once sep s of None \<Rightarrow> s | Some (_, r) \<Rightarrow> last_after sep r))"
  by pat_completeness auto
termination
  by (relation "measure (\<lambda>(_, s). length s)") (auto dest: split_once_shorter)

declare last_after.simps [simp del]

definition mcp_target :: "string \<Rightarrow> mcp_server list \<Rightarrow> wire option" where
  "mcp_target name servers =
     map_option ms_wire
       (List.find (\<lambda>s. ms_status s \<and> list_ex (\<lambda>t. mt_name t = last_after ''::'' name) (ms_tools s)) servers)"

definition mcp_result :: "printer \<Rightarrow> json \<Rightarrow> mcp_error + string" where
  "mcp_result render resp =
     (if jget ''error'' resp \<noteq> None then Inl McpInvocationFailed
      else
        Inr (case Option.bind (jget ''result'' resp) (jget ''content'') of
               Some v \<Rightarrow> render v
             | None \<Rightarrow> (case jget ''result'' resp of Some v \<Rightarrow> render v | None \<Rightarrow> ''{}'')))"

definition mcp_invoke_tool ::
  "'w mcp_host \<Rightarrow> mcp_server list \<Rightarrow> string \<Rightarrow> string \<Rightarrow> 'w rpc_state \<Rightarrow> ((mcp_error + string) \<times> 'w rpc_state) option" where
  "mcp_invoke_tool h servers name arguments s =
     (case mcp_target name servers of
        None \<Rightarrow> Some (Inl McpToolNotFound, s)
      | Some wr \<Rightarrow>
          (let args = (case mh_parse h arguments of Inr v \<Rightarrow> v | Inl _ \<Rightarrow> JObj []);
               params = JObj [(''arguments'', args), (''name'', JStr (last_after ''::'' name))]
           in map_option (apfst (\<lambda>r. case r of
                  Inl _ \<Rightarrow> Inl McpInvocationFailed
                | Inr resp \<Rightarrow> mcp_result (mh_render h) resp))
                (json_rpc h wr ''tools/call'' (Some params) s)))"

fun position_of :: "('a \<Rightarrow> bool) \<Rightarrow> 'a list \<Rightarrow> nat option" where
  "position_of p [] = None"
| "position_of p (x # xs) = (if p x then Some 0 else map_option Suc (position_of p xs))"

definition mcp_reconnect ::
  "'w mcp_host \<Rightarrow> string \<Rightarrow> mcp_server list \<Rightarrow> 'w rpc_state \<Rightarrow> ((mcp_error + unit) \<times> mcp_server list \<times> 'w rpc_state) option" where
  "mcp_reconnect h server_id servers s =
     (case position_of (\<lambda>srv. ms_id srv = server_id) servers of
        None \<Rightarrow> Some (Inl McpServerNotFound, servers, s)
      | Some i \<Rightarrow>
          map_option (\<lambda>(updated, s1). (Inr (), servers[i := updated], s1))
            (connect_over h server_id (ms_wire (servers ! i)) s))"

section \<open>What a registry is given by the host\<close>

text \<open>The section is looked up by its own keys only, not along a path.\<close>

definition section_get :: "printer \<Rightarrow> json \<Rightarrow> string \<Rightarrow> string option" where
  "section_get render v key = map_option (\<lambda>u. case u of JStr s \<Rightarrow> s | _ \<Rightarrow> render u) (jget key v)"

definition section_has :: "json \<Rightarrow> string \<Rightarrow> bool" where
  "section_has v key \<longleftrightarrow> jget key v \<noteq> None"

definition skills_fs :: "(string \<Rightarrow> string) \<Rightarrow> path option \<Rightarrow> disk host_fs" where
  "skills_fs lossy ws = tool_fs lossy ws"

definition mcp_process :: "(string \<Rightarrow> string) \<Rightarrow> 'w os \<Rightarrow> process_runner \<Rightarrow> (children \<times> 'w) host_process" where
  "mcp_process lossy os r = (tool_process lossy os r)\<lparr>hp_exec := (\<lambda>_ _ _ _ s. (Inl ProcDenied, s))\<rparr>"

section \<open>The fleet of registries\<close>

datatype ('e, 'a) guest_reply = GuestTrapped | GuestErr 'e | GuestOk 'a

record 'w skills_guest =
  sg_id :: string
  sg_list :: "'w \<Rightarrow> (skill_error, skill_meta list) guest_reply \<times> 'w"
  sg_invoke :: "string \<Rightarrow> string \<Rightarrow> 'w \<Rightarrow> (skill_error, string) guest_reply \<times> 'w"

record 'w mcp_guest =
  mx_id :: string
  mx_list :: "'w \<Rightarrow> (mcp_error, tool_info list) guest_reply \<times> 'w"
  mx_invoke :: "string \<Rightarrow> string \<Rightarrow> 'w \<Rightarrow> (mcp_error, string) guest_reply \<times> 'w"

type_synonym reg_meta = "string \<times> string \<times> string"

definition ext_list_skills :: "'w skills_guest \<Rightarrow> 'w \<Rightarrow> reg_meta list \<times> 'w" where
  "ext_list_skills g w =
     (case sg_list g w of
        (GuestOk sks, w1) \<Rightarrow> (map (\<lambda>m. (sm_name m, sm_description m, sm_schema m)) sks, w1)
      | (_, w1) \<Rightarrow> ([], w1))"

definition ext_invoke_skill ::
  "(skill_error \<Rightarrow> string) \<Rightarrow> 'w skills_guest \<Rightarrow> string \<Rightarrow> string \<Rightarrow> 'w \<Rightarrow> (string + string) \<times> 'w" where
  "ext_invoke_skill show_err g name arguments w =
     (case sg_invoke g name arguments w of
        (GuestOk r, w1) \<Rightarrow> (Inr r, w1)
      | (GuestErr e, w1) \<Rightarrow> (Inl (''skill '' @ bquote name @ '' error: '' @ show_err e), w1)
      | (GuestTrapped, w1) \<Rightarrow> (Inl (''skill '' @ bquote name @ '' trapped''), w1))"

definition ext_list_tools :: "'w mcp_guest \<Rightarrow> 'w \<Rightarrow> reg_meta list \<times> 'w" where
  "ext_list_tools g w =
     (case mx_list g w of
        (GuestOk ts, w1) \<Rightarrow>
          (map (\<lambda>t. (ti_server_id t @ ''::'' @ ti_name t, ti_description t, ti_input_schema t)) ts, w1)
      | (_, w1) \<Rightarrow> ([], w1))"

definition ext_invoke_tool ::
  "(mcp_error \<Rightarrow> string) \<Rightarrow> 'w mcp_guest \<Rightarrow> string \<Rightarrow> string \<Rightarrow> 'w \<Rightarrow> (string + string) \<times> 'w" where
  "ext_invoke_tool show_err g qualified_name arguments w =
     (case mx_invoke g (last_after ''::'' qualified_name) arguments w of
        (GuestOk r, w1) \<Rightarrow> (Inr r, w1)
      | (GuestErr e, w1) \<Rightarrow> (Inl (''mcp tool '' @ bquote qualified_name @ '' error: '' @ show_err e), w1)
      | (GuestTrapped, w1) \<Rightarrow> (Inl (''mcp tool '' @ bquote qualified_name @ '' trapped''), w1))"

record 'w registry_fleet =
  rf_skills :: "'w skills_guest list"
  rf_mcp :: "'w mcp_guest list"
  rf_skill_names :: "(string \<times> nat) list"
  rf_mcp_names :: "(string \<times> nat) list"

text \<open>Listing every guest in turn, with its position.\<close>

fun list_all_from :: "('g \<Rightarrow> 'w \<Rightarrow> reg_meta list \<times> 'w) \<Rightarrow> nat \<Rightarrow> 'g list \<Rightarrow> 'w \<Rightarrow> (reg_meta \<times> nat) list \<times> 'w" where
  "list_all_from ls i [] w = ([], w)"
| "list_all_from ls i (g # gs) w =
     (case ls g w of
        (ms, w1) \<Rightarrow> (case list_all_from ls (i + 1) gs w1 of (rest, w2) \<Rightarrow> (map (\<lambda>m. (m, i)) ms @ rest, w2)))"

definition refresh_cache :: "'w registry_fleet \<times> 'w \<Rightarrow> 'w registry_fleet \<times> 'w" where
  "refresh_cache = (\<lambda>(f, w).
     case list_all_from ext_list_skills 0 (rf_skills f) w of
       (sks, w1) \<Rightarrow>
         (case list_all_from ext_list_tools 0 (rf_mcp f) w1 of
            (ts, w2) \<Rightarrow>
              (f\<lparr>rf_skill_names := map (\<lambda>(m, i). (fst m, i)) sks, rf_mcp_names := map (\<lambda>(m, i). (fst m, i)) ts\<rparr>, w2)))"

definition registry_fleet_new :: "'w skills_guest list \<Rightarrow> 'w mcp_guest list \<Rightarrow> 'w \<Rightarrow> 'w registry_fleet \<times> 'w" where
  "registry_fleet_new sks ms w =
     refresh_cache (\<lparr>rf_skills = sks, rf_mcp = ms, rf_skill_names = [], rf_mcp_names = []\<rparr>, w)"

definition remember_names :: "(reg_meta \<times> nat) list \<Rightarrow> (string \<times> nat) list \<Rightarrow> (string \<times> nat) list" where
  "remember_names ms names =
     fold (\<lambda>(m, i) ns. if fst m \<in> fst ` set ns then ns else ns @ [(fst m, i)]) ms names"

definition skill_metas :: "'w registry_fleet \<times> 'w \<Rightarrow> reg_meta list \<times> 'w registry_fleet \<times> 'w" where
  "skill_metas = (\<lambda>(f, w).
     case list_all_from ext_list_skills 0 (rf_skills f) w of
       (ms, w1) \<Rightarrow> (map fst ms, f\<lparr>rf_skill_names := remember_names ms (rf_skill_names f)\<rparr>, w1))"

definition mcp_metas :: "'w registry_fleet \<times> 'w \<Rightarrow> reg_meta list \<times> 'w registry_fleet \<times> 'w" where
  "mcp_metas = (\<lambda>(f, w).
     case list_all_from ext_list_tools 0 (rf_mcp f) w of
       (ms, w1) \<Rightarrow> (map fst ms, f\<lparr>rf_mcp_names := remember_names ms (rf_mcp_names f)\<rparr>, w1))"

definition registry_metas :: "'w registry_fleet \<times> 'w \<Rightarrow> reg_meta list \<times> 'w registry_fleet \<times> 'w" where
  "registry_metas s =
     (case skill_metas s of (a, s1) \<Rightarrow> (case mcp_metas s1 of (b, s2) \<Rightarrow> (a @ b, s2)))"

record registry_errors =
  re_skill :: "skill_error \<Rightarrow> string"
  re_mcp :: "mcp_error \<Rightarrow> string"

definition registry_invoke ::
  "registry_errors \<Rightarrow> tool_call \<Rightarrow> 'w registry_fleet \<times> 'w \<Rightarrow> tool_invocation option \<times> 'w registry_fleet \<times> 'w" where
  "registry_invoke e call = (\<lambda>(f, w).
     case map_of (rf_skill_names f) (tc_name call) of
       Some i \<Rightarrow>
         (case ext_invoke_skill (re_skill e) (rf_skills f ! i) (tc_name call) (tc_arguments call) w of
            (r, w1) \<Rightarrow> (Some (invocation_of r), f, w1))
     | None \<Rightarrow>
         (case map_of (rf_mcp_names f) (tc_name call) of
            Some i \<Rightarrow>
              (case ext_invoke_tool (re_mcp e) (rf_mcp f ! i) (tc_name call) (tc_arguments call) w of
                 (r, w1) \<Rightarrow> (Some (invocation_of r), f, w1))
          | None \<Rightarrow> (None, f, w)))"

section \<open>The lazy fleet of registries\<close>

record 'w lazy_registries =
  lr_skills :: "('w \<Rightarrow> (string + 'w skills_guest) \<times> 'w) list"
  lr_mcp :: "('w \<Rightarrow> (string + 'w mcp_guest) \<times> 'w) list"
  lr_live :: "'w registry_fleet option"

definition lazy_registries_new :: "'w lazy_registries" where
  "lazy_registries_new = \<lparr>lr_skills = [], lr_mcp = [], lr_live = None\<rparr>"

definition push_skills :: "('w \<Rightarrow> (string + 'w skills_guest) \<times> 'w) \<Rightarrow> 'w lazy_registries \<Rightarrow> 'w lazy_registries" where
  "push_skills p lr = lr\<lparr>lr_skills := lr_skills lr @ [p]\<rparr>"

definition push_mcp :: "('w \<Rightarrow> (string + 'w mcp_guest) \<times> 'w) \<Rightarrow> 'w lazy_registries \<Rightarrow> 'w lazy_registries" where
  "push_mcp p lr = lr\<lparr>lr_mcp := lr_mcp lr @ [p]\<rparr>"

fun bring_up :: "('w \<Rightarrow> (string + 'g) \<times> 'w) list \<Rightarrow> 'w \<Rightarrow> (string + 'g list) \<times> 'w" where
  "bring_up [] w = (Inr [], w)"
| "bring_up (p # ps) w =
     (case p w of
        (Inl e, w1) \<Rightarrow> (Inl e, w1)
      | (Inr g, w1) \<Rightarrow> (case bring_up ps w1 of (res, w2) \<Rightarrow> (map_ok (Cons g) res, w2)))"

definition ensure_registries ::
  "'w lazy_registries \<times> 'w \<Rightarrow> (string + 'w registry_fleet) \<times> 'w lazy_registries \<times> 'w" where
  "ensure_registries = (\<lambda>(lr, w).
     case lr_live lr of
       Some f \<Rightarrow> (Inr f, lr, w)
     | None \<Rightarrow>
         (case bring_up (lr_skills lr) w of
            (Inl e, w1) \<Rightarrow> (Inl e, lr\<lparr>lr_skills := []\<rparr>, w1)
          | (Inr sks, w1) \<Rightarrow>
              (case bring_up (lr_mcp lr) w1 of
                 (Inl e, w2) \<Rightarrow> (Inl e, lr\<lparr>lr_skills := [], lr_mcp := []\<rparr>, w2)
               | (Inr ms, w2) \<Rightarrow>
                   (case registry_fleet_new sks ms w2 of
                      (f, w3) \<Rightarrow> (Inr f, lr\<lparr>lr_skills := [], lr_mcp := [], lr_live := Some f\<rparr>, w3)))))"

definition lazy_registry_metas ::
  "'w lazy_registries \<times> 'w \<Rightarrow> (string + reg_meta list) \<times> 'w lazy_registries \<times> 'w" where
  "lazy_registry_metas s =
     (case ensure_registries s of
        (Inl e, s1) \<Rightarrow> (Inl e, s1)
      | (Inr f, lr, w) \<Rightarrow>
          (case registry_metas (f, w) of (ms, f1, w1) \<Rightarrow> (Inr ms, lr\<lparr>lr_live := Some f1\<rparr>, w1)))"

definition lazy_registry_invoke ::
  "registry_errors \<Rightarrow> tool_call \<Rightarrow> 'w lazy_registries \<times> 'w \<Rightarrow> tool_invocation option \<times> 'w lazy_registries \<times> 'w" where
  "lazy_registry_invoke e call s =
     (case ensure_registries s of
        (Inl err, s1) \<Rightarrow>
          (Some \<lparr>inv_content = ''registry fleet failed to instantiate: '' @ err, inv_failed = True\<rparr>, s1)
      | (Inr f, lr, w) \<Rightarrow>
          (case registry_invoke e call (f, w) of (r, f1, w1) \<Rightarrow> (r, lr\<lparr>lr_live := Some f1\<rparr>, w1)))"

section \<open>Which skill, which server\<close>

lemma map_of_add_skills:
  "map_of (add_skills sks m) n = (case List.find (\<lambda>s. sk_name s = n) (rev sks) of Some s \<Rightarrow> Some s | None \<Rightarrow> map_of m n)"
  by (induction sks arbitrary: m rule: rev_induct) (auto simp: add_skills_def)

lemma add_skills_keys:
  "list_all (\<lambda>(n, s). sk_name s = n) m \<Longrightarrow> list_all (\<lambda>(n, s). sk_name s = n) (add_skills sks m)"
proof (induction sks arbitrary: m)
  case (Cons s sks)
  have "list_all (\<lambda>(n, s). sk_name s = n) (bt_insert (sk_name s) s m)"
    using Cons.prems set_bt_insert [of "sk_name s" s m] by (fastforce simp: list_all_iff)
  then show ?case using Cons.IH by (simp add: add_skills_def)
qed (simp add: add_skills_def)

lemma find_by_key:
  "list_all (\<lambda>(n, s). sk_name s = n) m \<Longrightarrow> find_skill n (map snd m) = map_of m n"
  by (induction m) (auto simp: find_skill_def)

text \<open>What a skill's name leads to after loading: the last file of \<open>.agents/skills\<close> that declares it, and only where
  none does, the last of \<open>skills\<close>. So a skill of the workspace is never replaced by a bundled one.\<close>

theorem workspace_skill_wins:
  "find_skill n (load_skills fs w) =
     (case List.find (\<lambda>s. sk_name s = n) (rev (skills_in fs ''.agents/skills'' w)) of
        Some s \<Rightarrow> Some s
      | None \<Rightarrow> List.find (\<lambda>s. sk_name s = n) (rev (skills_in fs ''skills'' w))) \<and>
   sorted_wrt (<) (map sk_name (load_skills fs w))"
proof -
  let ?m = "add_skills (skills_in fs ''.agents/skills'' w) (add_skills (skills_in fs ''skills'' w) [])"
  have keys: "list_all (\<lambda>(n, s). sk_name s = n) ?m" by (intro add_skills_keys) simp
  have wf: "bt_wf m \<Longrightarrow> bt_wf (add_skills sks m)" for sks m
    by (induction sks arbitrary: m) (auto simp: add_skills_def)
  have names: "map sk_name (map snd ?m) = map fst ?m" using keys by (auto simp: list_all_iff)
  have "bt_wf ?m" by (intro wf) simp
  then have "sorted_wrt (<) (map sk_name (load_skills fs w))"
    unfolding load_skills_def names by (simp add: bt_wf_def)
  moreover have "find_skill n (load_skills fs w) = map_of ?m n"
    unfolding load_skills_def by (rule find_by_key [OF keys])
  ultimately show ?thesis by (simp add: map_of_add_skills split: option.split)
qed

text \<open>A tool is called under its server's name, but that part of the name decides nothing: the call goes to
  the first connected server that has a tool of the bare name, whichever server the caller named.\<close>

lemma split_once_free: "split_once sep s = None \<Longrightarrow> sep \<noteq> [] \<Longrightarrow> last_after sep s = s"
  by (subst last_after.simps) simp

lemma split_once_sep:
  "CHR '':'' \<notin> set a \<Longrightarrow> split_once ''::'' (a @ ''::'' @ b) = Some (a, b)"
  by (induction a) (auto simp: starts_with_def)

lemma split_once_no_colon: "CHR '':'' \<notin> set b \<Longrightarrow> split_once ''::'' b = None"
  by (induction b) (auto simp: starts_with_def)

lemma last_after_qualified:
  assumes "CHR '':'' \<notin> set a" "CHR '':'' \<notin> set b"
  shows "last_after ''::'' (a @ ''::'' @ b) = b"
  using assms split_once_free [of "''::''" b]
  by (subst last_after.simps) (simp add: split_once_sep split_once_no_colon del: append.simps)

theorem mcp_name_goes_to_first:
  assumes "servers = before @ first # after" "list_all (\<lambda>s. \<not> ms_status s) before"
    and "ms_status first" "list_ex (\<lambda>t. mt_name t = tool) (ms_tools first)"
    and "CHR '':'' \<notin> set server" "CHR '':'' \<notin> set tool"
  shows "mcp_target (last_after ''::'' (server @ ''::'' @ tool)) servers = Some (ms_wire first)"
proof -
  have bare: "last_after ''::'' tool = tool"
    using assms(6) by (intro split_once_free split_once_no_colon) auto
  have "List.find P (before @ first # after) = Some first" if "P first" "list_all (\<lambda>s. \<not> P s) before" for P
    using that by (induction before) auto
  from this [of "\<lambda>s. ms_status s \<and> list_ex (\<lambda>t. mt_name t = tool) (ms_tools s)"] show ?thesis
    using assms(1-4) last_after_qualified [OF assms(5,6)] bare
    by (auto simp: mcp_target_def list_all_iff simp del: append.simps)
qed

definition two_servers :: "mcp_server list" where
  "two_servers =
     [\<lparr>ms_id = ''dev'', ms_wire = OverHttp ''http://dev'', ms_status = True,
       ms_tools = [\<lparr>mt_name = ''drop'', mt_description = [], mt_input_schema = ''{}''\<rparr>]\<rparr>,
      \<lparr>ms_id = ''prod'', ms_wire = OverHttp ''http://prod'', ms_status = True,
       ms_tools = [\<lparr>mt_name = ''drop'', mt_description = [], mt_input_schema = ''{}''\<rparr>]\<rparr>]"

theorem mcp_name_goes_to_first_witness:
  "map (\<lambda>t. (ti_server_id t, ti_name t)) (mcp_list_tools two_servers) = [(''dev'', ''drop''), (''prod'', ''drop'')] \<and>
   mcp_target (last_after ''::'' (''prod'' @ ''::'' @ ''drop'')) two_servers = Some (OverHttp ''http://dev'')"
proof
  show "map (\<lambda>t. (ti_server_id t, ti_name t)) (mcp_list_tools two_servers) = [(''dev'', ''drop''), (''prod'', ''drop'')]"
    by (simp add: mcp_list_tools_def two_servers_def)
  have "mcp_target (last_after ''::'' (''prod'' @ ''::'' @ ''drop'')) two_servers = Some (ms_wire (hd two_servers))"
    by (rule mcp_name_goes_to_first [where before = "[]" and after = "tl two_servers"])
      (simp_all add: two_servers_def)
  then show "mcp_target (last_after ''::'' (''prod'' @ ''::'' @ ''drop'')) two_servers = Some (OverHttp ''http://dev'')"
    by (simp add: two_servers_def)
qed

text \<open>Over a pipe the first line the server has written is taken as the reply, whatever request it
  answers: its \<open>id\<close> is never looked at, and what came after it in the same read is thrown away, so a late reply is the
  answer to the next call and a second reply in one read is lost.\<close>

theorem reply_not_matched:
  assumes "hp_write_stdin (mh_process h) child (mh_render h (rpc_request i method_name params) @ nl) w = (True, w1)"
    and "hp_read_stdout (mh_process h) child 8192 200 w1 = (Some (line @ nl @ rest), w2)"
    and "newline \<notin> set line" "mh_parse h (trim line) = Inr reply"
  shows "json_rpc_stdio h child method_name params (i, w) = Some (Inr reply, i + 1, w2)"
proof -
  have "split_once nl (line @ nl @ rest) = Some (line, rest)"
    using assms(3) by (induction line) (auto simp: nl_def starts_with_def)
  then have "await_reply h child [] 0 w1 = Some (Inr reply, w2)"
    using assms(2,4)
    by (subst await_reply.simps) (simp add: STDIO_REPLY_BUDGET_MS_def STDIO_POLL_MS_def nl_def)
  then show ?thesis using assms(1) by (simp add: json_rpc_stdio_def)
qed

definition chatty :: "nat mcp_host" where
  "chatty = \<lparr>mh_parse = (\<lambda>s. Inr (JStr s)), mh_render = (\<lambda>_. ''{}''), mh_http = (\<lambda>_ w. (Inl HBackend, w)),
     mh_process = \<lparr>hp_exec = (\<lambda>_ _ _ _ w. (Inl ProcDenied, w)), hp_granted = (\<lambda>_. []),
       hp_spawn = (\<lambda>_ w. (Inr 1, w)), hp_write_stdin = (\<lambda>_ _ w. (True, w)),
       hp_read_stdout = (\<lambda>_ _ _ w. (Some (''one'' @ nl @ ''two'' @ nl), w + 1)),
       hp_is_running = (\<lambda>_ _. True), hp_kill = (\<lambda>_ w. w)\<rparr>\<rparr>"

theorem reply_not_matched_witness:
  "json_rpc_stdio chatty 1 ''tools/call'' None (7, 0) = Some (Inr (JStr ''one''), 8, 1) \<and>
   json_rpc_stdio chatty 1 ''tools/list'' None (8, 1) = Some (Inr (JStr ''one''), 9, 2)"
proof -
  have t: "trim ''one'' = ''one''" by code_simp
  have "json_rpc_stdio chatty 1 m None (i, w) = Some (Inr (JStr ''one''), i + 1, w + 1)" for m i w
    using reply_not_matched [of chatty 1 i m None w w "''one''" "''two'' @ nl" "w + 1" "JStr ''one''"] t
    by (simp add: chatty_def newline_def)
  from this [of "''tools/call''" 7 0] this [of "''tools/list''" 8 1] show ?thesis by simp
qed

text \<open>C40 (chatty_server_hangs): The budget only counts reads that bring nothing: a server that keeps writing without ending a line is read
  for ever, and the call never returns.\<close>

definition endless :: "nat mcp_host" where
  "endless = chatty\<lparr>mh_process := (mh_process chatty)\<lparr>hp_read_stdout := (\<lambda>_ _ _ w. (Some ''.'', w + 1))\<rparr>\<rparr>"

lemma dots_no_line: "split_once nl (replicate n (CHR ''.'') @ ''.'') = None"
  by (induction n) (auto simp: nl_def newline_def starts_with_def)

lemma await_endless:
  assumes "await_reply h child buffered waited w = Some r"
  shows "h = endless \<and> waited = 0 \<longrightarrow> (\<forall>n. buffered \<noteq> replicate n (CHR ''.''))"
proof (rule await_reply.raw_induct [OF _ assms], intro impI allI notI, goal_cases)
  case (1 await_reply h child buffered waited w r n)
  from 1(1) [of h child "buffered @ ''.''" 0 "w + 1" r] have
    "await_reply h child (buffered @ ''.'') 0 (w + 1) \<noteq> Some r"
    using 1(3,4) by (metis append_Cons append_Nil replicate_Suc replicate_append_same)
  then show False
    using 1(2-4) dots_no_line [of n]
    by (simp add: STDIO_REPLY_BUDGET_MS_def endless_def chatty_def)
qed

theorem chatty_server_hangs:
  "json_rpc_stdio endless child method_name params s = None"
proof (cases s)
  case (Pair i w)
  have "await_reply endless child [] 0 w = None"
    using await_endless [of endless child "[]" 0 w] by (metis not_None_eq replicate_0)
  then show ?thesis by (simp add: json_rpc_stdio_def Pair endless_def chatty_def)
qed

end
