(* ===== verification/Installer.thy ===== *)
theory Installer
  imports Boot ToolHost
begin

text \<open>
  Installing, listing and removing components (\<open>host/wasm/src/ext.rs\<close>), the index they are published in
  (\<open>ext_index.rs\<close>) and the two tools the host offers for it (\<open>native_tools.rs\<close>), over the disk of \<open>HostFs\<close>. SHA-256, minisign, the URL
  parser and wasmtime's compiler are parameters. A path given as text is resolved against the working directory.
\<close>

section \<open>The rest of the standard library's file operations\<close>

text \<open>Removing and renaming act on the entry itself: only the directories above it are followed.\<close>

definition own_place :: "disk \<Rightarrow> path \<Rightarrow> path" where
  "own_place d p = (if p = [] then [] else dk_follow d (butlast p) @ [last p])"

definition drop_nodes :: "(path \<Rightarrow> bool) \<Rightarrow> disk \<Rightarrow> disk" where
  "drop_nodes gone d = d\<lparr>dk_nodes := filter (\<lambda>(q, _). \<not> gone q) (dk_nodes d)\<rparr>"

definition remove_file :: "path \<Rightarrow> disk \<Rightarrow> bool \<times> disk" where
  "remove_file p d =
     (let q = own_place d p
      in if dk_refused d q \<or> \<not> is_file d q then (False, d) else (True, drop_nodes (\<lambda>r. r = q) d))"

definition remove_dir_all :: "path \<Rightarrow> disk \<Rightarrow> bool \<times> disk" where
  "remove_dir_all p d =
     (let q = own_place d p
      in if dk_refused d q \<or> node_at d q \<noteq> Some NDir then (False, d) else (True, drop_nodes (prefix q) d))"

definition remove_dir :: "path \<Rightarrow> disk \<Rightarrow> bool \<times> disk" where
  "remove_dir p d =
     (let q = own_place d p
      in if dk_refused d q \<or> node_at d q \<noteq> Some NDir \<or> children_of d q \<noteq> [] then (False, d)
         else (True, drop_nodes (\<lambda>r. r = q) d))"

definition copy_file :: "path \<Rightarrow> path \<Rightarrow> disk \<Rightarrow> bool \<times> disk" where
  "copy_file src dst d = (case read_bytes d src of None \<Rightarrow> (False, d) | Some bytes \<Rightarrow> write_file dst bytes d)"

definition rename_file :: "path \<Rightarrow> path \<Rightarrow> disk \<Rightarrow> bool \<times> disk" where
  "rename_file a b d =
     (let p = own_place d a; q = own_place d b
      in case node_at d p of
           Some (NFile bytes) \<Rightarrow>
             (if dk_refused d p \<or> dk_refused d q \<or> q = [] \<or> node_at d (butlast q) \<noteq> Some NDir \<or> node_at d q = Some NDir
              then (False, d)
              else (True, put_node q (NFile bytes) (drop_nodes (\<lambda>r. r = p) d)))
         | _ \<Rightarrow> (False, d))"

section \<open>Checks\<close>

record checks =
  ck_sha256 :: "string option"
  ck_trusted_keys :: "string list"
  ck_allow_unsigned :: bool

datatype ext_error =
    XUnreadable path | XUncategorised string | XNotInstalled string path | XUndeletable path
  | XRefusedByPolicy string wire_error | XOpaqueUrl string | XFetch string string | XNotAWasm string
  | XSourceMissing path | XAlreadyInstalled string path | XMalformedDigest string nat
  | XDigestMismatch path string string | XConfig path config_error | XTrustedKeysNotAList
  | XMalformedTrustedKey nat string | XUnsigned path | XMalformedSignature path string
  | XUntrusted path nat | XDigestRequired | XNotAComponent path string | XNoManifest path
  | XManifestUnusable path manifest_error | XApiMismatch path string string
  | XUnderDeclared path string | XStaging path | XLanding path

definition checks_from_config :: "json option \<Rightarrow> ext_error + checks" where
  "checks_from_config registry =
     map_ok (\<lambda>keys. \<lparr>ck_sha256 = None, ck_trusted_keys = keys, ck_allow_unsigned = False\<rparr>)
       (case Option.bind registry (jget ''trusted-keys'') of
          None \<Rightarrow> Inr []
        | Some (JArr items) \<Rightarrow> collect_ok (map (\<lambda>v. ok_or XTrustedKeysNotAList (as_str v)) items)
        | Some _ \<Rightarrow> Inl XTrustedKeysNotAList)"

definition checks_from_path :: "(string \<Rightarrow> string + json) \<Rightarrow> disk \<Rightarrow> path \<Rightarrow> ext_error + checks" where
  "checks_from_path yaml d p =
     (case read_to_string d p of
        Inl _ \<Rightarrow> Inl (XConfig p (ConfigUnreadable ''io''))
      | Inr text \<Rightarrow>
          try_then (map_err (XConfig p) (top_level yaml text ''registry'')) checks_from_config)"

text \<open>\<open>hex\<close>, and a digest as text.\<close>

definition hex_bytes :: "string \<Rightarrow> string" where
  "hex_bytes bytes = concat (map (\<lambda>c. [hex_digit (of_char c div 16), hex_digit (of_char c mod 16)]) bytes)"

definition is_hex :: "char \<Rightarrow> bool" where
  "is_hex c \<longleftrightarrow> (let n = (of_char c :: nat) in (48 \<le> n \<and> n \<le> 57) \<or> (65 \<le> n \<and> n \<le> 70) \<or> (97 \<le> n \<and> n \<le> 102))"

definition looks_like_a_digest :: "string \<Rightarrow> bool" where
  "looks_like_a_digest t \<longleftrightarrow> length t = 64 \<and> list_all is_hex t"

record ('k, 's) crypto =
  cr_sha256 :: "string \<Rightarrow> string"
  cr_signature :: "string \<Rightarrow> string + 's"
  cr_key :: "string \<Rightarrow> string + 'k"
  cr_verify :: "'k \<Rightarrow> string \<Rightarrow> 's \<Rightarrow> bool"

definition verify_digest :: "('k, 's) crypto \<Rightarrow> disk \<Rightarrow> path \<Rightarrow> path \<Rightarrow> string option \<Rightarrow> ext_error + unit" where
  "verify_digest cr d staged shown expected =
     (case expected of
        None \<Rightarrow> Inr ()
      | Some e \<Rightarrow>
          (if \<not> looks_like_a_digest e then Inl (XMalformedDigest e (length e))
           else
             (case read_bytes d staged of
                None \<Rightarrow> Inl (XStaging staged)
              | Some bytes \<Rightarrow>
                  (let actual = hex_bytes (cr_sha256 cr bytes)
                   in if to_lower actual = to_lower e then Inr ()
                      else Inl (XDigestMismatch shown (to_lower e) actual)))))"

definition signature_path :: "path \<Rightarrow> path" where
  "signature_path p = butlast p @ [last p @ ''.minisig'']"

text \<open>The keys in turn: one that cannot be read ends the loop, one that verifies accepts.\<close>

fun try_keys :: "('k, 's) crypto \<Rightarrow> string \<Rightarrow> 's \<Rightarrow> nat \<Rightarrow> string list \<Rightarrow> ext_error + bool" where
  "try_keys cr bytes s i [] = Inr False"
| "try_keys cr bytes s i (key # ks) =
     (case cr_key cr (trim key) of
        Inl detail \<Rightarrow> Inl (XMalformedTrustedKey i detail)
      | Inr k \<Rightarrow> (if cr_verify cr k bytes s then Inr True else try_keys cr bytes s (i + 1) ks))"

definition verify_signature ::
  "('k, 's) crypto \<Rightarrow> disk \<Rightarrow> path \<Rightarrow> path \<Rightarrow> string list \<Rightarrow> ext_error + unit" where
  "verify_signature cr d content beside keys =
     (let signature = signature_path beside
      in if \<not> path_exists d signature then Inl (XUnsigned beside)
         else
           try_then (map_err (\<lambda>_. XMalformedSignature beside ''io'') (read_to_string d signature)) (\<lambda>text.
           try_then (map_err (XMalformedSignature beside) (cr_signature cr text)) (\<lambda>parsed.
           try_then (ok_or (XMalformedSignature beside ''io'') (read_bytes d content)) (\<lambda>bytes.
           try_then (try_keys cr bytes parsed 0 keys) (\<lambda>ok.
             if ok then Inr () else Inl (XUntrusted beside (length keys)))))))"

definition check_structure :: "compiler \<Rightarrow> toml_parser \<Rightarrow> disk \<Rightarrow> path \<Rightarrow> path \<Rightarrow> ext_error + unit" where
  "check_structure compile toml d staged shown =
     try_then (map_err (XNotAComponent shown) (component_from_file compile d staged)) (\<lambda>component.
     try_then (map_err (XManifestUnusable shown) (inspect toml d component staged)) (\<lambda>(_, v).
       case v of
         Consistent \<Rightarrow> Inr ()
       | NoManifest \<Rightarrow> Inl (XNoManifest shown)
       | ApiMismatch theirs \<Rightarrow> Inl (XApiMismatch shown theirs API_VERSION)
       | UnderDeclared interfaces \<Rightarrow> Inl (XUnderDeclared shown (join_with '', '' interfaces))))"

section \<open>Installing\<close>

datatype ext_declaration = DeclPresent manifest | DeclAbsent | DeclBroken manifest_error

record installed =
  in_name :: string
  in_component :: path
  in_declaration :: ext_declaration

definition declaration_of :: "toml_parser \<Rightarrow> disk \<Rightarrow> path \<Rightarrow> ext_declaration" where
  "declaration_of toml d p =
     (case manifest_beside toml d p of
        Inr (Some m) \<Rightarrow> DeclPresent m | Inr None \<Rightarrow> DeclAbsent | Inl e \<Rightarrow> DeclBroken e)"

definition file_extension :: "string \<Rightarrow> string option" where
  "file_extension name = (case rsplit_once CHR ''.'' name of Some (stem, e) \<Rightarrow> if stem = [] then None else Some e | None \<Rightarrow> None)"

definition STAGING :: string where "STAGING = ''.staging''"

definition in_ext :: "path \<Rightarrow> string \<Rightarrow> path" where
  "in_ext dir name = dir @ [name @ ''.wasm'']"

definition stage_and_check ::
  "('k, 's) crypto \<Rightarrow> compiler \<Rightarrow> toml_parser \<Rightarrow> path \<Rightarrow> path \<Rightarrow> string \<Rightarrow> checks \<Rightarrow> disk \<Rightarrow> (ext_error + installed) \<times> disk" where
  "stage_and_check cr compile toml dir source name ck d =
     (let staging = dir @ [STAGING, name]; staged = in_ext staging name
      in case copy_file source staged d of
           (False, d1) \<Rightarrow> (Inl (XStaging staged), d1)
         | (True, d1) \<Rightarrow>
             (case verify_digest cr d1 staged source (ck_sha256 ck) of
                Inl e \<Rightarrow> (Inl e, d1)
              | Inr _ \<Rightarrow>
                  (let source_manifest = manifest_path source; staged_manifest = manifest_path staged
                   in if \<not> path_exists d1 source_manifest then (Inl (XNoManifest source), d1)
                      else
                        (case copy_file source_manifest staged_manifest d1 of
                           (False, d2) \<Rightarrow> (Inl (XStaging staged_manifest), d2)
                         | (True, d2) \<Rightarrow>
                             (case (if ck_allow_unsigned ck then Inr ()
                                 else try_then (verify_signature cr d2 staged source (ck_trusted_keys ck)) (\<lambda>_.
                                   verify_signature cr d2 staged_manifest source_manifest (ck_trusted_keys ck))) of
                                Inl e \<Rightarrow> (Inl e, d2)
                              | Inr _ \<Rightarrow>
                                  (case check_structure compile toml d2 staged source of
                                     Inl e \<Rightarrow> (Inl e, d2)
                                   | Inr _ \<Rightarrow>
                                       (let landed = in_ext dir name; landed_manifest = manifest_path landed
                                        in case rename_file staged_manifest landed_manifest d2 of
                                             (False, d3) \<Rightarrow> (Inl (XLanding landed_manifest), d3)
                                           | (True, d3) \<Rightarrow>
                                               (case rename_file staged landed d3 of
                                                  (False, d4) \<Rightarrow>
                                                    (Inl (XLanding landed), snd (remove_file landed_manifest d4))
                                                | (True, d4) \<Rightarrow>
                                                    (Inr \<lparr>in_name = name, in_component = landed,
                                                       in_declaration = declaration_of toml d4 landed\<rparr>, d4)))))))))"

definition install ::
  "('k, 's) crypto \<Rightarrow> compiler \<Rightarrow> toml_parser \<Rightarrow> path \<Rightarrow> path \<Rightarrow> checks \<Rightarrow> disk \<Rightarrow> (ext_error + installed) \<times> disk" where
  "install cr compile toml dir source ck d =
     (if ck_allow_unsigned ck \<and> ck_sha256 ck = None then (Inl XDigestRequired, d)
      else if \<not> path_exists d source then (Inl (XSourceMissing source), d)
      else if source = [] \<or> file_extension (last source) \<noteq> Some ''wasm'' then (Inl (XNotAWasm (path_text source)), d)
      else
        (let name = file_stem (last source)
         in case categorise name of
              Inl reason \<Rightarrow> (Inl (XUncategorised reason), d)
            | Inr _ \<Rightarrow>
                (if path_exists d (in_ext dir name) then (Inl (XAlreadyInstalled name dir), d)
                 else
                   (let staging = dir @ [STAGING, name]
                    in case create_dir_all staging (snd (remove_dir_all staging d)) of
                         (False, d1) \<Rightarrow> (Inl (XStaging staging), d1)
                       | (True, d1) \<Rightarrow>
                           (case stage_and_check cr compile toml dir source name ck d1 of
                              (outcome, d2) \<Rightarrow>
                                (outcome, snd (remove_dir (dir @ [STAGING]) (snd (remove_dir_all staging d2)))))))))"

section \<open>Listing and removing\<close>

definition list_installed :: "(string \<Rightarrow> string) \<Rightarrow> toml_parser \<Rightarrow> path \<Rightarrow> disk \<Rightarrow> ext_error + installed list" where
  "list_installed lossy toml dir d =
     (if \<not> path_exists d dir then Inr []
      else
        map_ok (\<lambda>es. sort_key in_name
            (map (\<lambda>n. \<lparr>in_name = lossy (file_stem n), in_component = dir @ [n],
                in_declaration = declaration_of toml d (dir @ [n])\<rparr>)
              (filter (\<lambda>n. file_extension n = Some ''wasm'') (map fst es))))
          (map_err (\<lambda>_. XUnreadable dir) (read_dir d dir)))"

datatype removed = RemovedBoth | RemovedComponent | RemovedManifest

definition remove_installed :: "path \<Rightarrow> string \<Rightarrow> disk \<Rightarrow> (ext_error + removed) \<times> disk" where
  "remove_installed dir name d =
     (let component = join_path dir (name @ ''.wasm''); man = manifest_path component;
          had_component = path_exists d component; had_manifest = path_exists d man
      in if \<not> had_component \<and> \<not> had_manifest then (Inl (XNotInstalled name dir), d)
         else
           (case (if had_component then remove_file component d else (True, d)) of
              (False, d1) \<Rightarrow> (Inl (XUndeletable component), d1)
            | (True, d1) \<Rightarrow>
                (case (if had_manifest then remove_file man d1 else (True, d1)) of
                   (False, d2) \<Rightarrow> (Inl (XUndeletable man), d2)
                 | (True, d2) \<Rightarrow>
                     (Inr (if had_component then (if had_manifest then RemovedBoth else RemovedComponent)
                           else RemovedManifest), d2))))"

section \<open>From an address\<close>

definition looks_remote :: "string \<Rightarrow> bool" where
  "looks_remote spec \<longleftrightarrow> (let lower = to_lower spec in starts_with ''http://'' lower \<or> starts_with ''https://'' lower)"

definition check_remote ::
  "(string \<Rightarrow> ip_addr option) \<Rightarrow> (string \<Rightarrow> nat \<Rightarrow> socket_addr list option) \<Rightarrow> string \<Rightarrow> ext_error + unit" where
  "check_remote parse_ip lookup url =
     (case check parse_ip lookup public_only url of Inl e \<Rightarrow> Inl (XRefusedByPolicy url e) | Inr _ \<Rightarrow> Inr ())"

text \<open>What the URL parser says of an address.\<close>

record url_view =
  uv_has_query :: bool
  uv_has_fragment :: bool
  uv_segments :: "string list option"
  uv_join :: "string \<Rightarrow> string option"

definition wanted_files :: "(string \<Rightarrow> url_view option) \<Rightarrow> string \<Rightarrow> bool \<Rightarrow> ext_error + (string \<times> string) list" where
  "wanted_files url_parse url allow_unsigned =
     (case url_parse url of
        None \<Rightarrow> Inl (XNotAWasm url)
      | Some parsed \<Rightarrow>
          (if uv_has_query parsed \<or> uv_has_fragment parsed then Inl (XOpaqueUrl url)
           else
             (let segments = (case uv_segments parsed of Some ss \<Rightarrow> ss | None \<Rightarrow> []);
                  file = (if segments = [] then [] else last segments)
              in case strip_suffix ''.wasm'' file of
                   None \<Rightarrow> Inl (XNotAWasm url)
                 | Some name \<Rightarrow>
                     (if name = [] then Inl (XNotAWasm url)
                      else
                        (let component = name @ ''.wasm''; man = name @ ''.manifest.toml'';
                             files = [component, man] @
                               (if allow_unsigned then [] else [component @ ''.minisig'', man @ ''.minisig''])
                         in collect_ok (map (\<lambda>f. map_ok (\<lambda>r. (r, f)) (ok_or (XNotAWasm url) (uv_join parsed f))) files))))))"

record 'w remote =
  rm_parse_ip :: "string \<Rightarrow> ip_addr option"
  rm_lookup :: "string \<Rightarrow> nat \<Rightarrow> socket_addr list option"
  rm_url :: "string \<Rightarrow> url_view option"
  rm_http :: "'w http_fn"
  rm_show :: "wire_error \<Rightarrow> string"
  rm_temp :: path

fun fetch_each ::
  "'w remote \<Rightarrow> path \<Rightarrow> (string \<times> string) list \<Rightarrow> disk \<Rightarrow> 'w \<Rightarrow> (ext_error + unit) \<times> disk \<times> 'w" where
  "fetch_each rm incoming [] d w = (Inr (), d, w)"
| "fetch_each rm incoming ((url, file_name) # fs) d w =
     (case check_remote (rm_parse_ip rm) (rm_lookup rm) url of
        Inl e \<Rightarrow> (Inl e, d, w)
      | Inr _ \<Rightarrow>
          (case rm_http rm ''GET'' url [] None 0 w of
             (Inl e, w1) \<Rightarrow> (Inl (XFetch url (rm_show rm e)), d, w1)
           | (Inr response, w1) \<Rightarrow>
               (if wr_status response \<noteq> 200 then
                  (Inl (XFetch url (''answered '' @ show_nat (unat (wr_status response)))), d, w1)
                else
                  (case write_file (join_path incoming file_name) (wr_body response) d of
                     (False, d1) \<Rightarrow> (Inl (XStaging (join_path incoming file_name)), d1, w1)
                   | (True, d1) \<Rightarrow> fetch_each rm incoming fs d1 w1))))"

definition fetch_all ::
  "'w remote \<Rightarrow> path \<Rightarrow> (string \<times> string) list \<Rightarrow> disk \<Rightarrow> 'w \<Rightarrow> (ext_error + string) \<times> disk \<times> 'w" where
  "fetch_all rm incoming files d w =
     (case fetch_each rm incoming files d w of
        (Inl e, s) \<Rightarrow> (Inl e, s)
      | (Inr _, s) \<Rightarrow>
          (case files of (_, f) # _ \<Rightarrow> (Inr f, s) | [] \<Rightarrow> (Inl (XFetch [] ''nothing to fetch''), s)))"

text \<open>The directory a fetch goes to has the process in its name and a number of its own.\<close>

definition staging_dir :: "path \<Rightarrow> nat \<Rightarrow> nat \<Rightarrow> path" where
  "staging_dir temp pid n = temp @ [''jk-ext-fetch-'' @ show_nat pid @ ''-'' @ show_nat n]"

record ('k, 's, 'w) installer =
  it_crypto :: "('k, 's) crypto"
  it_compile :: compiler
  it_toml :: toml_parser
  it_remote :: "'w remote"
  it_restrict :: "path \<Rightarrow> disk \<Rightarrow> bool"
  it_pid :: nat

record 'w ext_world =
  ew_disk :: disk
  ew_next :: nat
  ew_outside :: 'w

definition install_from_url ::
  "('k, 's, 'w) installer \<Rightarrow> path \<Rightarrow> string \<Rightarrow> checks \<Rightarrow> 'w ext_world \<Rightarrow> (ext_error + installed) \<times> 'w ext_world" where
  "install_from_url it dir url ck e =
     (case wanted_files (rm_url (it_remote it)) url (ck_allow_unsigned ck) of
        Inl err \<Rightarrow> (Inl err, e)
      | Inr files \<Rightarrow>
          (let incoming = staging_dir (rm_temp (it_remote it)) (it_pid it) (ew_next e);
               e1 = e\<lparr>ew_next := ew_next e + 1\<rparr>
           in case ensure_private_dir (it_restrict it) incoming (snd (remove_dir_all incoming (ew_disk e))) of
                (False, d1) \<Rightarrow> (Inl (XStaging incoming), e1\<lparr>ew_disk := d1\<rparr>)
              | (True, d1) \<Rightarrow>
                  (case fetch_all (it_remote it) incoming files d1 (ew_outside e) of
                     (got, d2, w2) \<Rightarrow>
                       (case (case got of
                           Inl err \<Rightarrow> (Inl err, d2)
                         | Inr f \<Rightarrow> install (it_crypto it) (it_compile it) (it_toml it) dir (join_path incoming f) ck d2) of
                          (outcome, d3) \<Rightarrow>
                            (outcome, e1\<lparr>ew_disk := snd (remove_dir_all incoming d3), ew_outside := w2\<rparr>)))))"

section \<open>The index\<close>

definition INDEX_VERSION :: nat where "INDEX_VERSION = 1"

record index_entry =
  ie_name :: string
  ie_version :: string
  ie_api_version :: string
  ie_kind :: string
  ie_capabilities :: "string list"
  ie_description :: string
  ie_author :: string
  ie_url :: string
  ie_sha256 :: string
  ie_signature :: string
  ie_size :: nat

datatype index_error =
    INoUrl path | IUrlNotAString | IConfig path config_error | IUnreadable string | IFetch string string
  | IMalformed string string | IUnknownVersion string nat nat | IMissingField string nat string
  | INotListed string string nat | IDigestDisagrees string string string | IInstall ext_error

definition url_from_config :: "json option \<Rightarrow> index_error + string option" where
  "url_from_config registry =
     (case Option.bind registry (jget ''url'') of
        None \<Rightarrow> Inr None
      | Some (JStr url) \<Rightarrow> Inr (Some url)
      | Some _ \<Rightarrow> Inl IUrlNotAString)"

definition url_from_config_path :: "(string \<Rightarrow> string + json) \<Rightarrow> disk \<Rightarrow> path \<Rightarrow> index_error + string" where
  "url_from_config_path yaml d p =
     (case read_to_string d p of
        Inl _ \<Rightarrow> Inl (IConfig p (ConfigUnreadable ''io''))
      | Inr text \<Rightarrow>
          try_then (map_err (IConfig p) (top_level yaml text ''registry'')) (\<lambda>registry.
          try_then (url_from_config registry) (ok_or (INoUrl p))))"

definition entry_from :: "string \<Rightarrow> nat \<Rightarrow> json \<Rightarrow> index_error + index_entry" where
  "entry_from source position item =
     (let required = (\<lambda>field. ok_or (IMissingField source position field) (get_str field item));
          opt = (\<lambda>field. case get_str field item of Some t \<Rightarrow> t | None \<Rightarrow> [])
      in try_then (ok_or (IMissingField source position ''capabilities'') (get_array ''capabilities'' item)) (\<lambda>caps.
         try_then (required ''name'') (\<lambda>name.
         try_then (required ''version'') (\<lambda>version.
         try_then (required ''api-version'') (\<lambda>api.
         try_then (required ''kind'') (\<lambda>kind.
         try_then (required ''url'') (\<lambda>url.
         try_then (required ''sha256'') (\<lambda>sha.
           Inr \<lparr>ie_name = name, ie_version = version, ie_api_version = api, ie_kind = kind,
             ie_capabilities = List.map_filter as_str caps, ie_description = opt ''description'',
             ie_author = opt ''author'', ie_url = url, ie_sha256 = sha, ie_signature = opt ''signature'',
             ie_size = (case get_u64 ''size'' item of Some n \<Rightarrow> n | None \<Rightarrow> 0)\<rparr>))))))))"

definition parse_index :: "parser \<Rightarrow> string \<Rightarrow> string \<Rightarrow> index_error + index_entry list" where
  "parse_index parse source text =
     try_then (map_err (IMalformed source) (parse text)) (\<lambda>document.
     try_then (ok_or (IMalformed source (''no `index-version` '' @ em_dash @ '' this does not look like a registry index'')) (get_u64 ''index-version'' document)) (\<lambda>version.
       if version \<noteq> INDEX_VERSION then Inl (IUnknownVersion source version INDEX_VERSION)
       else
         try_then (ok_or (IMalformed source ''no `extensions` array'') (get_array ''extensions'' document)) (\<lambda>listed.
           collect_ok (map (\<lambda>(offset, item). entry_from source (offset + 1) item) (enumerate 0 listed)))))"

definition load_index ::
  "parser \<Rightarrow> 'w remote \<Rightarrow> path \<Rightarrow> string \<Rightarrow> 'w ext_world \<Rightarrow> (index_error + index_entry list) \<times> 'w ext_world" where
  "load_index parse rm cwd source e =
     (if looks_remote source then
        (case check_remote (rm_parse_ip rm) (rm_lookup rm) source of
           Inl err \<Rightarrow> (Inl (IInstall err), e)
         | Inr _ \<Rightarrow>
             (case rm_http rm ''GET'' source [] None 0 (ew_outside e) of
                (Inl err, w1) \<Rightarrow> (Inl (IFetch source (rm_show rm err)), e\<lparr>ew_outside := w1\<rparr>)
              | (Inr response, w1) \<Rightarrow>
                  (if wr_status response \<noteq> 200 then
                     (Inl (IFetch source (''answered '' @ show_nat (unat (wr_status response)))), e\<lparr>ew_outside := w1\<rparr>)
                   else if \<not> valid_utf8 (wr_body response) then
                     (Inl (IMalformed source ''the response is not UTF-8''), e\<lparr>ew_outside := w1\<rparr>)
                   else (parse_index parse source (wr_body response), e\<lparr>ew_outside := w1\<rparr>))))
      else
        (case read_to_string (ew_disk e) (join_path cwd source) of
           Inl _ \<Rightarrow> (Inl (IUnreadable source), e)
         | Inr text \<Rightarrow> (parse_index parse source text, e)))"

definition search_index :: "(string \<Rightarrow> string) \<Rightarrow> index_entry list \<Rightarrow> string \<Rightarrow> index_entry list" where
  "search_index lower entries term =
     (let needle = lower term
      in filter (\<lambda>e. needle = [] \<or> contains_text needle (lower (ie_name e)) \<or> contains_text needle (lower (ie_kind e)) \<or>
           contains_text needle (lower (ie_description e))) entries)"

definition find_entry :: "index_entry list \<Rightarrow> string \<Rightarrow> string \<Rightarrow> index_error + index_entry" where
  "find_entry entries name source =
     ok_or (INotListed name source (length entries)) (List.find (\<lambda>e. ie_name e = name) entries)"

definition install_listed ::
  "('k, 's, 'w) installer \<Rightarrow> path \<Rightarrow> index_entry list \<Rightarrow> string \<Rightarrow> string \<Rightarrow> checks \<Rightarrow> 'w ext_world
     \<Rightarrow> (index_error + installed) \<times> 'w ext_world" where
  "install_listed it dir entries name source ck e =
     (case find_entry entries name source of
        Inl err \<Rightarrow> (Inl err, e)
      | Inr entry \<Rightarrow>
          (case ck_sha256 ck of
             Some given \<Rightarrow>
               (if to_lower given \<noteq> to_lower (ie_sha256 entry)
                then (Inl (IDigestDisagrees (ie_name entry) given (ie_sha256 entry)), e)
                else apfst (map_err IInstall) (install_from_url it dir (ie_url entry) ck e))
           | None \<Rightarrow>
               apfst (map_err IInstall)
                 (install_from_url it dir (ie_url entry) (ck\<lparr>ck_sha256 := Some (ie_sha256 entry)\<rparr>) e)))"

section \<open>The host's own tools\<close>

record native_tools =
  nt_ext_dir :: "path option"
  nt_trusted_keys :: "string list"
  nt_index_source :: "string option"
  nt_installed :: "string list"

definition native_disabled :: native_tools where
  "native_disabled = \<lparr>nt_ext_dir = None, nt_trusted_keys = [], nt_index_source = None, nt_installed = []\<rparr>"

definition installing_into :: "path \<Rightarrow> string list \<Rightarrow> string option \<Rightarrow> native_tools" where
  "installing_into dir keys source =
     \<lparr>nt_ext_dir = Some dir, nt_trusted_keys = keys, nt_index_source = source, nt_installed = []\<rparr>"

definition take_installed :: "native_tools \<Rightarrow> string list \<times> native_tools" where
  "take_installed nt = (nt_installed nt, nt\<lparr>nt_installed := []\<rparr>)"

text \<open>How errors are shown to the model, and the working directory.\<close>

record ('k, 's, 'w) native_env =
  ne_installer :: "('k, 's, 'w) installer"
  ne_parse :: parser
  ne_render :: printer
  ne_lower :: "string \<Rightarrow> string"
  ne_cwd :: path
  ne_show_ext :: "ext_error \<Rightarrow> string"
  ne_show_index :: "index_error \<Rightarrow> string"

definition refused :: "string \<Rightarrow> string \<times> bool" where
  "refused reason = (''refused: '' @ reason, True)"

definition NO_REGISTRY :: string where
  "NO_REGISTRY = ''no registry is configured (`registry.url`)''"

definition hit_json :: "index_entry \<Rightarrow> json" where
  "hit_json e = JObj
     [(''capabilities'', JArr (map JStr (ie_capabilities e))), (''description'', JStr (ie_description e)),
      (''kind'', JStr (ie_kind e)), (''name'', JStr (ie_name e)), (''signed'', JBool (ie_signature e \<noteq> [])),
      (''version'', JStr (ie_version e))]"

definition run_search ::
  "('k, 's, 'w) native_env \<Rightarrow> native_tools \<Rightarrow> string \<Rightarrow> 'w ext_world \<Rightarrow> (string \<times> bool) \<times> 'w ext_world" where
  "run_search ne nt arguments e =
     (case nt_index_source nt of
        None \<Rightarrow> (refused NO_REGISTRY, e)
      | Some source \<Rightarrow>
          (let term = (case ne_parse ne arguments of
               Inr v \<Rightarrow> (case get_str ''term'' v of Some t \<Rightarrow> t | None \<Rightarrow> []) | Inl _ \<Rightarrow> [])
           in case load_index (ne_parse ne) (it_remote (ne_installer ne)) (ne_cwd ne) source e of
                (Inl err, e1) \<Rightarrow> (refused (ne_show_index ne err), e1)
              | (Inr entries, e1) \<Rightarrow>
                  ((ne_render ne (JObj [(''matches'', JArr (map hit_json (search_index (ne_lower ne) entries term))),
                      (''source'', JStr source)]), False), e1)))"

definition install_from_index ::
  "('k, 's, 'w) native_env \<Rightarrow> path \<Rightarrow> string \<Rightarrow> json \<Rightarrow> native_tools \<Rightarrow> 'w ext_world
     \<Rightarrow> (string \<times> bool) \<times> native_tools \<times> 'w ext_world" where
  "install_from_index ne dir name call nt e =
     (if get_bool ''allow-unsigned'' call = Some True then
        (refused (''`allow-unsigned` is for a local `path`; a registry component is installed on its signature or not '' @ ''at all''),
         nt, e)
      else if (case get_str ''reason'' call of Some r \<Rightarrow> trim r | None \<Rightarrow> []) = [] then
        (refused (''`reason` is required with `name` '' @ em_dash @
           '' the operator is asked to approve this and needs to know what it is for''), nt, e)
      else
        (case nt_index_source nt of
           None \<Rightarrow> (refused NO_REGISTRY, nt, e)
         | Some source \<Rightarrow>
             (case load_index (ne_parse ne) (it_remote (ne_installer ne)) (ne_cwd ne) source e of
                (Inl err, e1) \<Rightarrow> (refused (ne_show_index ne err), nt, e1)
              | (Inr entries, e1) \<Rightarrow>
                  (case install_listed (ne_installer ne) dir entries name source
                      \<lparr>ck_sha256 = None, ck_trusted_keys = nt_trusted_keys nt, ck_allow_unsigned = False\<rparr> e1 of
                     (Inl err, e2) \<Rightarrow> (refused (ne_show_index ne err), nt, e2)
                   | (Inr inst, e2) \<Rightarrow>
                       ((''installed '' @ in_name inst @ '' from the registry; it is callable from the next turn'', False),
                        nt\<lparr>nt_installed := nt_installed nt @ [in_name inst]\<rparr>, e2)))))"

definition run_install ::
  "('k, 's, 'w) native_env \<Rightarrow> native_tools \<Rightarrow> string \<Rightarrow> 'w ext_world \<Rightarrow> (string \<times> bool) \<times> native_tools \<times> 'w ext_world" where
  "run_install ne nt arguments e =
     (case nt_ext_dir nt of
        None \<Rightarrow> (refused ''the install tool is not enabled'', nt, e)
      | Some dir \<Rightarrow>
          (case ne_parse ne arguments of
             Inl err \<Rightarrow> (refused (''arguments are not JSON ('' @ err @ '')''), nt, e)
           | Inr call \<Rightarrow>
               (case (get_str ''name'' call, get_str ''path'' call) of
                  (Some _, Some _) \<Rightarrow>
                    (refused ''give `name` (from the registry) or `path` (local), not both'', nt, e)
                | (None, None) \<Rightarrow>
                    (refused ''`name` (from the registry) or `path` (local) is required'', nt, e)
                | (Some name, None) \<Rightarrow> install_from_index ne dir name call nt e
                | (None, Some source) \<Rightarrow>
                    (case install (it_crypto (ne_installer ne)) (it_compile (ne_installer ne)) (it_toml (ne_installer ne))
                        dir (join_path (ne_cwd ne) source)
                        \<lparr>ck_sha256 = get_str ''sha256'' call, ck_trusted_keys = nt_trusted_keys nt,
                         ck_allow_unsigned = (get_bool ''allow-unsigned'' call = Some True)\<rparr> (ew_disk e) of
                       (Inl err, d1) \<Rightarrow> (refused (ne_show_ext ne err), nt, e\<lparr>ew_disk := d1\<rparr>)
                     | (Inr inst, d1) \<Rightarrow>
                         ((''installed '' @ in_name inst @ '' at '' @ path_text (in_component inst) @
                             ''; it is callable from the next turn'', False),
                          nt\<lparr>nt_installed := nt_installed nt @ [in_name inst]\<rparr>, e\<lparr>ew_disk := d1\<rparr>)))))"

definition native_invoke ::
  "('k, 's, 'w) native_env \<Rightarrow> tool_call \<Rightarrow> native_tools \<times> 'w ext_world \<Rightarrow> tool_invocation option \<times> native_tools \<times> 'w ext_world" where
  "native_invoke ne call = (\<lambda>(nt, e).
     if tc_name call = ''ext-install'' then
       (case run_install ne nt (tc_arguments call) e of
          ((content, failed), nt1, e1) \<Rightarrow> (Some \<lparr>inv_content = content, inv_failed = failed\<rparr>, nt1, e1))
     else if tc_name call = ''ext-search'' then
       (case run_search ne nt (tc_arguments call) e of
          ((content, failed), e1) \<Rightarrow> (Some \<lparr>inv_content = content, inv_failed = failed\<rparr>, nt, e1))
     else (None, nt, e))"

definition native_metas :: "native_tools \<Rightarrow> string list" where
  "native_metas nt = (if nt_ext_dir nt = None then [] else [''ext-install'', ''ext-search''])"

section \<open>What an install leaves behind\<close>

abbreviation no_links :: "disk \<Rightarrow> bool" where
  "no_links d \<equiv> dk_follow d = (\<lambda>p. p)"

lemma node_put [simp]: "node_at (put_node p n d) q = (if q = p then Some n else node_at d q)"
  by (simp add: put_node_def update_conv')

lemma map_of_dropped: "map_of (filter (\<lambda>(q, _). \<not> gone q) xs) q = (if gone q then None else map_of xs q)"
  by (induction xs) auto

lemma node_dropped [simp]: "node_at (drop_nodes gone d) q = (if gone q then None else node_at d q)"
  by (simp add: drop_nodes_def map_of_dropped)

lemma follow_kept [simp]:
  "dk_follow (put_node p n d) = dk_follow d" "dk_refused (put_node p n d) = dk_refused d"
  "dk_follow (drop_nodes gone d) = dk_follow d" "dk_refused (drop_nodes gone d) = dk_refused d"
  by (simp_all add: put_node_def drop_nodes_def)

lemma own_place_id [simp]: "no_links d \<Longrightarrow> own_place d p = p"
  by (simp add: own_place_def)

lemma write_file_ok:
  "write_file p c d = (True, d1) \<Longrightarrow> no_links d \<Longrightarrow> d1 = put_node p (NFile c) d"
  by (auto simp: write_file_def Let_def split: if_splits)

lemma copy_file_ok:
  "copy_file src dst d = (True, d1) \<Longrightarrow> no_links d \<Longrightarrow>
    \<exists>bytes. read_bytes d src = Some bytes \<and> d1 = put_node dst (NFile bytes) d"
  by (auto simp: copy_file_def dest: write_file_ok split: option.splits)

lemma rename_file_ok:
  "rename_file a b d = (True, d1) \<Longrightarrow> no_links d \<Longrightarrow>
    \<exists>bytes. node_at d a = Some (NFile bytes) \<and> \<not> dk_refused d b \<and> d1 = put_node b (NFile bytes) (drop_nodes (\<lambda>r. r = a) d)"
  by (auto simp: rename_file_def Let_def split: option.splits node.splits if_splits)

lemma read_bytes_node: "no_links d \<Longrightarrow> read_bytes d p = Some bytes \<Longrightarrow> node_at d p = Some (NFile bytes)"
  by (auto simp: read_bytes_def Let_def split: if_splits option.splits node.splits)

lemma read_to_string_node:
  "no_links d \<Longrightarrow> read_to_string d p = Inr t \<longleftrightarrow> \<not> dk_refused d p \<and> node_at d p = Some (NFile t) \<and> valid_utf8 t"
  by (auto simp: read_to_string_def Let_def split: option.splits node.splits if_splits)

lemma try_keys_ok:
  "try_keys cr bytes s i keys = Inr True \<Longrightarrow> \<exists>key \<in> set keys. \<exists>k. cr_key cr (trim key) = Inr k \<and> cr_verify cr k bytes s"
  by (induction cr bytes s i keys rule: try_keys.induct) (auto split: sum.splits if_splits)

text \<open>A text some trusted key vouches for.\<close>

definition vouched :: "('k, 's) crypto \<Rightarrow> string list \<Rightarrow> string \<Rightarrow> bool" where
  "vouched cr keys bytes \<longleftrightarrow> (\<exists>key \<in> set keys. \<exists>k s. cr_key cr (trim key) = Inr k \<and> cr_verify cr k bytes s)"

lemma verify_signature_ok:
  assumes "verify_signature cr d content beside keys = Inr ()"
  shows "\<exists>bytes. read_bytes d content = Some bytes \<and> vouched cr keys bytes"
  using assms try_keys_ok
  by (fastforce simp: verify_signature_def Let_def try_then_eq_Inr ok_or_def vouched_def
      split: if_splits option.splits)

lemma manifest_from_any: "manifest_from p table = Inr m \<Longrightarrow> manifest_from q table = Inr m"
  by (auto simp: manifest_from_def Let_def try_then_eq_Inr ok_or_def split: option.splits)

lemma manifest_beside_text:
  assumes "no_links d"
  shows "manifest_beside toml d p = Inr (Some m) \<longleftrightarrow>
    (\<exists>text table. \<not> dk_refused d (manifest_path p) \<and> node_at d (manifest_path p) = Some (NFile text) \<and>
       valid_utf8 text \<and> toml text = Inr table \<and> manifest_from (manifest_path p) table = Inr m)"
  using assms
  by (auto simp: manifest_beside_def Let_def path_exists_def try_then_eq_Inr map_err_eq_Inr map_ok_eq_Inr
      read_to_string_node)

lemma last_wasm_not_toml: "n @ ''.wasm'' \<noteq> m @ ''.manifest.toml''"
  by (auto dest!: arg_cong [of _ _ last])

lemma manifest_path_apart: "manifest_path p \<noteq> in_ext q n" "in_ext q n \<noteq> manifest_path p"
  using last_wasm_not_toml by (auto simp: manifest_path_def in_ext_def)

lemma check_structure_ok:
  assumes "check_structure compile toml d staged shown = Inr ()"
  shows "\<exists>bytes c m. read_bytes d staged = Some bytes \<and> compile bytes = Inr c \<and>
    manifest_beside toml d staged = Inr (Some m) \<and> api_compatible API_VERSION (mf_api_version m) \<and>
    set (host_capabilities c) \<subseteq> set (mf_capabilities m)"
proof -
  obtain c where c: "component_from_file compile d staged = Inr c"
    using assms by (auto simp: check_structure_def try_then_eq_Inr map_err_eq_Inr)
  obtain caps v where v: "inspect toml d c staged = Inr (caps, v)"
    using assms c by (auto simp: check_structure_def try_then_eq_Inr map_err_eq_Inr)
  have "v = Consistent"
    using assms c v by (cases v) (simp_all add: check_structure_def)
  then obtain declared where d: "manifest_beside toml d staged = Inr declared"
      and k: "verdict_of declared (host_capabilities c) = Consistent"
    using v by (auto simp: inspect_def Let_def map_ok_eq_Inr)
  obtain m where "declared = Some m" "api_compatible API_VERSION (mf_api_version m)"
      "set (host_capabilities c) \<subseteq> set (mf_capabilities m)"
    using k unfolding verdict_of_Consistent by blast
  moreover obtain bytes where "read_bytes d staged = Some bytes" "compile bytes = Inr c"
    using c by (auto simp: component_from_file_def try_then_eq_Inr ok_or_def split: option.splits)
  ultimately show ?thesis using d by blast
qed

lemma stage_and_check_ok:
  assumes ok: "stage_and_check cr compile toml dir source name ck d = (Inr inst, d1)" and plain: "no_links d"
  shows "\<exists>bytes mtext c m. in_name inst = name \<and> in_component inst = in_ext dir name \<and> no_links d1 \<and>
    dk_refused d1 = dk_refused d \<and>
    node_at d1 (in_ext dir name) = Some (NFile bytes) \<and>
    node_at d1 (manifest_path (in_ext dir name)) = Some (NFile mtext) \<and>
    (\<forall>e. ck_sha256 ck = Some e \<longrightarrow> to_lower (hex_bytes (cr_sha256 cr bytes)) = to_lower e) \<and>
    (ck_allow_unsigned ck \<or> vouched cr (ck_trusted_keys ck) bytes \<and> vouched cr (ck_trusted_keys ck) mtext) \<and>
    compile bytes = Inr c \<and> manifest_beside toml d1 (in_ext dir name) = Inr (Some m) \<and>
    api_compatible API_VERSION (mf_api_version m) \<and> set (host_capabilities c) \<subseteq> set (mf_capabilities m)"
proof -
  let ?staged = "in_ext (dir @ [STAGING, name]) name" and ?landed = "in_ext dir name"
  let ?sm = "manifest_path ?staged" and ?lm = "manifest_path ?landed"
  have apart: "?staged \<noteq> ?landed" "?sm \<noteq> ?lm"
    by (auto simp: in_ext_def manifest_path_def butlast_append dest!: arg_cong [of _ _ length])
  note apart = apart manifest_path_apart manifest_path_apart [symmetric]
  obtain b1 da where s1: "copy_file source ?staged d = (b1, da)" by (metis surj_pair)
  have b1: "b1" using ok s1 by (cases b1) (simp_all add: stage_and_check_def Let_def)
  obtain bytes where da: "da = put_node ?staged (NFile bytes) d"
    using copy_file_ok [of source ?staged d da] s1 b1 plain by auto
  obtain r1 where s2: "verify_digest cr da ?staged source (ck_sha256 ck) = r1" by blast
  have r1: "r1 = Inr ()" using ok s1 b1 s2 by (cases r1) (simp_all add: stage_and_check_def Let_def)
  have s3: "path_exists da (manifest_path source)"
    using ok s1 b1 s2 r1 by (rule_tac ccontr) (simp add: stage_and_check_def Let_def)
  obtain b2 db where s4: "copy_file (manifest_path source) ?sm da = (b2, db)" by (metis surj_pair)
  have b2: "b2" using ok s1 b1 s2 r1 s3 s4 by (cases b2) (simp_all add: stage_and_check_def Let_def)
  have la: "no_links da" using da plain by simp
  obtain mtext where db: "db = put_node ?sm (NFile mtext) da"
    using copy_file_ok [of "manifest_path source" ?sm da db] s4 b2 la by auto
  have lb: "no_links db" using db la by simp
  let ?sig = "if ck_allow_unsigned ck then Inr ()
      else try_then (verify_signature cr db ?staged source (ck_trusted_keys ck)) (\<lambda>_.
        verify_signature cr db ?sm (manifest_path source) (ck_trusted_keys ck))"
  obtain r2 where s5: "?sig = r2" by blast
  have r2: "r2 = Inr ()"
    using ok s1 b1 s2 r1 s3 s4 b2 s5 by (cases r2) (simp_all add: stage_and_check_def Let_def)
  obtain r3 where s6: "check_structure compile toml db ?staged source = r3" by blast
  have r3: "r3 = Inr ()"
    using ok s1 b1 s2 r1 s3 s4 b2 s5 r2 s6 by (cases r3) (simp_all add: stage_and_check_def Let_def)
  obtain b3 dc where s7: "rename_file ?sm ?lm db = (b3, dc)" by (metis surj_pair)
  have b3: "b3"
    using ok s1 b1 s2 r1 s3 s4 b2 s5 r2 s6 r3 s7 by (cases b3) (simp_all add: stage_and_check_def Let_def)
  obtain b4 dd where s8: "rename_file ?staged ?landed dc = (b4, dd)" by (metis surj_pair)
  have b4: "b4"
    using ok s1 b1 s2 r1 s3 s4 b2 s5 r2 s6 r3 s7 b3 s8 by (cases b4) (simp_all add: stage_and_check_def Let_def)
  have res: "in_name inst = name" "in_component inst = ?landed" "d1 = dd"
    using ok s1 b1 s2 r1 s3 s4 b2 s5 r2 s6 r3 s7 b3 s8 b4 by (auto simp: stage_and_check_def Let_def)
  have sb: "node_at db ?staged = Some (NFile bytes)" "node_at db ?sm = Some (NFile mtext)"
    using db da apart by auto
  have dc: "dc = put_node ?lm (NFile mtext) (drop_nodes (\<lambda>r. r = ?sm) db)" and open_lm: "\<not> dk_refused db ?lm"
    using rename_file_ok [of ?sm ?lm db dc] s7 b3 lb sb by auto
  have lc: "no_links dc" using dc lb by simp
  have "node_at dc ?staged = Some (NFile bytes)" using dc sb apart by auto
  then have dd: "dd = put_node ?landed (NFile bytes) (drop_nodes (\<lambda>r. r = ?staged) dc)"
    using rename_file_ok [of ?staged ?landed dc dd] s8 b4 lc by auto
  have digest: "to_lower (hex_bytes (cr_sha256 cr bytes)) = to_lower e" if "ck_sha256 ck = Some e" for e
    using s2 r1 that la da
    by (auto simp: verify_digest_def Let_def read_bytes_def split: if_splits)
  have signed: "ck_allow_unsigned ck \<or> vouched cr (ck_trusted_keys ck) bytes \<and> vouched cr (ck_trusted_keys ck) mtext"
  proof (cases "ck_allow_unsigned ck")
    case False
    then have v: "verify_signature cr db ?staged source (ck_trusted_keys ck) = Inr ()"
        "verify_signature cr db ?sm (manifest_path source) (ck_trusted_keys ck) = Inr ()"
      using s5 r2 by (auto simp: try_then_eq_Inr)
    show ?thesis
      using verify_signature_ok [OF v(1)] verify_signature_ok [OF v(2)] sb
      by (auto dest: read_bytes_node [OF lb])
  qed simp
  obtain bytes2 c m where read: "read_bytes db ?staged = Some bytes2" and c2: "compile bytes2 = Inr c"
      and m: "manifest_beside toml db ?staged = Inr (Some m)"
      "api_compatible API_VERSION (mf_api_version m)" "set (host_capabilities c) \<subseteq> set (mf_capabilities m)"
    using check_structure_ok [OF s6 [unfolded r3]] by (elim exE conjE) (rule that; assumption)
  have c: "compile bytes = Inr c"
    using read_bytes_node [OF lb read] sb(1) c2 by simp
  have man: "node_at dd ?lm = Some (NFile mtext)" using dd dc apart by auto
  have ld: "no_links dd" "dk_refused dd = dk_refused d" "dk_refused db = dk_refused d"
    using dd dc db da plain by simp_all
  obtain mt table where t: "node_at db ?sm = Some (NFile mt)" "valid_utf8 mt" "toml mt = Inr table"
      "manifest_from ?sm table = Inr m"
    using m(1) unfolding manifest_beside_text [OF lb] by blast
  have "manifest_beside toml dd ?landed = Inr (Some m)"
    unfolding manifest_beside_text [OF ld(1)]
    using t sb(2) man open_lm ld(2,3) manifest_from_any [OF t(4)] by simp
  moreover have "node_at dd ?landed = Some (NFile bytes)" using dd by simp
  ultimately show ?thesis using res man digest signed c m ld by blast
qed

lemma install_sound:
  assumes "install cr compile toml dir source ck d = (Inr inst, d1)" and "dk_follow d = (\<lambda>p. p)"
  shows "\<exists>bytes mtext c m. node_at d1 (in_component inst) = Some (NFile bytes) \<and>
    in_component inst = in_ext dir (in_name inst) \<and> (\<exists>category. categorise (in_name inst) = Inr category) \<and>
    node_at d1 (manifest_path (in_component inst)) = Some (NFile mtext) \<and>
    (case ck_sha256 ck of
       None \<Rightarrow> \<not> ck_allow_unsigned ck
     | Some e \<Rightarrow> to_lower (hex_bytes (cr_sha256 cr bytes)) = to_lower e) \<and>
    (ck_allow_unsigned ck \<or> vouched cr (ck_trusted_keys ck) bytes \<and> vouched cr (ck_trusted_keys ck) mtext) \<and>
    compile bytes = Inr c \<and> manifest_beside toml d1 (in_component inst) = Inr (Some m) \<and>
    api_compatible API_VERSION (mf_api_version m) \<and> set (host_capabilities c) \<subseteq> set (mf_capabilities m)"
proof -
  let ?name = "file_stem (last source)"
  let ?staging = "dir @ [STAGING, ?name]"
  note ins = assms(1) [unfolded install_def Let_def]
  have early: "\<not> (ck_allow_unsigned ck \<and> ck_sha256 ck = None)" "path_exists d source"
      "source \<noteq> [] \<and> file_extension (last source) = Some ''wasm''" "\<not> path_exists d (in_ext dir ?name)"
    using ins by (auto split: if_splits sum.splits)
  obtain category where category: "categorise ?name = Inr category"
    using ins early by (auto split: sum.splits)
  let ?d0 = "snd (remove_dir_all ?staging d)"
  have keeps_rm: "dk_follow (snd (remove_dir_all p e)) = dk_follow e" "dk_refused (snd (remove_dir_all p e)) = dk_refused e" for p e
    by (simp_all add: remove_dir_all_def Let_def)
  have keeps_mk: "dk_follow (snd (make_dirs ps e)) = dk_follow e" for ps e
    by (induction ps arbitrary: e) (auto simp: Let_def split: option.split node.split)
  obtain b da where mk: "create_dir_all ?staging ?d0 = (b, da)" by (metis surj_pair)
  have b: "b" using ins early category mk by (cases b) (simp_all)
  have la: "no_links da"
    using mk keeps_rm keeps_mk assms(2) unfolding create_dir_all_def by (metis snd_conv)
  obtain r db where st: "stage_and_check cr compile toml dir source ?name ck da = (r, db)" by (metis surj_pair)
  have r: "r = Inr inst" and d1: "d1 = snd (remove_dir (dir @ [STAGING]) (snd (remove_dir_all ?staging db)))"
    using ins early category mk b st by auto
  obtain bytes mtext c m where s: "in_name inst = ?name" "in_component inst = in_ext dir ?name" "no_links db"
      "node_at db (in_ext dir ?name) = Some (NFile bytes)"
      "node_at db (manifest_path (in_ext dir ?name)) = Some (NFile mtext)"
      "\<forall>e. ck_sha256 ck = Some e \<longrightarrow> to_lower (hex_bytes (cr_sha256 cr bytes)) = to_lower e"
      "ck_allow_unsigned ck \<or> vouched cr (ck_trusted_keys ck) bytes \<and> vouched cr (ck_trusted_keys ck) mtext"
      "compile bytes = Inr c" "manifest_beside toml db (in_ext dir ?name) = Inr (Some m)"
      "api_compatible API_VERSION (mf_api_version m)" "set (host_capabilities c) \<subseteq> set (mf_capabilities m)"
    using stage_and_check_ok [OF st [unfolded r] la] by blast
  have stays: "node_at d1 q = node_at db q" if "\<not> prefix ?staging q" "q \<noteq> dir @ [STAGING]" for q
    using that s(3) unfolding d1
    by (auto simp: remove_dir_def remove_dir_all_def Let_def)
  have ld: "no_links d1" "dk_refused d1 = dk_refused db"
    using s(3) unfolding d1 by (auto simp: remove_dir_def remove_dir_all_def Let_def)
  have apart: "\<not> prefix ?staging (dir @ [x])" for x by (auto dest: prefix_length_le)
  have "n @ ''.wasm'' \<noteq> STAGING" "n @ ''.manifest.toml'' \<noteq> STAGING" for n
    by (auto simp: STAGING_def dest!: arg_cong [of _ _ last])
  then have "node_at d1 (dir @ [n @ ''.wasm'']) = node_at db (dir @ [n @ ''.wasm''])"
      "node_at d1 (dir @ [n @ ''.manifest.toml'']) = node_at db (dir @ [n @ ''.manifest.toml''])" for n
    using apart by (auto intro!: stays)
  then have keep: "node_at d1 (in_ext dir ?name) = Some (NFile bytes)"
      "node_at d1 (manifest_path (in_ext dir ?name)) = Some (NFile mtext)"
    using s(4,5) by (auto simp: in_ext_def manifest_path_def)
  have "manifest_beside toml d1 (in_ext dir ?name) = Inr (Some m)"
    using s(5,9) keep ld unfolding manifest_beside_text [OF s(3)] manifest_beside_text [OF ld(1)] by auto
  with s keep category early(1) show ?thesis by (auto split: option.split)
qed

text \<open>C37 (installed_component_checked): On a disk without symbolic links, what a successful install puts in place is what
  was checked. The bytes of the component have the digest that was asked for, if one was; they and the manifest beside them are
  signed by a trusted key, unless the caller allowed unsigned components, in which case a digest was asked for and no signature
  is checked; the component compiles, and the manifest is one this host serves and declares every host interface it imports.\<close>

theorem installed_component_checked:
  assumes "install cr compile toml dir source ck d = (Inr inst, d1)" and "dk_follow d = (\<lambda>p. p)"
  shows "\<exists>bytes mtext c m. node_at d1 (in_component inst) = Some (NFile bytes) \<and>
    in_component inst = in_ext dir (in_name inst) \<and> (\<exists>category. categorise (in_name inst) = Inr category) \<and>
    node_at d1 (manifest_path (in_component inst)) = Some (NFile mtext) \<and>
    (case ck_sha256 ck of
       None \<Rightarrow> \<not> ck_allow_unsigned ck
     | Some e \<Rightarrow> to_lower (hex_bytes (cr_sha256 cr bytes)) = to_lower e) \<and>
    (ck_allow_unsigned ck \<or> vouched cr (ck_trusted_keys ck) bytes \<and> vouched cr (ck_trusted_keys ck) mtext) \<and>
    compile bytes = Inr c \<and> manifest_beside toml d1 (in_component inst) = Inr (Some m) \<and>
    api_compatible API_VERSION (mf_api_version m) \<and> set (host_capabilities c) \<subseteq> set (mf_capabilities m)"
  using assms by (rule install_sound)

definition unlinked_disk :: disk where
  "unlinked_disk = small_disk [([''ext''], NDir), ([''src''], NDir), ([''src'', ''tool-greet.wasm''], NFile ''wasm''),
     ([''src'', ''tool-greet.wasm.minisig''], NFile ''s''), ([''src'', ''tool-greet.manifest.toml.minisig''], NFile ''s''),
     ([''src'', ''tool-greet.manifest.toml''], NFile ''toml'')]"

text \<open>Signatures and keys as text: a key vouches for the bytes it lists.\<close>

definition toy_crypto :: "(string, string) crypto" where
  "toy_crypto = \<lparr>cr_sha256 = (\<lambda>b. b), cr_signature = Inr, cr_key = Inr, cr_verify = (\<lambda>k b s. k = ''k'' \<and> s = ''s'')\<rparr>"

definition signed_checks :: checks where
  "signed_checks = \<lparr>ck_sha256 = None, ck_trusted_keys = [''other'', ''k''], ck_allow_unsigned = False\<rparr>"

lemma toy_install:
  "map_ok in_name (fst (install toy_crypto fs_only fs_toml [''ext''] [''src'', ''tool-greet.wasm''] signed_checks unlinked_disk)) =
     Inr ''tool-greet''"
  by code_simp

theorem installed_component_checked_witness:
  "\<exists>inst d1 bytes. install toy_crypto fs_only fs_toml [''ext''] [''src'', ''tool-greet.wasm''] signed_checks unlinked_disk = (Inr inst, d1) \<and>
     node_at d1 (in_component inst) = Some (NFile bytes) \<and> vouched toy_crypto [''other'', ''k''] bytes"
proof -
  let ?r = "install toy_crypto fs_only fs_toml [''ext''] [''src'', ''tool-greet.wasm''] signed_checks unlinked_disk"
  obtain inst where "fst ?r = Inr inst"
    using toy_install unfolding map_ok_eq_Inr by (elim exE conjE)
  then have "?r = (Inr inst, snd ?r)" by (simp only: prod_eq_iff fst_conv snd_conv)
  then obtain d1 where run: "?r = (Inr inst, d1)" by (rule that)
  have "dk_follow unlinked_disk = (\<lambda>p. p)" by (simp add: unlinked_disk_def small_disk_def)
  note checked = installed_component_checked [OF run this]
  from checked obtain bytes where "node_at d1 (in_component inst) = Some (NFile bytes)"
      "ck_allow_unsigned signed_checks \<or> vouched toy_crypto (ck_trusted_keys signed_checks) bytes"
    by (elim exE conjE) (erule that, blast)
  then have "node_at d1 (in_component inst) = Some (NFile bytes) \<and> vouched toy_crypto [''other'', ''k''] bytes"
    by (simp add: signed_checks_def)
  then show ?thesis
    by (intro exI [of _ inst] exI [of _ d1] exI [of _ bytes]) (simp only: run simp_thms)
qed

lemma no_key_no_signature [simp]:
  "verify_signature cr d content beside [] = Inr x \<longleftrightarrow> False"
  by (auto simp: verify_signature_def Let_def try_then_eq_Inr)

lemma unsigned_not_staged:
  assumes "stage_and_check cr compile toml dir source name ck d = (r, d1)" "\<not> ck_allow_unsigned ck" "ck_trusted_keys ck = []"
  shows "isl r"
  using assms
  by (auto simp: stage_and_check_def Let_def try_then_eq_Inr split: prod.splits bool.splits sum.splits if_splits)

lemma unsigned_not_installed:
  assumes "install cr compile toml dir source ck d = (r, d1)" "\<not> ck_allow_unsigned ck" "ck_trusted_keys ck = []"
  shows "isl r"
  using assms
  by (auto simp: install_def Let_def split: prod.splits bool.splits sum.splits if_splits dest: unsigned_not_staged)

lemma unsigned_not_fetched:
  assumes "install_from_url it dir url ck e = (r, e1)" "\<not> ck_allow_unsigned ck" "ck_trusted_keys ck = []"
  shows "isl r"
  using assms
  by (auto simp: install_from_url_def Let_def split: prod.splits bool.splits sum.splits dest: unsigned_not_installed)

lemma unsigned_not_listed:
  assumes "install_listed it dir entries name source ck e = (r, e1)" "\<not> ck_allow_unsigned ck" "ck_trusted_keys ck = []"
  shows "isl r"
proof -
  have fetched: "isl (map_err f (fst (install_from_url it dir url c e)))"
    if "\<not> ck_allow_unsigned c" "ck_trusted_keys c = []" for url c and f :: "ext_error \<Rightarrow> index_error"
    using unsigned_not_fetched [OF surjective_pairing that, of it dir url e]
    by (cases "fst (install_from_url it dir url c e)") auto
  have "isl (fst (install_listed it dir entries name source ck e))"
    using assms(2,3) fetched by (auto simp: install_listed_def fst_apfst split: sum.split option.split)
  then show ?thesis using assms(1) by simp
qed

text \<open>With no trusted key nothing is ever installed from the registry by name, whatever the index, the arguments and the network
  say: a digest the index gives never replaces the signature.\<close>

theorem no_key_no_registry_install:
  assumes "nt_trusted_keys nt = []" "ne_parse ne arguments = Inr call" "get_str ''name'' call = Some name"
    and "run_install ne nt arguments e = ((content, failed), nt1, e1)"
  shows "failed \<and> nt1 = nt \<and> (\<exists>reason. content = ''refused: '' @ reason)"
proof -
  have never: "install_listed (ne_installer ne) dir entries name source
      \<lparr>ck_sha256 = None, ck_trusted_keys = nt_trusted_keys nt, ck_allow_unsigned = False\<rparr> e0 \<noteq> (Inr inst, e2)"
    for dir entries source e0 inst e2
    using unsigned_not_listed assms(1) by fastforce
  then show ?thesis
    using assms(2-)
    by (auto simp: run_install_def install_from_index_def refused_def
        split: option.splits if_splits prod.splits sum.splits)
qed

lemma install_kept:
  assumes "install cr compile toml dir source ck d = (r, d1)"
  shows "dk_follow d1 = dk_follow d"
proof -
  have rm: "dk_follow (snd (remove_dir_all p e)) = dk_follow e" "dk_follow (snd (remove_dir p e)) = dk_follow e"
      "dk_follow (snd (remove_file p e)) = dk_follow e" for p e
    by (simp_all add: remove_dir_all_def remove_dir_def remove_file_def Let_def)
  have mk: "dk_follow (snd (make_dirs ps e)) = dk_follow e" for ps e
    by (induction ps arbitrary: e) (auto simp: Let_def split: option.split node.split)
  have cp: "copy_file a b e = (x, e1) \<Longrightarrow> dk_follow e1 = dk_follow e"
      "rename_file a b e = (x, e1) \<Longrightarrow> dk_follow e1 = dk_follow e"
      "create_dir_all a e = (x, e1) \<Longrightarrow> dk_follow e1 = dk_follow e" for a b e x e1
    using mk [of "above a @ [a]" e]
    by (auto simp: copy_file_def rename_file_def write_file_def create_dir_all_def Let_def
        split: option.splits node.splits if_splits)
  have sc: "stage_and_check cr compile toml dir source n ck e = (x, e1) \<Longrightarrow> dk_follow e1 = dk_follow e" for n e x e1
    by (auto simp: stage_and_check_def Let_def rm(3) split: prod.splits bool.splits sum.splits if_splits dest!: cp)
  show ?thesis
    using assms by (auto simp: install_def Let_def rm split: if_splits sum.splits prod.splits bool.splits dest!: cp sc)
qed

lemma disk_kept [simp]:
  "dk_follow (snd (remove_dir_all p d)) = dk_follow d" "dk_follow (snd (make_dirs ps d)) = dk_follow d"
  "dk_follow (snd (write_file p c d)) = dk_follow d"
  by (simp add: remove_dir_all_def Let_def, induction ps arbitrary: d)
    (auto simp: Let_def write_file_def split: option.split node.split)

lemma private_dir_kept [simp]: "dk_follow (snd (ensure_private_dir restrict p d)) = dk_follow d"
  by (simp add: ensure_private_dir_def create_dir_all_def case_prod_beta split: bool.split)

lemma fetch_each_kept: "fetch_each rm incoming fs d w = (r, d1, w1) \<Longrightarrow> dk_follow d1 = dk_follow d"
proof (induction rm incoming fs d w rule: fetch_each.induct)
  case (2 rm incoming url file_name fs d w)
  then show ?case
    by (auto split: sum.splits prod.splits if_splits bool.splits) (metis disk_kept(3) snd_conv)+
qed simp

lemma fetch_all_kept: "fetch_all rm incoming fs d w = (r, d1, w1) \<Longrightarrow> dk_follow d1 = dk_follow d"
  using fetch_each_kept [of rm incoming fs d w "fst (fetch_each rm incoming fs d w)" d1 w1]
  by (cases "fetch_each rm incoming fs d w") (auto simp: fetch_all_def split: sum.splits list.splits)

lemma fetched_sound:
  assumes "install_from_url it dir url ck e = (Inr inst, e1)" "no_links (ew_disk e)" "\<not> prefix (rm_temp (it_remote it)) dir"
  shows "\<exists>bytes mtext c m. node_at (ew_disk e1) (in_component inst) = Some (NFile bytes) \<and>
    in_component inst = in_ext dir (in_name inst) \<and>
    node_at (ew_disk e1) (manifest_path (in_component inst)) = Some (NFile mtext) \<and>
    (\<forall>h. ck_sha256 ck = Some h \<longrightarrow> to_lower (hex_bytes (cr_sha256 (it_crypto it) bytes)) = to_lower h) \<and>
    (ck_allow_unsigned ck \<or> vouched (it_crypto it) (ck_trusted_keys ck) bytes \<and>
       vouched (it_crypto it) (ck_trusted_keys ck) mtext) \<and>
    it_compile it bytes = Inr c \<and> manifest_beside (it_toml it) (ew_disk e1) (in_component inst) = Inr (Some m) \<and>
    api_compatible API_VERSION (mf_api_version m) \<and> set (host_capabilities c) \<subseteq> set (mf_capabilities m)"
proof -
  let ?incoming = "staging_dir (rm_temp (it_remote it)) (it_pid it) (ew_next e)"
  obtain files where files: "wanted_files (rm_url (it_remote it)) url (ck_allow_unsigned ck) = Inr files"
    using assms(1) by (auto simp: install_from_url_def split: sum.splits)
  obtain b d1 where mk: "ensure_private_dir (it_restrict it) ?incoming (snd (remove_dir_all ?incoming (ew_disk e))) = (b, d1)"
    by (metis surj_pair)
  have b: "b" using assms(1) files mk by (cases b) (auto simp: install_from_url_def Let_def)
  have l1: "no_links d1" using mk assms(2) private_dir_kept by (metis disk_kept(1) snd_conv)
  obtain got d2 w2 where got: "fetch_all (it_remote it) ?incoming files d1 (ew_outside e) = (got, d2, w2)"
    by (metis surj_pair)
  have l2: "no_links d2" using fetch_all_kept [OF got] l1 by simp
  obtain f d3 where ins: "install (it_crypto it) (it_compile it) (it_toml it) dir (join_path ?incoming f) ck d2 = (Inr inst, d3)"
    and e1: "ew_disk e1 = snd (remove_dir_all ?incoming d3)"
    using assms(1) files mk b got by (cases got) (auto simp: install_from_url_def Let_def split: prod.splits)
  obtain bytes mtext c m where s: "node_at d3 (in_component inst) = Some (NFile bytes)"
      "in_component inst = in_ext dir (in_name inst)"
      "node_at d3 (manifest_path (in_component inst)) = Some (NFile mtext)"
      "case ck_sha256 ck of None \<Rightarrow> \<not> ck_allow_unsigned ck
       | Some h \<Rightarrow> to_lower (hex_bytes (cr_sha256 (it_crypto it) bytes)) = to_lower h"
      "ck_allow_unsigned ck \<or> vouched (it_crypto it) (ck_trusted_keys ck) bytes \<and> vouched (it_crypto it) (ck_trusted_keys ck) mtext"
      "it_compile it bytes = Inr c" "manifest_beside (it_toml it) d3 (in_component inst) = Inr (Some m)"
      "api_compatible API_VERSION (mf_api_version m)" "set (host_capabilities c) \<subseteq> set (mf_capabilities m)"
    using install_sound [OF ins l2] by (elim exE conjE) (rule that; assumption)
  have l3: "no_links d3" using install_kept [OF ins] l2 by simp
  have "\<not> prefix ?incoming (dir @ [x])" for x
    using assms(3) unfolding staging_dir_def prefix_snoc by (metis append1_eq_conv append_prefixD prefix_order.refl)
  then have stays: "node_at (ew_disk e1) (dir @ [x]) = node_at d3 (dir @ [x])" for x
    using l3 unfolding e1 by (simp add: remove_dir_all_def Let_def)
  have open1: "no_links (ew_disk e1)" "dk_refused (ew_disk e1) = dk_refused d3"
    using l3 unfolding e1 by (simp_all add: remove_dir_all_def Let_def)
  have comp: "node_at (ew_disk e1) (in_component inst) = Some (NFile bytes)"
      "node_at (ew_disk e1) (manifest_path (in_component inst)) = Some (NFile mtext)"
    using s(1,3) stays unfolding s(2) by (simp_all add: in_ext_def manifest_path_def)
  have "manifest_beside (it_toml it) (ew_disk e1) (in_component inst) = Inr (Some m)"
    using s(3,7) comp open1 unfolding manifest_beside_text [OF l3] manifest_beside_text [OF open1(1)] by auto
  with comp s show ?thesis by auto
qed

text \<open>C38 (registry_install_signed): When the model's install tool installs an extension by name, on a disk without symbolic
  links and with the download directory outside the extensions directory, there is an entry of that name in the index it read,
  what is in place has the digest that entry gives, it and its manifest are signed by one of the operator's trusted keys, it
  compiles, and its manifest is one this host serves and declares every host interface it imports; the extension is queued for
  adoption under its name. The rest of the entry is not compared with what is installed.\<close>

theorem registry_install_signed:
  assumes "run_install ne nt arguments e = ((content, False), nt1, e1)"
    and "ne_parse ne arguments = Inr call" "get_str ''name'' call = Some name"
    and "dk_follow (ew_disk e) = (\<lambda>p. p)"
    and "\<forall>dir. nt_ext_dir nt = Some dir \<longrightarrow> \<not> prefix (rm_temp (it_remote (ne_installer ne))) dir"
  shows "\<exists>dir source entries e0 entry stem bytes mtext c m.
    nt_ext_dir nt = Some dir \<and> nt_index_source nt = Some source \<and>
    load_index (ne_parse ne) (it_remote (ne_installer ne)) (ne_cwd ne) source e = (Inr entries, e0) \<and>
    entry \<in> set entries \<and> ie_name entry = name \<and> nt1 = nt\<lparr>nt_installed := nt_installed nt @ [stem]\<rparr> \<and>
    node_at (ew_disk e1) (in_ext dir stem) = Some (NFile bytes) \<and>
    node_at (ew_disk e1) (manifest_path (in_ext dir stem)) = Some (NFile mtext) \<and>
    to_lower (hex_bytes (cr_sha256 (it_crypto (ne_installer ne)) bytes)) = to_lower (ie_sha256 entry) \<and>
    vouched (it_crypto (ne_installer ne)) (nt_trusted_keys nt) bytes \<and>
    vouched (it_crypto (ne_installer ne)) (nt_trusted_keys nt) mtext \<and>
    it_compile (ne_installer ne) bytes = Inr c \<and>
    manifest_beside (it_toml (ne_installer ne)) (ew_disk e1) (in_ext dir stem) = Inr (Some m) \<and>
    api_compatible API_VERSION (mf_api_version m) \<and> set (host_capabilities c) \<subseteq> set (mf_capabilities m)"
proof -
  let ?it = "ne_installer ne"
  let ?ck = "\<lparr>ck_sha256 = None, ck_trusted_keys = nt_trusted_keys nt, ck_allow_unsigned = False\<rparr>"
  obtain dir where dir: "nt_ext_dir nt = Some dir"
    using assms(1) by (auto simp: run_install_def refused_def split: option.splits)
  have from_index: "install_from_index ne dir name call nt e = ((content, False), nt1, e1)"
    using assms(1-3) dir by (auto simp: run_install_def refused_def split: option.splits)
  then obtain source where source: "nt_index_source nt = Some source"
    by (auto simp: install_from_index_def refused_def split: if_splits option.splits)
  obtain r e0 where r: "load_index (ne_parse ne) (it_remote ?it) (ne_cwd ne) source e = (r, e0)" by (metis surj_pair)
  obtain entries where entries: "r = Inr entries"
    using from_index source r by (cases r) (auto simp: install_from_index_def refused_def split: if_splits)
  have d0: "ew_disk e0 = ew_disk e"
    using r by (auto simp: load_index_def split: if_splits sum.splits prod.splits)
  obtain q e2 where q: "install_listed ?it dir entries name source ?ck e0 = (q, e2)" by (metis surj_pair)
  obtain inst where inst: "q = Inr inst" "nt1 = nt\<lparr>nt_installed := nt_installed nt @ [in_name inst]\<rparr>" "e1 = e2"
    using from_index source r entries q
    by (cases q) (auto simp: install_from_index_def refused_def split: if_splits)
  obtain entry where entry: "find_entry entries name source = Inr entry"
    using q inst(1) by (auto simp: install_listed_def split: sum.splits)
  have found: "entry \<in> set entries" "ie_name entry = name"
    using entry by (auto simp: find_entry_def ok_or_def find_Some_iff split: option.splits)
  have "apfst (map_err IInstall) (install_from_url ?it dir (ie_url entry) (?ck\<lparr>ck_sha256 := Some (ie_sha256 entry)\<rparr>) e0) = (Inr inst, e1)"
    using q inst entry by (simp add: install_listed_def)
  then have url: "install_from_url ?it dir (ie_url entry) (?ck\<lparr>ck_sha256 := Some (ie_sha256 entry)\<rparr>) e0 = (Inr inst, e1)"
    by (cases "install_from_url ?it dir (ie_url entry) (?ck\<lparr>ck_sha256 := Some (ie_sha256 entry)\<rparr>) e0")
      (simp add: map_err_eq_Inr)
  have "no_links (ew_disk e0)" "\<not> prefix (rm_temp (it_remote ?it)) dir" using assms(4,5) d0 dir by simp_all
  note sound = fetched_sound [OF url this]
  obtain bytes mtext c m where s: "node_at (ew_disk e1) (in_component inst) = Some (NFile bytes)"
      "in_component inst = in_ext dir (in_name inst)"
      "node_at (ew_disk e1) (manifest_path (in_component inst)) = Some (NFile mtext)"
      "to_lower (hex_bytes (cr_sha256 (it_crypto ?it) bytes)) = to_lower (ie_sha256 entry)"
      "vouched (it_crypto ?it) (nt_trusted_keys nt) bytes \<and> vouched (it_crypto ?it) (nt_trusted_keys nt) mtext"
      "it_compile ?it bytes = Inr c" "manifest_beside (it_toml ?it) (ew_disk e1) (in_component inst) = Inr (Some m)"
      "api_compatible API_VERSION (mf_api_version m)" "set (host_capabilities c) \<subseteq> set (mf_capabilities m)"
    using sound by (elim exE conjE) (rule that, assumption+, simp_all)
  show ?thesis
    using dir source r entries found inst(2) s unfolding s(2)
    by (intro exI [of _ dir] exI [of _ source] exI [of _ entries] exI [of _ e0] exI [of _ entry] exI [of _ "in_name inst"]
      exI [of _ bytes] exI [of _ mtext] exI [of _ c] exI [of _ m]) simp
qed

definition named_env :: "(string, string, nat) native_env" where
  "named_env =
     \<lparr>ne_installer =
        \<lparr>it_crypto = toy_crypto, it_compile = fs_only, it_toml = fs_toml,
         it_remote = \<lparr>rm_parse_ip = (\<lambda>_. None), rm_lookup = (\<lambda>_ _. None), rm_url = (\<lambda>_. None),
           rm_http = (\<lambda>_ _ _ _ _ w. (Inl WireBackend, w)), rm_show = (\<lambda>_. []), rm_temp = [''tmp'']\<rparr>,
         it_restrict = (\<lambda>_ _. True), it_pid = 1\<rparr>,
      ne_parse = (\<lambda>a. if a = ''{}'' then Inr (JObj [(''name'', JStr ''tool-greet''), (''reason'', JStr ''r'')]) else Inl []),
      ne_render = (\<lambda>_. []), ne_lower = to_lower, ne_cwd = [], ne_show_ext = (\<lambda>_. []), ne_show_index = (\<lambda>_. ''unreadable'')\<rparr>"

theorem no_key_no_registry_install_witness:
  "\<exists>reason e1. run_install named_env (installing_into [''ext''] [] (Some ''index.json'')) ''{}''
      \<lparr>ew_disk = unlinked_disk, ew_next = 0, ew_outside = 0\<rparr> =
    ((''refused: '' @ reason, True), installing_into [''ext''] [] (Some ''index.json''), e1)"
proof -
  let ?nt = "installing_into [''ext''] [] (Some ''index.json'')"
    and ?e = "\<lparr>ew_disk = unlinked_disk, ew_next = 0, ew_outside = 0 :: nat\<rparr>"
  have parse: "ne_parse named_env ''{}'' = Inr (JObj [(''name'', JStr ''tool-greet''), (''reason'', JStr ''r'')])"
    by (simp add: named_env_def)
  obtain content failed nt1 e1 where run: "run_install named_env ?nt ''{}'' ?e = ((content, failed), nt1, e1)"
    by (metis surj_pair)
  have keys: "nt_trusted_keys ?nt = []" by (simp add: installing_into_def)
  have named: "get_str ''name'' (JObj [(''name'', JStr ''tool-greet''), (''reason'', JStr ''r'')]) = Some ''tool-greet''"
    by (simp add: json_simps)
  from no_key_no_registry_install [OF keys parse named run] run show ?thesis by auto
qed

text \<open>A registry of one component, downloaded from an address that resolves to a public one.\<close>

definition sixes :: string where "sixes = concat (replicate 32 ''61'')"

definition greet_url :: url_view where
  "greet_url = \<lparr>uv_has_query = False, uv_has_fragment = False, uv_segments = Some [''tool-greet.wasm''],
     uv_join = (\<lambda>f. Some (''https://r.example/'' @ f))\<rparr>"

definition served :: "string \<Rightarrow> string" where
  "served url =
     (if url = ''https://r.example/tool-greet.wasm'' then ''wasm''
      else if url = ''https://r.example/tool-greet.manifest.toml'' then ''toml'' else ''s'')"

definition listed_env :: "(string, string, nat) native_env" where
  "listed_env =
     \<lparr>ne_installer =
        \<lparr>it_crypto = toy_crypto\<lparr>cr_sha256 := (\<lambda>_. replicate 32 (CHR ''a''))\<rparr>, it_compile = fs_only, it_toml = fs_toml,
         it_remote = \<lparr>rm_parse_ip = (\<lambda>_. None), rm_lookup = (\<lambda>_ _. Some [(V4 0x08080808, 443)]),
           rm_url = (\<lambda>_. Some greet_url),
           rm_http = (\<lambda>_ url _ _ _ w. (Inr \<lparr>wr_status = 200, wr_headers = [], wr_body = served url\<rparr>, w)),
           rm_show = (\<lambda>_. []), rm_temp = [''tmp'']\<rparr>,
         it_restrict = (\<lambda>_ _. True), it_pid = 1\<rparr>,
      ne_parse = (\<lambda>a. if a = ''{}'' then Inr (JObj [(''name'', JStr ''tool-greet''), (''reason'', JStr ''r'')])
        else Inr (JObj [(''index-version'', JInt 1), (''extensions'', JArr [JObj [(''capabilities'', JArr []),
          (''name'', JStr ''tool-greet''), (''version'', JStr ''1''), (''api-version'', JStr ''0.4.0''),
          (''kind'', JStr ''tool''), (''url'', JStr ''https://r.example/tool-greet.wasm''), (''sha256'', JStr sixes)]])])),
      ne_render = (\<lambda>_. []), ne_lower = to_lower, ne_cwd = [], ne_show_ext = (\<lambda>_. []), ne_show_index = (\<lambda>_. ''unreadable'')\<rparr>"

definition listed_disk :: disk where
  "listed_disk = small_disk [([''ext''], NDir), ([''tmp''], NDir), ([''index.json''], NFile ''i'')]"

definition listed_run :: "(string \<times> bool) \<times> native_tools \<times> nat ext_world" where
  "listed_run = run_install listed_env (installing_into [''ext''] [''other'', ''k''] (Some ''index.json'')) ''{}''
     \<lparr>ew_disk = listed_disk, ew_next = 0, ew_outside = 0\<rparr>"

lemma listed_runs: "snd (fst listed_run) = False \<and> nt_installed (fst (snd listed_run)) = [''tool-greet'']"
  by code_simp

theorem registry_install_signed_witness:
  "\<exists>bytes. node_at (ew_disk (snd (snd listed_run))) (in_ext [''ext''] ''tool-greet'') = Some (NFile bytes) \<and>
     vouched (it_crypto (ne_installer listed_env)) [''other'', ''k''] bytes"
proof -
  let ?nt = "installing_into [''ext''] [''other'', ''k''] (Some ''index.json'')"
    and ?e = "\<lparr>ew_disk = listed_disk, ew_next = 0, ew_outside = 0 :: nat\<rparr>"
  obtain content failed nt1 e1 where run: "listed_run = ((content, failed), nt1, e1)" by (metis surj_pair)
  have nt1: "failed = False" "nt_installed nt1 = [''tool-greet'']" using listed_runs [unfolded run] by simp_all
  have run': "run_install listed_env ?nt ''{}'' ?e = ((content, False), nt1, e1)"
    using run nt1(1) by (simp add: listed_run_def)
  have parse: "ne_parse listed_env ''{}'' = Inr (JObj [(''name'', JStr ''tool-greet''), (''reason'', JStr ''r'')])"
    by (simp add: listed_env_def)
  have named: "get_str ''name'' (JObj [(''name'', JStr ''tool-greet''), (''reason'', JStr ''r'')]) = Some ''tool-greet''"
    by (simp add: json_simps)
  have links: "dk_follow (ew_disk ?e) = (\<lambda>p. p)" by (simp add: listed_disk_def small_disk_def)
  have apart: "\<forall>dir. nt_ext_dir ?nt = Some dir \<longrightarrow> \<not> prefix (rm_temp (it_remote (ne_installer listed_env))) dir"
    by (simp add: installing_into_def listed_env_def)
  have e1: "snd (snd listed_run) = e1" unfolding run by simp
  from registry_install_signed [OF run' parse named links apart] nt1(2) show ?thesis
    unfolding e1 by (auto simp: installing_into_def)
qed

end
