(* ===== verification/Runtime.thy ===== *)
theory Runtime
  imports Installer Registries InterceptorHost Selectors
begin

text \<open>
  What the runtime puts together for one agent (\<open>host/wasm/src/lib.rs\<close>): the workspace and its project instructions, the
  egress policy, providers in the order of their chain, tools, registries and the host's own tools as one fleet, and the
  interceptors with their sections. Instantiating a guest is a field of \<open>makers\<close>; the working directory and the
  home directory are parameters.
\<close>

section \<open>The workspace\<close>

definition adoptable_workspace :: "path \<Rightarrow> path option \<Rightarrow> bool" where
  "adoptable_workspace cwd home_dir \<longleftrightarrow> cwd \<noteq> [] \<and> home_dir \<noteq> Some cwd"

definition workspace_open :: "disk \<Rightarrow> path \<Rightarrow> path option" where
  "workspace_open d p = (if path_exists d p then Some (dk_follow d p) else None)"

record place =
  pl_cwd :: "path option"
  pl_home :: "path option"

definition open_workspace :: "disk \<Rightarrow> place \<Rightarrow> json \<Rightarrow> path option" where
  "open_workspace d pl agent =
     (case get_str ''workspace'' agent of
        Some r \<Rightarrow> workspace_open d (join_path (case pl_cwd pl of Some c \<Rightarrow> c | None \<Rightarrow> []) r)
      | None \<Rightarrow>
          (case pl_cwd pl of
             None \<Rightarrow> None
           | Some cwd \<Rightarrow> (if \<not> adoptable_workspace cwd (pl_home pl) then None else workspace_open d cwd)))"

definition INSTRUCTIONS_MAX :: nat where "INSTRUCTIONS_MAX = 16 * 1024"

definition truncation_note :: string where
  "truncation_note = nl @ nl @ ''[AGENTS.md truncated at '' @ show_nat INSTRUCTIONS_MAX @ '' bytes '' @ em_dash @
     '' it is sent with every turn, so keep it short]''"

definition project_instructions :: "disk \<Rightarrow> path option \<Rightarrow> string option" where
  "project_instructions d workspace =
     Option.bind workspace (\<lambda>root.
       case ws_read root ''AGENTS.md'' d of
         Inl _ \<Rightarrow> None
       | Inr t \<Rightarrow>
           (if length t \<le> INSTRUCTIONS_MAX then Some t
            else Some (take (safe_len t INSTRUCTIONS_MAX) t @ truncation_note)))"

section \<open>Destinations\<close>

definition runtime_egress :: "runtime \<Rightarrow> egress_policy" where
  "runtime_egress rt =
     (let named = concat (map (\<lambda>e. List.map_filter (\<lambda>key. get_str key (ei_config (le_instance e)))
            [''base-url'', ''endpoint'', ''url'']) (rt_extensions rt));
          allowed = (case Option.bind (jget ''network'' (rt_agent rt)) (jget ''allow'') of
              Some v \<Rightarrow> (case as_array v of Some xs \<Rightarrow> List.map_filter as_str xs | None \<Rightarrow> [])
            | None \<Rightarrow> [])
      in fold allowing (named @ allowed) public_only)"

section \<open>The chain of providers\<close>

fun chain_entries :: "string list \<Rightarrow> json list \<Rightarrow> nat list \<Rightarrow> nat list" where
  "chain_entries ids [] order = order"
| "chain_entries ids (entry # es) order =
     (case get_str ''provider'' entry of
        None \<Rightarrow> chain_entries ids es order
      | Some name \<Rightarrow>
          (case position_of (\<lambda>i. i = ''provider.'' @ name) ids of
             Some index \<Rightarrow> chain_entries ids es (if index \<in> set order then order else order @ [index])
           | None \<Rightarrow> chain_entries ids es order))"

definition order_chain :: "json option \<Rightarrow> string list \<Rightarrow> nat list" where
  "order_chain chain ids =
     (case Option.bind chain as_array of
        None \<Rightarrow> [0..<length ids]
      | Some entries \<Rightarrow>
          (let order = chain_entries ids entries []
           in order @ filter (\<lambda>i. i \<notin> set order) [0..<length ids]))"

text \<open>\<open>reorder\<close>: each slot is taken at most once.\<close>

fun take_slots :: "'a option list \<Rightarrow> nat list \<Rightarrow> 'a list" where
  "take_slots slots [] = []"
| "take_slots slots (i # is) =
     (if i < length slots then
        (case slots ! i of
           Some x \<Rightarrow> x # take_slots (slots[i := None]) is
         | None \<Rightarrow> take_slots slots is)
      else take_slots slots is)"

definition reorder :: "'a list \<Rightarrow> nat list \<Rightarrow> 'a list" where
  "reorder items order = take_slots (map Some items) order"

section \<open>One fleet of tools\<close>

text \<open>All guests live in the world the installer acts on.\<close>

record 'w combined_fleet =
  cb_tools :: "'w ext_world lazy_fleet"
  cb_registry :: "'w ext_world lazy_registries"
  cb_native :: native_tools

record ('k, 's, 'w) fleet_env =
  fe_show_tool :: show_error
  fe_registry :: registry_errors
  fe_native :: "('k, 's, 'w) native_env"

definition after_tools ::
  "('k, 's, 'w) fleet_env \<Rightarrow> tool_call \<Rightarrow> 'w combined_fleet \<times> 'w ext_world
     \<Rightarrow> tool_invocation option \<times> 'w combined_fleet \<times> 'w ext_world" where
  "after_tools fe call = (\<lambda>(cb, e).
     case lazy_registry_invoke (fe_registry fe) call (cb_registry cb, e) of
       (Some r, lr, e1) \<Rightarrow> (Some r, cb\<lparr>cb_registry := lr\<rparr>, e1)
     | (None, lr, e1) \<Rightarrow>
         (case native_invoke (fe_native fe) call (cb_native cb, e1) of
            (r, nt, e2) \<Rightarrow> (r, cb\<lparr>cb_registry := lr, cb_native := nt\<rparr>, e2)))"

definition combined_invoke ::
  "('k, 's, 'w) fleet_env \<Rightarrow> tool_call \<Rightarrow> 'w combined_fleet \<times> 'w ext_world
     \<Rightarrow> tool_invocation option \<times> 'w combined_fleet \<times> 'w ext_world" where
  "combined_invoke fe call = (\<lambda>(cb, e).
     case lazy_invoke (fe_show_tool fe) call (cb_tools cb, e) of
       (Some r, lf, e1) \<Rightarrow> (Some r, cb\<lparr>cb_tools := lf\<rparr>, e1)
     | (None, lf, e1) \<Rightarrow> after_tools fe call (cb\<lparr>cb_tools := lf\<rparr>, e1))"

definition combined_invoke_asking ::
  "('k, 's, 'w) fleet_env \<Rightarrow> 'w ext_world driver \<Rightarrow> tool_call \<Rightarrow> 'w combined_fleet \<times> 'w ext_world
     \<Rightarrow> tool_invocation option \<times> 'w combined_fleet \<times> 'w ext_world" where
  "combined_invoke_asking fe drv call = (\<lambda>(cb, e).
     case lazy_invoke_asking (fe_show_tool fe) drv call (cb_tools cb, e) of
       (Some r, lf, e1) \<Rightarrow> (Some r, cb\<lparr>cb_tools := lf\<rparr>, e1)
     | (None, lf, e1) \<Rightarrow> after_tools fe call (cb\<lparr>cb_tools := lf\<rparr>, e1))"

definition combined_bind_session :: "string \<Rightarrow> 'w combined_fleet \<times> 'w ext_world \<Rightarrow> 'w combined_fleet \<times> 'w ext_world" where
  "combined_bind_session session = (\<lambda>(cb, e).
     case lazy_bind_session session (cb_tools cb, e) of (lf, e1) \<Rightarrow> (cb\<lparr>cb_tools := lf\<rparr>, e1))"

definition combined_take_installed :: "'w combined_fleet \<Rightarrow> string list \<times> 'w combined_fleet" where
  "combined_take_installed cb = (case take_installed (cb_native cb) of (stems, nt) \<Rightarrow> (stems, cb\<lparr>cb_native := nt\<rparr>))"

definition advert :: "string \<Rightarrow> string \<Rightarrow> string \<Rightarrow> json" where
  "advert name description schema =
     JObj [(''description'', JStr description), (''name'', JStr name), (''parameters-schema'', JStr schema)]"

text \<open>The texts of the native tools are their descriptions and schemas.\<close>

definition native_adverts :: "(string \<Rightarrow> string \<times> string) \<Rightarrow> native_tools \<Rightarrow> json list" where
  "native_adverts texts nt = map (\<lambda>n. advert n (fst (texts n)) (snd (texts n))) (native_metas nt)"

definition all_metas_json ::
  "(string \<Rightarrow> string \<times> string) \<Rightarrow> 'w combined_fleet \<times> 'w ext_world
     \<Rightarrow> (string + json) \<times> 'w combined_fleet \<times> 'w ext_world" where
  "all_metas_json texts = (\<lambda>(cb, e).
     case lazy_metas (cb_tools cb, e) of
       (Inl err, lf, e1) \<Rightarrow> (Inl err, cb\<lparr>cb_tools := lf\<rparr>, e1)
     | (Inr ms, lf, e1) \<Rightarrow>
         (case lazy_registry_metas (cb_registry cb, e1) of
            (Inl err, lr, e2) \<Rightarrow> (Inl err, cb\<lparr>cb_tools := lf, cb_registry := lr\<rparr>, e2)
          | (Inr rs, lr, e2) \<Rightarrow>
              (Inr (JArr (map (\<lambda>m. advert (tm_name m) (tm_description m) (tm_schema m)) ms @
                 map (\<lambda>(n, d, s). advert n d s) rs @ native_adverts texts (cb_native cb))),
               cb\<lparr>cb_tools := lf, cb_registry := lr\<rparr>, e2)))"

definition native_tools_of :: "runtime \<Rightarrow> native_tools" where
  "native_tools_of rt =
     (let registry = jget ''registry'' (rt_agent rt)
      in if Option.bind registry (get_bool ''install-tool'') \<noteq> Some True then native_disabled
         else
           installing_into (rt_ext_dir rt)
             (case Option.bind registry (get_array ''trusted-keys'') of Some ks \<Rightarrow> List.map_filter as_str ks | None \<Rightarrow> [])
             (Option.bind registry (get_str ''url'')))"

section \<open>Instantiating\<close>

record 'e makers =
  mk_provider :: "extension_instance \<Rightarrow> wasm_component \<Rightarrow> 'e \<Rightarrow> (core_error + 'e completer) \<times> 'e"
  mk_tool :: "extension_instance \<Rightarrow> wasm_component \<Rightarrow> path option \<Rightarrow> process_runner \<Rightarrow> bool \<Rightarrow> bool \<Rightarrow> bool \<Rightarrow> 'e pending_tool"
  mk_skills :: "extension_instance \<Rightarrow> wasm_component \<Rightarrow> json \<Rightarrow> path option \<Rightarrow> 'e \<Rightarrow> (string + 'e skills_guest) \<times> 'e"
  mk_mcp :: "extension_instance \<Rightarrow> wasm_component \<Rightarrow> json \<Rightarrow> egress_policy \<Rightarrow> process_runner \<Rightarrow> 'e \<Rightarrow> (string + 'e mcp_guest) \<times> 'e"
  mk_interceptor :: "extension_instance \<Rightarrow> wasm_component \<Rightarrow> json \<Rightarrow> 'e provider_fn \<Rightarrow> bool \<Rightarrow> 'e \<Rightarrow> (core_error + 'e interceptor) \<times> 'e"

definition flag_of :: "string \<Rightarrow> extension_instance \<Rightarrow> bool" where
  "flag_of key i = (get_bool key (ei_config i) = Some True)"

record 'e assembled =
  as_providers :: "'e completer list"
  as_provider_ids :: "string list"
  as_tools :: "'e lazy_fleet"
  as_registry :: "'e lazy_registries"

text \<open>The loop over the loaded extensions; only a provider can fail it.\<close>

fun assemble ::
  "'e makers \<Rightarrow> path option \<Rightarrow> process_runner \<Rightarrow> egress_policy \<Rightarrow> loaded_extension list \<Rightarrow> 'e assembled \<Rightarrow> 'e
     \<Rightarrow> (core_error + 'e assembled) \<times> 'e" where
  "assemble mk ws process policy [] a e = (Inr a, e)"
| "assemble mk ws process policy (x # xs) a e =
     (let i = le_instance x
      in case le_state x of
           MissingAt _ \<Rightarrow> assemble mk ws process policy xs a e
         | Compiled c \<Rightarrow>
             (if ei_category i = ''provider'' then
                (case mk_provider mk i c e of
                   (Inl err, e1) \<Rightarrow> (Inl err, e1)
                 | (Inr p, e1) \<Rightarrow>
                     assemble mk ws process policy xs
                       (a\<lparr>as_providers := as_providers a @ [p], as_provider_ids := as_provider_ids a @ [ei_id i]\<rparr>) e1)
              else if ei_category i = ''tool'' then
                assemble mk ws process policy xs
                  (a\<lparr>as_tools := lazy_push
                     (mk_tool mk i c ws process (flag_of ''network'' i) (flag_of ''persist'' i)
                       (get_str ''scope'' (ei_config i) = Some ''session'')) (as_tools a)\<rparr>) e
              else if ei_category i = ''registry'' \<and> ei_kind i = ''skills'' then
                assemble mk ws process policy xs
                  (a\<lparr>as_registry := push_skills (mk_skills mk i c (ei_config i) ws) (as_registry a)\<rparr>) e
              else if ei_category i = ''registry'' \<and> ei_kind i = ''mcp'' then
                assemble mk ws process policy xs
                  (a\<lparr>as_registry := push_mcp (mk_mcp mk i c (ei_config i) policy process) (as_registry a)\<rparr>) e
              else assemble mk ws process policy xs a e))"

definition assembled_new :: "'e assembled" where
  "assembled_new = \<lparr>as_providers = [], as_provider_ids = [], as_tools = lazy_new, as_registry = lazy_registries_new\<rparr>"

definition instantiate_providers_and_tools ::
  "'e makers \<Rightarrow> runtime \<Rightarrow> path option \<Rightarrow> process_runner \<Rightarrow> 'e \<Rightarrow> (core_error + 'e assembled) \<times> 'e" where
  "instantiate_providers_and_tools mk rt ws process e =
     assemble mk ws process (runtime_egress rt) (rt_extensions rt) assembled_new e"

definition is_compiled :: "loaded_extension \<Rightarrow> bool" where
  "is_compiled x \<longleftrightarrow> (case le_state x of Compiled _ \<Rightarrow> True | MissingAt _ \<Rightarrow> False)"

definition open_classifier :: "'e makers \<Rightarrow> runtime \<Rightarrow> 'e \<Rightarrow> (core_error + 'e completer option) \<times> 'e" where
  "open_classifier mk rt e =
     (let named = get_str ''classifier'' (rt_agent rt)
      in case List.find (\<lambda>x. ei_category (le_instance x) = ''provider'' \<and> is_compiled x \<and>
            (case named of None \<Rightarrow> True | Some n \<Rightarrow> ei_id (le_instance x) = ''provider.'' @ n)) (rt_extensions rt) of
           None \<Rightarrow> (Inr None, e)
         | Some x \<Rightarrow>
             (case le_state x of
                MissingAt _ \<Rightarrow> (Inr None, e)
              | Compiled c \<Rightarrow> apfst (map_ok Some) (mk_provider mk (le_instance x) c e)))"

definition interceptor_section :: "json \<Rightarrow> json \<Rightarrow> string option \<Rightarrow> extension_instance \<Rightarrow> json" where
  "interceptor_section agent tools_advert project i =
     (case interceptor_config agent i of
        JObj fs \<Rightarrow>
          (let fs1 = entry_or ''tools'' tools_advert fs
           in JObj (case project of Some t \<Rightarrow> entry_or ''project-instructions'' (JStr t) fs1 | None \<Rightarrow> fs1))
      | v \<Rightarrow> v)"

fun instantiate_interceptors ::
  "'e makers \<Rightarrow> json \<Rightarrow> json \<Rightarrow> string option \<Rightarrow> 'e completer option \<Rightarrow> loaded_extension list \<Rightarrow> 'e
     \<Rightarrow> (core_error + 'e interceptor list) \<times> 'e" where
  "instantiate_interceptors mk agent tools_advert project classifier [] e = (Inr [], e)"
| "instantiate_interceptors mk agent tools_advert project classifier (x # xs) e =
     (let i = le_instance x
      in case le_state x of
           MissingAt _ \<Rightarrow> instantiate_interceptors mk agent tools_advert project classifier xs e
         | Compiled c \<Rightarrow>
             (if ei_category i \<noteq> ''interceptor'' then
                instantiate_interceptors mk agent tools_advert project classifier xs e
              else
                (case mk_interceptor mk i c (interceptor_section agent tools_advert project i) (classifier_fn classifier)
                    (flag_of ''persist'' i) e of
                   (Inl err, e1) \<Rightarrow> (Inl err, e1)
                 | (Inr icp, e1) \<Rightarrow>
                     apfst (map_ok (Cons icp))
                       (instantiate_interceptors mk agent tools_advert project classifier xs e1))))"

record 'w instantiated =
  is_interceptors :: "'w ext_world interceptor list"
  is_providers :: "'w ext_world completer list"
  is_tools :: "'w combined_fleet"

definition instantiate ::
  "'w ext_world makers \<Rightarrow> (string \<Rightarrow> string \<times> string) \<Rightarrow> (json \<Rightarrow> path option \<Rightarrow> process_runner) \<Rightarrow> place \<Rightarrow> runtime
     \<Rightarrow> 'w ext_world \<Rightarrow> (core_error + 'w instantiated) \<times> 'w ext_world" where
  "instantiate mk texts runner pl rt e =
     (let ws = open_workspace (ew_disk e) pl (rt_agent rt);
          project = project_instructions (ew_disk e) ws;
          process = runner (rt_agent rt) ws
      in case instantiate_providers_and_tools mk rt ws process e of
           (Inl err, e1) \<Rightarrow> (Inl err, e1)
         | (Inr a, e1) \<Rightarrow>
             (let cb = \<lparr>cb_tools = as_tools a, cb_registry = as_registry a, cb_native = native_tools_of rt\<rparr>;
                  any = list_ex (\<lambda>x. ei_category (le_instance x) = ''interceptor'' \<and> is_compiled x) (rt_extensions rt)
              in case (if any then all_metas_json texts (cb, e1) else (Inr (JArr []), cb, e1)) of
                   (Inl err, _, e2) \<Rightarrow> (Inl (CoreInstantiate err), e2)
                 | (Inr tools_advert, cb1, e2) \<Rightarrow>
                     (case open_classifier mk rt e2 of
                        (Inl err, e3) \<Rightarrow> (Inl err, e3)
                      | (Inr classifier, e3) \<Rightarrow>
                          (case instantiate_interceptors mk (rt_agent rt) tools_advert project classifier
                              (rt_extensions rt) e3 of
                             (Inl err, e4) \<Rightarrow> (Inl err, e4)
                           | (Inr icps, e4) \<Rightarrow>
                               (Inr \<lparr>is_interceptors = icps,
                                  is_providers =
                                    reorder (as_providers a)
                                      (order_chain (jget ''providers'' (rt_agent rt)) (as_provider_ids a)),
                                  is_tools = cb1\<rparr>, e4)))))"

section \<open>The report\<close>

definition pad_to :: "nat \<Rightarrow> string \<Rightarrow> string" where
  "pad_to n s = s @ replicate (n - length (utf8_chars s)) (CHR '' '')"

definition report_line :: "loaded_extension \<Rightarrow> string" where
  "report_line x =
     (let i = le_instance x; name = pad_to 22 (ei_id i); f = component_file i
      in case le_state x of
           Compiled _ \<Rightarrow>
             ''  loaded   '' @ name @ '' -> '' @ f @
               (if is_lazy_category (ei_category i) then ''  (lazy: instantiated on first use, not at boot)'' else []) @ nl
         | MissingAt p \<Rightarrow> ''  missing  '' @ name @ '' -> '' @ f @ '' ('' @ path_text p @ '' not found)'' @ nl)"

definition boot_report :: "runtime \<Rightarrow> nat \<times> nat \<Rightarrow> path \<Rightarrow> string" where
  "boot_report rt stats cache_dir =
     (let exts = rt_extensions rt; compiled = length (filter is_compiled exts)
      in ''jan-klod core '' @ em_dash @ '' '' @ show_nat (length exts) @ '' enabled extension(s)'' @ nl @
         concat (map report_line exts) @
         show_nat compiled @ '' loaded, '' @ show_nat (length exts - compiled) @ '' missing'' @ nl @
         ''wasmtime compile cache: '' @ show_nat (fst stats) @ '' hit(s), '' @ show_nat (snd stats) @ '' miss(es) (dir: '' @
         path_text cache_dir @ '')'')"

section \<open>Facts\<close>

lemma position_of_less: "position_of p xs = Some i \<Longrightarrow> i < length xs"
  by (induction xs arbitrary: i) (auto split: if_splits)

lemma chain_entries_sound:
  "distinct order \<Longrightarrow> \<forall>i\<in>set order. i < length ids \<Longrightarrow>
    distinct (chain_entries ids es order) \<and> (\<forall>i\<in>set (chain_entries ids es order). i < length ids)"
proof (induction es arbitrary: order)
  case (Cons entry es)
  consider (unnamed) "get_str ''provider'' entry = None"
    | (unknown) name where "get_str ''provider'' entry = Some name"
        "position_of (\<lambda>i. i = ''provider.'' @ name) ids = None"
    | (known) name i where "get_str ''provider'' entry = Some name"
        "position_of (\<lambda>i. i = ''provider.'' @ name) ids = Some i"
    by (metis option.exhaust)
  then show ?case
  proof cases
    case unnamed
    have "chain_entries ids (entry # es) order = chain_entries ids es order"
      by (simp only: chain_entries.simps unnamed option.case)
    with Cons.IH [OF Cons.prems] show ?thesis by (elim ssubst)
  next
    case unknown
    have "chain_entries ids (entry # es) order = chain_entries ids es order"
      by (simp only: chain_entries.simps unknown option.case)
    with Cons.IH [OF Cons.prems] show ?thesis by (elim ssubst)
  next
    case known
    define order' where "order' = (if i \<in> set order then order else order @ [i])"
    have "i < length ids" using known(2) by (rule position_of_less)
    with Cons.prems have "distinct order'" "\<forall>i\<in>set order'. i < length ids"
      unfolding order'_def by simp_all
    moreover have "chain_entries ids (entry # es) order = chain_entries ids es order'"
      by (simp only: chain_entries.simps known option.case order'_def)
    ultimately show ?thesis by (elim ssubst) (rule Cons.IH)
  qed
qed simp

lemma order_chain_permutes: "distinct (order_chain chain ids) \<and> set (order_chain chain ids) = {..<length ids}"
proof (cases "Option.bind chain as_array")
  case None
  then show ?thesis by (auto simp: order_chain_def)
next
  case (Some es)
  have "distinct (chain_entries ids es []) \<and> (\<forall>i\<in>set (chain_entries ids es []). i < length ids)"
    by (rule chain_entries_sound) simp_all
  with Some show ?thesis by (auto simp: order_chain_def Let_def)
qed

lemma take_slots_nth:
  assumes "distinct order" "\<forall>i\<in>set order. i < length slots \<and> slots ! i = Some (items ! i)"
  shows "take_slots slots order = map ((!) items) order"
  using assms
proof (induction order arbitrary: slots)
  case (Cons i order)
  have "take_slots (slots[i := None]) order = map ((!) items) order"
    using Cons.prems by (intro Cons.IH) (auto simp: nth_list_update)
  then show ?case using Cons.prems by simp
qed simp

lemma reorder_nth:
  assumes "distinct order" "set order \<subseteq> {..<length items}"
  shows "reorder items order = map ((!) items) order"
  using assms unfolding reorder_def by (intro take_slots_nth) auto

lemma reorder_mset:
  assumes "distinct order" "set order = {..<length items}"
  shows "mset (reorder items order) = mset items"
proof -
  have "mset order = mset [0..<length items]"
    using assms set_eq_iff_mset_eq_distinct [of order "[0..<length items]"] by (simp add: atLeast0LessThan)
  then have "image_mset ((!) items) (mset order) = image_mset ((!) items) (mset [0..<length items])"
    by (rule arg_cong)
  then have "mset (map ((!) items) order) = mset (map ((!) items) [0..<length items])"
    by (simp only: mset_map)
  moreover have "reorder items order = map ((!) items) order"
    using assms by (intro reorder_nth) simp_all
  ultimately show ?thesis by (simp only: map_nth)
qed

text \<open>What the loop over the extensions makes of the providers.\<close>

definition is_provider :: "loaded_extension \<Rightarrow> bool" where
  "is_provider x \<longleftrightarrow> ei_category (le_instance x) = ''provider'' \<and> is_compiled x"

lemma assemble_missing:
  "le_state x = MissingAt p \<Longrightarrow> assemble mk ws process policy (x # xs) a e = assemble mk ws process policy xs a e"
  by (simp only: assemble.simps Let_def load_state.case)

lemma assemble_provider:
  "le_state x = Compiled c \<Longrightarrow> ei_category (le_instance x) = ''provider'' \<Longrightarrow>
   assemble mk ws process policy (x # xs) a e =
     (case mk_provider mk (le_instance x) c e of
        (Inl err, e1) \<Rightarrow> (Inl err, e1)
      | (Inr p, e1) \<Rightarrow>
          assemble mk ws process policy xs
            (a\<lparr>as_providers := as_providers a @ [p],
               as_provider_ids := as_provider_ids a @ [ei_id (le_instance x)]\<rparr>) e1)"
  by (simp only: assemble.simps Let_def load_state.case simp_thms if_True)

lemma assemble_other:
  assumes "le_state x = Compiled c" "ei_category (le_instance x) \<noteq> ''provider''"
  shows "\<exists>tools registry. assemble mk ws process policy (x # xs) a e =
    assemble mk ws process policy xs (a\<lparr>as_tools := tools, as_registry := registry\<rparr>) e"
proof -
  have tools: "\<exists>t r. F (a\<lparr>as_tools := f\<rparr>) = F (a\<lparr>as_tools := t, as_registry := r\<rparr>)" for F :: "'a assembled \<Rightarrow> 'b" and f
    by (intro exI [of _ f] exI [of _ "as_registry a"]) simp
  have registry: "\<exists>t r. F (a\<lparr>as_registry := f\<rparr>) = F (a\<lparr>as_tools := t, as_registry := r\<rparr>)"
    for F :: "'a assembled \<Rightarrow> 'b" and f
    by (intro exI [of _ "as_tools a"] exI [of _ f]) simp
  have same: "\<exists>t r. F a = F (a\<lparr>as_tools := t, as_registry := r\<rparr>)" for F :: "'a assembled \<Rightarrow> 'b"
    by (intro exI [of _ "as_tools a"] exI [of _ "as_registry a"]) simp
  define F where "F = (\<lambda>b. assemble mk ws process policy xs b e)"
  have F: "assemble mk ws process policy xs b e = F b" for b by (simp only: F_def)
  show ?thesis
    unfolding assemble.simps Let_def assms(1) load_state.case if_not_P [OF assms(2)] F
    by (intro if_split [where P = "\<lambda>v. \<exists>t r. v = F (a\<lparr>as_tools := t, as_registry := r\<rparr>)", THEN iffD2] conjI impI tools registry same)
qed

lemma assemble_providers:
  "assemble mk ws process policy xs a e = (Inr b, e') \<Longrightarrow>
   length (as_providers a) = length (as_provider_ids a) \<Longrightarrow>
   as_provider_ids b = as_provider_ids a @ map (\<lambda>x. ei_id (le_instance x)) (filter is_provider xs) \<and>
     length (as_providers b) = length (as_provider_ids b)"
proof (induction xs arbitrary: a e)
  case (Cons x xs)
  show ?case
  proof (cases "le_state x")
    case (MissingAt p)
    then have "\<not> is_provider x" by (simp only: is_provider_def is_compiled_def load_state.case) simp
    with Cons MissingAt show ?thesis by (simp only: assemble_missing filter.simps if_False)
  next
    case (Compiled c)
    show ?thesis
    proof (cases "ei_category (le_instance x) = ''provider''")
      case True
      with Compiled have prov: "is_provider x" by (simp only: is_provider_def is_compiled_def load_state.case)
      from Cons.prems(1) obtain p e1
        where mk: "mk_provider mk (le_instance x) c e = (Inr p, e1)"
          and rest: "assemble mk ws process policy xs
            (a\<lparr>as_providers := as_providers a @ [p],
               as_provider_ids := as_provider_ids a @ [ei_id (le_instance x)]\<rparr>) e1 = (Inr b, e')"
        unfolding assemble_provider [OF Compiled True] by (auto split: prod.splits sum.splits)
      show ?thesis using Cons.IH [OF rest] Cons.prems(2) prov by simp
    next
      case False
      then have "\<not> is_provider x" by (simp only: is_provider_def) simp
      moreover obtain tools registry
        where "assemble mk ws process policy (x # xs) a e =
          assemble mk ws process policy xs (a\<lparr>as_tools := tools, as_registry := registry\<rparr>) e"
        using assemble_other [OF Compiled False, of mk ws process policy xs a e] by blast
      ultimately show ?thesis
        using Cons.IH [of "a\<lparr>as_tools := tools, as_registry := registry\<rparr>" e] Cons.prems by simp
    qed
  qed
qed simp

lemma map_of_entry_or: "k \<noteq> key \<Longrightarrow> map_of (entry_or key v fs) k = map_of fs k"
proof -
  assume ne: "k \<noteq> key"
  have "map_of (insort_key fst (key, v) fs) k = map_of fs k"
    using ne by (induction fs) auto
  then show ?thesis by (simp add: entry_or_def split: option.split)
qed

lemma interceptor_section_own_key:
  assumes "k \<notin> {''routing'', ''providers'', ''tools'', ''project-instructions''}"
  shows "jget k (interceptor_section agent tools_advert project i) = jget k (ei_config i)"
proof (cases "ei_config i")
  case (JObj fs)
  have "\<exists>gs. interceptor_config agent i = JObj gs \<and> map_of gs k = map_of fs k"
  proof (cases agent)
    case (JObj keys)
    with \<open>ei_config i = JObj fs\<close> assms show ?thesis
      by (simp add: interceptor_config_def map_of_entry_or split: option.split)
  qed (use JObj in \<open>simp_all add: interceptor_config_def\<close>)
  then obtain gs where "interceptor_config agent i = JObj gs" "map_of gs k = map_of fs k" by blast
  with JObj assms show ?thesis
    by (simp add: interceptor_section_def Let_def map_of_entry_or split: option.split)
qed (simp_all add: interceptor_section_def interceptor_config_def)

text \<open>C0 (interceptor configuration): what the persona interceptor is given is its own section with the shared keys added,
  so unless that section itself holds an \<open>extensions\<close> key, \<open>init\<close> finds no persona however it is configured.\<close>

theorem persona_never_active:
  assumes "jget ''extensions'' (ei_config i) = None"
    and "parse (render (interceptor_section agent tools_advert project i)) =
      Inr (interceptor_section agent tools_advert project i)"
    and "parse ''{}'' = Inr (JObj [])"
  shows "persona_init parse render (Some (render (interceptor_section agent tools_advert project i))) = None"
proof -
  have "jget ''extensions'' (interceptor_section agent tools_advert project i) = None"
    using interceptor_section_own_key [of "''extensions''"] assms(1) by simp
  then show ?thesis
    using assms(2,3) by (simp add: persona_init_def persona_section_def persona_from_config_def get_bool_def)
qed

definition persona_instance :: extension_instance where
  "persona_instance =
     \<lparr>ei_id = ''interceptor.persona'', ei_category = ''interceptor'', ei_name = ''persona'', ei_kind = ''persona'',
      ei_component = ''interceptor-persona'', ei_enabled = True, ei_config = JObj [(''default'', JStr ''pirate''), (''enabled'', JBool True),
        (''personalities'', JObj [(''pirate'', JStr ''Arr.'')])]\<rparr>"

lemma persona_never_active_witness:
  "let sec = interceptor_section JNull (JArr []) None persona_instance;
       parse = (\<lambda>s. if s = ''s'' then Inr sec else Inr (JObj []));
       render = (\<lambda>v. ''s'')
   in persona_init parse render (Some (render sec)) = None"
  unfolding Let_def
  by (rule persona_never_active) (simp_all add: persona_instance_def)

text \<open>C39 (provider_chain_complete): C0 (provider chain): whatever chain \<open>config.yaml\<close> lists (names twice, unknown, or not at all), the order is a
  permutation and no enabled provider is lost or doubled.\<close>

theorem provider_chain_complete:
  "distinct (order_chain chain ids) \<and> set (order_chain chain ids) = {..<length ids} \<and>
   (length ps = length ids \<longrightarrow>
     reorder ps (order_chain chain ids) = map ((!) ps) (order_chain chain ids) \<and>
     mset (reorder ps (order_chain chain ids)) = mset ps)"
  using order_chain_permutes [of chain ids] reorder_mset [of "order_chain chain ids" ps]
    reorder_nth [of "order_chain chain ids" ps] by simp

lemma provider_chain_complete_witness:
  "reorder ''xyz'' (order_chain (Some (JArr [JObj [(''provider'', JStr ''c'')], JObj [(''provider'', JStr ''q'')]]))
     [''provider.a'', ''provider.b'', ''provider.c'']) = ''zxy'' \<and>
   mset (reorder ''xyz'' (order_chain (Some (JArr [JObj [(''provider'', JStr ''c'')], JObj [(''provider'', JStr ''q'')]]))
     [''provider.a'', ''provider.b'', ''provider.c''])) = mset ''xyz''"
proof -
  let ?chain = "Some (JArr [JObj [(''provider'', JStr ''c'')], JObj [(''provider'', JStr ''q'')]])"
  let ?ids = "[''provider.a'', ''provider.b'', ''provider.c'']"
  have order: "order_chain ?chain ?ids = [2, 0, 1]" by code_simp
  have both: "reorder ''xyz'' (order_chain ?chain ?ids) = map ((!) ''xyz'') (order_chain ?chain ?ids) \<and>
      mset (reorder ''xyz'' (order_chain ?chain ?ids)) = mset ''xyz''"
    by (rule provider_chain_complete [THEN conjunct2, THEN conjunct2, rule_format]) simp
  have run: "map ((!) ''xyz'') (order_chain ?chain ?ids) = ''zxy''"
    unfolding order by simp
  show ?thesis by (rule conjI [OF trans [OF both [THEN conjunct1] run] both [THEN conjunct2]])
qed

text \<open>without \<open>workspace:\<close> in the configuration the jail is never the home directory and never the
  root of the disk (where a disk follows no links).\<close>

theorem default_workspace_narrow:
  assumes "open_workspace d pl agent = Some root" "get_str ''workspace'' agent = None"
    and "\<And>p. dk_follow d p = p"
  shows "root \<noteq> [] \<and> pl_home pl \<noteq> Some root \<and> pl_cwd pl = Some root"
  using assms
  by (auto simp: open_workspace_def adoptable_workspace_def workspace_open_def split: option.splits if_splits)

lemma project_instructions_bounded:
  "project_instructions d ws = Some t \<Longrightarrow> length t \<le> INSTRUCTIONS_MAX + length truncation_note"
proof -
  have "safe_len s n \<le> n" for s n
    by (induction n) (auto simp: le_Suc_eq)
  then have "length (take (safe_len s n) s) \<le> n" for s n
    by (simp add: min_def) (meson le_trans)
  then show "project_instructions d ws = Some t \<Longrightarrow> ?thesis"
    by (auto simp: project_instructions_def split: option.splits bind_splits sum.splits if_splits)
qed

lemma default_workspace_narrow_witness:
  "open_workspace \<lparr>dk_nodes = [([''srv''], Dir)], dk_refused = (\<lambda>_. False), dk_follow = (\<lambda>p. p)\<rparr>
     \<lparr>pl_cwd = Some [''srv''], pl_home = Some [''root'']\<rparr> (JObj []) = Some [''srv'']"
  "[''srv''] \<noteq> [] \<and> pl_home \<lparr>pl_cwd = Some [''srv''], pl_home = Some [''root'']\<rparr> \<noteq> Some [''srv''] \<and>
     pl_cwd \<lparr>pl_cwd = Some [''srv''], pl_home = Some [''root'']\<rparr> = Some [''srv'']"
proof -
  show run: "open_workspace \<lparr>dk_nodes = [([''srv''], Dir)], dk_refused = (\<lambda>_. False), dk_follow = (\<lambda>p. p)\<rparr>
     \<lparr>pl_cwd = Some [''srv''], pl_home = Some [''root'']\<rparr> (JObj []) = Some [''srv'']"
    by (simp add: open_workspace_def adoptable_workspace_def workspace_open_def path_exists_def json_simps)
  show "[''srv''] \<noteq> [] \<and> pl_home \<lparr>pl_cwd = Some [''srv''], pl_home = Some [''root'']\<rparr> \<noteq> Some [''srv''] \<and>
     pl_cwd \<lparr>pl_cwd = Some [''srv''], pl_home = Some [''root'']\<rparr> = Some [''srv'']"
    by (rule default_workspace_narrow [OF run]) (simp_all add: json_simps)
qed

text \<open>An extension of another category, and a registry that is neither \<open>skills\<close> nor \<open>mcp\<close>.\<close>

definition unused_extension :: "loaded_extension \<Rightarrow> bool" where
  "unused_extension x \<longleftrightarrow>
     (let i = le_instance x
      in ei_category i \<noteq> ''provider'' \<and> ei_category i \<noteq> ''tool'' \<and>
         (ei_category i \<noteq> ''registry'' \<or> ei_kind i \<notin> {''skills'', ''mcp''}))"

lemma assemble_unused: "unused_extension x \<Longrightarrow> assemble mk ws process policy (x # xs) a e = assemble mk ws process policy xs a e"
proof (cases "le_state x")
  case (Compiled c)
  assume un: "unused_extension x"
  let ?i = "le_instance x"
  from un have no: "ei_category ?i \<noteq> ''provider''" "ei_category ?i \<noteq> ''tool''"
    "\<not> (ei_category ?i = ''registry'' \<and> ei_kind ?i = ''skills'')"
    "\<not> (ei_category ?i = ''registry'' \<and> ei_kind ?i = ''mcp'')"
    unfolding unused_extension_def Let_def by blast+
  show ?thesis
    unfolding assemble.simps Let_def Compiled load_state.case
      if_not_P [OF no(1)] if_not_P [OF no(2)] if_not_P [OF no(3)] if_not_P [OF no(4)] by (rule refl)
qed (rule assemble_missing)

text \<open>C0 (other registries): a registry of a kind other than \<open>skills\<close> and \<open>mcp\<close> is installed, adopted and loaded
  without a word, and the assembled fleet is what it would be without it: none of its tools can ever be called.\<close>

theorem other_registry_ignored:
  "assemble mk ws process policy (filter (\<lambda>x. \<not> unused_extension x) xs) a e = assemble mk ws process policy xs a e"
proof (induction xs arbitrary: a e)
  case (Cons x xs)
  show ?case
  proof (cases "unused_extension x")
    case True
    then show ?thesis
      by (simp only: assemble_unused filter.simps simp_thms if_False Cons.IH)
  next
    case False
    then show ?thesis
      by (simp only: filter.simps simp_thms if_True assemble.simps Cons.IH)
  qed
qed simp

text \<open>an agent that starts has one completer for every compiled provider extension, and the chain
  only orders them.\<close>

theorem instantiated_providers:
  assumes "instantiate mk texts runner pl rt e = (Inr r, e')"
  shows "length (is_providers r) = length (filter is_provider (rt_extensions rt))"
proof -
  from assms obtain a e1
    where a: "instantiate_providers_and_tools mk rt (open_workspace (ew_disk e) pl (rt_agent rt))
        (runner (rt_agent rt) (open_workspace (ew_disk e) pl (rt_agent rt))) e = (Inr a, e1)"
      and r: "is_providers r = reorder (as_providers a) (order_chain (jget ''providers'' (rt_agent rt)) (as_provider_ids a))"
    by (auto simp: instantiate_def Let_def split: prod.splits sum.splits)
  from assemble_providers [OF a [unfolded instantiate_providers_and_tools_def]]
  have ids: "length (as_provider_ids a) = length (filter is_provider (rt_extensions rt))"
    and ps: "length (as_providers a) = length (as_provider_ids a)"
    by (simp_all add: assembled_new_def)
  have "mset (is_providers r) = mset (as_providers a)"
    using order_chain_permutes [of "jget ''providers'' (rt_agent rt)" "as_provider_ids a"] ps
    unfolding r by (intro reorder_mset) auto
  then show ?thesis using ids ps by (metis size_mset)
qed

end
