(* ===== verification/Spec2Isabelle.thy ===== *)
theory Spec2Isabelle
  imports Turn_Properties Store_Properties PermissionGate Edit Egress GuestFs Plan Guardrails Agent Threads Client_Properties
    Memory FileTools ProcessTools FetchTools HttpClient HostCaps ProviderRoute Selectors_Properties Routers
    Config Processes ToolHost InterceptorHost Boot Registries Installer Runtime
begin

text \<open>
  jan-klod is an agent host: a core loop that decides nothing (\<open>host/agent\<close>), WebAssembly extensions that decide
  everything (\<open>extensions/*\<close>), a host that gives them capabilities (\<open>host/wasm\<close>), a log of what happened
  (\<open>host/session\<close>), and clients (\<open>clients/tui\<close>). All paths are under \<open>src/pkgs/\<close>. A turn enters at the agent, which replays the
  session's log, runs the conductor and writes what happened back to the log; the conductor asks the interceptors at each
  phase through the dispatcher, completes through the providers and invokes tools through the fleet; tools and
  interceptors reach files, processes, the network, storage and secrets only through the host.

  The turn. \<open>Turn\<close> holds the data and the interfaces (\<open>protocol/src/turn.rs\<close>, \<open>intercept.rs\<close>), \<open>Dispatch\<close> the dispatcher with its
  question loop, \<open>Conductor\<close> the loop of \<open>agent/src/conductor.rs\<close> with \<open>Conductor_Facts\<close> and \<open>Turn_Invariant\<close> for its
  invariants and \<open>Turn_Properties\<close> for what a turn guarantees (gating, termination, bounds, answered calls). \<open>Agent\<close>
  (\<open>agent/src/lib.rs\<close>, \<open>session.rs\<close>, \<open>delegate.rs\<close>) puts the turn on the log. \<open>Threads\<close> (\<open>host/src/pending.rs\<close>,
  \<open>session_thread.rs\<close>) is the step relation of parked questions and queued jobs.

  The log. \<open>Store\<close>, \<open>EventLog\<close> and \<open>Projection\<close> (\<open>host/session/src\<close>) are the tables and their operations, the encoding of events
  and the transcript; \<open>Store_Facts\<close> and \<open>Store_Properties\<close> show the hash chain, tampering, migration, replay and the round
  trip of the encoding. \<open>GuestStorage\<close> is what a guest sees of it.

  Deciding. \<open>Permission\<close> and \<open>PermissionGate\<close> (\<open>interceptor-permission\<close>), \<open>Guardrails\<close>, \<open>Selectors\<close> with
  \<open>Selectors_Properties\<close> (system prompt, context, tool selection, persona) and \<open>Routers\<close> (intent and task).

  Tools. \<open>Edit\<close>, \<open>Plan\<close>, \<open>Memory\<close>, \<open>GuestFs\<close> with \<open>FileTools\<close>, \<open>ProcessTools\<close>, \<open>FetchTools\<close>, each over the host's interfaces of
  \<open>HostApi\<close>.

  The host. \<open>Egress\<close> and \<open>HttpClient\<close> (destinations, redirects), \<open>HostCaps\<close> (\<open>host.rs\<close>), \<open>HostFs\<close> (the path jail over a
  model of the disk), \<open>Processes\<close> (sandbox policy, runner, children), \<open>Provider\<close> and \<open>ProviderRoute\<close>, \<open>ToolHost\<close> and
  \<open>InterceptorHost\<close> (what a guest is given, the boundary types and the fleets), \<open>Registries\<close> (skills and MCP servers and the
  host's fleet of them), \<open>Installer\<close> (\<open>ext.rs\<close>, \<open>ext_index.rs\<close>, \<open>native_tools.rs\<close>), \<open>Config\<close> (\<open>config.yaml\<close>), \<open>Boot\<close>
  (manifests, boot, adoption) and \<open>Runtime\<close> (\<open>lib.rs\<close>: what one agent is assembled from).

  The client. \<open>Composer\<close>, \<open>App\<close>, \<open>View\<close>, \<open>Client\<close> (\<open>clients/tui/src\<close>): the text under edit, the state, what is shown where, and
  the event loop; \<open>Client_Properties\<close> shows that it never panics, shows what was streamed and answers only open questions.

  How the code appears. A component that the code reaches through a trait is a record of functions over the state \<open>'w\<close> of the
  world; what it promises is a locale, interpreted on the model's own definitions in the theory that provides it. Errors are
  sums, a panic or a call that does not return is \<open>None\<close>. Strings are their UTF-8 bytes. Integers that wrap are words; a
  \<open>usize\<close> that counts what is in memory is \<open>nat\<close>. Loops that the code does not bound are \<open>partial_function\<close> or have a
  termination proof; fuel appears where the code itself counts (the rounds of questions, iterations, attempts), with
  its own constants. JSON, YAML and TOML parsers, SHA-256 and signatures, regular expressions, Unicode tables, the clock, name
  resolution, the HTTP exchange, the operating system and wasmtime are not in the repository: they are arguments of the
  definitions, with what is used of them as hypotheses where a theorem needs any.

  Not modelled: the servers around a
  session and their wire formats (serialisation by derive), the command line and its set-up, the sandbox profiles handed to the
  operating system, the drawing of the client (styled spans for a terminal), and the probe extensions, examples and tests. Of
  the modelled files, tracing, the text of warnings written to the terminal and the wiring of wasmtime's linkers are left out.
\<close>

end
